(* ===== verification/Miner_Prelude.thy ===== *)
theory Miner_Prelude
  imports Main "HOL-Library.Word" "HOL-Library.Monad_Syntax" "HOL-Library.Signed_Division"
begin

text \<open>
  Shared vocabulary of the development: the machine integers of the C++ sources, C memory
  as lists with checked accesses (an access outside the object is undefined behaviour and is
  the value \<open>None\<close>), byte-level views of words (little endian, as on the supported target),
  and the lemmas on lists and words that the component theories share.
\<close>

unbundle bit_operations_syntax

section \<open>Machine integers\<close>

type_synonym u8 = "8 word"
type_synonym u16 = "16 word"
type_synonym u32 = "32 word"
type_synonym u64 = "64 word"
type_synonym u128 = "128 word"

type_synonym bytes = "u8 list"

section \<open>Fact collections\<close>

named_theorems mem_simps \<open>evaluation of checked memory accesses\<close>
named_theorems ens \<open>rules of \<open>ensures\<close>, the partial correctness of steps that may fail\<close>
named_theorems rets \<open>rules of \<open>returns\<close>, the total correctness of steps that may fail\<close>
named_theorems len_simps \<open>lengths of buffers\<close>

section \<open>Checked memory accesses\<close>

definition rd :: "'a list \<Rightarrow> nat \<Rightarrow> 'a option" where
  "rd xs i = (if i < length xs then Some (xs ! i) else None)"

definition wr :: "'a list \<Rightarrow> nat \<Rightarrow> 'a \<Rightarrow> 'a list option" where
  "wr xs i v = (if i < length xs then Some (xs[i := v]) else None)"

text \<open>Pointer arithmetic below the base of the object is possible in C: a signed index.\<close>

definition rd_int :: "'a list \<Rightarrow> int \<Rightarrow> 'a option" where
  "rd_int xs i = (if 0 \<le> i then rd xs (nat i) else None)"

text \<open>A block read (\<open>memcpy\<close> from an object) and a block write into one.\<close>

definition rdn :: "'a list \<Rightarrow> nat \<Rightarrow> nat \<Rightarrow> 'a list option" where
  "rdn xs off n = (if off + n \<le> length xs then Some (take n (drop off xs)) else None)"

text \<open>\<open>splice dst off src\<close> is \<open>dst\<close> with \<open>src\<close> written over it from \<open>off\<close>.\<close>

definition splice :: "'a list \<Rightarrow> nat \<Rightarrow> 'a list \<Rightarrow> 'a list" where
  "splice dst off src = take off dst @ src @ drop (off + length src) dst"

definition wrn :: "'a list \<Rightarrow> nat \<Rightarrow> 'a list \<Rightarrow> 'a list option" where
  "wrn dst off src = (if off + length src \<le> length dst then Some (splice dst off src) else None)"

lemma rdn_Some [mem_simps]: "off + n \<le> length xs \<Longrightarrow> rdn xs off n = Some (take n (drop off xs))"
  by (simp add: rdn_def)

lemma wrn_Some [mem_simps]:
  "off + length src \<le> length dst \<Longrightarrow> wrn dst off src = Some (splice dst off src)"
  by (simp add: wrn_def)

lemma rd_Some [mem_simps]: "i < length xs \<Longrightarrow> rd xs i = Some (xs ! i)"
  by (simp add: rd_def)

lemma wr_Some [mem_simps]: "i < length xs \<Longrightarrow> wr xs i v = Some (xs[i := v])"
  by (simp add: wr_def)

lemma rd_int_Some [mem_simps]:
  "0 \<le> i \<Longrightarrow> nat i < length xs \<Longrightarrow> rd_int xs i = Some (xs ! nat i)"
  by (simp add: rd_int_def rd_def)

lemma rd_eq_Some: "rd xs i = Some x \<longleftrightarrow> i < length xs \<and> x = xs ! i"
  by (auto simp: rd_def)

lemma wr_eq_Some: "wr xs i v = Some ys \<longleftrightarrow> i < length xs \<and> ys = xs[i := v]"
  by (auto simp: wr_def)

lemma length_splice [len_simps]:
  "off + length src \<le> length dst \<Longrightarrow> length (splice dst off src) = length dst"
  by (simp add: splice_def)

lemma nth_splice:
  "off + length src \<le> length dst \<Longrightarrow> i < length dst \<Longrightarrow>
   splice dst off src ! i =
     (if off \<le> i \<and> i < off + length src then src ! (i - off) else dst ! i)"
  by (auto simp: splice_def nth_append min_def)

lemma take_splice:
  "n \<le> off \<Longrightarrow> off \<le> length dst \<Longrightarrow> take n (splice dst off src) = take n dst"
  by (simp add: splice_def min_def)

lemma splice_split:
  "length a = off \<Longrightarrow> length b = length src \<Longrightarrow> splice (a @ b @ c) off src = a @ src @ c"
  by (simp add: splice_def)

text \<open>A sequence of steps returns when each step does.\<close>

lemma bind_total:
  "\<exists>x. m = Some x \<Longrightarrow> (\<And>x. m = Some x \<Longrightarrow> \<exists>y. f x = Some y) \<Longrightarrow> \<exists>y. Option.bind m f = Some y"
  by auto

section \<open>Partial correctness of steps that may fail\<close>

text \<open>\<open>ensures m P\<close>: when the step returns, its result has the property.\<close>

definition ensures :: "'a option \<Rightarrow> ('a \<Rightarrow> bool) \<Rightarrow> bool" where
  "ensures m P \<longleftrightarrow> (\<forall>x. m = Some x \<longrightarrow> P x)"

lemma ensuresD: "ensures m P \<Longrightarrow> m = Some x \<Longrightarrow> P x"
  by (simp add: ensures_def)

lemma ensures_None [ens]: "ensures None P"
  by (simp add: ensures_def)

lemma ensures_Some [ens]: "P x \<Longrightarrow> ensures (Some x) P"
  by (simp add: ensures_def)

lemma ensures_bind [ens]: "ensures m (\<lambda>x. ensures (f x) P) \<Longrightarrow> ensures (Option.bind m f) P"
  by (auto simp: ensures_def bind_eq_Some_conv)

lemma ensures_if [ens]: "(b \<Longrightarrow> ensures m P) \<Longrightarrow> (\<not> b \<Longrightarrow> ensures n P) \<Longrightarrow> ensures (if b then m else n) P"
  by simp

lemma ensures_case_option [ens]:
  "(x = None \<Longrightarrow> ensures a P) \<Longrightarrow> (\<And>y. x = Some y \<Longrightarrow> ensures (f y) P) \<Longrightarrow> ensures (case x of None \<Rightarrow> a | Some y \<Rightarrow> f y) P"
  by (cases x) auto

lemma ensures_case_prod [ens]: "(\<And>a b. p = (a, b) \<Longrightarrow> ensures (f a b) P) \<Longrightarrow> ensures (case p of (a, b) \<Rightarrow> f a b) P"
  by (cases p) auto

lemma ensures_Let [ens]: "(\<And>y. y = x \<Longrightarrow> ensures (f y) P) \<Longrightarrow> ensures (Let x f) P"
  by (simp add: Let_def)

lemma ensures_var: "(\<And>x. m = Some x \<Longrightarrow> P x) \<Longrightarrow> ensures m P"
  by (simp add: ensures_def)

lemma ensures_wrn [ens]: "(\<And>x. length x = length d \<Longrightarrow> P x) \<Longrightarrow> ensures (wrn d off s) P"
  by (auto simp: ensures_def wrn_def splice_def split: if_splits)

lemma ensures_rdn [ens]: "(\<And>x. length x = n \<Longrightarrow> P x) \<Longrightarrow> ensures (rdn d off n) P"
  by (auto simp: ensures_def rdn_def split: if_splits)

lemma ensures_rd [ens]: "(\<And>x. P x) \<Longrightarrow> ensures (rd d i) P"
  by (auto simp: ensures_def)

section \<open>Total correctness of steps that may fail\<close>

text \<open>\<open>returns m P\<close>: the step returns, and its result has the property.\<close>

definition returns :: "'a option \<Rightarrow> ('a \<Rightarrow> bool) \<Rightarrow> bool" where
  "returns m P \<longleftrightarrow> (\<exists>x. m = Some x \<and> P x)"

lemma returnsE: "returns m P \<Longrightarrow> (\<And>x. m = Some x \<Longrightarrow> P x \<Longrightarrow> Q) \<Longrightarrow> Q"
  by (auto simp: returns_def)

lemma returns_weaken: "returns m P \<Longrightarrow> (\<And>x. m = Some x \<Longrightarrow> P x \<Longrightarrow> Q x) \<Longrightarrow> returns m Q"
  by (auto simp: returns_def)

lemma returns_Some [rets]: "P x \<Longrightarrow> returns (Some x) P"
  by (simp add: returns_def)

lemma returns_bind [rets]: "returns m (\<lambda>x. returns (f x) P) \<Longrightarrow> returns (Option.bind m f) P"
  by (auto simp: returns_def)

lemma returns_if [rets]: "(b \<Longrightarrow> returns m P) \<Longrightarrow> (\<not> b \<Longrightarrow> returns n P) \<Longrightarrow> returns (if b then m else n) P"
  by simp

lemma returns_case_option [rets]:
  "(x = None \<Longrightarrow> returns a P) \<Longrightarrow> (\<And>y. x = Some y \<Longrightarrow> returns (f y) P) \<Longrightarrow> returns (case x of None \<Rightarrow> a | Some y \<Rightarrow> f y) P"
  by (cases x) auto

lemma returns_case_prod [rets]: "(\<And>a b. p = (a, b) \<Longrightarrow> returns (f a b) P) \<Longrightarrow> returns (case p of (a, b) \<Rightarrow> f a b) P"
  by (cases p) auto

lemma returns_Let [rets]: "(\<And>y. y = x \<Longrightarrow> returns (f y) P) \<Longrightarrow> returns (Let x f) P"
  by (simp add: Let_def)

lemma returns_rd [rets]: "i < length xs \<Longrightarrow> P (xs ! i) \<Longrightarrow> returns (rd xs i) P"
  by (simp add: returns_def rd_def)

lemma returns_rd_int [rets]: "0 \<le> i \<Longrightarrow> nat i < length xs \<Longrightarrow> P (xs ! nat i) \<Longrightarrow> returns (rd_int xs i) P"
  by (simp add: returns_def rd_int_def rd_def)

lemma returns_wr [rets]: "i < length xs \<Longrightarrow> P (xs[i := v]) \<Longrightarrow> returns (wr xs i v) P"
  by (simp add: returns_def wr_def)

lemma returns_rdn [rets]: "off + n \<le> length xs \<Longrightarrow> P (take n (drop off xs)) \<Longrightarrow> returns (rdn xs off n) P"
  by (simp add: returns_def rdn_def)

lemma returns_wrn [rets]: "off + length s \<le> length d \<Longrightarrow> P (splice d off s) \<Longrightarrow> returns (wrn d off s) P"
  by (simp add: returns_def wrn_def)

section \<open>Little-endian byte views\<close>

text \<open>The object representation of an unsigned integer of \<open>n\<close> bytes and back.\<close>

definition to_le :: "nat \<Rightarrow> 'a::len word \<Rightarrow> bytes" where
  "to_le n w = map (\<lambda>i. ucast (drop_bit (8 * i) w)) [0..<n]"

fun of_le :: "bytes \<Rightarrow> 'a::len word" where
  "of_le [] = 0"
| "of_le (b # bs) = ucast b OR push_bit 8 (of_le bs)"

lemma length_to_le [simp]: "length (to_le n w) = n"
  by (simp add: to_le_def)

lemma nth_to_le: "i < n \<Longrightarrow> to_le n w ! i = ucast (drop_bit (8 * i) w)"
  by (simp add: to_le_def)

lemma bit_of_le:
  "bit (of_le bs :: 'a::len word) k \<longleftrightarrow>
     k < LENGTH('a) \<and> k < 8 * length bs \<and> bit (bs ! (k div 8)) (k mod 8)"
proof (induction bs arbitrary: k)
  case Nil
  then show ?case by simp
next
  case (Cons b bs)
  show ?case
  proof (cases "k < 8")
    case True
    then show ?thesis
      by (auto simp: bit_or_iff bit_push_bit_iff bit_ucast_iff)
  next
    case False
    then obtain j where k: "k = j + 8"
      using le_Suc_ex [of 8 k] by (auto simp: add.commute)
    have "\<not> bit b (j + 8)"
      using bit_imp_le_length [of b "j + 8"] by auto
    then have "bit (of_le (b # bs) :: 'a word) k \<longleftrightarrow> k < LENGTH('a) \<and> bit (of_le bs :: 'a word) j"
      by (auto simp: bit_or_iff bit_push_bit_iff bit_ucast_iff k)
    also have "\<dots> \<longleftrightarrow> k < LENGTH('a) \<and> j < 8 * length bs \<and> bit (bs ! (j div 8)) (j mod 8)"
      by (auto simp: Cons.IH k)
    finally show ?thesis
      by (simp add: k div_add1_eq [of j 8 8])
  qed
qed

lemma of_le_to_le: "8 * n = LENGTH('a) \<Longrightarrow> of_le (to_le n w) = (w :: 'a::len word)"
proof (rule bit_word_eqI)
  fix k assume n: "8 * n = LENGTH('a)" and k: "k < LENGTH('a)"
  then have "k div 8 < n" by presburger
  with n k show "bit (of_le (to_le n w) :: 'a word) k \<longleftrightarrow> bit w k"
    by (simp add: bit_of_le nth_to_le bit_ucast_iff bit_drop_bit_eq)
qed

lemma to_le_of_le: "8 * length bs = LENGTH('a) \<Longrightarrow> to_le (length bs) (of_le bs :: 'a::len word) = bs"
proof (rule nth_equalityI)
  fix i assume n: "8 * length bs = LENGTH('a)"
    and "i < length (to_le (length bs) (of_le bs :: 'a::len word))"
  then have i: "i < length bs" by simp
  have "ucast (drop_bit (8 * i) (of_le bs :: 'a word)) = (bs ! i)"
  proof (rule bit_word_eqI)
    fix k assume "k < LENGTH(8)"
    then have k: "k < 8" by simp
    with i have "(8 * i + k) div 8 = i" "(8 * i + k) mod 8 = k" "8 * i + k < 8 * length bs"
      by auto
    with k n show "bit (ucast (drop_bit (8 * i) (of_le bs :: 'a word)) :: u8) k = bit (bs ! i) k"
      by (simp add: bit_ucast_iff bit_drop_bit_eq bit_of_le)
  qed
  with i show "to_le (length bs) (of_le bs :: 'a::len word) ! i = bs ! i"
    by (simp add: nth_to_le)
qed simp

text \<open>An array of 32-bit words as the bytes it occupies, and back.\<close>

definition u32s_to_bytes :: "u32 list \<Rightarrow> bytes" where
  "u32s_to_bytes ws = concat (map (to_le 4) ws)"

fun bytes_to_u32s :: "bytes \<Rightarrow> u32 list" where
  "bytes_to_u32s (a # b # c # d # bs) = of_le [a, b, c, d] # bytes_to_u32s bs"
| "bytes_to_u32s _ = []"

lemma length_u32s_to_bytes [simp]: "length (u32s_to_bytes ws) = 4 * length ws"
  by (induction ws) (simp_all add: u32s_to_bytes_def)

lemma to_le_4_cases: obtains a b c d where "to_le 4 (w :: u32) = [a, b, c, d]"
  by (simp add: to_le_def numeral_eq_Suc)

lemma bytes_to_u32s_to_le: "bytes_to_u32s (to_le 4 (w :: u32) @ bs) = w # bytes_to_u32s bs"
proof -
  obtain a b c d where e: "to_le 4 w = [a, b, c, d]" by (rule to_le_4_cases)
  have "of_le (to_le 4 w) = w" by (rule of_le_to_le) simp
  with e show ?thesis by simp
qed

lemma bytes_to_u32s_to_bytes: "bytes_to_u32s (u32s_to_bytes ws) = ws"
  by (induction ws) (simp_all add: u32s_to_bytes_def bytes_to_u32s_to_le)

lemma u32s_to_bytes_to_u32s:
  "4 dvd length bs \<Longrightarrow> u32s_to_bytes (bytes_to_u32s bs) = bs"
proof (induction bs rule: bytes_to_u32s.induct)
  case (1 a b c d bs)
  have "to_le (length [a, b, c, d]) (of_le [a, b, c, d] :: u32) = [a, b, c, d]"
    by (rule to_le_of_le) simp
  moreover have "length [a, b, c, d] = 4" by simp
  ultimately have e: "to_le 4 (of_le [a, b, c, d] :: u32) = [a, b, c, d]" by metis
  from "1.prems" have "4 dvd length bs" by simp presburger
  with "1.IH" e show ?case
    by (simp add: u32s_to_bytes_def del: of_le.simps)
qed (auto simp: u32s_to_bytes_def dest: dvd_imp_le)

lemma length_bytes_to_u32s: "length (bytes_to_u32s bs) = length bs div 4"
  by (induction bs rule: bytes_to_u32s.induct) simp_all

end
