(* ===== verification/Linebuf.thy ===== *)
theory Linebuf
  imports Miner_Prelude
begin

text \<open>The line layer of the stratum connection in \<open>util.cpp\<close>: \<open>send_line\<close>, \<open>stratum_buffer_append\<close> and
  \<open>stratum_recv_line\<close>. The receive buffer \<open>sockbuf\<close> is the array of its \<open>sockbuf_size\<close> bytes, so that a
  copy that leaves it is the value None. What the socket does is an argument: a list with the outcome
  of each system call. The memory that \<open>realloc\<close> adds is unspecified.\<close>

definition NUL :: char where "NUL = char_of (0 :: nat)"
definition NL :: char where "NL = char_of (10 :: nat)"

text \<open>The C string at the start of an array; \<open>strlen\<close> of an array without a terminator is undefined.\<close>

definition cstr :: "string \<Rightarrow> string" where
  "cstr m = takeWhile (\<lambda>c. c \<noteq> NUL) m"

definition c_strlen :: "string \<Rightarrow> nat option" where
  "c_strlen m = (if NUL \<in> set m then Some (length (cstr m)) else None)"

definition RBUFSIZE :: nat where "RBUFSIZE = 2048"

section \<open>Sending\<close>

text \<open>One round of the loop of \<open>send_line\<close>: \<open>select\<close> finds the socket not writable, or \<open>send\<close> takes \<open>n\<close>
  bytes, or fails with a full socket or another error. The result is the return value and the bytes
  the socket took.\<close>

datatype send_ev = Not_ready | Sent nat | Send_blocked | Send_error

fun send_loop :: "send_ev list \<Rightarrow> string \<Rightarrow> string \<Rightarrow> (bool \<times> string) option" where
  "send_loop evs [] out = Some (True, out)"
| "send_loop [] s out = None"
| "send_loop (Not_ready # evs) s out = Some (False, out)"
| "send_loop (Send_error # evs) s out = Some (False, out)"
| "send_loop (Send_blocked # evs) s out = send_loop evs s out"
| "send_loop (Sent n # evs) s out = send_loop evs (drop n s) (out @ take n s)"

definition send_line :: "send_ev list \<Rightarrow> string \<Rightarrow> (bool \<times> string) option" where
  "send_line evs s = send_loop evs (s @ [NL]) []"

section \<open>Receiving\<close>

definition stratum_buffer_append :: "(nat \<Rightarrow> char) \<Rightarrow> string \<Rightarrow> string \<Rightarrow> string option" where
  "stratum_buffer_append junk s m = do {
     old \<leftarrow> c_strlen m;
     let snew = old + length s + 1;
     let m = (if snew \<ge> length m
              then let size = snew + (RBUFSIZE - snew mod RBUFSIZE) in m @ map junk [length m..<size] else m);
     wrn m old (s @ [NUL]) }"

text \<open>One \<open>recv\<close> of the loop: bytes, the end of the stream, or an error with whether the socket becomes
  readable again; then whether the time allowed is not yet over.\<close>

datatype recv_ev = Data string | Closed | Recv_error bool

fun recv_loop :: "(nat \<Rightarrow> char) \<Rightarrow> (recv_ev \<times> bool) list \<Rightarrow> string \<Rightarrow> (bool \<times> (recv_ev \<times> bool) list \<times> string) option" where
  "recv_loop junk [] m = None"
| "recv_loop junk ((Closed, left) # evs) m = Some (False, evs, m)"
| "recv_loop junk ((Recv_error again, left) # evs) m =
     (if \<not> again then Some (False, evs, m)
      else if left \<and> NL \<notin> set (cstr m) then recv_loop junk evs m
      else Some (True, evs, m))"
| "recv_loop junk ((Data s, left) # evs) m = do {
     m \<leftarrow> stratum_buffer_append junk (cstr s) m;
     if left \<and> NL \<notin> set (cstr m) then recv_loop junk evs m else Some (True, evs, m) }"

text \<open>\<open>strtok(buf, "\n")\<close>: the first token and the array, in which the newline after it is overwritten.\<close>

definition strtok_nl :: "string \<Rightarrow> (string option \<times> string) option" where
  "strtok_nl m = do {
     n \<leftarrow> c_strlen m;
     let k = length (takeWhile (\<lambda>c. c = NL) (cstr m));
     let tok = takeWhile (\<lambda>c. c \<noteq> NL) (drop k (cstr m));
     if tok = [] then Some (None, m)
     else if k + length tok < n then do { m \<leftarrow> wr m (k + length tok) NUL; Some (Some tok, m) }
     else Some (Some tok, m) }"

definition take_line :: "string \<Rightarrow> (string option \<times> string) option" where
  "take_line m = do {
     buflen \<leftarrow> c_strlen m;
     (tok, m) \<leftarrow> strtok_nl m;
     case tok of
       None \<Rightarrow> Some (None, m)
     | Some sret \<Rightarrow> do {
         let len = length sret;
         m \<leftarrow> (if buflen > len + 1 then do { r \<leftarrow> rdn m (len + 1) (buflen - len + 1); wrn m 0 r } else wr m 0 NUL);
         Some (Some sret, m) } }"

definition stratum_recv_line ::
  "(nat \<Rightarrow> char) \<Rightarrow> bool \<Rightarrow> (recv_ev \<times> bool) list \<Rightarrow> string option \<Rightarrow>
     (string option \<times> (recv_ev \<times> bool) list \<times> string option) option" where
  "stratum_recv_line junk ready evs sockbuf = (case sockbuf of
     None \<Rightarrow> Some (None, evs, None)
   | Some m \<Rightarrow>
       if NL \<in> set (cstr m) then do { (l, m) \<leftarrow> take_line m; Some (l, evs, Some m) }
       else if \<not> ready then Some (None, evs, Some m)
       else do {
         (ret, evs, m) \<leftarrow> recv_loop junk evs m;
         if \<not> ret then Some (None, evs, Some m)
         else do { (l, m) \<leftarrow> take_line m; Some (l, evs, Some m) } })"

definition stratum_socket_full :: "bool \<Rightarrow> string option \<Rightarrow> bool" where
  "stratum_socket_full ready sockbuf = (case sockbuf of None \<Rightarrow> False | Some m \<Rightarrow> cstr m \<noteq> [] \<or> ready)"

section \<open>The buffer\<close>

text \<open>There is always room for the terminator and one byte more, which the copy of the rest of the
  buffer also moves.\<close>

definition buf_ok :: "string \<Rightarrow> bool" where
  "buf_ok m \<longleftrightarrow> NUL \<in> set m \<and> length (cstr m) + 2 \<le> length m"

lemma NUL_NL [simp]: "NUL \<noteq> NL" "NL \<noteq> NUL"
  by (simp_all add: NUL_def NL_def char_of_def)

lemma cstr_split:
  assumes "NUL \<in> set m"
  obtains r where "m = cstr m @ NUL # r"
proof -
  have "\<exists>r. m = cstr m @ NUL # r"
    using assms by (induction m) (auto simp: cstr_def)
  then show thesis using that by blast
qed

lemma cstr_no_NUL [simp]: "NUL \<notin> set (cstr m)"
  by (auto simp: cstr_def dest: set_takeWhileD)

lemma cstr_append [simp]: "NUL \<notin> set s \<Longrightarrow> cstr (s @ NUL # r) = s"
  by (induction s) (auto simp: cstr_def)

lemma cstr_id: "NUL \<notin> set s \<Longrightarrow> cstr s = s"
  by (auto simp: cstr_def takeWhile_eq_all_conv)

lemma append_spec:
  assumes "buf_ok m" "NUL \<notin> set s"
  shows "\<exists>m'. stratum_buffer_append junk s m = Some m' \<and> buf_ok m' \<and> cstr m' = cstr m @ s"
proof -
  obtain r where r: "m = cstr m @ NUL # r" using assms(1) cstr_split by (auto simp: buf_ok_def)
  let ?old = "length (cstr m)"
  let ?snew = "?old + length s + 1"
  define m1 where "m1 = (if ?snew \<ge> length m then m @ map junk [length m..<?snew + (RBUFSIZE - ?snew mod RBUFSIZE)] else m)"
  have "?snew mod RBUFSIZE < RBUFSIZE" by (simp add: RBUFSIZE_def)
  then have l: "?snew < length m1" by (auto simp: m1_def)
  have t: "take ?old m1 = cstr m" unfolding m1_def by (subst (2 3) r) simp
  have "stratum_buffer_append junk s m = Some (splice m1 ?old (s @ [NUL]))"
    using assms(1) l by (simp add: stratum_buffer_append_def c_strlen_def buf_ok_def m1_def wrn_def Let_def)
  moreover have s: "splice m1 ?old (s @ [NUL]) = cstr m @ s @ NUL # drop ?snew m1"
    by (simp add: splice_def t)
  moreover have "cstr (cstr m @ s @ NUL # drop ?snew m1) = cstr m @ s"
    using cstr_append [of "cstr m @ s"] assms(2) by simp
  moreover from this have "buf_ok (cstr m @ s @ NUL # drop ?snew m1)"
    using l by (auto simp: buf_ok_def)
  ultimately show ?thesis by auto
qed

text \<open>Taking a line that stands at the start of the buffer leaves what follows its newline.\<close>

lemma take_line_spec:
  assumes "buf_ok m" "cstr m = line @ NL # rest" "line \<noteq> []" "NL \<notin> set line"
  shows "\<exists>m'. take_line m = Some (Some line, m') \<and> buf_ok m' \<and> cstr m' = rest"
proof -
  obtain r where r: "m = line @ NL # rest @ NUL # r" using assms(1,2) cstr_split [of m] by (auto simp: buf_ok_def)
  have nn: "NUL \<notin> set line" "NUL \<notin> set rest" using cstr_no_NUL [of m] assms(2) by auto
  have rn: "r \<noteq> []" using assms(1) arg_cong [OF r, of length] by (auto simp: buf_ok_def assms(2))
  have k: "takeWhile (\<lambda>c. c = NL) (line @ NL # rest) = []" using assms(3,4) by (cases line) auto
  have t: "takeWhile (\<lambda>c. c \<noteq> NL) (line @ NL # rest) = line" using assms(4)
    by (subst takeWhile_append2) auto
  have n: "NUL \<in> set m" using assms(1) by (simp add: buf_ok_def)
  let ?m1 = "line @ NUL # rest @ NUL # r"
  have "wr m (length line) NUL = Some ?m1" by (simp add: r wr_def)
  then have st: "strtok_nl m = Some (Some line, ?m1)"
    using n assms(2,3) k t by (simp add: strtok_nl_def c_strlen_def Let_def)
  show ?thesis
  proof (cases rest)
    case Nil
    have "wr ?m1 0 NUL = Some (NUL # tl line @ NUL # NUL # r)" using Nil assms(3) by (cases line) (auto simp: wr_def)
    moreover have "buf_ok (NUL # tl line @ NUL # NUL # r)" by (simp add: buf_ok_def cstr_def)
    ultimately show ?thesis using st n assms(2) Nil by (simp add: take_line_def c_strlen_def cstr_def [of "NUL # _"])
  next
    case (Cons c cs)
    obtain x r' where x: "r = x # r'" using rn by (cases r) auto
    have "rdn ?m1 (length line + 1) (length rest + 2) = Some (rest @ [NUL, x])"
      by (simp add: rdn_def x)
    moreover have "wrn ?m1 0 (rest @ [NUL, x]) = Some ((rest @ [NUL, x]) @ drop (length rest + 2) ?m1)"
      by (simp add: wrn_def splice_def x)
    moreover have "cstr ((rest @ [NUL, x]) @ drop (length rest + 2) ?m1) = rest" using nn(2) by simp
    moreover from this have "buf_ok ((rest @ [NUL, x]) @ drop (length rest + 2) ?m1)" by (simp add: buf_ok_def)
    ultimately show ?thesis using st n assms(2) Cons by (simp add: take_line_def c_strlen_def)
  qed
qed

text \<open>Receiving until a newline is there. The events are the chunks of a stream that keeps coming in time.\<close>

definition chunks :: "string list \<Rightarrow> (recv_ev \<times> bool) list" where
  "chunks ds = map (\<lambda>d. (Data d, True)) ds"

lemma recv_loop_spec:
  assumes "buf_ok m" "NL \<notin> set (cstr m)" "\<forall>d \<in> set ds. NUL \<notin> set d" "NL \<in> set (concat ds)"
  shows "\<exists>ds' m'. recv_loop junk (chunks ds) m = Some (True, chunks ds', m') \<and> buf_ok m' \<and> NL \<in> set (cstr m') \<and>
    set ds' \<subseteq> set ds \<and> cstr m' @ concat ds' = cstr m @ concat ds"
  using assms
proof (induction ds arbitrary: m)
  case (Cons d ds)
  then have d: "NUL \<notin> set d" by simp
  obtain m1 where m1: "stratum_buffer_append junk d m = Some m1" "buf_ok m1" "cstr m1 = cstr m @ d"
    using append_spec [OF Cons.prems(1) d] by blast
  show ?case
  proof (cases "NL \<in> set d")
    case True
    then show ?thesis using m1 d by (intro exI [of _ ds] exI [of _ m1]) (auto simp: chunks_def cstr_id)
  next
    case False
    then have "NL \<notin> set (cstr m1)" "NL \<in> set (concat ds)" using m1(3) Cons.prems(2,4) by auto
    then obtain ds' m' where r: "recv_loop junk (chunks ds) m1 = Some (True, chunks ds', m')" "buf_ok m'" "NL \<in> set (cstr m')"
      "set ds' \<subseteq> set ds" "cstr m' @ concat ds' = cstr m1 @ concat ds"
      using Cons.IH [OF m1(2)] Cons.prems(3) by auto
    then show ?thesis using m1 d \<open>NL \<notin> set (cstr m1)\<close>
      by (intro exI [of _ ds'] exI [of _ m']) (auto simp: chunks_def cstr_id)
  qed
qed simp

text \<open>A newline in a buffer ends the first line that the stream has.\<close>

lemma first_line_in:
  assumes "b @ c = line @ NL # rest" "NL \<notin> set line" "NL \<in> set b"
  obtains r where "b = line @ NL # r" "rest = r @ c"
  using assms
proof (induction line arbitrary: b)
  case Nil
  then show ?case by (cases b) auto
next
  case (Cons x line)
  then show ?case by (cases b) auto
qed

section \<open>Properties\<close>

text \<open>C16: lines are framed by newlines alone. However the bytes that the pool sends are cut into
  pieces, when the buffer and the pieces together begin with a non-empty line, \<open>stratum_recv_line\<close>
  returns exactly that line, stays inside its buffer, and what it leaves buffered and unread is
  exactly what follows the newline.\<close>

theorem recv_line_frames:
  assumes "buf_ok m" "\<forall>d \<in> set ds. NUL \<notin> set d" "cstr m @ concat ds = line @ NL # rest" "line \<noteq> []" "NL \<notin> set line"
  shows "\<exists>ds' m'. stratum_recv_line junk True (chunks ds) (Some m) = Some (Some line, chunks ds', Some m') \<and>
    buf_ok m' \<and> set ds' \<subseteq> set ds \<and> cstr m' @ concat ds' = rest"
proof -
  obtain ds1 m1 where 1: "buf_ok m1" "NL \<in> set (cstr m1)" "set ds1 \<subseteq> set ds" "cstr m1 @ concat ds1 = cstr m @ concat ds"
    "stratum_recv_line junk True (chunks ds) (Some m) = do { (l, m) \<leftarrow> take_line m1; Some (l, chunks ds1, Some m) }"
  proof (cases "NL \<in> set (cstr m)")
    case True
    then show ?thesis using that [of m ds] assms(1) by (simp add: stratum_recv_line_def)
  next
    case False
    have "NL \<in> set (cstr m @ concat ds)" unfolding assms(3) by simp
    then have "NL \<in> set (concat ds)" using False by simp
    then obtain ds' m' where "recv_loop junk (chunks ds) m = Some (True, chunks ds', m')" "buf_ok m'" "NL \<in> set (cstr m')"
        "set ds' \<subseteq> set ds" "cstr m' @ concat ds' = cstr m @ concat ds"
      using recv_loop_spec [OF assms(1) False assms(2)] by blast
    then show ?thesis using that [of m' ds'] False by (simp add: stratum_recv_line_def)
  qed
  obtain r where r: "cstr m1 = line @ NL # r" "rest = r @ concat ds1"
    using first_line_in [of "cstr m1" "concat ds1" line rest] 1(2,4) assms(3,5) by metis
  obtain m2 where "take_line m1 = Some (Some line, m2)" "buf_ok m2" "cstr m2 = r"
    using take_line_spec [OF 1(1) r(1) assms(4,5)] by blast
  then show ?thesis using 1(3,5) r(2) by auto
qed

theorem recv_line_frames_witness:
  "\<exists>ds' m'. stratum_recv_line (\<lambda>_. NL) True (chunks [''b'', [NL, CHR ''c'']]) (Some [CHR ''a'', NUL, NUL]) =
      Some (Some ''ab'', chunks ds', Some m') \<and>
    buf_ok m' \<and> set ds' \<subseteq> set [''b'', [NL, CHR ''c'']] \<and> cstr m' @ concat ds' = ''c''"
  by (rule recv_line_frames) (simp_all add: buf_ok_def cstr_def NUL_def NL_def char_of_def)

text \<open>\<open>send_line\<close> reports success only when the socket took the line and its newline, in order and
  nothing else; however it is cut short, what was taken is a prefix of that.\<close>

lemma send_line_complete:
  assumes "send_line evs s = Some (ok, out)"
  shows "\<exists>r. s @ [NL] = out @ r \<and> (if ok then r = [] else True)"
proof -
  have "send_loop evs t o1 = Some (ok, o2) \<Longrightarrow> (ok \<longrightarrow> o2 = o1 @ t) \<and> (\<exists>r. o1 @ t = o2 @ r)" for t o1 o2
  proof (induction evs t o1 rule: send_loop.induct)
    case (6 n evs v va out)
    have "send_loop evs (drop n (v # va)) (out @ take n (v # va)) = Some (ok, o2)" using 6 by simp
    from "6.IH" [OF this] show ?case by (simp only: append.assoc append_take_drop_id) blast
  qed auto
  from this [OF assms [unfolded send_line_def]] show ?thesis by auto
qed

text \<open>An empty line is not framed: the line after it is returned, and the rest of what was buffered is
  lost with it.\<close>

lemma blank_line_loses_input:
  "map_option (\<lambda>(l, m). (l, cstr m)) (take_line ([NL] @ ''ab'' @ [NL] @ ''cd'' @ [NL, NUL, NUL])) = Some (Some ''ab'', [])"
  by (simp add: take_line_def strtok_nl_def c_strlen_def cstr_def NUL_def NL_def char_of_def wr_def wrn_def rdn_def splice_def Let_def)

end
