(* ===== verification/Ordmap.thy ===== *)
theory Ordmap
  imports Miner_Prelude
begin

text \<open>\<open>std::map<uint64_t, V>\<close> as the list of its entries in the order an iterator visits them, with the
  operations that \<open>hashlog.cpp\<close> and \<open>stats.cpp\<close> use, and the contract their purge routines share.\<close>

type_synonym 'v omap = "(u64 \<times> 'v) list"

definition om_ok :: "'v omap \<Rightarrow> bool" where
  "om_ok m \<longleftrightarrow> sorted_wrt (<) (map fst m)"

definition om_find :: "u64 \<Rightarrow> 'v omap \<Rightarrow> 'v option" where
  "om_find k m = map_of m k"

text \<open>\<open>m[k] = v\<close>\<close>

fun om_put :: "u64 \<Rightarrow> 'v \<Rightarrow> 'v omap \<Rightarrow> 'v omap" where
  "om_put k v [] = [(k, v)]"
| "om_put k v ((k', v') # m) =
     (if k < k' then (k, v) # (k', v') # m
      else if k = k' then (k, v) # m
      else (k', v') # om_put k v m)"

text \<open>Reading \<open>m[k]\<close>: an absent key is inserted with the value-initialised \<open>z\<close>.\<close>

definition om_index :: "'v \<Rightarrow> u64 \<Rightarrow> 'v omap \<Rightarrow> 'v \<times> 'v omap" where
  "om_index z k m = (case om_find k m of Some v \<Rightarrow> (v, m) | None \<Rightarrow> (z, om_put k z m))"

text \<open>The loop \<open>if (p) m.erase(i++); else ++i\<close> over the whole map.\<close>

fun om_erase_if :: "(u64 \<Rightarrow> 'v \<Rightarrow> bool) \<Rightarrow> 'v omap \<Rightarrow> 'v omap" where
  "om_erase_if p [] = []"
| "om_erase_if p ((k, v) # m) = (if p k v then om_erase_if p m else (k, v) # om_erase_if p m)"

lemma om_ok_Nil [simp]: "om_ok []"
  by (simp add: om_ok_def)

lemma om_ok_Cons: "om_ok ((k, v) # m) \<longleftrightarrow> (\<forall>e \<in> set m. k < fst e) \<and> om_ok m"
  by (auto simp: om_ok_def)

lemma om_put_keys: "fst ` set (om_put k v m) = insert k (fst ` set m)"
  by (induction k v m rule: om_put.induct) auto

lemma om_put_set: "set (om_put k v m) \<subseteq> insert (k, v) (set m)"
  by (induction m) (auto split: if_splits)

lemma om_put_ok [simp]: "om_ok m \<Longrightarrow> om_ok (om_put k v m)"
proof (induction k v m rule: om_put.induct)
  case (2 k v k' v' m)
  have "k' < fst e" if "e \<in> set (om_put k v m)" "k' < k" for e
  proof -
    have "fst e \<in> insert k (fst ` set m)" using that(1) om_put_keys [of k v m] by blast
    then show ?thesis using that(2) 2(2) by (auto simp: om_ok_Cons)
  qed
  moreover have "k < fst e" if "k < k'" "e \<in> set m" for e
    using that 2(2) by (auto simp: om_ok_Cons dest: less_trans)
  ultimately show ?case using 2 by (auto simp: om_ok_Cons)
qed (simp add: om_ok_def)

lemma om_find_put: "om_ok m \<Longrightarrow> om_find j (om_put k v m) = (if j = k then Some v else om_find j m)"
  by (induction k v m rule: om_put.induct) (auto simp: om_find_def om_ok_Cons)

lemma om_find_set: "om_ok m \<Longrightarrow> om_find k m = Some v \<longleftrightarrow> (k, v) \<in> set m"
proof -
  assume "om_ok m"
  then have "distinct (map fst m)" by (auto simp: om_ok_def strict_sorted_iff)
  then show ?thesis by (simp add: om_find_def)
qed

lemma om_erase_filter: "om_erase_if p m = filter (\<lambda>(k, v). \<not> p k v) m"
  by (induction p m rule: om_erase_if.induct) auto

lemma om_erase_ok [simp]: "om_ok m \<Longrightarrow> om_ok (om_erase_if p m)"
  by (induction m) (auto simp: om_ok_Cons om_erase_filter)

lemma om_find_erase:
  "om_ok m \<Longrightarrow> om_find k (om_erase_if p m) = (case om_find k m of None \<Rightarrow> None | Some v \<Rightarrow> if p k v then None else Some v)"
  by (induction p m rule: om_erase_if.induct)
    (force simp: om_find_def om_ok_Cons om_erase_filter split: option.splits dest: map_of_SomeD)+

text \<open>A log whose purge drops the records that have become stale.\<close>

locale expiring_log =
  fixes stale :: "u32 \<Rightarrow> 'v \<Rightarrow> bool" and purge :: "u32 \<Rightarrow> 'v omap \<Rightarrow> 'v omap"
  assumes purge_ok: "om_ok m \<Longrightarrow> om_ok (purge now m)"
    and purge_find: "om_ok m \<Longrightarrow> om_find k (purge now m) =
      (case om_find k m of None \<Rightarrow> None | Some v \<Rightarrow> if stale now v then None else Some v)"
begin

lemma purge_keeps: "om_ok m \<Longrightarrow> om_find k m = Some v \<Longrightarrow> \<not> stale now v \<Longrightarrow> om_find k (purge now m) = Some v"
  by (simp add: purge_find)

lemma purge_drops: "om_ok m \<Longrightarrow> om_find k (purge now m) = Some v \<Longrightarrow> om_find k m = Some v \<and> \<not> stale now v"
  by (auto simp: purge_find split: option.splits if_splits)

lemma purge_exact:
  "om_ok m \<Longrightarrow> set (purge now m) = {(k, v) \<in> set m. \<not> stale now v}"
  using purge_ok purge_find by (auto simp: om_find_set [symmetric] split: option.splits if_splits)

end

end
