(* ===== verification/Miner_Types.thy ===== *)
theory Miner_Types
  imports Miner_Prelude
begin

text \<open>
  The data model of \<open>miner.h\<close>: the byte-order helpers and the structures the components share.
  A C string is a HOL string without its terminator, a nullable pointer an option. Doubles are a
  type parameter \<open>'f\<close> with the operations the code uses as the record \<open>fops\<close>: nothing is assumed
  about rounding unless a theorem says so.
\<close>

section \<open>Byte order\<close>

definition swab32 :: "u32 \<Rightarrow> u32" where
  "swab32 x =
     (push_bit 24 x AND 0xff000000) OR (push_bit 8 x AND 0x00ff0000)
     OR (drop_bit 8 x AND 0x0000ff00) OR (drop_bit 24 x AND 0x000000ff)"

definition swab64 :: "u64 \<Rightarrow> u64" where
  "swab64 x = push_bit 32 (ucast (swab32 (ucast (x AND 0xffffffff))))
              OR ucast (swab32 (ucast (drop_bit 32 x)))"

fun swab256 :: "u32 list \<Rightarrow> u32 list option" where
  "swab256 [a, b, c, d, e, f, g, h] =
     Some [swab32 h, swab32 g, swab32 f, swab32 e, swab32 d, swab32 c, swab32 b, swab32 a]"
| "swab256 _ = None"

fun be32dec :: "bytes \<Rightarrow> u32 option" where
  "be32dec (p0 # p1 # p2 # p3 # _) =
     Some (ucast p3 + push_bit 8 (ucast p2) + push_bit 16 (ucast p1) + push_bit 24 (ucast p0))"
| "be32dec _ = None"

fun le32dec :: "bytes \<Rightarrow> u32 option" where
  "le32dec (p0 # p1 # p2 # p3 # _) =
     Some (ucast p0 + push_bit 8 (ucast p1) + push_bit 16 (ucast p2) + push_bit 24 (ucast p3))"
| "le32dec _ = None"

definition be32enc :: "u32 \<Rightarrow> bytes" where
  "be32enc x = [ucast (drop_bit 24 x AND 0xff), ucast (drop_bit 16 x AND 0xff),
                ucast (drop_bit 8 x AND 0xff), ucast (x AND 0xff)]"

definition le32enc :: "u32 \<Rightarrow> bytes" where
  "le32enc x = [ucast (x AND 0xff), ucast (drop_bit 8 x AND 0xff),
                ucast (drop_bit 16 x AND 0xff), ucast (drop_bit 24 x AND 0xff)]"

fun be16dec :: "bytes \<Rightarrow> u16 option" where
  "be16dec (p0 # p1 # _) = Some (ucast p1 + push_bit 8 (ucast p0))"
| "be16dec _ = None"

fun le16dec :: "bytes \<Rightarrow> u16 option" where
  "le16dec (p0 # p1 # _) = Some (ucast p0 + push_bit 8 (ucast p1))"
| "le16dec _ = None"

definition be16enc :: "u16 \<Rightarrow> bytes" where
  "be16enc x = [ucast (drop_bit 8 x AND 0xff), ucast (x AND 0xff)]"

definition le16enc :: "u16 \<Rightarrow> bytes" where
  "le16enc x = [ucast (x AND 0xff), ucast (drop_bit 8 x AND 0xff)]"

section \<open>Doubles\<close>

record 'f fops =
  f_of_int :: "int \<Rightarrow> 'f"        \<comment> \<open>conversion of an integer\<close>
  f_lit :: "int \<Rightarrow> int \<Rightarrow> 'f"    \<comment> \<open>the literal \<open>m * 10 ^ e\<close>\<close>
  f_add :: "'f \<Rightarrow> 'f \<Rightarrow> 'f"
  f_sub :: "'f \<Rightarrow> 'f \<Rightarrow> 'f"
  f_mul :: "'f \<Rightarrow> 'f \<Rightarrow> 'f"
  f_div :: "'f \<Rightarrow> 'f \<Rightarrow> 'f"
  f_lt :: "'f \<Rightarrow> 'f \<Rightarrow> bool"
  f_eq :: "'f \<Rightarrow> 'f \<Rightarrow> bool"
  f_to_u64 :: "'f \<Rightarrow> u64"        \<comment> \<open>truncating conversion\<close>

section \<open>Structures\<close>

record 'f work =
  w_data :: "u32 list"          \<comment> \<open>\<open>data[48]\<close>\<close>
  w_target :: "u32 list"        \<comment> \<open>\<open>target[8]\<close>\<close>
  w_maxvote :: u32
  w_job_id :: string
  w_xnonce2_len :: u64
  w_xnonce2 :: bytes            \<comment> \<open>\<open>xnonce2[32]\<close>\<close>
  w_noncerange :: "u32 list"    \<comment> \<open>the union, as its two 32-bit halves\<close>
  w_pooln :: u8
  w_valid_nonces :: u8
  w_submit_nonce_id :: u8
  w_job_nonce_id :: u8
  w_nonces :: "u32 list"        \<comment> \<open>\<open>nonces[MAX_NONCES]\<close>\<close>
  w_sharediff :: "'f list"
  w_shareratio :: "'f list"
  w_targetdiff :: 'f
  w_height :: u32
  w_scanned_from :: u32
  w_scanned_to :: u32
  w_tx_count :: u32
  w_txs :: "(bytes \<times> u32) list"   \<comment> \<open>\<open>txs[POK_MAX_TXS]\<close>: data and length\<close>
  w_extra :: bytes              \<comment> \<open>\<open>extra[1388]\<close>\<close>
  w_solution :: bytes           \<comment> \<open>\<open>solution[1344]\<close>\<close>

definition POK_MAX_TXS :: nat where "POK_MAX_TXS = 4"
definition POK_MAX_TX_SZ :: nat where "POK_MAX_TX_SZ = 16384"
definition MAX_NONCES :: nat where "MAX_NONCES = 2"
definition MAX_POOLS :: nat where "MAX_POOLS = 8"
definition MAX_GPUS :: nat where "MAX_GPUS = 140"

text \<open>The array sizes that the declaration of \<open>struct work\<close> gives.\<close>

definition wf_work :: "'f work \<Rightarrow> bool" where
  "wf_work w \<longleftrightarrow> length (w_data w) = 48 \<and> length (w_target w) = 8 \<and> length (w_xnonce2 w) = 32 \<and>
     length (w_noncerange w) = 2 \<and> length (w_nonces w) = MAX_NONCES \<and>
     length (w_sharediff w) = MAX_NONCES \<and> length (w_shareratio w) = MAX_NONCES \<and>
     length (w_extra w) = 1388 \<and> length (w_solution w) = 1344 \<and>
     length (w_txs w) = POK_MAX_TXS \<and> list_all (\<lambda>t. length (fst t) = POK_MAX_TX_SZ) (w_txs w)"

text \<open>The zero-initialised structure, and an integer instance of the floating-point operations: the
  concrete values that examples are evaluated on.\<close>

definition zero_work :: "'f \<Rightarrow> 'f work" where
  "zero_work z = \<lparr>w_data = replicate 48 0, w_target = replicate 8 0, w_maxvote = 0, w_job_id = [],
     w_xnonce2_len = 0, w_xnonce2 = replicate 32 0, w_noncerange = [0, 0], w_pooln = 0,
     w_valid_nonces = 0, w_submit_nonce_id = 0, w_job_nonce_id = 0, w_nonces = [0, 0],
     w_sharediff = [z, z], w_shareratio = [z, z], w_targetdiff = z, w_height = 0,
     w_scanned_from = 0, w_scanned_to = 0, w_tx_count = 0,
     w_txs = replicate POK_MAX_TXS (replicate POK_MAX_TX_SZ 0, 0), w_extra = replicate 1388 0,
     w_solution = replicate 1344 0\<rparr>"

lemma zero_work_nonces: "w_valid_nonces (zero_work z) = 0"
  by (simp add: zero_work_def)

lemma list_all_replicate [simp]: "list_all P (replicate n x) \<longleftrightarrow> n = 0 \<or> P x"
  by (auto simp: list_all_iff)

lemma wf_zero_work [simp]: "wf_work (zero_work z)"
  by (simp add: zero_work_def wf_work_def MAX_NONCES_def)

definition int_fops :: "int fops" where
  "int_fops = \<lparr>f_of_int = id, f_lit = (\<lambda>m e. m * 10 ^ nat e), f_add = (+), f_sub = (-), f_mul = (*),
     f_div = (div), f_lt = (<), f_eq = (=), f_to_u64 = word_of_int\<rparr>"

record 'f stratum_job =
  job_job_id :: "string option"
  job_prevhash :: bytes         \<comment> \<open>\<open>prevhash[32]\<close>\<close>
  job_coinbase_size :: nat
  job_coinbase :: "bytes option"
  job_xnonce2 :: nat            \<comment> \<open>offset of the pointer into \<open>coinbase\<close>\<close>
  job_merkle_count :: nat
  job_merkle :: "bytes list"
  job_version :: bytes
  job_nbits :: bytes
  job_ntime :: bytes
  job_extra :: bytes
  job_clean :: bool
  job_nreward :: bytes
  job_height :: u32
  job_shares_count :: u32
  job_diff :: 'f
  job_solution :: bytes

record 'f stratum_ctx =
  ctx_url :: "string option"
  ctx_curl :: bool              \<comment> \<open>whether there is a handle\<close>
  ctx_curl_url :: string
  ctx_sockbuf :: string
  ctx_next_diff :: 'f
  ctx_sharediff :: 'f
  ctx_session_id :: "string option"
  ctx_xnonce1_size :: nat
  ctx_xnonce1 :: "bytes option"
  ctx_xnonce2_size :: nat
  ctx_job :: "'f stratum_job"
  ctx_tv_submit :: "int \<times> int"
  ctx_answer_msec :: u32
  ctx_pooln :: int
  ctx_tm_connected :: int
  ctx_rpc2 :: bool
  ctx_is_equihash :: bool
  ctx_srvtime_diff :: int

record 'f stats_data =
  sd_uid :: u32
  sd_tm_stat :: u32
  sd_hashcount :: u32
  sd_height :: u32
  sd_difficulty :: 'f
  sd_hashrate :: 'f
  sd_thr_id :: u8
  sd_gpu_id :: u8
  sd_hashfound :: u8
  sd_ignored :: u8
  sd_npool :: u8
  sd_pool_type :: u8
  sd_globalhashcount :: u32

record 'f hashlog_data =
  hl_npool :: u8
  hl_pool_type :: u8
  hl_nonce_id :: u8
  hl_job_nonce_id :: u8
  hl_height :: u32
  hl_sharediff :: 'f
  hl_njobid :: u32
  hl_nonce :: u32
  hl_scanned_from :: u32
  hl_scanned_to :: u32
  hl_last_from :: u32
  hl_tm_add :: u32
  hl_tm_upd :: u32
  hl_tm_sent :: u32

record 'f pool_infos =
  pool_id :: u8
  pool_type :: u8
  pool_status :: u16
  pool_algo :: int
  pool_name :: string
  pool_url :: string
  pool_short_url :: string
  pool_user :: string
  pool_pass :: string
  pool_max_diff :: 'f
  pool_max_rate :: 'f
  pool_shares_limit :: int
  pool_time_limit :: int
  pool_scantime :: int
  pool_stratum :: "'f stratum_ctx"
  pool_allow_gbt :: u8
  pool_allow_mininginfo :: u8
  pool_check_dups :: u16
  pool_retries :: int
  pool_fail_pause :: int
  pool_timeout :: int
  pool_work_time :: u32
  pool_wait_time :: u32
  pool_accepted_count :: u32
  pool_rejected_count :: u32
  pool_solved_count :: u32
  pool_stales_count :: u32
  pool_last_share_time :: int
  pool_best_share :: 'f
  pool_disconnects :: u32

definition POOL_UNUSED :: u8 where "POOL_UNUSED = 0"
definition POOL_GETWORK :: u8 where "POOL_GETWORK = 1"
definition POOL_STRATUM :: u8 where "POOL_STRATUM = 2"
definition POOL_LONGPOLL :: u8 where "POOL_LONGPOLL = 4"
definition POOL_ST_DEFINED :: u16 where "POOL_ST_DEFINED = 1"
definition POOL_ST_VALID :: u16 where "POOL_ST_VALID = 2"
definition POOL_ST_DISABLED :: u16 where "POOL_ST_DISABLED = 4"
definition POOL_ST_REMOVED :: u16 where "POOL_ST_REMOVED = 8"

section \<open>Byte order is a permutation of the bytes\<close>

lemma byte_masks:
  "(0xff000000 :: u32) = push_bit 24 (mask 8)" "(0x00ff0000 :: u32) = push_bit 16 (mask 8)"
  "(0x0000ff00 :: u32) = push_bit 8 (mask 8)" "(0x000000ff :: u32) = mask 8"
  by (simp_all add: mask_eq_exp_minus_1)

lemma mask_ff: "ucast ((x :: 'a::len word) AND 0xff) = (ucast x :: u8)"
proof -
  have "x AND 0xff = take_bit 8 x" by (simp add: take_bit_eq_mask mask_eq_exp_minus_1)
  then show ?thesis by (auto intro: bit_word_eqI simp: bit_simps dest: bit_imp_le_length)
qed

lemma byte_cases:
  assumes "(k :: nat) < 32"
  obtains r where "r < 8" "k = r" | r where "r < 8" "k = 8 + r" | r where "r < 8" "k = 16 + r"
    | r where "r < 8" "k = 24 + r"
proof -
  consider "k < 8" | "8 \<le> k \<and> k < 16" | "16 \<le> k \<and> k < 24" | "24 \<le> k" by linarith
  then show thesis
    using assms that(1) [of k] that(2) [of "k - 8"] that(3) [of "k - 16"] that(4) [of "k - 24"]
    by cases auto
qed

lemma to_le_4: "to_le 4 (x :: u32) = [ucast x, ucast (drop_bit 8 x), ucast (drop_bit 16 x), ucast (drop_bit 24 x)]"
  by (simp add: to_le_def upt_rec)

lemma swab32_bytes: "swab32 x = of_le (rev (to_le 4 x))"
proof (rule bit_word_eqI)
  fix k assume "k < LENGTH(32)"
  then have "k < 32" by simp
  then show "bit (swab32 x) k = bit (of_le (rev (to_le 4 x)) :: u32) k"
    unfolding swab32_def byte_masks to_le_4
    by (cases rule: byte_cases) (auto simp: bit_simps dest: bit_imp_le_length)
qed

lemma of_le_sum: "ucast b OR push_bit 8 w = ucast (b :: u8) + push_bit 8 (w :: 'a::len word)"
  by (rule disjunctive_add_eq_or [symmetric], rule bit_word_eqI)
    (auto simp: bit_simps dest: bit_imp_le_length)

lemma le32dec_bytes: "le32dec (a # b # c # d # r) = Some (of_le [a, b, c, d])"
  by (simp only: le32dec.simps be32dec.simps of_le.simps of_le_sum) (simp add: push_bit_add add.assoc)

lemma be32dec_bytes: "be32dec (a # b # c # d # r) = Some (of_le [d, c, b, a])"
  by (simp only: le32dec.simps be32dec.simps of_le.simps of_le_sum) (simp add: push_bit_add add.assoc)

lemma le32enc_bytes: "le32enc x = to_le 4 x"
  by (simp add: le32enc_def to_le_4 mask_ff)

lemma be32enc_bytes: "be32enc x = rev (to_le 4 x)"
  by (simp add: be32enc_def to_le_4 mask_ff)

lemma rev_le_4: "rev (to_le 4 x) = to_le 4 (of_le (rev (to_le 4 x)) :: u32)"
  using to_le_of_le [of "rev (to_le 4 x)", where ?'a = 32] by simp

lemma of_le_4: "of_le (to_le 4 x) = (x :: u32)"
  by (rule of_le_to_le) simp

section \<open>Properties\<close>

text \<open>The byte-order helpers agree with each other: decoding what was encoded gives the value
  back in both orders, whatever follows it in the buffer; reading big-endian is reading
  little-endian and swapping; and swapping twice is the identity.\<close>

lemma byte_order_roundtrip:
  "le32dec (le32enc x @ r) = Some x \<and> be32dec (be32enc x @ r) = Some x \<and>
   be32dec (le32enc x @ r) = Some (swab32 x) \<and> swab32 (swab32 x) = x"
proof -
  obtain a b c d where e: "to_le 4 x = [a, b, c, d]" by (rule to_le_4_cases)
  have 1: "of_le [a, b, c, d] = x" using of_le_4 [of x] by (simp only: e)
  have "swab32 (swab32 x) = x"
    using rev_le_4 [of x] of_le_4 [of x] by (metis swab32_bytes rev_rev_ident)
  with 1 show ?thesis
    using swab32_bytes [of x]
    by (simp only: le32enc_bytes be32enc_bytes e rev.simps append.simps le32dec_bytes be32dec_bytes)
qed

end
