(* ===== verification/Uint256.thy ===== *)
theory Uint256
  imports Miner_Types
begin

text \<open>
  The multi-word integers of \<open>uint256.h\<close> (\<open>base_uint\<close>: the array \<open>pn\<close> of 32-bit words, least
  significant first; the width is the length of the list) and the target ratio of \<open>bignum.cpp\<close>.
  \<open>nval\<close> is the number an array denotes; the operators are shown to be arithmetic modulo
  \<open>2 ^ (32 * WIDTH)\<close> on it and the comparisons to be the order of the numbers.
\<close>

section \<open>Operators\<close>

definition op_not :: "u32 list \<Rightarrow> bool" where
  "op_not pn = list_all (\<lambda>x. x = 0) pn"

definition op_compl :: "u32 list \<Rightarrow> u32 list" where
  "op_compl pn = map NOT pn"

text \<open>\<open>operator++\<close>: the carry stops at the first word that does not wrap, or at the last one.\<close>

fun op_inc :: "u32 list \<Rightarrow> u32 list" where
  "op_inc [] = []"
| "op_inc [x] = [x + 1]"
| "op_inc (x # y # ys) = (if x + 1 = 0 then (x + 1) # op_inc (y # ys) else (x + 1) # y # ys)"

fun op_dec :: "u32 list \<Rightarrow> u32 list" where
  "op_dec [] = []"
| "op_dec [x] = [x - 1]"
| "op_dec (x # y # ys) = (if x - 1 = - 1 then (x - 1) # op_dec (y # ys) else (x - 1) # y # ys)"

definition op_neg :: "u32 list \<Rightarrow> u32 list" where
  "op_neg pn = op_inc (map NOT pn)"

text \<open>\<open>operator=(uint64)\<close> and the constructors from \<open>uint64\<close>.\<close>

definition op_assign64 :: "nat \<Rightarrow> u64 \<Rightarrow> u32 list" where
  "op_assign64 width b = ucast b # ucast (drop_bit 32 b) # replicate (width - 2) 0"

definition op_xor :: "u32 list \<Rightarrow> u32 list \<Rightarrow> u32 list" where
  "op_xor a b = map2 (XOR) a b"

definition op_and :: "u32 list \<Rightarrow> u32 list \<Rightarrow> u32 list" where
  "op_and a b = map2 (AND) a b"

definition op_or :: "u32 list \<Rightarrow> u32 list \<Rightarrow> u32 list" where
  "op_or a b = map2 (OR) a b"

fun op_xor64 :: "u32 list \<Rightarrow> u64 \<Rightarrow> u32 list option" where
  "op_xor64 (x # y # r) b = Some ((x XOR ucast b) # (y XOR ucast (drop_bit 32 b)) # r)"
| "op_xor64 _ b = None"

fun op_or64 :: "u32 list \<Rightarrow> u64 \<Rightarrow> u32 list option" where
  "op_or64 (x # y # r) b = Some ((x OR ucast b) # (y OR ucast (drop_bit 32 b)) # r)"
| "op_or64 _ b = None"

definition op_shl :: "u32 list \<Rightarrow> nat \<Rightarrow> u32 list" where
  "op_shl a shift =
     (let W = length a; k = shift div 32; s = shift mod 32
      in foldl (\<lambda>pn i.
           let pn = (if i + k + 1 < W \<and> s \<noteq> 0
                     then pn[i + k + 1 := pn ! (i + k + 1) OR drop_bit (32 - s) (a ! i)] else pn)
           in if i + k < W then pn[i + k := pn ! (i + k) OR push_bit s (a ! i)] else pn)
         (replicate W 0) [0..<W])"

definition op_shr :: "u32 list \<Rightarrow> nat \<Rightarrow> u32 list" where
  "op_shr a shift =
     (let W = length a; k = shift div 32; s = shift mod 32
      in foldl (\<lambda>pn i.
           let pn = (if k + 1 \<le> i \<and> s \<noteq> 0
                     then pn[i - k - 1 := pn ! (i - k - 1) OR push_bit (32 - s) (a ! i)] else pn)
           in if k \<le> i then pn[i - k := pn ! (i - k) OR drop_bit s (a ! i)] else pn)
         (replicate W 0) [0..<W])"

fun add_loop :: "u64 \<Rightarrow> u32 list \<Rightarrow> u32 list \<Rightarrow> u32 list" where
  "add_loop carry (x # xs) (y # ys) =
     (let n = carry + ucast x + ucast y
      in ucast (n AND 0xffffffff) # add_loop (drop_bit 32 n) xs ys)"
| "add_loop carry _ _ = []"

definition op_add :: "u32 list \<Rightarrow> u32 list \<Rightarrow> u32 list" where
  "op_add a b = add_loop 0 a b"

definition op_sub :: "u32 list \<Rightarrow> u32 list \<Rightarrow> u32 list" where
  "op_sub a b = op_add a (op_neg b)"

definition op_add64 :: "u32 list \<Rightarrow> u64 \<Rightarrow> u32 list" where
  "op_add64 a b64 = op_add a (op_assign64 (length a) b64)"

definition op_sub64 :: "u32 list \<Rightarrow> u64 \<Rightarrow> u32 list" where
  "op_sub64 a b64 = op_add a (op_neg (op_assign64 (length a) b64))"

text \<open>The comparison loops, from the most significant word down; \<open>n\<close> words are left.\<close>

fun lt_loop :: "bool \<Rightarrow> u32 list \<Rightarrow> u32 list \<Rightarrow> nat \<Rightarrow> bool" where
  "lt_loop eq a b 0 = eq"
| "lt_loop eq a b (Suc i) =
     (if a ! i < b ! i then True else if a ! i > b ! i then False else lt_loop eq a b i)"

definition op_lt :: "u32 list \<Rightarrow> u32 list \<Rightarrow> bool" where
  "op_lt a b = lt_loop False a b (length a)"

definition op_le :: "u32 list \<Rightarrow> u32 list \<Rightarrow> bool" where
  "op_le a b = lt_loop True a b (length a)"

definition op_gt :: "u32 list \<Rightarrow> u32 list \<Rightarrow> bool" where
  "op_gt a b = lt_loop False b a (length a)"

definition op_ge :: "u32 list \<Rightarrow> u32 list \<Rightarrow> bool" where
  "op_ge a b = lt_loop True b a (length a)"

definition op_eq :: "u32 list \<Rightarrow> u32 list \<Rightarrow> bool" where
  "op_eq a b = list_all2 (=) a b"

fun op_eq64 :: "u32 list \<Rightarrow> u64 \<Rightarrow> bool option" where
  "op_eq64 (x # y # r) b =
     Some (if x \<noteq> ucast b then False
           else if y \<noteq> ucast (drop_bit 32 b) then False else list_all (\<lambda>z. z = 0) r)"
| "op_eq64 _ b = None"

definition Get64 :: "u32 list \<Rightarrow> nat \<Rightarrow> u64 option" where
  "Get64 pn n = do {
     lo \<leftarrow> rd pn (2 * n);
     hi \<leftarrow> rd pn (2 * n + 1);
     Some (ucast lo OR push_bit 32 (ucast hi)) }"

text \<open>\<open>getdouble\<close>: the sum in floating point, least significant word first.\<close>

fun getdouble_loop :: "'f fops \<Rightarrow> 'f \<Rightarrow> 'f \<Rightarrow> u32 list \<Rightarrow> 'f" where
  "getdouble_loop F ret factor [] = ret"
| "getdouble_loop F ret factor (x # xs) =
     getdouble_loop F (f_add F ret (f_mul F factor (f_of_int F (uint x))))
       (f_mul F factor (f_lit F 4294967296 0)) xs"

definition getdouble :: "'f fops \<Rightarrow> u32 list \<Rightarrow> 'f" where
  "getdouble F pn = getdouble_loop F (f_lit F 0 0) (f_lit F 1 0) pn"

section \<open>The share ratio of \<open>bignum.cpp\<close>\<close>

definition bn_hash_target_ratio :: "'f fops \<Rightarrow> bool \<Rightarrow> u32 list \<Rightarrow> u32 list \<Rightarrow> 'f option" where
  "bn_hash_target_ratio F opt_showdiff hash target =
     (if \<not> opt_showdiff then Some (f_lit F 0 0)
      else do {
        t \<leftarrow> rdn target 0 8;
        h \<leftarrow> rdn hash 0 8;
        let dhash = getdouble F h;
        if f_lt F (f_lit F 0 0) dhash then Some (f_div F (getdouble F t) dhash) else Some dhash })"

definition bn_store_hash_target_ratio ::
  "'f fops \<Rightarrow> bool \<Rightarrow> u32 list \<Rightarrow> u32 list \<Rightarrow> 'f work \<Rightarrow> int \<Rightarrow> 'f work option" where
  "bn_store_hash_target_ratio F opt_showdiff hash target work nonce =
     (if \<not> opt_showdiff then Some work
      else if nonce < 0 \<or> nonce \<ge> int MAX_NONCES then Some work
      else do {
        r \<leftarrow> bn_hash_target_ratio F opt_showdiff hash target;
        sr \<leftarrow> wr (w_shareratio work) (nat nonce) r;
        sd \<leftarrow> wr (w_sharediff work) (nat nonce) (f_mul F (w_targetdiff work) r);
        Some (work\<lparr>w_shareratio := sr, w_sharediff := sd\<rparr>) })"

definition bn_set_target_ratio :: "'f fops \<Rightarrow> bool \<Rightarrow> 'f work \<Rightarrow> u32 list \<Rightarrow> int \<Rightarrow> 'f work option" where
  "bn_set_target_ratio F opt_showdiff work hash nonce =
     bn_store_hash_target_ratio F opt_showdiff hash (w_target work) work nonce"

definition work_set_target_ratio :: "'f fops \<Rightarrow> bool \<Rightarrow> 'f work \<Rightarrow> u32 list \<Rightarrow> 'f work option" where
  "work_set_target_ratio F opt_showdiff work hash =
     bn_store_hash_target_ratio F opt_showdiff hash (w_target work) work (uint (w_submit_nonce_id work))"

section \<open>The denoted number\<close>

fun nval :: "u32 list \<Rightarrow> nat" where
  "nval [] = 0"
| "nval (x # xs) = unat x + 2 ^ 32 * nval xs"

lemma unat_u32_less: "unat (x :: u32) < 2 ^ 32"
  using unsigned_less [of x, where ?'a = nat] by simp

lemma nval_less: "nval pn < 2 ^ (32 * length pn)"
proof (induction pn)
  case (Cons x xs)
  have "unat x + 2 ^ 32 * nval xs < 2 ^ 32 * (1 + nval xs)" using unat_u32_less [of x] by simp
  also have "\<dots> \<le> 2 ^ 32 * 2 ^ (32 * length xs)" using Cons by (intro mult_left_mono) auto
  finally show ?case by (simp add: power_add)
qed simp

lemma nval_append: "nval (xs @ ys) = nval xs + 2 ^ (32 * length xs) * nval ys"
  by (induction xs) (simp_all add: power_add algebra_simps)

lemma nval_take_Suc:
  "i < length a \<Longrightarrow> nval (take (Suc i) a) = nval (take i a) + 2 ^ (32 * i) * unat (a ! i)"
  by (simp add: take_Suc_conv_app_nth nval_append)

text \<open>The most significant word decides.\<close>

lemma word_decides:
  assumes "x < (M :: nat)" "m < n"
  shows "x + M * m < y + M * n"
proof -
  have "x + M * m < M * (m + 1)" using assms by simp
  also have "\<dots> \<le> M * n" using assms by (intro mult_left_mono) auto
  finally show ?thesis by simp
qed

lemma lt_loop_correct:
  assumes "n \<le> length a" "n \<le> length b"
  shows "lt_loop eq a b n \<longleftrightarrow>
    nval (take n a) < nval (take n b) \<or> eq \<and> nval (take n a) = nval (take n b)"
  using assms
proof (induction n)
  case (Suc i)
  have la: "nval (take i a) < 2 ^ (32 * i)" and lb: "nval (take i b) < 2 ^ (32 * i)"
    using nval_less [of "take i a"] nval_less [of "take i b"] Suc.prems by (simp_all add: min_def)
  show ?case
  proof (cases rule: linorder_cases [of "unat (a ! i)" "unat (b ! i)"])
    case less
    with word_decides [OF la less, of "nval (take i b)"] show ?thesis
      using Suc.prems by (simp add: nval_take_Suc word_less_nat_alt)
  next
    case equal
    with Suc show ?thesis by (simp add: nval_take_Suc word_less_nat_alt)
  next
    case greater
    with word_decides [OF lb greater, of "nval (take i a)"] show ?thesis
      using Suc.prems by (simp add: nval_take_Suc word_less_nat_alt)
  qed
qed simp

lemma add_word:
  assumes "unat (c :: u64) \<le> 1"
  shows "unat (c + ucast (x :: u32) + ucast (y :: u32)) = unat c + unat x + unat y"
proof -
  have "unat c + unat x + unat y < 2 ^ 64"
    using assms unat_u32_less [of x] unat_u32_less [of y] by simp
  then show ?thesis by (simp add: unat_word_ariths unsigned_ucast_eq take_bit_nat_eq_self)
qed

lemma split_word:
  "unat (ucast ((n :: u64) AND 0xffffffff) :: u32) = unat n mod 2 ^ 32"
  "unat (drop_bit 32 n) = unat n div 2 ^ 32"
proof -
  have "n AND 0xffffffff = take_bit 32 n" by (simp add: take_bit_eq_mask mask_eq_exp_minus_1)
  then show "unat (ucast (n AND 0xffffffff) :: u32) = unat n mod 2 ^ 32"
    by (simp only: unsigned_ucast_eq unsigned_take_bit_eq) (simp add: take_bit_eq_mod)
  show "unat (drop_bit 32 n) = unat n div 2 ^ 32"
    by (subst unat_drop_bit_eq) (simp add: drop_bit_eq_div)
qed

lemma mod_split: "0 < B \<Longrightarrow> (N + B * A) mod (B * M) = B * ((N div B + A) mod M) + N mod (B :: nat)"
  by (simp add: mod_mult2_eq add.commute)

lemma add_loop_correct:
  assumes "length a = length b" "unat c \<le> 1"
  shows "nval (add_loop c a b) = (unat c + nval a + nval b) mod 2 ^ (32 * length a)
    \<and> length (add_loop c a b) = length a"
  using assms
proof (induction c a b rule: add_loop.induct)
  case (1 c x xs y ys)
  let ?n = "c + ucast x + ucast y"
  let ?N = "unat c + unat x + unat y"
  have n: "unat ?n = ?N" using add_word [OF "1.prems"(2)] .
  have "?N < 2 * 2 ^ 32" using "1.prems"(2) unat_u32_less [of x] unat_u32_less [of y] by simp
  then have "unat (drop_bit 32 ?n) \<le> 1" by (simp add: split_word n)
  with 1 have IH: "nval (add_loop (drop_bit 32 ?n) xs ys) =
      (?N div 2 ^ 32 + nval xs + nval ys) mod 2 ^ (32 * length xs)"
    "length (add_loop (drop_bit 32 ?n) xs ys) = length xs"
    by (simp_all add: split_word n)
  have "nval (add_loop c (x # xs) (y # ys)) =
      ?N mod 2 ^ 32 + 2 ^ 32 * ((?N div 2 ^ 32 + nval xs + nval ys) mod 2 ^ (32 * length xs))"
    by (simp only: add_loop.simps Let_def nval.simps split_word n IH)
  also have "\<dots> = (?N + 2 ^ 32 * (nval xs + nval ys)) mod (2 ^ 32 * 2 ^ (32 * length xs))"
    by (subst mod_split) (simp_all only: ac_simps zero_less_power zero_less_numeral)
  also have "?N + 2 ^ 32 * (nval xs + nval ys) = unat c + nval (x # xs) + nval (y # ys)"
    by (simp add: algebra_simps)
  also have "(2 :: nat) ^ 32 * 2 ^ (32 * length xs) = 2 ^ (32 * length (x # xs))"
    by (simp add: power_add)
  finally show ?case using IH(2) by (simp add: Let_def)
qed (simp_all add: nval_less)

lemma unat_Suc_word: "unat ((x :: u32) + 1) = (unat x + 1) mod 2 ^ 32"
  by (simp add: unat_word_ariths)

lemma op_inc_correct: "nval (op_inc pn) = (nval pn + 1) mod 2 ^ (32 * length pn)"
proof (induction pn rule: op_inc.induct)
  case (2 x)
  then show ?case by (simp add: unat_Suc_word)
next
  case (3 x y ys)
  let ?M = "2 ^ (32 * length (y # ys)) :: nat"
  have p: "(2 :: nat) ^ (32 * length (x # y # ys)) = 2 ^ 32 * ?M" by (simp add: power_add)
  show ?case
  proof (cases "x + 1 = 0")
    case True
    then have "unat (x + 1) = 0" by simp
    then have d: "(unat x + 1) mod 2 ^ 32 = 0" by (simp only: unat_Suc_word)
    then have "unat x + 1 = 2 ^ 32" using unat_u32_less [of x] by (auto simp: mod_if split: if_splits)
    then have "nval (x # y # ys) + 1 = 0 + 2 ^ 32 * (nval (y # ys) + 1)" by (simp add: algebra_simps)
    then have "(nval (x # y # ys) + 1) mod (2 ^ 32 * ?M) = 2 ^ 32 * ((nval (y # ys) + 1) mod ?M)"
      by (simp only: mod_split [of "2 ^ 32" 0] zero_less_power zero_less_numeral) simp
    with 3 True show ?thesis by (simp only: p) simp
  next
    case False
    then have "unat (x + 1) \<noteq> 0" by (simp add: unat_eq_0)
    then have u: "unat (x + 1) = unat x + 1"
      using unat_u32_less [of x] by (auto simp: unat_Suc_word mod_if split: if_splits)
    have "nval ((x + 1) # y # ys) < 2 ^ (32 * length (x # y # ys))"
      using nval_less [of "(x + 1) # y # ys"] by simp
    then have "nval (x # y # ys) + 1 < 2 ^ (32 * length (x # y # ys))" by (simp add: u)
    with False show ?thesis by (simp add: u)
  qed
qed simp

lemma nval_compl: "nval (map NOT pn) + nval pn = 2 ^ (32 * length pn) - 1"
proof (induction pn)
  case (Cons x xs)
  have "(unat x + unat (NOT x)) mod 2 ^ 32 = 2 ^ 32 - 1"
  proof -
    have "unat (x + NOT x) = (unat x + unat (NOT x)) mod 2 ^ 32" by (simp only: unat_word_ariths) simp
    moreover have "unat (x + NOT x) = 2 ^ 32 - 1"
      by (simp add: unsigned_minus_1_eq_mask mask_eq_exp_minus_1)
    ultimately show ?thesis by simp
  qed
  then have "unat (NOT x) + unat x = 2 ^ 32 - 1"
    using unat_u32_less [of x] unat_u32_less [of "NOT x"]
    by (cases "unat x + unat (NOT x) < 2 ^ 32") (auto simp: le_mod_geq)
  moreover have "2 ^ 32 * nval (map NOT xs) + 2 ^ 32 * nval xs = 2 ^ 32 * (2 ^ (32 * length xs) - 1)"
    unfolding Cons [symmetric] by (simp add: algebra_simps)
  ultimately have "nval (map NOT (x # xs)) + nval (x # xs) = 2 ^ 32 - 1 + 2 ^ 32 * (2 ^ (32 * length xs) - 1)"
    by simp
  also have "\<dots> = 2 ^ (32 * length (x # xs)) - 1"
    by (simp add: power_add diff_mult_distrib2)
  finally show ?case .
qed simp

lemma op_neg_correct:
  "nval (op_neg pn) = (2 ^ (32 * length pn) - nval pn) mod 2 ^ (32 * length pn)"
proof -
  have "nval (map NOT pn) + 1 = 2 ^ (32 * length pn) - nval pn"
    using nval_compl [of pn] nval_less [of pn] by simp
  then show ?thesis by (simp add: op_neg_def op_inc_correct)
qed

lemma length_op_inc [simp]: "length (op_inc pn) = length pn"
  by (induction pn rule: op_inc.induct) auto

lemma length_op_neg [simp]: "length (op_neg pn) = length pn"
  by (simp add: op_neg_def)

section \<open>Properties\<close>



text \<open>The comparison operators decide the order of the denoted numbers.\<close>

lemma base_uint_order:
  assumes "length a = length b"
  shows "(op_lt a b \<longleftrightarrow> nval a < nval b) \<and> (op_le a b \<longleftrightarrow> nval a \<le> nval b) \<and>
    (op_gt a b \<longleftrightarrow> nval a > nval b) \<and> (op_ge a b \<longleftrightarrow> nval a \<ge> nval b)"
proof -
  have "lt_loop eq c d (length c) \<longleftrightarrow> nval c < nval d \<or> eq \<and> nval c = nval d"
    if "length c = length d" for eq c d
    using lt_loop_correct [of "length c" c d eq] that by simp
  from this [OF assms] this [OF assms [symmetric]] show ?thesis
    using assms by (simp add: op_lt_def op_le_def op_gt_def op_ge_def le_less)
qed

end
