(* ===== verification/Util.thy ===== *)
theory Util
  imports Uint256
begin

text \<open>
  The helpers of \<open>util.cpp\<close> that the miner and the protocol code share: hexadecimal text, time
  differences, targets and the libcurl data callbacks. Logging has no effect on the values and is
  left out. \<open>strtol\<close>, \<open>isspace\<close> and \<open>strcasecmp\<close> are the functions of the C library in the
  \<open>"C"\<close> locale.
\<close>

section \<open>Characters\<close>

definition c_code :: "char \<Rightarrow> nat" where
  "c_code c = of_char c"

definition isspace :: "char \<Rightarrow> bool" where
  "isspace c \<longleftrightarrow> c_code c = 32 \<or> (9 \<le> c_code c \<and> c_code c \<le> 13)"

definition c_tolower :: "char \<Rightarrow> char" where
  "c_tolower c = (if 65 \<le> c_code c \<and> c_code c \<le> 90 then char_of (c_code c + 32) else c)"

definition strcaseeq :: "string \<Rightarrow> string \<Rightarrow> bool" where
  "strcaseeq a b \<longleftrightarrow> map c_tolower a = map c_tolower b"

definition hexval :: "char \<Rightarrow> nat option" where
  "hexval c =
     (let n = c_code c in
      if 48 \<le> n \<and> n \<le> 57 then Some (n - 48)
      else if 97 \<le> n \<and> n \<le> 102 then Some (n - 87)
      else if 65 \<le> n \<and> n \<le> 70 then Some (n - 55)
      else None)"

section \<open>Hexadecimal text\<close>

text \<open>\<open>strtol(s, &ep, 16)\<close>: the value and the rest of the string from \<open>ep\<close> on. White space and a
  sign may precede the digits, and \<open>0x\<close> when a digit follows; without digits \<open>ep\<close> is \<open>s\<close>.\<close>

fun hexdigits :: "nat \<Rightarrow> string \<Rightarrow> nat \<times> string" where
  "hexdigits acc [] = (acc, [])"
| "hexdigits acc (c # cs) =
     (case hexval c of None \<Rightarrow> (acc, c # cs) | Some d \<Rightarrow> hexdigits (16 * acc + d) cs)"

definition skip_0x :: "string \<Rightarrow> string" where
  "skip_0x s =
     (case s of
        z # x # d # r \<Rightarrow>
          if z = CHR ''0'' \<and> (x = CHR ''x'' \<or> x = CHR ''X'') \<and> hexval d \<noteq> None then d # r else s
      | _ \<Rightarrow> s)"

definition strtol16 :: "string \<Rightarrow> int \<times> string" where
  "strtol16 s =
     (let t = dropWhile isspace s;
          neg = (t \<noteq> [] \<and> hd t = CHR ''-'');
          u = (if t \<noteq> [] \<and> (hd t = CHR ''-'' \<or> hd t = CHR ''+'') then tl t else t);
          v = skip_0x u
      in case v of
           [] \<Rightarrow> (0, s)
         | c # _ \<Rightarrow> if hexval c = None then (0, s)
                   else let (n, r) = hexdigits 0 v in (if neg then - int n else int n, r))"

definition hexdigit :: "nat \<Rightarrow> char" where
  "hexdigit n = (if n < 10 then char_of (48 + n) else char_of (87 + n))"

definition sprintf_02x :: "u8 \<Rightarrow> string" where
  "sprintf_02x b = [hexdigit (unat b div 16), hexdigit (unat b mod 16)]"

definition cbin2hex :: "bytes \<Rightarrow> string" where
  "cbin2hex bs = concat (map sprintf_02x bs)"

text \<open>\<open>bin2hex\<close>: \<open>None\<close> is the null pointer of a failed allocation.\<close>

definition bin2hex :: "bool \<Rightarrow> bytes \<Rightarrow> string option" where
  "bin2hex malloc_ok bs = (if malloc_ok then Some (cbin2hex bs) else None)"

text \<open>\<open>hex2bin\<close>: the result and the output buffer; the outer option is an output buffer too small.
  The byte is stored before the characters are found to be bad.\<close>

fun hex2bin_loop :: "bytes \<Rightarrow> nat \<Rightarrow> string \<Rightarrow> nat \<Rightarrow> (bool \<times> bytes) option" where
  "hex2bin_loop out p hexstr 0 = Some (hexstr = [], out)"
| "hex2bin_loop out p [] (Suc len) = Some (False, out)"
| "hex2bin_loop out p [c] (Suc len) = Some (False, out)"
| "hex2bin_loop out p (c # d # r) (Suc len) =
     (let (v, ep) = strtol16 [c, d] in do {
        out \<leftarrow> wr out p (word_of_int v);
        if ep \<noteq> [] then Some (False, out) else hex2bin_loop out (p + 1) r len })"

definition hex2bin :: "bytes \<Rightarrow> string \<Rightarrow> nat \<Rightarrow> (bool \<times> bytes) option" where
  "hex2bin out hexstr len = hex2bin_loop out 0 hexstr len"

section \<open>Time differences\<close>

record timeval =
  tv_sec :: int
  tv_usec :: int

text \<open>The result, the return value and the updated \<open>y\<close>. Both quotients have non-negative operands.\<close>

definition timeval_subtract :: "timeval \<Rightarrow> timeval \<Rightarrow> timeval \<times> bool \<times> timeval" where
  "timeval_subtract x y =
     (let y = (if tv_usec x < tv_usec y
               then let nsec = (tv_usec y - tv_usec x) div 1000000 + 1
                    in \<lparr>tv_sec = tv_sec y + nsec, tv_usec = tv_usec y - 1000000 * nsec\<rparr>
               else y);
          y = (if tv_usec x - tv_usec y > 1000000
               then let nsec = (tv_usec x - tv_usec y) div 1000000
                    in \<lparr>tv_sec = tv_sec y - nsec, tv_usec = tv_usec y + 1000000 * nsec\<rparr>
               else y)
      in (\<lparr>tv_sec = tv_sec x - tv_sec y, tv_usec = tv_usec x - tv_usec y\<rparr>, tv_sec x < tv_sec y, y))"

section \<open>Targets\<close>

fun fulltest_loop :: "u32 list \<Rightarrow> u32 list \<Rightarrow> nat \<Rightarrow> bool option" where
  "fulltest_loop hash target 0 = Some True"
| "fulltest_loop hash target (Suc i) = do {
     h \<leftarrow> rd hash i;
     t \<leftarrow> rd target i;
     if h > t then Some False
     else if h < t then Some True
     else do {
       h1 \<leftarrow> rd hash 1;
       t1 \<leftarrow> rd target 1;
       fulltest_loop hash target i } }"

definition fulltest :: "u32 list \<Rightarrow> u32 list \<Rightarrow> bool option" where
  "fulltest hash target = fulltest_loop hash target 8"

text \<open>\<open>for (k = 6; k > 0 && diff > 1.0; k--) diff /= 4294967296.0\<close>\<close>

fun diff_loop :: "'f fops \<Rightarrow> nat \<Rightarrow> 'f \<Rightarrow> nat \<times> 'f" where
  "diff_loop F 0 diff = (0, diff)"
| "diff_loop F (Suc k) diff =
     (if f_lt F (f_lit F 1 0) diff
      then diff_loop F k (f_div F diff (f_lit F 4294967296 0)) else (Suc k, diff))"

definition diff_to_target :: "'f fops \<Rightarrow> u32 list \<Rightarrow> 'f \<Rightarrow> u32 list option" where
  "diff_to_target F target diff = do {
     let (k, diff) = diff_loop F 6 diff;
     let m = f_to_u64 F (f_div F (f_lit F 4294901760 0) diff);
     if m = 0 \<and> k = 6 then wrn target 0 (replicate 8 0xffffffff)
     else do {
       target \<leftarrow> wrn target 0 (replicate 8 0);
       target \<leftarrow> wr target k (ucast m);
       wr target (k + 1) (ucast (drop_bit 32 m)) } }"

definition work_set_target :: "'f fops \<Rightarrow> 'f work \<Rightarrow> 'f \<Rightarrow> 'f work option" where
  "work_set_target F work diff = do {
     t \<leftarrow> diff_to_target F (w_target work) diff;
     Some (work\<lparr>w_target := t, w_targetdiff := diff\<rparr>) }"

definition target_to_diff :: "'f fops \<Rightarrow> u32 list \<Rightarrow> 'f option" where
  "target_to_diff F target = do {
     tgt \<leftarrow> rdn (u32s_to_bytes target) 22 8;
     let m = (of_le tgt :: u64);
     if m = 0 then Some (f_lit F 0 0)
     else Some (f_div F (f_of_int F 0x0000ffff00000000) (f_of_int F (uint m))) }"

section \<open>The libcurl callbacks\<close>

record data_buffer =
  db_buf :: "bytes option"
  db_len :: nat

text \<open>\<open>all_data_cb\<close>: the number of bytes taken (0 when the reallocation fails).\<close>

definition all_data_cb :: "bool \<Rightarrow> bytes \<Rightarrow> data_buffer \<Rightarrow> (nat \<times> data_buffer) option" where
  "all_data_cb realloc_ok ptr db =
     (if \<not> realloc_ok then Some (0, db)
      else do {
        old \<leftarrow> rdn (case db_buf db of None \<Rightarrow> [] | Some b \<Rightarrow> b) 0 (db_len db);
        Some (length ptr, \<lparr>db_buf = Some (old @ ptr @ [0]), db_len = db_len db + length ptr\<rparr>) })"

definition databuf_free :: "data_buffer \<Rightarrow> data_buffer" where
  "databuf_free db = \<lparr>db_buf = None, db_len = 0\<rparr>"

record upload_buffer =
  ub_buf :: bytes
  ub_len :: u64
  ub_pos :: u64

text \<open>\<open>upload_data_cb\<close>: the bytes copied out. The remaining length is computed in \<open>size_t\<close> and wraps
  when the position is behind the end; the length is an \<open>unsigned int\<close>.\<close>

definition upload_data_cb :: "u64 \<Rightarrow> upload_buffer \<Rightarrow> (bytes \<times> upload_buffer) option" where
  "upload_data_cb size_nmemb ub = do {
     let len = (ucast size_nmemb :: u32);
     let len = (if ucast len > ub_len ub - ub_pos ub then ucast (ub_len ub - ub_pos ub) else len);
     if len \<noteq> 0 then do {
       bs \<leftarrow> rdn (ub_buf ub) (unat (ub_pos ub)) (unat len);
       Some (bs, ub\<lparr>ub_pos := ub_pos ub + ucast len\<rparr>) }
     else Some ([], ub) }"

datatype seek_origin = SEEK_SET | SEEK_CUR | SEEK_END | SEEK_OTHER

definition seek_data_cb :: "u64 \<Rightarrow> seek_origin \<Rightarrow> upload_buffer \<Rightarrow> nat \<times> upload_buffer" where
  "seek_data_cb offset origin ub =
     (case origin of
        SEEK_SET \<Rightarrow> (0, ub\<lparr>ub_pos := offset\<rparr>)
      | SEEK_CUR \<Rightarrow> (0, ub\<lparr>ub_pos := ub_pos ub + offset\<rparr>)
      | SEEK_END \<Rightarrow> (0, ub\<lparr>ub_pos := ub_len ub + offset\<rparr>)
      | SEEK_OTHER \<Rightarrow> (1, ub))"

record header_info =
  hi_lp_path :: "string option"
  hi_reason :: "string option"
  hi_stratum_url :: "string option"

text \<open>\<open>resp_hdr_cb\<close>: one header line, not NUL terminated. The value ends at its first NUL; trailing
  white space is cut from it.\<close>

definition trim_right :: "string \<Rightarrow> string" where
  "trim_right s = rev (dropWhile isspace (rev s))"

definition resp_hdr_cb :: "bool \<Rightarrow> string \<Rightarrow> header_info \<Rightarrow> nat \<times> header_info" where
  "resp_hdr_cb calloc_ok ptr hi =
     (let ptrlen = length ptr;
          slen = length (takeWhile (\<lambda>c. c \<noteq> CHR '':'') ptr);
          c_str = takeWhile (\<lambda>c. c_code c \<noteq> 0)
      in if \<not> calloc_ok \<or> slen = ptrlen \<or> slen = 0 \<or> slen + 1 = ptrlen then (ptrlen, hi)
         else let key = c_str (take slen ptr);
                  rem = dropWhile isspace (drop (slen + 1) ptr);
                  val = trim_right (c_str rem)
              in if val = [] then (ptrlen, hi)
                 else if strcaseeq ''X-Long-Polling'' key then (ptrlen, hi\<lparr>hi_lp_path := Some val\<rparr>)
                 else if strcaseeq ''X-Reject-Reason'' key then (ptrlen, hi\<lparr>hi_reason := Some val\<rparr>)
                 else if strcaseeq ''X-Stratum'' key then (ptrlen, hi\<lparr>hi_stratum_url := Some val\<rparr>)
                 else (ptrlen, hi))"

section \<open>Lemmas\<close>

lemma fulltest_loop_correct:
  assumes "n \<le> length hash" "n \<le> length target" "2 \<le> length hash" "2 \<le> length target"
  shows "fulltest_loop hash target n = Some (lt_loop True hash target n)"
  using assms by (induction n) (auto simp: mem_simps)

lemma fulltest_correct:
  assumes "8 \<le> length hash" "8 \<le> length target"
  shows "fulltest hash target = Some (nval (take 8 hash) \<le> nval (take 8 target))"
proof -
  have "lt_loop True hash target 8 = (nval (take 8 hash) \<le> nval (take 8 target))"
    using lt_loop_correct [of 8 hash target True] assms by auto
  then show ?thesis using fulltest_loop_correct [of 8 hash target] assms by (simp add: fulltest_def)
qed

lemma c_code_hexdigit: "n < 16 \<Longrightarrow> c_code (hexdigit n) = (if n < 10 then 48 + n else 87 + n)"
  by (simp add: c_code_def hexdigit_def)

lemma c_code_sign: "c_code CHR ''-'' = 45" "c_code CHR ''+'' = 43"
  by (simp_all add: c_code_def)

lemma hexdigit_facts:
  assumes "n < 16"
  shows "hexval (hexdigit n) = Some n" "\<not> isspace (hexdigit n)"
    "hexdigit n \<noteq> CHR ''-''" "hexdigit n \<noteq> CHR ''+''"
  using assms c_code_hexdigit [OF assms] c_code_sign
  by (auto simp: hexval_def isspace_def Let_def split: if_splits)

lemma strtol16_byte: "strtol16 (sprintf_02x b) = (int (unat b), [])"
proof -
  have "unat b < 256" using unsigned_less [of b, where ?'a = nat] by simp
  then have h: "unat b div 16 < 16" "unat b mod 16 < 16" by auto
  have "16 * (unat b div 16) + unat b mod 16 = unat b" by simp
  then show ?thesis
    using hexdigit_facts [OF h(1)] hexdigit_facts [OF h(2)]
    by (simp add: strtol16_def sprintf_02x_def skip_0x_def Let_def)
qed

lemma hex2bin_loop_total:
  "p + n \<le> length out \<Longrightarrow> returns (hex2bin_loop out p s n) (\<lambda>(r, out'). length out' = length out)"
proof (induction n arbitrary: out p s)
  case 0
  then show ?case by (simp add: returns_def)
next
  case (Suc n)
  show ?case
  proof (cases "length s < 2")
    case True
    then have "s = [] \<or> (\<exists>c. s = [c])" by (cases s) auto
    then show ?thesis by (auto simp: returns_def)
  next
    case False
    then obtain c d r where "s = c # d # r" by (metis length_Cons less_2_cases_iff list.exhaust list.size(3) One_nat_def)
    moreover have "returns (hex2bin_loop (out[p := v]) (p + 1) r n) (\<lambda>(b, out'). length out' = length out)" for v
      using Suc.IH [of "p + 1" "out[p := v]" r] Suc.prems by simp
    moreover obtain v ep where "strtol16 [c, d] = (v, ep)" by fastforce
    ultimately show ?thesis using Suc.prems by (auto intro!: rets)
  qed
qed

lemma hex2bin_total: "n \<le> length out \<Longrightarrow> returns (hex2bin out s n) (\<lambda>(r, out'). length out' = length out)"
  using hex2bin_loop_total [of 0 n out s] by (simp add: hex2bin_def)

lemma hex2bin_loop_roundtrip:
  "p + length bs \<le> length out \<Longrightarrow>
   hex2bin_loop out p (cbin2hex bs) (length bs) = Some (True, splice out p bs)"
proof (induction bs arbitrary: out p)
  case Nil
  then show ?case by (simp add: cbin2hex_def splice_def)
next
  case (Cons b bs)
  have e: "cbin2hex (b # bs) = sprintf_02x b @ cbin2hex bs" by (simp add: cbin2hex_def)
  have "splice (out[p := b]) (Suc p) bs = splice out p (b # bs)"
    using Cons.prems by (auto simp: splice_def take_Suc_conv_app_nth)
  then show ?case
    using Cons.prems Cons.IH [of "Suc p" "out[p := b]"] strtol16_byte [of b]
    by (simp add: e sprintf_02x_def mem_simps Let_def)
qed

lemma diff_loop_bound: "fst (diff_loop F k d) \<le> k"
  by (induction k arbitrary: d) (auto intro: le_SucI)

lemma unat_ucast_up: "unat (ucast (w :: u32) :: u64) = unat w"
  using unat_u32_less [of w] by (simp add: unsigned_ucast_eq take_bit_nat_eq_self)

section \<open>Properties\<close>

text \<open>\<open>fulltest\<close> accepts a hash exactly when, read as a 256-bit little-endian number, it does not
  exceed the target.\<close>

lemma fulltest_is_le:
  assumes "length hash = 8" "length target = 8"
  shows "fulltest hash target = Some (nval hash \<le> nval target)"
  using fulltest_correct [of hash target] assms by simp

text \<open>Hexadecimal text round trip. Decoding the text that \<open>cbin2hex\<close> writes for \<open>n\<close> bytes into a
  buffer of at least \<open>n\<close> bytes succeeds, stores exactly those bytes and leaves the rest alone.\<close>

lemma hex_roundtrip:
  assumes "length bs \<le> length out"
  shows "hex2bin out (cbin2hex bs) (length bs) = Some (True, bs @ drop (length bs) out)"
  using hex2bin_loop_roundtrip [of 0 bs out] assms by (simp add: hex2bin_def splice_def)

text \<open>The time difference is exact: seconds and microseconds of the result add up to the
  difference of the operands, the microseconds are in range for operands in range, and the return
  value tells whether the difference is negative.\<close>

lemma timeval_subtract_exact:
  assumes "timeval_subtract x y = (r, neg, y')"
    "0 \<le> tv_usec x" "tv_usec x < 1000000" "0 \<le> tv_usec y" "tv_usec y < 1000000"
  shows "tv_sec r * 1000000 + tv_usec r =
      (tv_sec x * 1000000 + tv_usec x) - (tv_sec y * 1000000 + tv_usec y) \<and>
    0 \<le> tv_usec r \<and> tv_usec r < 1000000 \<and> (neg \<longleftrightarrow> tv_sec r < 0)"
  using assms by (auto simp: timeval_subtract_def Let_def split: if_splits)

text \<open>Setting a target never leaves the eight words of the array, for any difficulty and any
  floating-point arithmetic, and changes nothing of the work but the target and its difficulty.\<close>

lemma work_set_target_safe:
  assumes "wf_work w"
  shows "\<exists>t. work_set_target F w d = Some (w\<lparr>w_target := t, w_targetdiff := d\<rparr>) \<and> length t = 8"
proof -
  obtain k d' where k: "diff_loop F 6 d = (k, d')" by fastforce
  then have "k \<le> 6" using diff_loop_bound [of F 6 d] by simp
  with assms k show ?thesis
    by (auto simp: wf_work_def work_set_target_def diff_to_target_def mem_simps splice_def Let_def)
qed

text \<open>The upload callback hands out the request in order: as long as the position is inside the
  buffer it copies the next bytes (as many as asked for, at most what is left), advances by that
  many and stays inside.\<close>

lemma upload_in_order:
  assumes "length (ub_buf ub) = unat (ub_len ub)" "unat (ub_len ub) < 2 ^ 32"
    "unat (ub_pos ub) \<le> unat (ub_len ub)"
  shows "\<exists>ub'. upload_data_cb n ub =
      Some (take (unat (ucast n :: u32)) (drop (unat (ub_pos ub)) (ub_buf ub)), ub') \<and>
    unat (ub_pos ub') = unat (ub_pos ub) + min (unat (ucast n :: u32)) (unat (ub_len ub) - unat (ub_pos ub)) \<and>
    unat (ub_pos ub') \<le> unat (ub_len ub) \<and> ub_buf ub' = ub_buf ub \<and> ub_len ub' = ub_len ub"
proof -
  let ?L = "unat (ub_len ub)" and ?P = "unat (ub_pos ub)" and ?m = "ucast n :: u32"
  let ?r = "ub_len ub - ub_pos ub"
  let ?l = "if ucast ?m > ?r then ucast ?r else ?m"
  have r: "unat ?r = ?L - ?P" using assms(3) by (simp add: unat_sub word_le_nat_alt)
  have m: "unat (ucast ?m :: u64) = unat ?m" by (rule unat_ucast_up)
  have "unat (ucast ?r :: u32) = ?L - ?P"
    using r assms(2) by (simp add: unsigned_ucast_eq take_bit_nat_eq_self)
  then have l: "unat ?l = min (unat ?m) (?L - ?P)"
    using m r by (simp add: word_less_nat_alt min_def)
  have "unat (ucast ?l :: u64) = unat ?l" by (rule unat_ucast_up)
  then have p: "unat (ub_pos ub + ucast ?l) = ?P + unat ?l"
    using l assms(2,3) by (subst unat_add_lem [THEN iffD1]) auto
  have t: "take (unat ?m) (drop ?P (ub_buf ub)) = take (unat ?l) (drop ?P (ub_buf ub))"
    using assms(1) l by (cases "unat ?m \<le> ?L - ?P") (auto simp: min_def)
  show ?thesis
  proof (cases "?l = 0")
    case True
    then show ?thesis using l t assms(3) by (auto simp: upload_data_cb_def Let_def)
  next
    case False
    then have "upload_data_cb n ub = Some (take (unat ?l) (drop ?P (ub_buf ub)), ub\<lparr>ub_pos := ub_pos ub + ucast ?l\<rparr>)"
      using l assms(1,3) by (simp only: upload_data_cb_def Let_def mem_simps) simp
    then show ?thesis using p l t assms(3) by simp
  qed
qed

end
