(* ===== verification/Hashlog.thy ===== *)
theory Hashlog
  imports Ordmap Util
begin

text \<open>\<open>hashlog.cpp\<close>: the log of submitted nonces that keeps a share from being submitted twice. The
  global \<open>tlastshares\<close> is passed and returned; \<open>time(NULL)\<close>, the current pool and the share counter of
  the stratum job are arguments.\<close>

type_synonym 'f hashlog = "'f hashlog_data omap"

definition HI_DWORD :: "u64 \<Rightarrow> u32" where "HI_DWORD x = ucast (drop_bit 32 x)"
definition LO_DWORD :: "u64 \<Rightarrow> u32" where "LO_DWORD x = ucast x"
definition MK_HI64 :: "u32 \<Rightarrow> u64" where "MK_HI64 x = 0x100000000 * ucast x"
definition LOG_PURGE_TIMEOUT :: u32 where "LOG_PURGE_TIMEOUT = 5 * 60"

text \<open>\<open>strtoul(s, &ep, 16)\<close> with a 64-bit \<open>unsigned long\<close>: too large a number gives the largest one, and
  a sign negates.\<close>

definition hextouint :: "string \<Rightarrow> u64" where
  "hextouint jobid = (let v = fst (strtol16 jobid) in if \<bar>v\<bar> \<ge> 2 ^ 64 then - 1 else word_of_int v)"

definition share_key :: "string \<Rightarrow> u32 \<Rightarrow> u64" where
  "share_key jobid nonce = push_bit 32 (hextouint jobid) + ucast nonce"

definition job_prefix :: "string option \<Rightarrow> u64" where
  "job_prefix jobid = push_bit 32 (case jobid of Some j \<Rightarrow> hextouint j | None \<Rightarrow> 0xffffffff)"

definition hashlog_get_last_sent :: "'f hashlog \<Rightarrow> string option \<Rightarrow> u32" where
  "hashlog_get_last_sent ts jobid =
     (let keypfx = job_prefix jobid in
      case find (\<lambda>(k, d). (keypfx AND k) = keypfx \<and> hl_tm_sent d \<noteq> 0) (rev ts) of
        Some (k, _) \<Rightarrow> LO_DWORD k | None \<Rightarrow> 0)"

definition hashlog_already_submittted :: "'f hashlog \<Rightarrow> string \<Rightarrow> u32 \<Rightarrow> u32" where
  "hashlog_already_submittted ts jobid nonce =
     (let key = share_key jobid nonce in
      if nonce = 0 then hashlog_get_last_sent ts (Some jobid)
      else case om_find key ts of Some data \<Rightarrow> hl_tm_sent data | None \<Rightarrow> 0)"

definition zero_hashlog :: "'f fops \<Rightarrow> 'f hashlog_data" where
  "zero_hashlog F = \<lparr>hl_npool = 0, hl_pool_type = 0, hl_nonce_id = 0, hl_job_nonce_id = 0, hl_height = 0,
     hl_sharediff = f_lit F 0 0, hl_njobid = 0, hl_nonce = 0, hl_scanned_from = 0, hl_scanned_to = 0,
     hl_last_from = 0, hl_tm_add = 0, hl_tm_upd = 0, hl_tm_sent = 0\<rparr>"

definition hashlog_remember_submit ::
  "'f fops \<Rightarrow> u32 \<Rightarrow> nat \<Rightarrow> 'f pool_infos list \<Rightarrow> u32 \<Rightarrow> 'f work \<Rightarrow> u32 \<Rightarrow> 'f hashlog \<Rightarrow> 'f hashlog option" where
  "hashlog_remember_submit F now cur_pooln pools shares_count work nonce ts = do {
     let njobid = hextouint (w_job_id work);
     let key = share_key (w_job_id work) nonce;
     let data = zero_hashlog F;
     let data = data\<lparr>hl_nonce_id := w_submit_nonce_id work,
       hl_scanned_from := w_scanned_from work, hl_scanned_to := w_scanned_to work\<rparr>;
     sd \<leftarrow> rd (w_sharediff work) (unat (hl_nonce_id data));
     pool \<leftarrow> rd pools cur_pooln;
     let data = data\<lparr>hl_sharediff := sd, hl_height := w_height work, hl_njobid := ucast njobid,
       hl_tm_add := now, hl_tm_upd := now, hl_tm_sent := now, hl_npool := of_nat cur_pooln,
       hl_pool_type := pool_type pool, hl_job_nonce_id := ucast shares_count\<rparr>;
     Some (om_put key data ts) }"

text \<open>The loop of \<open>hashlog_get_scan_range\<close>; \<open>ret\<close> is 0 until it ends.\<close>

fun scan_range_loop :: "u64 \<Rightarrow> u32 \<Rightarrow> u32 \<Rightarrow> 'f hashlog \<Rightarrow> u32 \<times> u32" where
  "scan_range_loop keypfx sfrom sto [] = (sfrom, sto)"
| "scan_range_loop keypfx sfrom sto ((k, d) # ts) =
     (if (push_bit 32 0xffffffff AND k) = keypfx \<and> hl_scanned_to d > 0
      then scan_range_loop keypfx
             (if hl_scanned_from d < sfrom \<or> sfrom = 0 then hl_scanned_from d else sfrom)
             (if hl_scanned_to d > sto then hl_scanned_to d else sto) ts
      else scan_range_loop keypfx sfrom sto ts)"

definition hashlog_get_scan_range :: "'f hashlog \<Rightarrow> string \<Rightarrow> u64" where
  "hashlog_get_scan_range ts jobid =
     (let (sfrom, sto) = scan_range_loop (job_prefix (Some jobid)) 0 0 ts in ucast sfrom + MK_HI64 sto)"

definition hashlog_remember_scan_range :: "'f fops \<Rightarrow> u32 \<Rightarrow> 'f work \<Rightarrow> 'f hashlog \<Rightarrow> 'f hashlog" where
  "hashlog_remember_scan_range F now work ts =
     (let njobid = hextouint (w_job_id work);
          key = push_bit 32 njobid;
          range = hashlog_get_scan_range ts (w_job_id work);
          (data, ts) = om_index (zero_hashlog F) key ts;
          data = (if range = 0 then (zero_hashlog F)\<lparr>hl_njobid := ucast njobid\<rparr>
                  else data\<lparr>hl_scanned_from := LO_DWORD range, hl_scanned_to := HI_DWORD range\<rparr>);
          data = (if hl_tm_add data = 0 then data\<lparr>hl_tm_add := now\<rparr> else data);
          data = data\<lparr>hl_last_from := w_scanned_from work\<rparr>;
          data = (if w_scanned_from work < w_scanned_to work then
             let data = (if hl_scanned_to data = 0 \<or> w_scanned_from work = hl_scanned_to data + 1
                         then data\<lparr>hl_scanned_to := w_scanned_to work\<rparr> else data)
             in if hl_scanned_from data = 0
                then data\<lparr>hl_scanned_from := (if w_scanned_from work \<noteq> 0 then w_scanned_from work else 1)\<rparr>
                else if w_scanned_from work < hl_scanned_from data \<or> w_scanned_to work = hl_scanned_from data - 1
                then data\<lparr>hl_scanned_from := w_scanned_from work\<rparr> else data
             else data);
          data = data\<lparr>hl_tm_upd := now\<rparr>
      in om_put key data ts)"

definition hashlog_get_sharediff :: "'f hashlog \<Rightarrow> string option \<Rightarrow> int \<Rightarrow> 'f \<Rightarrow> 'f" where
  "hashlog_get_sharediff ts jobid job_nonceid defvalue =
     (let keypfx = job_prefix jobid in
      case find (\<lambda>(k, d). (push_bit 32 0xffffffff AND k) = keypfx \<and>
                   uint (hl_job_nonce_id d) = job_nonceid \<and> hl_tm_sent d \<noteq> 0) (rev ts) of
        Some (_, d) \<Rightarrow> hl_sharediff d | None \<Rightarrow> defvalue)"

definition hashlog_get_history :: "'f hashlog \<Rightarrow> int \<Rightarrow> 'f hashlog_data list" where
  "hashlog_get_history ts max_records =
     map (\<lambda>(k, d). d\<lparr>hl_nonce := LO_DWORD k, hl_njobid := HI_DWORD k\<rparr>) (take (nat max_records) (rev ts))"

definition hashlog_purge_job :: "string \<Rightarrow> 'f hashlog \<Rightarrow> 'f hashlog" where
  "hashlog_purge_job jobid ts =
     (let keypfx = job_prefix (Some jobid) in om_erase_if (\<lambda>k _. (keypfx AND k) = keypfx) ts)"

definition hashlog_purge_old :: "u32 \<Rightarrow> 'f hashlog \<Rightarrow> 'f hashlog" where
  "hashlog_purge_old now ts = om_erase_if (\<lambda>_ d. now - hl_tm_sent d > LOG_PURGE_TIMEOUT) ts"

definition hashlog_purge_all :: "'f hashlog \<Rightarrow> 'f hashlog" where
  "hashlog_purge_all ts = []"

definition hashlog_getmeminfo :: "'f hashlog \<Rightarrow> u64 \<times> u32" where
  "hashlog_getmeminfo ts = (let records = (of_nat (length ts) :: u32) in (ucast records * 48, records))"

section \<open>Keys\<close>

text \<open>The job number in the upper half and the nonce in the lower half never mix.\<close>

lemma share_key_or: "share_key j n = push_bit 32 (hextouint j) OR ucast n"
  unfolding share_key_def
  by (rule disjunctive_add_eq_or, rule bit_word_eqI) (auto simp: bit_simps dest: bit_imp_le_length)

lemma share_key_halves: "LO_DWORD (share_key j n) = n" "HI_DWORD (share_key j n) = ucast (hextouint j)"
  by (rule bit_word_eqI, auto simp: share_key_or LO_DWORD_def HI_DWORD_def bit_simps dest: bit_imp_le_length)+

lemma share_key_inj:
  "share_key j n = share_key j' n' \<longleftrightarrow> (ucast (hextouint j) :: u32) = ucast (hextouint j') \<and> n = n'"
proof
  assume r: "(ucast (hextouint j) :: u32) = ucast (hextouint j') \<and> n = n'"
  have "push_bit 32 (hextouint j) = push_bit 32 (hextouint j')"
  proof (rule bit_word_eqI)
    fix k assume k: "k < LENGTH(64)"
    have "bit (ucast (hextouint j) :: u32) (k - 32) = bit (ucast (hextouint j') :: u32) (k - 32)" using r by simp
    then show "bit (push_bit 32 (hextouint j)) k = bit (push_bit 32 (hextouint j')) k"
      using k by (auto simp: bit_simps)
  qed
  then show "share_key j n = share_key j' n'" using r by (simp add: share_key_def)
qed (metis share_key_halves)

text \<open>A key belongs to the job that its upper half names.\<close>

lemma prefix_mask: "(push_bit 32 0xffffffff AND k) = push_bit 32 j \<longleftrightarrow> HI_DWORD k = ucast (j :: u64)"
proof
  have m: "(push_bit 32 0xffffffff :: u64) = push_bit 32 (mask 32)" by (simp add: mask_eq_exp_minus_1)
  { assume a: "(push_bit 32 0xffffffff AND k) = push_bit 32 j"
    show "HI_DWORD k = ucast j"
    proof (rule bit_word_eqI)
      fix i assume i: "i < LENGTH(32)"
      have "bit (push_bit 32 (mask 32) AND k) (i + 32) = bit (push_bit 32 j) (i + 32)" using a m by simp
      then show "bit (HI_DWORD k) i = bit (ucast j :: u32) i"
        using i by (simp add: HI_DWORD_def bit_simps add.commute)
    qed }
  { assume a: "HI_DWORD k = ucast j"
    show "(push_bit 32 0xffffffff AND k) = push_bit 32 j"
    proof (rule bit_word_eqI)
      fix i assume i: "i < LENGTH(64)"
      have "bit (HI_DWORD k) (i - 32) = bit (ucast j :: u32) (i - 32)" using a by simp
      then show "bit (push_bit 32 0xffffffff AND k) i = bit (push_bit 32 j) i"
        unfolding m using i by (cases "32 \<le> i") (auto simp: HI_DWORD_def bit_simps)
    qed }
qed

text \<open>What \<open>(keypfx & key) == keypfx\<close> tests: that the job number of the key has every bit of the job.\<close>

lemma prefix_and: "(push_bit 32 j AND k) = push_bit 32 (j :: u64) \<longleftrightarrow> (ucast j AND HI_DWORD k) = ucast j"
proof
  { assume a: "(push_bit 32 j AND k) = push_bit 32 j"
    show "(ucast j AND HI_DWORD k) = ucast j"
    proof (rule bit_word_eqI)
      fix i assume i: "i < LENGTH(32)"
      have "bit (push_bit 32 j AND k) (i + 32) = bit (push_bit 32 j) (i + 32)" using a by simp
      then show "bit (ucast j AND HI_DWORD k) i = bit (ucast j :: u32) i"
        using i by (simp add: HI_DWORD_def bit_simps add.commute)
    qed }
  { assume a: "(ucast j AND HI_DWORD k) = (ucast j :: u32)"
    show "(push_bit 32 j AND k) = push_bit 32 j"
    proof (rule bit_word_eqI)
      fix i assume i: "i < LENGTH(64)"
      have "bit (ucast j AND HI_DWORD k) (i - 32) = bit (ucast j :: u32) (i - 32)" using a by simp
      then show "bit (push_bit 32 j AND k) i = bit (push_bit 32 j) i"
        using i by (cases "32 \<le> i") (auto simp: HI_DWORD_def bit_simps)
    qed }
qed

lemma job_prefix_key: "job_prefix (Some j) = push_bit 32 (hextouint j)"
  by (simp add: job_prefix_def)

interpretation hl: expiring_log "\<lambda>now d. now - hl_tm_sent d > LOG_PURGE_TIMEOUT" hashlog_purge_old
  by unfold_locales (simp_all add: hashlog_purge_old_def om_find_erase)

section \<open>The scanned range of a job\<close>

definition job_records :: "string \<Rightarrow> 'f hashlog \<Rightarrow> 'f hashlog_data list" where
  "job_records j ts = map snd (filter (\<lambda>(k, d). HI_DWORD k = ucast (hextouint j) \<and> hl_scanned_to d > 0) ts)"

lemma Max_max: "finite S \<Longrightarrow> Max (insert (max a b) S) = Max (insert a (insert (b :: u32) S))"
  by (cases "S = {}") (simp_all add: max.assoc)

lemma Min_min: "finite S \<Longrightarrow> Min (insert (min a b) S) = Min (insert a (insert (b :: u32) S))"
  by (cases "S = {}") (simp_all add: min.assoc)

lemma job_records_Cons:
  "job_records j ((k, d) # ts) = (if HI_DWORD k = ucast (hextouint j) \<and> hl_scanned_to d > 0
      then d # job_records j ts else job_records j ts)"
  by (simp add: job_records_def)

lemma scan_range_Cons:
  "scan_range_loop (job_prefix (Some j)) f t ((k, d) # ts) =
     (if HI_DWORD k = ucast (hextouint j) \<and> hl_scanned_to d > 0
      then scan_range_loop (job_prefix (Some j)) (if f = 0 then hl_scanned_from d else min f (hl_scanned_from d))
        (max t (hl_scanned_to d)) ts
      else scan_range_loop (job_prefix (Some j)) f t ts)"
proof -
  have "(if hl_scanned_from d < f \<or> f = 0 then hl_scanned_from d else f) =
      (if f = 0 then hl_scanned_from d else min f (hl_scanned_from d))"
    "(if hl_scanned_to d > t then hl_scanned_to d else t) = max t (hl_scanned_to d)"
    by (auto simp: min_def max_def)
  then show ?thesis unfolding scan_range_loop.simps job_prefix_key prefix_mask by simp
qed

lemma scan_range_to:
  "snd (scan_range_loop (job_prefix (Some j)) f t ts) = Max (insert t (hl_scanned_to ` set (job_records j ts)))"
proof (induction ts arbitrary: f t)
  case (Cons e ts)
  obtain k d where e: "e = (k, d)" by (cases e)
  show ?case unfolding e scan_range_Cons job_records_Cons using Cons by (simp add: Max_max)
qed (simp add: job_records_def)

lemma scan_range_from:
  assumes "\<forall>d \<in> set (job_records j ts). hl_scanned_from d \<noteq> 0"
  shows "fst (scan_range_loop (job_prefix (Some j)) f t ts) =
    (let s = hl_scanned_from ` set (job_records j ts) in if f = 0 then if s = {} then 0 else Min s else Min (insert f s))"
  using assms
proof (induction ts arbitrary: f t)
  case (Cons e ts)
  obtain k d where e: "e = (k, d)" by (cases e)
  show ?case
  proof (cases "HI_DWORD k = ucast (hextouint j) \<and> hl_scanned_to d > 0")
    case True
    then have "hl_scanned_from d \<noteq> 0" "\<forall>d \<in> set (job_records j ts). hl_scanned_from d \<noteq> 0"
      using Cons.prems by (simp_all add: e job_records_Cons)
    moreover from this have "min f (hl_scanned_from d) \<noteq> 0" if "f \<noteq> 0" using that by (simp add: min_def)
    ultimately show ?thesis unfolding e scan_range_Cons job_records_Cons
      using True Cons.IH by (simp add: Let_def Min_min)
  next
    case False
    then have "scan_range_loop (job_prefix (Some j)) f t (e # ts) = scan_range_loop (job_prefix (Some j)) f t ts"
      "job_records j (e # ts) = job_records j ts" unfolding e scan_range_Cons job_records_Cons by (simp_all only: if_False)
    then show ?thesis using Cons by simp
  qed
qed (simp add: job_records_def)

lemma range_halves: "LO_DWORD (ucast f + MK_HI64 t) = f" "HI_DWORD (ucast f + MK_HI64 t) = t"
proof -
  have "MK_HI64 t = push_bit 32 (ucast t)" by (simp add: MK_HI64_def push_bit_eq_mult mult.commute)
  moreover have "ucast f + push_bit 32 (ucast t :: u64) = ucast f OR push_bit 32 (ucast t)"
    by (rule disjunctive_add_eq_or, rule bit_word_eqI) (auto simp: bit_simps dest: bit_imp_le_length)
  ultimately have *: "ucast f + MK_HI64 t = ucast f OR push_bit 32 (ucast t)" by simp
  show "LO_DWORD (ucast f + MK_HI64 t) = f" "HI_DWORD (ucast f + MK_HI64 t) = t"
    unfolding * by (rule bit_word_eqI, auto simp: LO_DWORD_def HI_DWORD_def bit_simps dest: bit_imp_le_length)+
qed

section \<open>Properties\<close>

text \<open>C15: a submitted share is remembered. After \<open>hashlog_remember_submit\<close> the log stays ordered,
  \<open>hashlog_already_submittted\<close> gives the time of the submission for that job and nonce, also after any
  purge within the timeout, and every other share, of this job or of a job with another number, is
  answered as before.\<close>

theorem submit_is_remembered:
  assumes "om_ok ts" "wf_work work" "unat (w_submit_nonce_id work) < MAX_NONCES" "cur_pooln < length pools" "nonce \<noteq> 0"
    "later - now \<le> LOG_PURGE_TIMEOUT"
  shows "\<exists>ts'. hashlog_remember_submit F now cur_pooln pools shares work nonce ts = Some ts' \<and> om_ok ts' \<and>
    hashlog_already_submittted ts' (w_job_id work) nonce = now \<and>
    hashlog_already_submittted (hashlog_purge_old later ts') (w_job_id work) nonce = now \<and>
    (\<forall>j n. n \<noteq> 0 \<longrightarrow> n \<noteq> nonce \<or> (ucast (hextouint j) :: u32) \<noteq> ucast (hextouint (w_job_id work)) \<longrightarrow>
      hashlog_already_submittted ts' j n = hashlog_already_submittted ts j n)"
proof -
  obtain sd where "rd (w_sharediff work) (unat (w_submit_nonce_id work)) = Some sd"
    using assms(2,3) by (simp add: wf_work_def mem_simps)
  moreover obtain pool where "rd pools cur_pooln = Some pool" using assms(4) by (simp add: mem_simps)
  ultimately obtain d where d: "hashlog_remember_submit F now cur_pooln pools shares work nonce ts =
      Some (om_put (share_key (w_job_id work) nonce) d ts)" "hl_tm_sent d = now"
    by (simp add: hashlog_remember_submit_def zero_hashlog_def Let_def)
  let ?ts = "om_put (share_key (w_job_id work) nonce) d ts"
  have f: "om_find (share_key j n) ?ts = (if share_key j n = share_key (w_job_id work) nonce then Some d else
      om_find (share_key j n) ts)" for j n
    using om_find_put [OF assms(1)] by simp
  have p: "om_find (share_key (w_job_id work) nonce) (hashlog_purge_old later ?ts) = Some d"
    using assms(1,6) d(2) f by (intro hl.purge_keeps) auto
  show ?thesis
    using d f p assms(1,5) by (auto simp: hashlog_already_submittted_def share_key_inj)
qed

theorem submit_is_remembered_witness:
  "\<forall>p. \<exists>ts'. hashlog_remember_submit int_fops 1000 0 [p] 7 ((zero_work (0 :: int))\<lparr>w_job_id := ''3f''\<rparr>) 9 [] = Some ts' \<and> om_ok ts' \<and>
    hashlog_already_submittted ts' (w_job_id ((zero_work (0 :: int))\<lparr>w_job_id := ''3f''\<rparr>)) 9 = 1000 \<and>
    hashlog_already_submittted (hashlog_purge_old 1200 ts') (w_job_id ((zero_work (0 :: int))\<lparr>w_job_id := ''3f''\<rparr>)) 9 = 1000 \<and>
    (\<forall>j n. n \<noteq> 0 \<longrightarrow> n \<noteq> 9 \<or> (ucast (hextouint j) :: u32) \<noteq> ucast (hextouint (w_job_id ((zero_work (0 :: int))\<lparr>w_job_id := ''3f''\<rparr>))) \<longrightarrow>
      hashlog_already_submittted ts' j n = hashlog_already_submittted ([] :: int hashlog) j n)"
  by (rule allI, rule submit_is_remembered) (simp_all add: zero_work_def wf_work_def MAX_NONCES_def LOG_PURGE_TIMEOUT_def)

text \<open>\<open>hashlog_get_scan_range\<close> gives the hull of the ranges recorded for the job: the upper half is
  the largest end among the job's records, the lower half the least start, when every start is
  positive; both are 0 when the job has no record.\<close>

lemma scan_range_is_hull:
  assumes "\<forall>d \<in> set (job_records j ts). hl_scanned_from d \<noteq> 0"
  shows "HI_DWORD (hashlog_get_scan_range ts j) = Max (insert 0 (hl_scanned_to ` set (job_records j ts))) \<and>
    LO_DWORD (hashlog_get_scan_range ts j) =
      (if job_records j ts = [] then 0 else Min (hl_scanned_from ` set (job_records j ts)))"
proof -
  obtain f t where l: "scan_range_loop (job_prefix (Some j)) 0 0 ts = (f, t)" by (cases "scan_range_loop (job_prefix (Some j)) 0 0 ts")
  then have "hashlog_get_scan_range ts j = ucast f + MK_HI64 t" by (simp add: hashlog_get_scan_range_def)
  then show ?thesis
    using scan_range_from [OF assms, of 0 0] scan_range_to [of j 0 0 ts] l range_halves [of f t] by simp
qed

definition range_log :: "int hashlog" where
  "range_log = [(share_key ''2'' 0, (zero_hashlog int_fops)\<lparr>hl_scanned_from := 5, hl_scanned_to := 8\<rparr>),
     (share_key ''2'' 7, (zero_hashlog int_fops)\<lparr>hl_scanned_from := 3, hl_scanned_to := 6\<rparr>)]"

text \<open>What \<open>hashlog_purge_job\<close> removes: every record of the job, and beside them exactly the
  records of the jobs whose number has all the bits of the job's number.\<close>

lemma purge_job_exact:
  assumes "om_ok ts"
  shows "om_ok (hashlog_purge_job j ts) \<and>
    set (hashlog_purge_job j ts) = {(k, d) \<in> set ts. (ucast (hextouint j) AND HI_DWORD k) \<noteq> ucast (hextouint j)} \<and>
    filter (\<lambda>(k, d). HI_DWORD k = ucast (hextouint j)) (hashlog_purge_job j ts) = []"
proof -
  have "set (hashlog_purge_job j ts) = {(k, d) \<in> set ts. (ucast (hextouint j) AND HI_DWORD k) \<noteq> ucast (hextouint j)}"
    by (auto simp: hashlog_purge_job_def om_erase_filter job_prefix_key prefix_and)
  moreover have "om_ok (hashlog_purge_job j ts)" using assms by (simp add: hashlog_purge_job_def Let_def)
  ultimately show ?thesis by (auto simp: filter_empty_conv)
qed

text \<open>Two consequences for the log. Purging job 1 forgets the shares of job 3, and a purge of old
  records drops the scanned range of a job that was updated just now, since the record of a range has
  no time of sending.\<close>

lemma purge_job_forgets_others:
  assumes "ucast (hextouint j) = (1 :: u32)" "ucast (hextouint j') = (3 :: u32)"
  shows "hashlog_purge_job j [(share_key j' n, d)] = []"
  using assms by (simp add: hashlog_purge_job_def job_prefix_key prefix_and share_key_halves)

lemma purge_old_drops_ranges:
  assumes "om_ok ts" "om_find k ts = Some d" "hl_tm_sent d = 0" "now > LOG_PURGE_TIMEOUT"
  shows "om_find k (hashlog_purge_old now ts) = None"
  using hl.purge_find [OF assms(1)] assms by simp

end
