(* ===== verification/Stratum.thy ===== *)
theory Stratum
  imports Linebuf Hashlog
begin

text \<open>The stratum protocol: the message handlers of \<open>util.cpp\<close>, the Verus messages of
  \<open>verus/stratum.cpp\<close> and the header assembly \<open>stratum_gen_work\<close> of \<open>ccminer.cpp\<close>. JSON values and the
  functions of the jansson library are arguments, collected in a record; so are the clock, the
  success of sending and of allocation, \<open>ldexp\<close> and the contents of uninitialised memory. Dereferencing
  a null pointer or leaving an array is the value None.\<close>

section \<open>The library and the environment\<close>

text \<open>The jansson functions used; a null pointer is None.\<close>

record ('j, 'f) jansson =
  json_loads :: "string \<Rightarrow> 'j option"
  json_dumps :: "'j \<Rightarrow> string"
  json_array_get :: "'j option \<Rightarrow> nat \<Rightarrow> 'j option"
  json_array_size :: "'j option \<Rightarrow> nat"
  json_object_get :: "'j option \<Rightarrow> string \<Rightarrow> 'j option"
  json_string_value :: "'j option \<Rightarrow> string option"
  json_integer_value :: "'j option \<Rightarrow> int"
  json_number_value :: "'j option \<Rightarrow> 'f"
  json_is_true :: "'j option \<Rightarrow> bool"
  json_is_false :: "'j option \<Rightarrow> bool"
  json_is_null :: "'j option \<Rightarrow> bool"
  json_is_array :: "'j option \<Rightarrow> bool"
  json_is_string :: "'j option \<Rightarrow> bool"
  json_is_integer :: "'j option \<Rightarrow> bool"
  json_is_object :: "'j option \<Rightarrow> bool"
  json_is_real :: "'j option \<Rightarrow> bool"
  json_real_value :: "'j option \<Rightarrow> 'f"
  json_object_of :: "(string \<times> 'j) list \<Rightarrow> 'j"
  json_null :: 'j
  json_true :: 'j
  json_false :: 'j
  json_string :: "string \<Rightarrow> 'j"
  json_integer :: "int \<Rightarrow> 'j"
  json_object_set_new :: "'j \<Rightarrow> string \<Rightarrow> 'j \<Rightarrow> 'j"

record ('j, 'f) senv =
  sv_J :: "('j, 'f) jansson"
  sv_F :: "'f fops"
  sv_ldexp :: "'f \<Rightarrow> int \<Rightarrow> 'f"
  sv_now :: int
  sv_algo :: string               \<comment> \<open>what \<open>get_currentalgo\<close> writes\<close>
  sv_send :: "string \<Rightarrow> bool"      \<comment> \<open>whether \<open>stratum_send_line\<close> succeeds\<close>
  sv_alloc :: bool                \<comment> \<open>whether \<open>calloc\<close> succeeds\<close>
  sv_junk :: "nat \<Rightarrow> u8"           \<comment> \<open>uninitialised memory\<close>
  sv_agent :: string              \<comment> \<open>\<open>USER_AGENT\<close>\<close>
  sv_extranonce :: bool           \<comment> \<open>\<open>opt_extranonce\<close>\<close>

text \<open>The connection: the context, the \<open>disconnects\<close> counters of the pools, the
  lines sent, whether the miner threads were asked to restart, and what arrives: for each wait the
  answer of \<open>socket_full\<close> and the result of \<open>stratum_recv_line\<close>.\<close>

record 'f conn =
  cn_ctx :: "'f stratum_ctx"
  cn_disconnects :: "u32 list"
  cn_sent :: "string list"
  cn_restart :: bool
  cn_inbox :: "(bool \<times> string option) list"

definition upd_job :: "('f stratum_job \<Rightarrow> 'f stratum_job) \<Rightarrow> 'f stratum_ctx \<Rightarrow> 'f stratum_ctx" where
  "upd_job g c = c\<lparr>ctx_job := g (ctx_job c)\<rparr>"

definition upd_ctx :: "('f stratum_ctx \<Rightarrow> 'f stratum_ctx) \<Rightarrow> 'f conn \<Rightarrow> 'f conn" where
  "upd_ctx g c = c\<lparr>cn_ctx := g (cn_ctx c)\<rparr>"

definition int32 :: "int \<Rightarrow> int" where
  "int32 i = sint (word_of_int i :: u32)"

definition in_int32 :: "int \<Rightarrow> bool" where
  "in_int32 i \<longleftrightarrow> - (2 ^ 31) \<le> i \<and> i < 2 ^ 31"

definition junk_bytes :: "('j, 'f) senv \<Rightarrow> nat \<Rightarrow> bytes" where
  "junk_bytes E n = map (sv_junk E) [0..<n]"

text \<open>\<open>realloc\<close> keeps the beginning; what it adds is not initialised.\<close>

definition realloc :: "('j, 'f) senv \<Rightarrow> bytes option \<Rightarrow> nat \<Rightarrow> bytes" where
  "realloc E old n = take n ((case old of None \<Rightarrow> [] | Some b \<Rightarrow> b) @ junk_bytes E n)"

text \<open>A call of \<open>hex2bin\<close> on part of an array, the result of which is not looked at.\<close>

definition hex_into :: "bytes \<Rightarrow> nat \<Rightarrow> string \<Rightarrow> nat \<Rightarrow> bytes option" where
  "hex_into buf off s n = do {
     (_, part) \<leftarrow> hex2bin (drop off buf) s n;
     Some (take off buf @ part) }"

text \<open>Decimal numbers: \<open>%d\<close>, and \<open>atoi\<close> as a truncated \<open>strtol\<close>.\<close>

fun dec_nat :: "nat \<Rightarrow> string" where
  "dec_nat n = (if n < 10 then [char_of (48 + n)] else dec_nat (n div 10) @ [char_of (48 + n mod 10)])"

declare dec_nat.simps [simp del]

definition dec_int :: "int \<Rightarrow> string" where
  "dec_int i = (if i < 0 then CHR ''-'' # dec_nat (nat (- i)) else dec_nat (nat i))"

definition c_isdigit :: "char \<Rightarrow> bool" where
  "c_isdigit c \<longleftrightarrow> 48 \<le> c_code c \<and> c_code c \<le> 57"

definition dec_val :: "string \<Rightarrow> nat" where
  "dec_val s = foldl (\<lambda>n c. 10 * n + (c_code c - 48)) 0 (takeWhile c_isdigit s)"

definition atoi :: "string \<Rightarrow> int" where
  "atoi s =
     (let t = dropWhile isspace s;
          neg = (t \<noteq> [] \<and> hd t = CHR ''-'');
          u = (if t \<noteq> [] \<and> (hd t = CHR ''-'' \<or> hd t = CHR ''+'') then tl t else t);
          v = (if neg then - int (dec_val u) else int (dec_val u))
      in int32 (max (- (2 ^ 63)) (min (2 ^ 63 - 1) v)))"

section \<open>Sending\<close>

definition stratum_send_line :: "('j, 'f) senv \<Rightarrow> string \<Rightarrow> 'f conn \<Rightarrow> bool \<times> 'f conn" where
  "stratum_send_line E s c = (if sv_send E s then (True, c\<lparr>cn_sent := cn_sent c @ [s]\<rparr>) else (False, c))"

definition reply :: "('j, 'f) senv \<Rightarrow> (string \<times> 'j) list \<Rightarrow> 'f conn \<Rightarrow> bool \<times> 'f conn" where
  "reply E kvs c = stratum_send_line E (json_dumps (sv_J E) (json_object_of (sv_J E) kvs)) c"

section \<open>Verus messages\<close>

definition target_to_diff_verus :: "('j, 'f) senv \<Rightarrow> u32 \<Rightarrow> 'f" where
  "target_to_diff_verus E target =
     (let exponent_diff = 8 * (0x20 - (drop_bit 24 target AND 0xFF));
          significand = f_of_int (sv_F E) (uint (target AND 0xFFFFFF))
      in sv_ldexp E (f_div (sv_F E) (f_of_int (sv_F E) 0x0f0f0f) significand) (sint exponent_diff))"

definition verus_network_diff :: "('j, 'f) senv \<Rightarrow> 'f work \<Rightarrow> 'f option" where
  "verus_network_diff E work = do { nbits \<leftarrow> rd (w_data work) 26; Some (target_to_diff_verus E nbits) }"

definition verus_work_set_target :: "'f work \<Rightarrow> 'f \<Rightarrow> 'f work" where
  "verus_work_set_target work diff = work\<lparr>w_targetdiff := diff\<rparr>"

text \<open>The loop over the 32 bytes of the target: it stops after eight non-zero bytes. The result is
  \<open>target_be\<close> and the index of \<open>bits_start\<close>.\<close>

fun target_loop :: "bytes \<Rightarrow> nat \<Rightarrow> nat \<Rightarrow> nat option \<Rightarrow> bytes \<Rightarrow> bytes \<times> nat option" where
  "target_loop [] i filled start be = (be, start)"
| "target_loop (b # bs) i filled start be =
     (if filled = 8 then (be, start)
      else let be = be[31 - i := b] in
        if b \<noteq> 0 then target_loop bs (i + 1) (filled + 1) (if start = None then Some i else start) be
        else target_loop bs (i + 1) filled start be)"

text \<open>Of \<open>target_bits\<close> the fourth byte is not initialised when the exponent is put into it.\<close>

definition verus_stratum_set_target :: "('j, 'f) senv \<Rightarrow> 'j option \<Rightarrow> 'f stratum_ctx \<Rightarrow> (bool \<times> 'f stratum_ctx) option" where
  "verus_stratum_set_target E params c =
     (case json_string_value (sv_J E) (json_array_get (sv_J E) params 0) of
        None \<Rightarrow> Some (False, c)
      | Some target_hex \<Rightarrow>
          if target_hex = [] then Some (False, c)
          else do {
            (_, target_bin) \<leftarrow> hex2bin (junk_bytes E 32) target_hex 32;
            let (target_be, bits_start) = target_loop target_bin 0 0 None (replicate 32 0);
            start \<leftarrow> bits_start;
            let padding = 31 - start;
            let exponent = ((padding * 8 + 1) + 7) div 8;
            if exponent < 3 then None
            else do {
              coeff \<leftarrow> rdn target_be (exponent - 3) 3;
              let target_bits = (of_le (coeff @ [sv_junk E 0]) :: u32) OR push_bit 24 (of_nat exponent);
              extra \<leftarrow> wrn (job_extra (ctx_job c)) 0 target_be;
              Some (True, (upd_job (job_extra_update (\<lambda>_. extra)) c)\<lparr>ctx_next_diff := target_to_diff_verus E target_bits\<rparr>) } })"

text \<open>What both \<open>notify\<close> handlers do with the clock of the server.\<close>

definition store_srvtime :: "int \<Rightarrow> 'f stratum_ctx \<Rightarrow> 'f stratum_ctx" where
  "store_srvtime ntime c = (if ntime > ctx_srvtime_diff c then c\<lparr>ctx_srvtime_diff := ntime\<rparr> else c)"

definition verus_stratum_notify :: "('j, 'f) senv \<Rightarrow> 'j option \<Rightarrow> 'f stratum_ctx \<Rightarrow> (bool \<times> 'f stratum_ctx) option" where
  "verus_stratum_notify E params c =
     (let str = (\<lambda>i. json_string_value (sv_J E) (json_array_get (sv_J E) params i));
          clean = json_is_true (sv_J E) (json_array_get (sv_J E) params 7)
      in case (str 0, str 1, str 2, str 3, str 4, str 5, str 6) of
        (Some job_id, Some version, Some prevhash, Some coinb1, Some coinb2, Some stime, Some nbits) \<Rightarrow>
          if length prevhash \<noteq> 64 \<or> length version \<noteq> 8 \<or> length coinb1 \<noteq> 64 \<or> length coinb2 \<noteq> 64 \<or>
             length nbits \<noteq> 8 \<or> length stime \<noteq> 8
          then Some (False, c)
          else do {
            solution \<leftarrow> str 8;
            sol \<leftarrow> hex_into (job_solution (ctx_job c)) 0 solution 1344;
            let c = upd_job (job_solution_update (\<lambda>_. sol)) c;
            (_, nt) \<leftarrow> hex2bin (junk_bytes E 4) stime 4;
            let ntime = sint (of_le nt :: u32) - int32 (sv_now E);
            if \<not> in_int32 ntime then None
            else do {
              let c = store_srvtime ntime c;
              let j = ctx_job c;
              ver \<leftarrow> hex_into (job_version j) 0 version 4;
              prev \<leftarrow> hex_into (job_prevhash j) 0 prevhash 32;
              let coinb1_size = length coinb1 div 2;
              let coinb2_size = length coinb2 div 2;
              let size = coinb1_size + coinb2_size + ctx_xnonce1_size c + ctx_xnonce2_size c;
              let cb = realloc E (job_coinbase j) size;
              cb \<leftarrow> hex_into cb 0 coinb1 coinb1_size;
              cb \<leftarrow> hex_into cb coinb1_size coinb2 coinb2_size;
              let xn2 = coinb1_size + coinb2_size + ctx_xnonce1_size c;
              cb \<leftarrow> (if job_job_id j \<noteq> Some job_id then wrn cb xn2 (replicate (ctx_xnonce2_size c) 0) else Some cb);
              xn1 \<leftarrow> (if ctx_xnonce1_size c = 0 then Some [] else do { x \<leftarrow> ctx_xnonce1 c; rdn x 0 (ctx_xnonce1_size c) });
              cb \<leftarrow> wrn cb (coinb1_size + coinb2_size) xn1;
              nb \<leftarrow> hex_into (job_nbits j) 0 nbits 4;
              nt \<leftarrow> hex_into (job_ntime j) 0 stime 4;
              Some (True, c\<lparr>ctx_job := j\<lparr>job_version := ver, job_prevhash := prev, job_coinbase_size := size,
                job_coinbase := Some cb, job_xnonce2 := xn2, job_merkle := [], job_merkle_count := 0,
                job_job_id := Some job_id, job_nbits := nb, job_ntime := nt, job_clean := clean,
                job_diff := ctx_next_diff c\<rparr>\<rparr>) } }
      | _ \<Rightarrow> Some (False, c))"

text \<open>\<open>sscanf(data, "equihash %s block %u", symbol, &height)\<close> with \<open>char symbol[32]\<close>: the number of
  conversions and the height.\<close>

definition scan_lit :: "string \<Rightarrow> string \<Rightarrow> string option" where
  "scan_lit l s = (if take (length l) s = l then Some (drop (length l) s) else None)"

definition scan_uint :: "string \<Rightarrow> u32 option" where
  "scan_uint s =
     (let t = dropWhile isspace s;
          neg = (t \<noteq> [] \<and> hd t = CHR ''-'');
          u = (if t \<noteq> [] \<and> (hd t = CHR ''-'' \<or> hd t = CHR ''+'') then tl t else t)
      in if u = [] \<or> \<not> c_isdigit (hd u) then None
         else let v = min (2 ^ 64 - 1) (dec_val u) in Some (if neg then - of_nat v else of_nat v))"

definition scan_height :: "string \<Rightarrow> (nat \<times> u32) option" where
  "scan_height data = (case scan_lit ''equihash'' data of
     None \<Rightarrow> Some (0, 0)
   | Some r \<Rightarrow>
       let r = dropWhile isspace r; symbol = takeWhile (\<lambda>c. \<not> isspace c) r; r = dropWhile (\<lambda>c. \<not> isspace c) r
       in if symbol = [] then Some (0, 0)
          else if length symbol > 31 then None
          else case scan_lit ''block'' (dropWhile isspace r) of
            None \<Rightarrow> Some (1, 0)
          | Some r \<Rightarrow> (case scan_uint r of None \<Rightarrow> Some (1, 0) | Some h \<Rightarrow> Some (2, h)))"

text \<open>The answer that acknowledges a message with an \<open>id\<close>.\<close>

definition ack :: "('j, 'f) senv \<Rightarrow> 'j option \<Rightarrow> 'f conn \<Rightarrow> bool \<times> 'f conn" where
  "ack E mid c = (case mid of
     None \<Rightarrow> (True, c)
   | Some i \<Rightarrow> if json_is_null (sv_J E) mid then (True, c)
       else reply E [(''id'', i), (''error'', json_null (sv_J E)), (''result'', json_true (sv_J E))] c)"

definition verus_stratum_show_message :: "('j, 'f) senv \<Rightarrow> 'j option \<Rightarrow> 'j option \<Rightarrow> 'f conn \<Rightarrow> (bool \<times> 'f conn) option" where
  "verus_stratum_show_message E mid params c = do {
     c \<leftarrow> (case json_array_get (sv_J E) params 0 of
        None \<Rightarrow> Some c
      | Some v \<Rightarrow> (case json_string_value (sv_J E) (Some v) of
          None \<Rightarrow> Some c
        | Some data \<Rightarrow> if data = [] then Some c
            else do {
              (ss, height) \<leftarrow> scan_height data;
              Some (if height \<noteq> 0 \<and> ss > 1 then upd_ctx (upd_job (job_height_update (\<lambda>_. height))) c else c) }));
     Some (ack E mid c) }"

section \<open>Jobs\<close>

definition zero_job :: "'f fops \<Rightarrow> 'f stratum_job" where
  "zero_job F = \<lparr>job_job_id = None, job_prevhash = replicate 32 0, job_coinbase_size = 0, job_coinbase = None,
     job_xnonce2 = 0, job_merkle_count = 0, job_merkle = [], job_version = replicate 4 0, job_nbits = replicate 4 0,
     job_ntime = replicate 4 0, job_extra = replicate 64 0, job_clean = False, job_nreward = replicate 2 0,
     job_height = 0, job_shares_count = 0, job_diff = f_lit F 0 0, job_solution = replicate 1344 0\<rparr>"

definition stratum_free_job :: "('j, 'f) senv \<Rightarrow> 'f stratum_ctx \<Rightarrow> 'f stratum_ctx" where
  "stratum_free_job E c = c\<lparr>ctx_job := zero_job (sv_F E)\<rparr>"

definition stratum_disconnect :: "('j, 'f) senv \<Rightarrow> 'f conn \<Rightarrow> 'f conn option" where
  "stratum_disconnect E c = do {
     c \<leftarrow> (if ctx_curl (cn_ctx c) then do {
         n \<leftarrow> rd_int (cn_disconnects c) (ctx_pooln (cn_ctx c));
         Some ((upd_ctx (\<lambda>x. x\<lparr>ctx_curl := False, ctx_sockbuf := []\<rparr>) c)\<lparr>cn_disconnects := (cn_disconnects c)[nat (ctx_pooln (cn_ctx c)) := n + 1]\<rparr>) }
       else Some c);
     Some (if job_job_id (ctx_job (cn_ctx c)) \<noteq> None then upd_ctx (stratum_free_job E) c else c) }"

section \<open>Messages of the pool\<close>

definition stratum_parse_extranonce :: "('j, 'f) senv \<Rightarrow> 'j option \<Rightarrow> nat \<Rightarrow> 'f stratum_ctx \<Rightarrow> (bool \<times> 'f stratum_ctx) option" where
  "stratum_parse_extranonce E params pndx c =
     (case json_string_value (sv_J E) (json_array_get (sv_J E) params pndx) of
        None \<Rightarrow> Some (False, c)
      | Some xnonce1 \<Rightarrow>
          let n = length xnonce1 div 2;
              xn2 = int32 (json_integer_value (sv_J E) (json_array_get (sv_J E) params (pndx + 1)));
              size = (if xn2 = 0 then if sv_algo E = ''verus'' \<and> 3 \<le> n \<and> n \<le> 12 then Some (32 - int n) else None
                      else if xn2 < 2 \<or> xn2 > 16 then None else Some xn2)
          in case size of
            None \<Rightarrow> Some (False, c)
          | Some xn2 \<Rightarrow>
              let c = c\<lparr>ctx_xnonce1_size := n, ctx_xnonce1 := None\<rparr> in
              if \<not> sv_alloc E then Some (False, c)
              else do {
                (_, x) \<leftarrow> hex2bin (replicate n 0) xnonce1 n;
                Some (True, c\<lparr>ctx_xnonce1 := Some x, ctx_xnonce2_size := nat xn2\<rparr>) })"

text \<open>The two loops of \<open>getblocheight\<close> that look for the tag; the bound is one past the last place read.\<close>

fun skip_while :: "(u8 \<Rightarrow> bool) \<Rightarrow> bytes \<Rightarrow> nat \<Rightarrow> nat \<Rightarrow> nat option" where
  "skip_while q cb p 0 = do { b \<leftarrow> rd cb p; Some p }"
| "skip_while q cb p (Suc n) = do { b \<leftarrow> rd cb p; if q b then skip_while q cb (p + 1) n else Some p }"

definition getblocheight :: "bytes \<Rightarrow> u32 option" where
  "getblocheight cb = do {
     p \<leftarrow> skip_while (\<lambda>b. b \<noteq> 0xff) cb 32 128;
     p \<leftarrow> skip_while (\<lambda>b. b = 0xff) cb p (160 - p);
     b1 \<leftarrow> rd cb (p - 1);
     b2 \<leftarrow> (if b1 = 0xff then rd cb (p - 2) else Some 0);
     if b1 = 0xff \<and> b2 = 0xff then do {
       hlen \<leftarrow> rd cb (p + 1);
       lo \<leftarrow> le16dec (drop (p + 2) cb);
       if hlen = 4 then do { hi \<leftarrow> le16dec (drop (p + 4) cb); Some (ucast lo + 0x10000 * ucast hi) }
       else if hlen = 3 then do { hi \<leftarrow> rd cb (p + 4); Some (ucast lo + 0x10000 * ucast hi) }
       else Some (ucast lo)
     } else Some 0 }"

fun merkle_loop :: "('j, 'f) senv \<Rightarrow> 'j option \<Rightarrow> nat \<Rightarrow> nat \<Rightarrow> bytes list \<Rightarrow> bytes list option option" where
  "merkle_loop E arr i 0 branch = Some (Some branch)"
| "merkle_loop E arr i (Suc n) branch =
     (case json_string_value (sv_J E) (json_array_get (sv_J E) arr i) of
        None \<Rightarrow> Some None
      | Some s \<Rightarrow> if length s \<noteq> 64 then Some None
          else do { (_, b) \<leftarrow> hex2bin (junk_bytes E 32) s 32; merkle_loop E arr (i + 1) n (branch @ [b]) })"

definition stratum_notify :: "('j, 'f) senv \<Rightarrow> 'j option \<Rightarrow> 'f stratum_ctx \<Rightarrow> (bool \<times> 'f stratum_ctx) option" where
  "stratum_notify E params c =
     (if ctx_is_equihash c then verus_stratum_notify E params c
      else
        let J = sv_J E;
            str = (\<lambda>i. json_string_value J (json_array_get J params i));
            has_claim = (sv_algo E = ''lbry'');
            has_roots = (sv_algo E = ''phi2'' \<and> json_array_size J params = 10);
            extra_ok = (\<lambda>n. case str 2 of Some e \<Rightarrow> length e = n | None \<Rightarrow> False);
            p = (if has_claim \<or> has_roots then 3 else 2);
            merkle_arr = json_array_get J params (p + 2)
        in if has_claim \<and> \<not> extra_ok 64 \<or> \<not> has_claim \<and> has_roots \<and> \<not> extra_ok 128 then Some (False, c)
        else if merkle_arr = None \<or> \<not> json_is_array J merkle_arr then Some (False, c)
        else case (str 0, str 1, str p, str (p + 1), str (p + 3), str (p + 4), str (p + 5)) of
          (Some job_id, Some prevhash, Some coinb1, Some coinb2, Some version, Some nbits, Some stime) \<Rightarrow>
            if length prevhash \<noteq> 64 \<or> length version \<noteq> 8 \<or> length nbits \<noteq> 8 \<or> length stime \<noteq> 8 then Some (False, c)
            else do {
              (_, nt) \<leftarrow> hex2bin (junk_bytes E 4) stime 4;
              let ntime = sint (swab32 (of_le nt) - word_of_int (sv_now E) :: u32);
              let c = store_srvtime ntime c;
              branch \<leftarrow> merkle_loop E merkle_arr 0 (json_array_size J merkle_arr) [];
              case branch of
                None \<Rightarrow> Some (False, c)
              | Some merkle \<Rightarrow> do {
                  let j = ctx_job c;
                  let n1 = length coinb1 div 2;
                  let n2 = length coinb2 div 2;
                  let size = n1 + ctx_xnonce1_size c + ctx_xnonce2_size c + n2;
                  let cb = realloc E (job_coinbase j) size;
                  let xn2 = n1 + ctx_xnonce1_size c;
                  cb \<leftarrow> hex_into cb 0 coinb1 n1;
                  xn1 \<leftarrow> (if ctx_xnonce1_size c = 0 then Some [] else do { x \<leftarrow> ctx_xnonce1 c; rdn x 0 (ctx_xnonce1_size c) });
                  cb \<leftarrow> wrn cb n1 xn1;
                  cb \<leftarrow> (if job_job_id j \<noteq> Some job_id then wrn cb xn2 (replicate (ctx_xnonce2_size c) 0) else Some cb);
                  cb \<leftarrow> hex_into cb (xn2 + ctx_xnonce2_size c) coinb2 n2;
                  prev \<leftarrow> hex_into (job_prevhash j) 0 prevhash 32;
                  extra \<leftarrow> (if has_claim then do { e \<leftarrow> str 2; hex_into (job_extra j) 0 e 32 } else Some (job_extra j));
                  extra \<leftarrow> (if has_roots then do { e \<leftarrow> str 2; hex_into extra 0 e 64 } else Some extra);
                  height \<leftarrow> getblocheight cb;
                  ver \<leftarrow> hex_into (job_version j) 0 version 4;
                  nb \<leftarrow> hex_into (job_nbits j) 0 nbits 4;
                  nt \<leftarrow> hex_into (job_ntime j) 0 stime 4;
                  solution \<leftarrow> str (p + 7);
                  sol \<leftarrow> hex_into (job_solution j) 0 solution 1344;
                  Some (True, c\<lparr>ctx_job := j\<lparr>job_coinbase_size := size, job_coinbase := Some cb, job_xnonce2 := xn2,
                    job_job_id := Some job_id, job_prevhash := prev, job_extra := extra, job_height := height,
                    job_merkle := merkle, job_merkle_count := length merkle, job_version := ver, job_nbits := nb,
                    job_ntime := nt, job_solution := sol, job_clean := json_is_true J (json_array_get J params (p + 6)),
                    job_diff := ctx_next_diff c\<rparr>\<rparr>) } }
        | _ \<Rightarrow> Some (False, c))"

definition stratum_set_difficulty :: "('j, 'f) senv \<Rightarrow> 'j option \<Rightarrow> 'f stratum_ctx \<Rightarrow> bool \<times> 'f stratum_ctx" where
  "stratum_set_difficulty E params c =
     (let F = sv_F E; diff = json_number_value (sv_J E) (json_array_get (sv_J E) params 0)
      in if f_lt F diff (f_lit F 0 0) \<or> f_eq F diff (f_lit F 0 0) then (False, c)
         else (True, c\<lparr>ctx_next_diff := diff\<rparr>))"

definition stratum_reconnect :: "('j, 'f) senv \<Rightarrow> 'j option \<Rightarrow> 'f conn \<Rightarrow> (bool \<times> 'f conn) option" where
  "stratum_reconnect E params c = do {
     let J = sv_J E;
     let port_val = json_array_get J params 1;
     port \<leftarrow> (if json_is_string J port_val then map_option atoi (json_string_value J port_val)
              else Some (int32 (json_integer_value J port_val)));
     case json_string_value J (json_array_get J params 0) of
       None \<Rightarrow> Some (False, c)
     | Some host \<Rightarrow>
         if port = 0 then Some (False, c)
         else do {
           c \<leftarrow> stratum_disconnect E (upd_ctx (ctx_url_update (\<lambda>_. Some (''stratum+tcp://'' @ host @ '':'' @ dec_int port))) c);
           Some (True, c) } }"

definition no_id :: "('j, 'f) senv \<Rightarrow> 'j option \<Rightarrow> bool" where
  "no_id E mid \<longleftrightarrow> mid = None \<or> json_is_null (sv_J E) mid"

definition stratum_pong :: "('j, 'f) senv \<Rightarrow> 'j option \<Rightarrow> 'f conn \<Rightarrow> bool \<times> 'f conn" where
  "stratum_pong E mid c =
     (if no_id E mid then (False, c)
      else stratum_send_line E (''{\"id\":'' @ dec_int (int32 (json_integer_value (sv_J E) mid)) @
        '',\"result\":\"pong\",\"error\":null}'') c)"

text \<open>The answers to the queries of the pool.\<close>

definition stratum_get_algo :: "('j, 'f) senv \<Rightarrow> 'j option \<Rightarrow> 'f conn \<Rightarrow> bool \<times> 'f conn" where
  "stratum_get_algo E mid c =
     (if no_id E mid then (False, c)
      else reply E [(''id'', the mid), (''error'', json_null (sv_J E)), (''result'', json_string (sv_J E) (sv_algo E))] c)"

definition json_error :: "('j, 'f) senv \<Rightarrow> int \<Rightarrow> string \<Rightarrow> 'j" where
  "json_error E code msg =
     json_object_of (sv_J E) [(''code'', json_integer (sv_J E) code), (''message'', json_string (sv_J E) msg)]"

text \<open>With \<open>opt_stratum_stats\<close> set, \<open>stratum_benchdata\<close> makes JSON strings of the arrays \<open>vid\<close> and \<open>arch\<close>,
  which nothing has written.\<close>

definition stratum_get_stats :: "('j, 'f) senv \<Rightarrow> bool \<Rightarrow> 'j option \<Rightarrow> 'f conn \<Rightarrow> (bool \<times> 'f conn) option" where
  "stratum_get_stats E opt_stratum_stats mid c =
     (if no_id E mid then Some (False, c)
      else if opt_stratum_stats then None
      else Some (reply E [(''id'', the mid), (''error'', json_error E 1 ''disabled'')] c))"

definition stratum_get_version :: "('j, 'f) senv \<Rightarrow> 'j option \<Rightarrow> 'f conn \<Rightarrow> bool \<times> 'f conn" where
  "stratum_get_version E mid c =
     (if no_id E mid then (False, c)
      else reply E [(''id'', the mid), (''result'', json_string (sv_J E) (sv_agent E)), (''error'', json_null (sv_J E))] c)"

definition stratum_show_message :: "('j, 'f) senv \<Rightarrow> 'j option \<Rightarrow> 'j option \<Rightarrow> 'f conn \<Rightarrow> (bool \<times> 'f conn) option" where
  "stratum_show_message E mid params c =
     (if ctx_is_equihash (cn_ctx c) then verus_stratum_show_message E mid params c else Some (ack E mid c))"

definition stratum_unknown_method :: "('j, 'f) senv \<Rightarrow> 'j option \<Rightarrow> 'f conn \<Rightarrow> bool \<times> 'f conn" where
  "stratum_unknown_method E mid c =
     (if no_id E mid then (False, c)
      else reply E [(''id'', the mid), (''result'', json_false (sv_J E)), (''error'', json_error E 38 ''unknown method'')] c)"

definition on_ctx :: "('f stratum_ctx \<Rightarrow> (bool \<times> 'f stratum_ctx) option) \<Rightarrow> 'f conn \<Rightarrow> (bool \<times> 'f conn) option" where
  "on_ctx h c = do { (r, x) \<leftarrow> h (cn_ctx c); Some (r, c\<lparr>cn_ctx := x\<rparr>) }"

definition stratum_handle_method :: "('j, 'f) senv \<Rightarrow> bool \<Rightarrow> string \<Rightarrow> 'f conn \<Rightarrow> (bool \<times> 'f conn) option" where
  "stratum_handle_method E opt_stratum_stats s c =
     (case json_loads (sv_J E) s of
        None \<Rightarrow> Some (False, c)
      | Some val \<Rightarrow>
        (let J = sv_J E; mid = json_object_get J (Some val) ''id''; params = json_object_get J (Some val) ''params'' in
         case json_string_value J (json_object_get J (Some val) ''method'') of
           None \<Rightarrow> Some (False, c)
         | Some m \<Rightarrow>
             if strcaseeq m ''mining.notify'' then do {
               (r, c) \<leftarrow> on_ctx (stratum_notify E params) c; Some (r, c\<lparr>cn_restart := True\<rparr>) }
             else if strcaseeq m ''mining.ping'' then Some (stratum_pong E mid c)
             else if strcaseeq m ''mining.set_difficulty'' then on_ctx (\<lambda>x. Some (stratum_set_difficulty E params x)) c
             else if strcaseeq m ''mining.set_target'' then
               on_ctx (\<lambda>x. verus_stratum_set_target E params (x\<lparr>ctx_is_equihash := True\<rparr>)) c
             else if strcaseeq m ''mining.set_extranonce'' then on_ctx (stratum_parse_extranonce E params 0) c
             else if strcaseeq m ''client.reconnect'' then stratum_reconnect E params c
             else if strcaseeq m ''client.get_algo'' then Some (stratum_get_algo E mid c)
             else if strcaseeq m ''client.get_stats'' then stratum_get_stats E opt_stratum_stats mid c
             else if strcaseeq m ''client.get_version'' then Some (stratum_get_version E mid c)
             else if strcaseeq m ''client.show_message'' then stratum_show_message E mid params c
             else Some (stratum_unknown_method E mid c)))"

section \<open>Sizes are kept\<close>

lemma length_cbin2hex [simp]: "length (cbin2hex bs) = 2 * length bs"
  by (induction bs) (simp_all add: cbin2hex_def sprintf_02x_def)

lemma hex2bin_cbin2hex:
  "length bs = n \<Longrightarrow> n \<le> length out \<Longrightarrow> hex2bin out (cbin2hex bs) n = Some (True, splice out 0 bs)"
  using hex2bin_loop_roundtrip [of 0 bs out] by (simp add: hex2bin_def)

lemma hex_into_cbin2hex:
  "length bs = n \<Longrightarrow> off + n \<le> length buf \<Longrightarrow> hex_into buf off (cbin2hex bs) n = Some (splice buf off bs)"
  by (simp add: hex_into_def hex2bin_cbin2hex splice_def add.commute)

lemma hex2bin_length: "hex2bin out s n = Some (r, out') \<Longrightarrow> length out' = length out"
proof -
  have "hex2bin_loop out p s n = Some (r, out') \<Longrightarrow> length out' = length out" for p
    by (induction out p s n rule: hex2bin_loop.induct)
      (auto simp: Let_def bind_eq_Some_conv wr_eq_Some split: prod.splits if_splits)
  then show "hex2bin out s n = Some (r, out') \<Longrightarrow> length out' = length out" by (simp add: hex2bin_def)
qed

lemma hex_into_length: "hex_into buf off s n = Some b \<Longrightarrow> length b = length buf"
  by (cases "off \<le> length buf") (auto simp: hex_into_def bind_eq_Some_conv dest!: hex2bin_length)

lemma wrn_length: "wrn d off s = Some d' \<Longrightarrow> length d' = length d"
  by (auto simp: wrn_def splice_def split: if_splits)

lemma length_realloc [simp]: "length (realloc E old n) = n"
  by (simp add: realloc_def junk_bytes_def split: option.splits)

lemma length_junk_bytes [simp]: "length (junk_bytes E n) = n"
  by (simp add: junk_bytes_def)

lemmas buf_lengths = hex2bin_length hex_into_length wrn_length

definition wf_job :: "'f stratum_job \<Rightarrow> bool" where
  "wf_job j \<longleftrightarrow> length (job_prevhash j) = 32 \<and> length (job_version j) = 4 \<and> length (job_nbits j) = 4 \<and>
     length (job_ntime j) = 4 \<and> length (job_extra j) = 64 \<and> length (job_nreward j) = 2 \<and> length (job_solution j) = 1344 \<and>
     (job_coinbase j = None \<longleftrightarrow> job_job_id j = None) \<and> (\<forall>cb. job_coinbase j = Some cb \<longrightarrow> length cb = job_coinbase_size j) \<and>
     length (job_merkle j) = job_merkle_count j \<and> list_all (\<lambda>b. length b = 32) (job_merkle j)"

definition wf_ctx :: "'f stratum_ctx \<Rightarrow> bool" where
  "wf_ctx c \<longleftrightarrow> wf_job (ctx_job c) \<and> (\<forall>x. ctx_xnonce1 c = Some x \<longrightarrow> length x = ctx_xnonce1_size c)"

lemma wf_zero_job [simp]: "wf_job (zero_job F)"
  by (simp add: wf_job_def zero_job_def)

lemma wf_store_srvtime [simp]: "ctx_job (store_srvtime t c) = ctx_job c" "ctx_xnonce1 (store_srvtime t c) = ctx_xnonce1 c"
  "ctx_xnonce1_size (store_srvtime t c) = ctx_xnonce1_size c" "ctx_xnonce2_size (store_srvtime t c) = ctx_xnonce2_size c"
  "ctx_next_diff (store_srvtime t c) = ctx_next_diff c"
  by (simp_all add: store_srvtime_def)

lemma target_loop_length: "length (fst (target_loop bs i f s be)) = length be"
  by (induction bs i f s be rule: target_loop.induct) (auto simp: Let_def)


lemma ensures_hex_into [ens]: "(\<And>x. length x = length b \<Longrightarrow> P x) \<Longrightarrow> ensures (hex_into b off s n) P"
  using hex_into_length by (auto simp: ensures_def)

lemma ensures_hex2bin [ens]: "(\<And>r x. length x = length b \<Longrightarrow> P (r, x)) \<Longrightarrow> ensures (hex2bin b s n) P"
  using hex2bin_length by (auto simp: ensures_def)

lemma set_target_wf: "wf_ctx c \<Longrightarrow> ensures (verus_stratum_set_target E p c) (\<lambda>(r, c'). wf_ctx c')"
  unfolding verus_stratum_set_target_def
  by (intro ens ensures_var; simp add: wf_ctx_def wf_job_def upd_job_def)

lemma verus_notify_wf: "wf_ctx c \<Longrightarrow> ensures (verus_stratum_notify E p c) (\<lambda>(r, c'). wf_ctx c')"
  unfolding verus_stratum_notify_def
  by (intro ens ensures_var; simp add: wf_ctx_def wf_job_def upd_job_def)

lemma parse_extranonce_wf: "wf_ctx c \<Longrightarrow> ensures (stratum_parse_extranonce E p k c) (\<lambda>(r, c'). wf_ctx c')"
  unfolding stratum_parse_extranonce_def
  by (intro ens ensures_var; simp add: wf_ctx_def)

lemma merkle_loop_wf:
  "list_all (\<lambda>b. length b = 32) br \<Longrightarrow>
   ensures (merkle_loop E arr i n br) (\<lambda>r. \<forall>m. r = Some m \<longrightarrow> list_all (\<lambda>b. length b = 32) m)"
proof (induction n arbitrary: i br)
  case (Suc n)
  then show ?case by (simp, intro ens) (auto intro!: ens Suc.IH)
qed (simp add: ensures_def)

lemma ensures_merkle [ens]:
  "(\<And>r. (\<And>m. r = Some m \<Longrightarrow> list_all (\<lambda>b. length b = 32) m) \<Longrightarrow> P r) \<Longrightarrow> ensures (merkle_loop E arr i n []) P"
  using merkle_loop_wf [of "[]" E arr i n] by (auto simp: ensures_def)

lemma notify_wf: "wf_ctx c \<Longrightarrow> ensures (stratum_notify E p c) (\<lambda>(r, c'). wf_ctx c')"
  unfolding stratum_notify_def
proof (rule ensures_if)
  assume "wf_ctx c"
  then show "ensures (verus_stratum_notify E p c) (\<lambda>(r, c'). wf_ctx c')" by (rule verus_notify_wf)
qed (unfold Let_def, intro ens ensures_var; simp add: wf_ctx_def wf_job_def)

lemma disconnect_wf: "wf_ctx (cn_ctx c) \<Longrightarrow> ensures (stratum_disconnect E c) (\<lambda>c'. wf_ctx (cn_ctx c'))"
  unfolding stratum_disconnect_def
  by (intro ens ensures_var; simp add: wf_ctx_def upd_ctx_def stratum_free_job_def)

lemma ctx_of_send [simp]: "cn_ctx (snd (stratum_send_line E s c)) = cn_ctx c" "cn_ctx (snd (reply E kvs c)) = cn_ctx c"
  "cn_ctx (snd (ack E mid c)) = cn_ctx c" "cn_ctx (snd (stratum_pong E mid c)) = cn_ctx c"
  "cn_ctx (snd (stratum_get_algo E mid c)) = cn_ctx c" "cn_ctx (snd (stratum_get_version E mid c)) = cn_ctx c"
  "cn_ctx (snd (stratum_unknown_method E mid c)) = cn_ctx c"
  by (simp_all add: stratum_send_line_def reply_def ack_def stratum_pong_def stratum_get_algo_def stratum_get_version_def
      stratum_unknown_method_def split: option.splits)

lemma reconnect_wf: "wf_ctx (cn_ctx c) \<Longrightarrow> ensures (stratum_reconnect E p c) (\<lambda>(r, c'). wf_ctx (cn_ctx c'))"
  unfolding stratum_reconnect_def
  by (intro ens ensures_var) (auto dest!: ensuresD [OF disconnect_wf, rotated] simp: wf_ctx_def upd_ctx_def)

lemma show_message_wf:
  "wf_ctx (cn_ctx c) \<Longrightarrow> ensures (stratum_show_message E mid p c) (\<lambda>(r, c'). wf_ctx (cn_ctx c'))"
  unfolding stratum_show_message_def verus_stratum_show_message_def
  by (intro ens ensures_var; simp add: wf_ctx_def wf_job_def upd_ctx_def upd_job_def split_beta)

lemma on_ctx_wf:
  "(\<And>x. wf_ctx x \<Longrightarrow> ensures (h x) (\<lambda>(r, c'). wf_ctx c')) \<Longrightarrow> wf_ctx (cn_ctx c) \<Longrightarrow>
   ensures (on_ctx h c) (\<lambda>(r, c'). wf_ctx (cn_ctx c'))"
  unfolding on_ctx_def by (auto simp: ensures_def bind_eq_Some_conv)

lemma set_difficulty_wf: "wf_ctx c \<Longrightarrow> ensures (Some (stratum_set_difficulty E p c)) (\<lambda>(r, c'). wf_ctx c')"
  by (simp add: ensures_def stratum_set_difficulty_def wf_ctx_def Let_def)

lemma wf_equihash [simp]: "wf_ctx (c\<lparr>ctx_is_equihash := b\<rparr>) = wf_ctx c"
  by (simp add: wf_ctx_def)

lemma handle_method_wf:
  assumes "wf_ctx (cn_ctx c)"
  shows "ensures (stratum_handle_method E st s c) (\<lambda>(r, c'). wf_ctx (cn_ctx c'))"
proof -
  have plain: "ensures (Some p) (\<lambda>(r, c'). wf_ctx (cn_ctx c'))" if "cn_ctx (snd p) = cn_ctx c" for p
    using that assms by (cases p) (simp add: ensures_def)
  have "ensures (on_ctx (stratum_notify E p) c) (\<lambda>(r, c'). wf_ctx (cn_ctx c'))" for p
    by (rule on_ctx_wf [OF notify_wf assms])
  then have "ensures (do { (r, c) \<leftarrow> on_ctx (stratum_notify E p) c; Some (r, c\<lparr>cn_restart := True\<rparr>) }) (\<lambda>(r, c'). wf_ctx (cn_ctx c'))" for p
    by (fastforce simp: ensures_def bind_eq_Some_conv)
  moreover have "ensures (on_ctx (\<lambda>x. verus_stratum_set_target E p (x\<lparr>ctx_is_equihash := True\<rparr>)) c) (\<lambda>(r, c'). wf_ctx (cn_ctx c'))" for p
    by (rule on_ctx_wf [OF set_target_wf assms]) simp
  moreover have "ensures (stratum_get_stats E st mid c) (\<lambda>(r, c'). wf_ctx (cn_ctx c'))" for mid
    unfolding stratum_get_stats_def by (intro ensures_if ensures_None plain) simp_all
  ultimately show ?thesis
    unfolding stratum_handle_method_def Let_def
    by (intro ensures_case_option ensures_if plain on_ctx_wf [OF set_difficulty_wf assms] on_ctx_wf [OF parse_extranonce_wf assms]
        reconnect_wf show_message_wf assms) simp_all
qed

section \<open>The target a pool announces\<close>

text \<open>The number that bytes in little-endian order stand for.\<close>

fun le_nat :: "bytes \<Rightarrow> nat" where
  "le_nat [] = 0"
| "le_nat (b # bs) = unat b + 256 * le_nat bs"

lemma le_nat_append: "le_nat (a @ b) = le_nat a + 256 ^ length a * le_nat b"
  by (induction a) (simp_all add: algebra_simps)

lemma le_nat_zeros [simp]: "le_nat (replicate n 0) = 0"
  by (induction n) simp_all

definition nonzeros :: "bytes \<Rightarrow> nat" where
  "nonzeros bs = length (filter (\<lambda>b. b \<noteq> 0) bs)"

lemma nonzeros_Nil: "nonzeros [] = 0"
  by (simp add: nonzeros_def)

lemma target_put:
  assumes "length p < 32"
  shows "(rev (p @ replicate (32 - length p) 0))[31 - length p := b] = rev ((p @ [b]) @ replicate (31 - length p) (0 :: u8))"
proof -
  have "32 - length p = Suc (31 - length p)" using assms by simp
  then show ?thesis by (simp add: list_update_append1 list_update_append replicate_append_same [symmetric])
qed

lemma target_loop_spec:
  assumes "length p + length bs = 32" "nonzeros p \<le> 8"
  shows "\<exists>k. length p \<le> k \<and> k \<le> 32 \<and> nonzeros (take k (p @ bs)) \<le> 8 \<and> (k = 32 \<or> nonzeros (take k (p @ bs)) = 8) \<and>
    target_loop bs (length p) (nonzeros p) start (rev (p @ replicate (32 - length p) 0)) =
      (rev (take k (p @ bs) @ replicate (32 - k) 0),
       if start = None \<and> nonzeros (take k (p @ bs)) > nonzeros p
       then Some (length p + length (takeWhile (\<lambda>b. b = 0) bs)) else start)"
  using assms
proof (induction bs arbitrary: p start)
  case Nil
  then show ?case by (intro exI [of _ 32]) (simp add: nonzeros_def)
next
  case (Cons b bs)
  show ?case
  proof (cases "nonzeros p = 8")
    case True
    then show ?thesis using Cons.prems by (intro exI [of _ "length p"]) simp
  next
    case False
    have p: "length (p @ [b]) + length bs = 32" "length p < 32" using Cons.prems by simp_all
    have n: "nonzeros (p @ [b]) = (if b = 0 then nonzeros p else nonzeros p + 1)" by (simp add: nonzeros_def)
    then have n8: "nonzeros (p @ [b]) \<le> 8" using False Cons.prems(2) by simp
    have r: "32 - length (p @ [b]) = 31 - length p" "(p @ [b]) @ bs = p @ b # bs" by simp_all
    obtain k where k: "length (p @ [b]) \<le> k" "k \<le> 32" "nonzeros (take k (p @ b # bs)) \<le> 8"
      "k = 32 \<or> nonzeros (take k (p @ b # bs)) = 8"
      "target_loop bs (length (p @ [b])) (nonzeros (p @ [b])) (if b \<noteq> 0 \<and> start = None then Some (length p) else start)
          (rev ((p @ [b]) @ replicate (31 - length p) 0)) =
        (rev (take k (p @ b # bs) @ replicate (32 - k) 0),
         if (if b \<noteq> 0 \<and> start = None then Some (length p) else start) = None \<and> nonzeros (take k (p @ b # bs)) > nonzeros (p @ [b])
         then Some (length (p @ [b]) + length (takeWhile (\<lambda>b. b = 0) bs))
         else (if b \<noteq> 0 \<and> start = None then Some (length p) else start))"
      using Cons.IH [OF p(1) n8, of "if b \<noteq> 0 \<and> start = None then Some (length p) else start"] unfolding r by blast
    have "nonzeros (p @ [b]) \<le> nonzeros (take k (p @ b # bs))"
    proof -
      have "take k (p @ b # bs) = (p @ [b]) @ take (k - length (p @ [b])) bs" using k(1) by (simp add: take_Cons')
      then show ?thesis by (simp only: nonzeros_def filter_append length_append)
    qed
    then show ?thesis
      using k False n target_put [OF p(2), of b] by (intro exI [of _ k]) (auto simp: Let_def)
  qed
qed

lemma target_cut_le: "le_nat (rev (take k t @ replicate (length t - k) 0)) \<le> le_nat (rev t)"
proof -
  have "rev t = rev (drop k t) @ rev (take k t)" by (metis append_take_drop_id rev_append)
  then have "le_nat (rev t) = le_nat (rev (drop k t)) + 256 ^ (length t - k) * le_nat (rev (take k t))"
    by (simp add: le_nat_append)
  then show ?thesis by (simp add: le_nat_append)
qed

section \<open>A small JSON library\<close>

text \<open>A concrete instance of the library functions, with a fixed parser, to evaluate examples on.\<close>

datatype jval = JNull | JTrue | JFalse | JInt int | JReal int | JStr string | JArr "jval list" | JObj "(string \<times> jval) list"

definition small_json :: "(string \<times> jval) list \<Rightarrow> (jval, int) jansson" where
  "small_json texts = \<lparr>json_loads = map_of texts, json_dumps = (\<lambda>_. ''{}''),
     json_array_get = (\<lambda>v i. case v of Some (JArr xs) \<Rightarrow> if i < length xs then Some (xs ! i) else None | _ \<Rightarrow> None),
     json_array_size = (\<lambda>v. case v of Some (JArr xs) \<Rightarrow> length xs | _ \<Rightarrow> 0),
     json_object_get = (\<lambda>v k. case v of Some (JObj kvs) \<Rightarrow> map_of kvs k | _ \<Rightarrow> None),
     json_string_value = (\<lambda>v. case v of Some (JStr s) \<Rightarrow> Some s | _ \<Rightarrow> None),
     json_integer_value = (\<lambda>v. case v of Some (JInt i) \<Rightarrow> i | _ \<Rightarrow> 0),
     json_number_value = (\<lambda>v. case v of Some (JInt i) \<Rightarrow> i | _ \<Rightarrow> 0),
     json_is_true = (\<lambda>v. v = Some JTrue), json_is_false = (\<lambda>v. v = Some JFalse), json_is_null = (\<lambda>v. v = Some JNull),
     json_is_array = (\<lambda>v. case v of Some (JArr _) \<Rightarrow> True | _ \<Rightarrow> False),
     json_is_string = (\<lambda>v. case v of Some (JStr _) \<Rightarrow> True | _ \<Rightarrow> False),
     json_is_integer = (\<lambda>v. case v of Some (JInt _) \<Rightarrow> True | _ \<Rightarrow> False),
     json_is_object = (\<lambda>v. case v of Some (JObj _) \<Rightarrow> True | _ \<Rightarrow> False),
     json_is_real = (\<lambda>v. case v of Some (JReal _) \<Rightarrow> True | _ \<Rightarrow> False),
     json_real_value = (\<lambda>v. case v of Some (JReal i) \<Rightarrow> i | _ \<Rightarrow> 0),
     json_object_of = JObj, json_null = JNull, json_true = JTrue, json_false = JFalse, json_string = JStr, json_integer = JInt,
     json_object_set_new = (\<lambda>v k x. case v of JObj kvs \<Rightarrow> JObj ((k, x) # kvs) | _ \<Rightarrow> v)\<rparr>"

definition small_senv :: "(string \<times> jval) list \<Rightarrow> (jval, int) senv" where
  "small_senv texts = \<lparr>sv_J = small_json texts, sv_F = int_fops, sv_ldexp = (\<lambda>m e. m), sv_now = 0, sv_algo = ''verus'',
     sv_send = (\<lambda>_. True), sv_alloc = True, sv_junk = (\<lambda>_. 0), sv_agent = ''ccminer'', sv_extranonce = True\<rparr>"

definition small_ctx :: "int stratum_ctx" where
  "small_ctx = \<lparr>ctx_url = None, ctx_curl = True, ctx_curl_url = [], ctx_sockbuf = [], ctx_next_diff = 7, ctx_sharediff = 0, ctx_session_id = None,
     ctx_xnonce1_size = 4, ctx_xnonce1 = Some [1, 2, 3, 4], ctx_xnonce2_size = 28, ctx_job = zero_job int_fops,
     ctx_tv_submit = (0, 0), ctx_answer_msec = 0, ctx_pooln = 0, ctx_tm_connected = 0, ctx_rpc2 = False,
     ctx_is_equihash = True, ctx_srvtime_diff = 0\<rparr>"

definition small_conn :: "int conn" where
  "small_conn = \<lparr>cn_ctx = small_ctx, cn_disconnects = [0], cn_sent = [], cn_restart = False, cn_inbox = []\<rparr>"

lemma wf_small_ctx: "wf_ctx small_ctx"
  by (simp add: wf_ctx_def small_ctx_def)

section \<open>Properties\<close>

text \<open>The messages of a pool, one after the other.\<close>

fun handle_all :: "('j, 'f) senv \<Rightarrow> bool \<Rightarrow> string list \<Rightarrow> 'f conn \<Rightarrow> 'f conn option" where
  "handle_all E st [] c = Some c"
| "handle_all E st (s # ss) c = do { (_, c) \<leftarrow> stratum_handle_method E st s c; handle_all E st ss c }"

text \<open>C13: whatever a pool sends, in whatever order, the arrays of the job keep their declared sizes, the
  coinbase is as long as its recorded size, the extranonce as long as its own, and the Merkle branch has
  as many hashes of 32 bytes as counted.\<close>

theorem messages_keep_sizes:
  assumes "wf_ctx (cn_ctx c)" "handle_all E st ss c = Some c'"
  shows "wf_ctx (cn_ctx c')"
  using assms
proof (induction ss arbitrary: c)
  case (Cons s ss)
  then obtain r c1 where h: "stratum_handle_method E st s c = Some (r, c1)" "handle_all E st ss c1 = Some c'"
    by (auto simp: bind_eq_Some_conv)
  then have "wf_ctx (cn_ctx c1)" using ensuresD [OF handle_method_wf [OF Cons.prems(1)] h(1)] by simp
  then show ?case using Cons.IH h(2) by blast
qed simp

definition two_texts :: "(string \<times> jval) list" where
  "two_texts = [(''a'', JObj [(''method'', JStr ''mining.set_difficulty''), (''params'', JArr [JInt 9])]),
     (''b'', JObj [(''method'', JStr ''mining.set_extranonce''), (''params'', JArr [JStr ''0a0b0c''])])]"

theorem messages_keep_sizes_witness:
  "\<exists>c'. handle_all (small_senv two_texts) False [''a'', ''b'', ''x''] small_conn = Some c' \<and> wf_ctx (cn_ctx c')"
proof -
  have "handle_all (small_senv two_texts) False [''a'', ''b'', ''x''] small_conn \<noteq> None" by code_simp
  moreover have "wf_ctx (cn_ctx small_conn)" using wf_small_ctx by (simp add: small_conn_def)
  ultimately show ?thesis using messages_keep_sizes by blast
qed

text \<open>C9: a job of a Verus pool is decoded field by field. A \<open>mining.notify\<close> whose fields are hexadecimal
  text of the right sizes is accepted; version, hashes, times and solution are stored as the bytes they
  encode, the coinbase is the Merkle root, the reserved field and the pool's extranonce followed by the
  miner's, which is zero for a new job, and the difficulty announced last takes effect.\<close>

definition notify_params :: "('j, 'f) jansson \<Rightarrow> 'j option \<Rightarrow> string \<Rightarrow> bytes list \<Rightarrow> bool" where
  "notify_params J params jid fs \<longleftrightarrow> json_string_value J (json_array_get J params 0) = Some jid \<and>
     (\<forall>i \<in> {1, 2, 3, 4, 5, 6, 8}. json_string_value J (json_array_get J params i) = Some (cbin2hex (fs ! i))) \<and>
     map length fs = [0, 4, 32, 32, 32, 4, 4, 0, 1344]"

lemma splice_all: "length bs = length buf \<Longrightarrow> splice buf 0 bs = bs"
  by (simp add: splice_def)

theorem verus_notify_decodes:
  assumes "wf_ctx c" "ctx_xnonce1 c = Some x" "notify_params (sv_J E) params jid fs"
    "in_int32 (sint (of_le (fs ! 5) :: u32) - int32 (sv_now E))"
  shows "\<exists>c' xn2. verus_stratum_notify E params c = Some (True, c') \<and>
    job_job_id (ctx_job c') = Some jid \<and> job_version (ctx_job c') = fs ! 1 \<and> job_prevhash (ctx_job c') = fs ! 2 \<and>
    job_ntime (ctx_job c') = fs ! 5 \<and> job_nbits (ctx_job c') = fs ! 6 \<and> job_solution (ctx_job c') = fs ! 8 \<and>
    job_coinbase (ctx_job c') = Some (fs ! 3 @ fs ! 4 @ x @ xn2) \<and> length xn2 = ctx_xnonce2_size c \<and>
    job_xnonce2 (ctx_job c') = 64 + length x \<and>
    (job_job_id (ctx_job c) \<noteq> Some jid \<longrightarrow> xn2 = replicate (ctx_xnonce2_size c) 0) \<and>
    job_diff (ctx_job c') = ctx_next_diff c"
proof -
  have f: "map length fs ! i = [0, 4, 32, 32, 32, 4, 4, 0, 1344] ! i" for i
    using assms(3) by (simp add: notify_params_def)
  have l: "length fs = 9" using assms(3) arg_cong [of "map length fs" _ length] by (fastforce simp: notify_params_def)
  have L: "length (fs ! 1) = 4" "length (fs ! 2) = 32" "length (fs ! 3) = 32" "length (fs ! 4) = 32" "length (fs ! 5) = 4"
    "length (fs ! 6) = 4" "length (fs ! 8) = 1344"
    using f [of 1] f [of 2] f [of 3] f [of 4] f [of 5] f [of 6] f [of 8] l by simp_all
  have w: "length x = ctx_xnonce1_size c" "length (job_solution (ctx_job c)) = 1344" "length (job_version (ctx_job c)) = 4"
    "length (job_prevhash (ctx_job c)) = 32" "length (job_nbits (ctx_job c)) = 4" "length (job_ntime (ctx_job c)) = 4"
    using assms(1,2) by (simp_all add: wf_ctx_def wf_job_def)
  let ?n = "64 + ctx_xnonce1_size c + ctx_xnonce2_size c"
  let ?cb = "realloc E (job_coinbase (ctx_job c)) ?n"
  define rest where "rest = drop (64 + ctx_xnonce1_size c) ?cb"
  define xn2 where "xn2 = (if job_job_id (ctx_job c) \<noteq> Some jid then replicate (ctx_xnonce2_size c) 0 else rest)"
  have lr: "length rest = ctx_xnonce2_size c" by (simp add: rest_def)
  have cb: "splice (if job_job_id (ctx_job c) \<noteq> Some jid
      then splice (splice (splice ?cb 0 (fs ! 3)) 32 (fs ! 4)) (64 + ctx_xnonce1_size c) (replicate (ctx_xnonce2_size c) 0)
      else splice (splice ?cb 0 (fs ! 3)) 32 (fs ! 4)) 64 x = fs ! 3 @ fs ! 4 @ x @ xn2"
    using L(3,4) w(1) by (auto simp: splice_def xn2_def rest_def add.commute)
  have s: "json_string_value (sv_J E) (json_array_get (sv_J E) params 0) = Some jid"
    "json_string_value (sv_J E) (json_array_get (sv_J E) params 1) = Some (cbin2hex (fs ! 1))"
    "json_string_value (sv_J E) (json_array_get (sv_J E) params 2) = Some (cbin2hex (fs ! 2))"
    "json_string_value (sv_J E) (json_array_get (sv_J E) params 3) = Some (cbin2hex (fs ! 3))"
    "json_string_value (sv_J E) (json_array_get (sv_J E) params 4) = Some (cbin2hex (fs ! 4))"
    "json_string_value (sv_J E) (json_array_get (sv_J E) params 5) = Some (cbin2hex (fs ! 5))"
    "json_string_value (sv_J E) (json_array_get (sv_J E) params 6) = Some (cbin2hex (fs ! 6))"
    "json_string_value (sv_J E) (json_array_get (sv_J E) params 8) = Some (cbin2hex (fs ! 8))"
    using assms(3) by (simp_all add: notify_params_def)
  have "\<exists>c'. verus_stratum_notify E params c = Some (True, c') \<and>
    job_job_id (ctx_job c') = Some jid \<and> job_version (ctx_job c') = fs ! 1 \<and> job_prevhash (ctx_job c') = fs ! 2 \<and>
    job_ntime (ctx_job c') = fs ! 5 \<and> job_nbits (ctx_job c') = fs ! 6 \<and> job_solution (ctx_job c') = fs ! 8 \<and>
    job_coinbase (ctx_job c') = Some (splice (if job_job_id (ctx_job c) \<noteq> Some jid
      then splice (splice (splice ?cb 0 (fs ! 3)) 32 (fs ! 4)) (64 + ctx_xnonce1_size c) (replicate (ctx_xnonce2_size c) 0)
      else splice (splice ?cb 0 (fs ! 3)) 32 (fs ! 4)) 64 x) \<and>
    job_xnonce2 (ctx_job c') = 64 + length x \<and> job_diff (ctx_job c') = ctx_next_diff c"
    unfolding verus_stratum_notify_def Let_def s
    using L w assms(2,4)
    by (cases "job_job_id (ctx_job c) = Some jid"; cases "ctx_xnonce1_size c = 0")
      (simp_all add: hex_into_cbin2hex hex2bin_cbin2hex splice_all mem_simps len_simps upd_job_def)
  moreover have "length xn2 = ctx_xnonce2_size c" using lr by (simp add: xn2_def)
  moreover have "job_job_id (ctx_job c) \<noteq> Some jid \<longrightarrow> xn2 = replicate (ctx_xnonce2_size c) 0" by (simp add: xn2_def)
  ultimately show ?thesis unfolding cb by (elim exE) (intro exI conjI; blast)
qed

definition job_fields :: "bytes list" where
  "job_fields = [[], replicate 4 1, replicate 32 2, replicate 32 3, replicate 32 4, replicate 4 5, replicate 4 6, [], replicate 1344 8]"

definition job_params :: jval where
  "job_params = JArr [JStr ''j1'', JStr (cbin2hex (replicate 4 1)), JStr (cbin2hex (replicate 32 2)),
     JStr (cbin2hex (replicate 32 3)), JStr (cbin2hex (replicate 32 4)), JStr (cbin2hex (replicate 4 5)),
     JStr (cbin2hex (replicate 4 6)), JTrue, JStr (cbin2hex (replicate 1344 8))]"

lemma job_params_ok: "notify_params (small_json []) (Some job_params) ''j1'' job_fields"
  by (simp add: notify_params_def small_json_def job_params_def job_fields_def)

theorem verus_notify_decodes_witness:
  "\<exists>c' xn2. verus_stratum_notify (small_senv []) (Some job_params) small_ctx = Some (True, c') \<and>
    job_job_id (ctx_job c') = Some ''j1'' \<and> job_version (ctx_job c') = job_fields ! 1 \<and> job_prevhash (ctx_job c') = job_fields ! 2 \<and>
    job_ntime (ctx_job c') = job_fields ! 5 \<and> job_nbits (ctx_job c') = job_fields ! 6 \<and> job_solution (ctx_job c') = job_fields ! 8 \<and>
    job_coinbase (ctx_job c') = Some (job_fields ! 3 @ job_fields ! 4 @ [1, 2, 3, 4] @ xn2) \<and> length xn2 = ctx_xnonce2_size small_ctx \<and>
    job_xnonce2 (ctx_job c') = 64 + length [1 :: u8, 2, 3, 4] \<and>
    (job_job_id (ctx_job small_ctx) \<noteq> Some ''j1'' \<longrightarrow> xn2 = replicate (ctx_xnonce2_size small_ctx) 0) \<and>
    job_diff (ctx_job c') = ctx_next_diff small_ctx"
proof (rule verus_notify_decodes [OF wf_small_ctx])
  show "in_int32 (sint (of_le (job_fields ! 5) :: u32) - int32 (sv_now (small_senv [])))" by code_simp
qed (simp_all add: small_ctx_def small_senv_def job_params_ok)

text \<open>C14: the target of a Verus pool is kept on the safe side. When the announced 32 bytes have their
  first non-zero byte early enough for a compact difficulty, \<open>mining.set_target\<close> is accepted and stores
  them reversed, except that everything after the eighth non-zero byte is zero: the stored target is
  at most the announced one, so a hash that meets it meets what the pool asked for.\<close>

theorem set_target_never_exceeds:
  assumes "wf_ctx c" "length t = 32" "takeWhile (\<lambda>b. b = 0) t = replicate z 0" "z < 30"
    "json_string_value (sv_J E) (json_array_get (sv_J E) params 0) = Some (cbin2hex t)"
  shows "\<exists>c' k. verus_stratum_set_target E params c = Some (True, c') \<and>
    take 32 (job_extra (ctx_job c')) = rev (take k t @ replicate (32 - k) 0) \<and>
    (k = 32 \<or> nonzeros (take k t) = 8) \<and>
    le_nat (take 32 (job_extra (ctx_job c'))) \<le> le_nat (rev t)"
proof -
  have "\<exists>k. k \<le> 32 \<and> nonzeros (take k t) \<le> 8 \<and> (k = 32 \<or> nonzeros (take k t) = 8) \<and>
    target_loop t 0 0 None (replicate 32 0) = (rev (take k t @ replicate (32 - k) 0),
       if nonzeros (take k t) > 0 then Some (length (takeWhile (\<lambda>b. b = 0) t)) else None)"
    using target_loop_spec [of "[]" t None] assms(2)
    by (simp add: nonzeros_Nil split del: if_split cong: if_cong)
  then obtain k where k: "k \<le> 32" "nonzeros (take k t) \<le> 8" "k = 32 \<or> nonzeros (take k t) = 8"
    "target_loop t 0 0 None (replicate 32 0) = (rev (take k t @ replicate (32 - k) 0),
       if nonzeros (take k t) > 0 then Some (length (takeWhile (\<lambda>b. b = 0) t)) else None)"
    by blast
  have z: "length (takeWhile (\<lambda>b. b = 0) t) = z" using assms(3) by simp
  have "nonzeros t > 0"
  proof (rule ccontr)
    assume "\<not> nonzeros t > 0"
    then have "\<forall>b \<in> set t. b = 0" by (simp add: nonzeros_def filter_empty_conv)
    then have "takeWhile (\<lambda>b. b = 0) t = t" by (simp add: takeWhile_eq_all_conv)
    then have "z = length t" using z by metis
    then show False using assms(2,4) by simp
  qed
  then have "nonzeros (take k t) > 0" using k(1,3) assms(2) by auto
  then have tl: "target_loop t 0 0 None (replicate 32 0) = (rev (take k t @ replicate (32 - k) 0), Some z)"
    using k(4) z by simp
  have e: "length (job_extra (ctx_job c)) = 64" using assms(1) by (simp add: wf_ctx_def wf_job_def)
  let ?be = "rev (take k t @ replicate (32 - k) 0)"
  have b: "length ?be = 32" using k(1) assms(2) by simp
  have h: "hex2bin (junk_bytes E 32) (cbin2hex t) 32 = Some (True, t)"
    using hex2bin_cbin2hex [of t 32 "junk_bytes E 32"] assms(2) by (simp add: splice_all)
  have "cbin2hex t \<noteq> []" using assms(2) length_cbin2hex [of t] by (metis length_0_conv mult_is_0 zero_neq_numeral)
  then have "\<exists>c'. verus_stratum_set_target E params c = Some (True, c') \<and> job_extra (ctx_job c') = splice (job_extra (ctx_job c)) 0 ?be"
    using h tl b e assms(4,5)
    by (simp add: verus_stratum_set_target_def Let_def mem_simps upd_job_def del: rev_append)
  moreover have "take 32 (splice (job_extra (ctx_job c)) 0 ?be) = ?be" using b by (simp add: splice_def del: rev_append)
  moreover have "le_nat ?be \<le> le_nat (rev t)" using target_cut_le [of k t] assms(2) by simp
  ultimately show ?thesis using k(3) by (metis (no_types, lifting))
qed

theorem set_target_never_exceeds_witness:
  "\<exists>c' k. verus_stratum_set_target (small_senv []) (Some (JArr [JStr (cbin2hex (replicate 3 0 @ replicate 29 9))])) small_ctx = Some (True, c') \<and>
    take 32 (job_extra (ctx_job c')) = rev (take k (replicate 3 0 @ replicate 29 9) @ replicate (32 - k) 0) \<and>
    (k = 32 \<or> nonzeros (take k (replicate 3 0 @ replicate 29 9)) = 8) \<and>
    le_nat (take 32 (job_extra (ctx_job c'))) \<le> le_nat (rev (replicate 3 0 @ replicate 29 9))"
  by (rule set_target_never_exceeds [OF wf_small_ctx, where z = 3])
    (simp_all add: small_senv_def small_json_def takeWhile_append)

end
