(* ===== verification/Algos.thy ===== *)
theory Algos
  imports Util
begin

text \<open>\<open>algos.h\<close>: the enumeration of the algorithms as integers, as C has it, their names and the lookup
  of a name. \<open>get_currentalgo\<close> of \<open>ccminer.cpp\<close> is here too.\<close>

definition ALGO_BLAKECOIN :: int where "ALGO_BLAKECOIN = 0"
definition ALGO_BLAKE :: int where "ALGO_BLAKE = 1"
definition ALGO_BLAKE2S :: int where "ALGO_BLAKE2S = 2"
definition ALGO_ALLIUM :: int where "ALGO_ALLIUM = 3"
definition ALGO_BMW :: int where "ALGO_BMW = 4"
definition ALGO_BASTION :: int where "ALGO_BASTION = 5"
definition ALGO_C11 :: int where "ALGO_C11 = 6"
definition ALGO_CRYPTOLIGHT :: int where "ALGO_CRYPTOLIGHT = 7"
definition ALGO_CRYPTONIGHT :: int where "ALGO_CRYPTONIGHT = 8"
definition ALGO_DEEP :: int where "ALGO_DEEP = 9"
definition ALGO_DECRED :: int where "ALGO_DECRED = 10"
definition ALGO_DMD_GR :: int where "ALGO_DMD_GR = 11"
definition ALGO_EQUIHASH :: int where "ALGO_EQUIHASH = 12"
definition ALGO_FRESH :: int where "ALGO_FRESH = 13"
definition ALGO_FUGUE256 :: int where "ALGO_FUGUE256 = 14"
definition ALGO_GROESTL :: int where "ALGO_GROESTL = 15"
definition ALGO_HEAVY :: int where "ALGO_HEAVY = 16"
definition ALGO_HMQ1725 :: int where "ALGO_HMQ1725 = 17"
definition ALGO_HSR :: int where "ALGO_HSR = 18"
definition ALGO_KECCAK :: int where "ALGO_KECCAK = 19"
definition ALGO_KECCAKC :: int where "ALGO_KECCAKC = 20"
definition ALGO_JACKPOT :: int where "ALGO_JACKPOT = 21"
definition ALGO_JHA :: int where "ALGO_JHA = 22"
definition ALGO_LBRY :: int where "ALGO_LBRY = 23"
definition ALGO_LUFFA :: int where "ALGO_LUFFA = 24"
definition ALGO_LYRA2 :: int where "ALGO_LYRA2 = 25"
definition ALGO_LYRA2v2 :: int where "ALGO_LYRA2v2 = 26"
definition ALGO_LYRA2Z :: int where "ALGO_LYRA2Z = 27"
definition ALGO_MJOLLNIR :: int where "ALGO_MJOLLNIR = 28"
definition ALGO_MYR_GR :: int where "ALGO_MYR_GR = 29"
definition ALGO_NEOSCRYPT :: int where "ALGO_NEOSCRYPT = 30"
definition ALGO_NIST5 :: int where "ALGO_NIST5 = 31"
definition ALGO_PENTABLAKE :: int where "ALGO_PENTABLAKE = 32"
definition ALGO_PHI :: int where "ALGO_PHI = 33"
definition ALGO_PHI2 :: int where "ALGO_PHI2 = 34"
definition ALGO_POLYTIMOS :: int where "ALGO_POLYTIMOS = 35"
definition ALGO_QUARK :: int where "ALGO_QUARK = 36"
definition ALGO_QUBIT :: int where "ALGO_QUBIT = 37"
definition ALGO_SCRYPT :: int where "ALGO_SCRYPT = 38"
definition ALGO_SCRYPT_JANE :: int where "ALGO_SCRYPT_JANE = 39"
definition ALGO_SHA256D :: int where "ALGO_SHA256D = 40"
definition ALGO_SHA256T :: int where "ALGO_SHA256T = 41"
definition ALGO_SIA :: int where "ALGO_SIA = 42"
definition ALGO_SIB :: int where "ALGO_SIB = 43"
definition ALGO_SKEIN :: int where "ALGO_SKEIN = 44"
definition ALGO_SKEIN2 :: int where "ALGO_SKEIN2 = 45"
definition ALGO_SKUNK :: int where "ALGO_SKUNK = 46"
definition ALGO_SONOA :: int where "ALGO_SONOA = 47"
definition ALGO_S3 :: int where "ALGO_S3 = 48"
definition ALGO_TIMETRAVEL :: int where "ALGO_TIMETRAVEL = 49"
definition ALGO_TRIBUS :: int where "ALGO_TRIBUS = 50"
definition ALGO_BITCORE :: int where "ALGO_BITCORE = 51"
definition ALGO_X11EVO :: int where "ALGO_X11EVO = 52"
definition ALGO_X11 :: int where "ALGO_X11 = 53"
definition ALGO_X12 :: int where "ALGO_X12 = 54"
definition ALGO_X13 :: int where "ALGO_X13 = 55"
definition ALGO_X14 :: int where "ALGO_X14 = 56"
definition ALGO_X15 :: int where "ALGO_X15 = 57"
definition ALGO_X16R :: int where "ALGO_X16R = 58"
definition ALGO_X16S :: int where "ALGO_X16S = 59"
definition ALGO_X17 :: int where "ALGO_X17 = 60"
definition ALGO_VANILLA :: int where "ALGO_VANILLA = 61"
definition ALGO_VELTOR :: int where "ALGO_VELTOR = 62"
definition ALGO_WHIRLCOIN :: int where "ALGO_WHIRLCOIN = 63"
definition ALGO_WHIRLPOOL :: int where "ALGO_WHIRLPOOL = 64"
definition ALGO_WHIRLPOOLX :: int where "ALGO_WHIRLPOOLX = 65"
definition ALGO_WILDKECCAK :: int where "ALGO_WILDKECCAK = 66"
definition ALGO_ZR5 :: int where "ALGO_ZR5 = 67"
definition ALGO_MONERO :: int where "ALGO_MONERO = 68"
definition ALGO_GRAFT :: int where "ALGO_GRAFT = 69"
definition ALGO_STELLITE :: int where "ALGO_STELLITE = 70"
definition ALGO_AUTO :: int where "ALGO_AUTO = 71"
definition ALGO_COUNT :: int where "ALGO_COUNT = 72"

definition algo_names :: "string list" where
  "algo_names = [''blakecoin'', ''blake'', ''blake2s'', ''allium'', ''bmw'', ''bastion'', ''c11'',
     ''cryptolight'', ''cryptonight'', ''deep'', ''decred'', ''dmd-gr'', ''verus'', ''fresh'',
     ''fugue256'', ''groestl'', ''heavy'', ''hmq1725'', ''hsr'', ''keccak'', ''keccakc'',
     ''jackpot'', ''jha'', ''lbry'', ''luffa'', ''lyra2'', ''lyra2v2'', ''lyra2z'', ''mjollnir'',
     ''myr-gr'', ''neoscrypt'', ''nist5'', ''penta'', ''phi'', ''phi2'', ''polytimos'', ''quark'',
     ''qubit'', ''scrypt'', ''scrypt-jane'', ''sha256d'', ''sha256t'', ''sia'', ''sib'', ''skein'',
     ''skein2'', ''skunk'', ''sonoa'', ''s3'', ''timetravel'', ''tribus'', ''bitcore'', ''x11evo'',
     ''x11'', ''x12'', ''x13'', ''x14'', ''x15'', ''x16r'', ''x16s'', ''x17'', ''vanilla'',
     ''veltor'', ''whirlcoin'', ''whirlpool'', ''whirlpoolx'', ''wildkeccak'', ''zr5'', ''monero'',
     ''graft'', ''stellite'', ''auto'', '''']"

definition algo_aliases :: "(string \<times> int) list" where
  "algo_aliases = [(''all'', ALGO_AUTO), (''cryptonight-light'', ALGO_CRYPTOLIGHT),
     (''cryptonight-lite'', ALGO_CRYPTOLIGHT), (''flax'', ALGO_C11), (''diamond'', ALGO_DMD_GR),
     (''equi'', ALGO_EQUIHASH), (''doom'', ALGO_LUFFA), (''hmq17'', ALGO_HMQ1725),
     (''hshare'', ALGO_HSR), (''lyra2re'', ALGO_LYRA2), (''lyra2rev2'', ALGO_LYRA2v2),
     (''phi1612'', ALGO_PHI), (''bitcoin'', ALGO_SHA256D), (''sha256'', ALGO_SHA256D),
     (''thorsriddle'', ALGO_VELTOR), (''timetravel10'', ALGO_BITCORE), (''whirl'', ALGO_WHIRLPOOL),
     (''ziftr'', ALGO_ZR5)]"


text \<open>The loop over the names, then the chain of aliases.\<close>

fun algo_loop :: "string \<Rightarrow> int \<Rightarrow> string list \<Rightarrow> int option" where
  "algo_loop arg i [] = None"
| "algo_loop arg i (n # ns) = (if i < ALGO_COUNT then if strcaseeq arg n then Some i else algo_loop arg (i + 1) ns else None)"

definition algo_to_int :: "string \<Rightarrow> int" where
  "algo_to_int arg = (case algo_loop arg 0 algo_names of
     Some i \<Rightarrow> i
   | None \<Rightarrow> (case find (\<lambda>(a, _). strcaseeq a arg) algo_aliases of Some (_, i) \<Rightarrow> i | None \<Rightarrow> - 1))"

definition get_cryptonight_algo :: "int \<Rightarrow> int" where
  "get_cryptonight_algo fork =
     (if fork = 8 then ALGO_GRAFT else if fork = 7 then ALGO_MONERO else if fork = 3 then ALGO_STELLITE else ALGO_CRYPTONIGHT)"

text \<open>The name written to a buffer of \<open>sz\<close> bytes.\<close>

definition get_currentalgo :: "int \<Rightarrow> int \<Rightarrow> nat \<Rightarrow> string option" where
  "get_currentalgo opt_algo cryptonight_fork sz = do {
     let algo = (if opt_algo = ALGO_CRYPTONIGHT then get_cryptonight_algo cryptonight_fork else opt_algo);
     n \<leftarrow> rd_int algo_names algo;
     Some (take (sz - 1) n) }"

section \<open>Names and numbers\<close>

lemma algo_names_distinct: "distinct (map (map c_tolower) algo_names)"
  by code_simp

lemma algo_names_length: "length algo_names = 73"
  by (simp add: algo_names_def)

lemma algo_loop_find:
  assumes "distinct (map (map c_tolower) ns)" "k < length ns" "strcaseeq arg (ns ! k)" "i + int k < ALGO_COUNT"
  shows "algo_loop arg i ns = Some (i + int k)"
  using assms
proof (induction ns arbitrary: i k)
  case (Cons n ns)
  show ?case
  proof (cases k)
    case 0
    then show ?thesis using Cons.prems by simp
  next
    case (Suc j)
    have "map c_tolower (ns ! j) \<in> set (map (map c_tolower) ns)" using Suc Cons.prems(2) by (simp add: nth_mem)
    then have "\<not> strcaseeq arg n" using Cons.prems(1,3) Suc by (auto simp: strcaseeq_def)
    then show ?thesis using Cons.IH [of j "i + 1"] Cons.prems Suc by simp
  qed
qed simp

text \<open>Whatever it is given, the lookup yields -1 or the number of an algorithm.\<close>

lemma algo_to_int_range: "algo_to_int s = - 1 \<or> 0 \<le> algo_to_int s \<and> algo_to_int s < ALGO_COUNT"
proof (cases "algo_loop s 0 algo_names")
  case None
  have a: "\<forall>(_, k) \<in> set algo_aliases. 0 \<le> k \<and> k < ALGO_COUNT" by code_simp
  have f: "find P xs = Some x \<Longrightarrow> x \<in> set xs" for P xs and x :: "string \<times> int"
    by (induction xs) (auto split: if_splits)
  show ?thesis using None a by (cases "find (\<lambda>(a, _). strcaseeq a s) algo_aliases") (auto simp: algo_to_int_def dest!: f)
next
  case (Some k)
  have "algo_loop s j ns = Some k \<Longrightarrow> 0 \<le> j \<Longrightarrow> 0 \<le> k \<and> k < ALGO_COUNT" for j ns
    by (induction s j ns rule: algo_loop.induct) (auto split: if_splits)
  from this [OF Some] show ?thesis using Some by (simp add: algo_to_int_def)
qed

text \<open>Every algorithm is found under its name, in any capitals: \<open>algo_to_int\<close> inverts \<open>algo_names\<close>,
  and whatever it is given it returns -1 or the number of an algorithm, so that the name can be read
  back.\<close>

lemma algo_name_roundtrip:
  assumes "0 \<le> i" "i < ALGO_COUNT" "strcaseeq arg (algo_names ! nat i)"
  shows "algo_to_int arg = i \<and> (\<forall>s. algo_to_int s = - 1 \<or> 0 \<le> algo_to_int s \<and> algo_to_int s < ALGO_COUNT)"
  using algo_loop_find [OF algo_names_distinct, of "nat i" arg 0] assms algo_to_int_range
  by (simp add: algo_to_int_def [of arg] algo_names_length ALGO_COUNT_def)

end
