(* ===== verification/Stats.thy ===== *)
theory Stats
  imports Ordmap Miner_Types
begin

text \<open>\<open>stats.cpp\<close>: the speed records of the mining threads. The globals \<open>tlastscans\<close> and \<open>uid\<close> are the
  state; the other globals it reads are arguments.\<close>

definition STATS_PURGE_TIMEOUT :: u32 where "STATS_PURGE_TIMEOUT = 120 * 60"

record 'f stats =
  tlastscans :: "'f stats_data omap"
  st_uid :: u64

text \<open>What \<open>stats_remember_speed\<close> reads of the rest of the program.\<close>

record 'f stats_env =
  se_device_map :: "int list"
  se_now :: u32
  se_cur_pooln :: nat
  se_pools :: "'f pool_infos list"
  se_net_diff :: 'f
  se_stratum_diff :: 'f
  se_global_hashrate :: u64
  se_opt_n_threads :: int

definition stats_remember_speed ::
  "'f fops \<Rightarrow> 'f stats_env \<Rightarrow> int \<Rightarrow> u32 \<Rightarrow> 'f \<Rightarrow> u8 \<Rightarrow> u32 \<Rightarrow> 'f stats \<Rightarrow> 'f stats option" where
  "stats_remember_speed F env thr_id hashcount hashrate found height st =
     (let key = st_uid st;
          st = st\<lparr>st_uid := st_uid st + 1\<rparr>
      in if hashcount < 1000 \<or> f_lt F hashrate (f_lit F 1 (- 2)) then Some st
      else do {
        dev \<leftarrow> rd_int (se_device_map env) thr_id;
        pool \<leftarrow> rd (se_pools env) (se_cur_pooln env);
        let data = \<lparr>sd_uid = ucast (st_uid st), sd_tm_stat = se_now env, sd_hashcount = hashcount, sd_height = height,
          sd_difficulty = (if \<not> f_eq F (se_net_diff env) (f_lit F 0 0) then se_net_diff env else se_stratum_diff env),
          sd_hashrate = hashrate, sd_thr_id = word_of_int thr_id, sd_gpu_id = word_of_int dev, sd_hashfound = found,
          sd_ignored = 0, sd_npool = of_nat (se_cur_pooln env), sd_pool_type = pool_type pool,
          sd_globalhashcount = ucast (se_global_hashrate env)\<rparr>;
        let data = (if se_opt_n_threads env = 1 \<and> se_global_hashrate env \<noteq> 0 \<and> st_uid st > 10 then
            let ratio = f_div F hashrate (f_mul F (f_lit F 1 0) (f_of_int F (uint (se_global_hashrate env))))
            in if f_lt F ratio (f_lit F 4 (- 1)) \<or> f_lt F (f_lit F 16 (- 1)) ratio then data\<lparr>sd_ignored := 1\<rparr> else data
          else data);
        Some (st\<lparr>tlastscans := om_put key data (tlastscans st)\<rparr>) })"

text \<open>The reverse walk of \<open>stats_get_speed\<close>: the sum and the number of records taken.\<close>

fun speed_loop :: "'f fops \<Rightarrow> int \<Rightarrow> int \<Rightarrow> 'f \<Rightarrow> int \<Rightarrow> 'f stats_data omap \<Rightarrow> 'f \<times> int" where
  "speed_loop F opt_statsavg thr_id speed records [] = (speed, records)"
| "speed_loop F opt_statsavg thr_id speed records ((k, d) # r) =
     (if records < opt_statsavg then
        if sd_ignored d = 0 \<and> (thr_id = - 1 \<or> uint (sd_thr_id d) = thr_id) \<and> sd_hashcount d > 1000
        then speed_loop F opt_statsavg thr_id (f_add F speed (sd_hashrate d)) (records + 1) r
        else speed_loop F opt_statsavg thr_id speed records r
      else (speed, records))"

definition stats_get_speed :: "'f fops \<Rightarrow> int \<Rightarrow> int \<Rightarrow> int \<Rightarrow> 'f \<Rightarrow> 'f stats \<Rightarrow> 'f" where
  "stats_get_speed F opt_statsavg opt_n_threads thr_id def_speed st =
     (let (speed, records) = speed_loop F opt_statsavg thr_id (f_lit F 0 0) 0 (rev (tlastscans st));
          speed = (if records \<noteq> 0 then f_div F speed (f_of_int F records) else def_speed)
      in if thr_id = - 1 then f_mul F speed (f_of_int F opt_n_threads) else speed)"

fun gpu_speed_loop :: "'f fops \<Rightarrow> int \<Rightarrow> int \<Rightarrow> int list \<Rightarrow> 'f stats \<Rightarrow> int \<Rightarrow> nat \<Rightarrow> nat \<Rightarrow> 'f \<Rightarrow> 'f option" where
  "gpu_speed_loop F avg nthr devmap st gpu_id thr_id 0 speed = Some speed"
| "gpu_speed_loop F avg nthr devmap st gpu_id thr_id (Suc n) speed = do {
     dev_id \<leftarrow> rd devmap thr_id;
     gpu_speed_loop F avg nthr devmap st gpu_id (thr_id + 1) n
       (if gpu_id = - 1 \<or> dev_id = gpu_id
        then f_add F speed (stats_get_speed F avg nthr (int thr_id) (f_lit F 0 0) st) else speed) }"

definition stats_get_gpu_speed :: "'f fops \<Rightarrow> int \<Rightarrow> int \<Rightarrow> int list \<Rightarrow> int \<Rightarrow> 'f stats \<Rightarrow> 'f option" where
  "stats_get_gpu_speed F avg nthr devmap gpu_id st =
     gpu_speed_loop F avg nthr devmap st gpu_id 0 (nat nthr) (f_lit F 0 0)"

text \<open>The records exported to a caller's array that holds \<open>max_records\<close>.\<close>

definition stats_get_history :: "int \<Rightarrow> int \<Rightarrow> 'f stats \<Rightarrow> 'f stats_data list" where
  "stats_get_history thr_id max_records st =
     take (nat max_records) (filter (\<lambda>d. sd_ignored d = 0 \<and> (thr_id = - 1 \<or> uint (sd_thr_id d) = thr_id))
       (map snd (rev (tlastscans st))))"

definition purge_scans :: "u32 \<Rightarrow> 'f stats_data omap \<Rightarrow> 'f stats_data omap" where
  "purge_scans now m = om_erase_if (\<lambda>_ d. sd_ignored d \<noteq> 0 \<or> now - sd_tm_stat d > STATS_PURGE_TIMEOUT) m"

definition stats_purge_old :: "u32 \<Rightarrow> 'f stats \<Rightarrow> 'f stats" where
  "stats_purge_old now st = st\<lparr>tlastscans := purge_scans now (tlastscans st)\<rparr>"

definition stats_purge_all :: "'f stats \<Rightarrow> 'f stats" where
  "stats_purge_all st = st\<lparr>tlastscans := []\<rparr>"

definition stats_getmeminfo :: "'f stats \<Rightarrow> u64 \<times> u32" where
  "stats_getmeminfo st = (let records = (of_nat (length (tlastscans st)) :: u32) in (ucast records * 48, records))"

section \<open>The log grows at its end\<close>

text \<open>Keys come from a counter, so that a new record never replaces one and is the newest.\<close>

definition stats_inv :: "'f stats \<Rightarrow> bool" where
  "stats_inv st \<longleftrightarrow> om_ok (tlastscans st) \<and> (\<forall>e \<in> set (tlastscans st). fst e < st_uid st)"

lemma om_put_last: "\<forall>e \<in> set m. fst e < k \<Longrightarrow> om_put k v m = m @ [(k, v)]"
  by (induction k v m rule: om_put.induct) auto

interpretation sl: expiring_log "\<lambda>now d. sd_ignored d \<noteq> 0 \<or> now - sd_tm_stat d > STATS_PURGE_TIMEOUT" purge_scans
  by unfold_locales (auto simp: purge_scans_def om_find_erase split: option.splits)

lemma remember_appends:
  assumes "stats_inv st" "st_uid st \<noteq> - 1"
    "stats_remember_speed F env thr_id hashcount hashrate found height st = Some st'"
  shows "stats_inv st' \<and> (tlastscans st' = tlastscans st \<or>
    (\<exists>d. tlastscans st' = tlastscans st @ [(st_uid st, d)] \<and> sd_hashrate d = hashrate \<and> sd_hashcount d = hashcount \<and>
      sd_thr_id d = word_of_int thr_id))"
proof -
  have lt: "st_uid st < st_uid st + 1" using assms(2) unatSuc [of "st_uid st"] by (simp add: word_less_nat_alt add.commute eq_neg_iff_add_eq_0)
  have inv: "\<forall>e \<in> set (tlastscans st). fst e < st_uid st" "om_ok (tlastscans st)" using assms(1) by (auto simp: stats_inv_def)
  have k: "\<forall>e \<in> set (tlastscans st). fst e < st_uid st + 1" using inv(1) lt by (auto dest: less_trans)
  consider (few) "st' = st\<lparr>st_uid := st_uid st + 1\<rparr>"
    | (new) d where "st' = st\<lparr>st_uid := st_uid st + 1, tlastscans := om_put (st_uid st) d (tlastscans st)\<rparr>"
      "sd_hashrate d = hashrate" "sd_hashcount d = hashcount" "sd_thr_id d = word_of_int thr_id"
    using assms(3) by (simp add: stats_remember_speed_def Let_def bind_eq_Some_conv split: if_splits) fastforce+
  then show ?thesis
  proof cases
    case few
    then show ?thesis using k inv by (simp add: stats_inv_def)
  next
    case new
    then have "tlastscans st' = tlastscans st @ [(st_uid st, d)]" "st_uid st' = st_uid st + 1"
      using om_put_last [OF inv(1)] by simp_all
    moreover have "om_ok (tlastscans st')" using new(1) inv(2) by simp
    ultimately show ?thesis using new(2-4) k lt by (auto simp: stats_inv_def)
  qed
qed

text \<open>The records a speed is averaged over.\<close>

definition counted :: "int \<Rightarrow> 'f stats_data \<Rightarrow> bool" where
  "counted thr_id d \<longleftrightarrow> sd_ignored d = 0 \<and> (thr_id = - 1 \<or> uint (sd_thr_id d) = thr_id) \<and> sd_hashcount d > 1000"

definition samples :: "int \<Rightarrow> int \<Rightarrow> 'f stats \<Rightarrow> 'f stats_data list" where
  "samples opt_statsavg thr_id st = take (nat opt_statsavg) (filter (counted thr_id) (map snd (rev (tlastscans st))))"

lemma speed_loop_samples:
  "speed_loop F avg thr_id speed records r =
    (let s = take (nat (avg - records)) (filter (counted thr_id) (map snd r))
     in (foldl (f_add F) speed (map sd_hashrate s), records + int (length s)))"
proof (induction F avg thr_id speed records r rule: speed_loop.induct)
  case (2 F avg thr_id speed records k d r)
  show ?case
  proof (cases "records < avg")
    case True
    then have n: "nat (avg - records) = Suc (nat (avg - (records + 1)))" by simp
    have c: "sd_ignored d = 0 \<and> (thr_id = - 1 \<or> uint (sd_thr_id d) = thr_id) \<and> sd_hashcount d > 1000 \<longleftrightarrow> counted thr_id d"
      by (simp add: counted_def)
    have "speed_loop F avg thr_id speed records ((k, d) # r) =
        (if counted thr_id d then speed_loop F avg thr_id (f_add F speed (sd_hashrate d)) (records + 1) r
         else speed_loop F avg thr_id speed records r)"
      using True c by simp
    then show ?thesis using 2(1,2) True unfolding c n Let_def by (cases "counted thr_id d") simp_all
  qed simp
qed (simp add: Let_def)

section \<open>Properties\<close>

text \<open>The reported speed is a moving average. \<open>stats_get_speed\<close> is the mean of the rates of the
  newest \<open>opt_statsavg\<close> records that count for the thread (all threads for -1), and the default when
  there is none; for all threads together it is scaled by their number.\<close>

lemma speed_is_mean_of_newest:
  "stats_get_speed F opt_statsavg opt_n_threads thr_id def_speed st =
    (let s = samples opt_statsavg thr_id st;
         mean = (if s = [] then def_speed
                 else f_div F (foldl (f_add F) (f_lit F 0 0) (map sd_hashrate s)) (f_of_int F (int (length s))))
     in if thr_id = - 1 then f_mul F mean (f_of_int F opt_n_threads) else mean)"
proof -
  have "speed_loop F opt_statsavg thr_id (f_lit F 0 0) 0 (rev (tlastscans st)) =
      (foldl (f_add F) (f_lit F 0 0) (map sd_hashrate (samples opt_statsavg thr_id st)), int (length (samples opt_statsavg thr_id st)))"
    by (simp only: speed_loop_samples samples_def Let_def) simp
  then show ?thesis by (simp add: stats_get_speed_def Let_def)
qed

text \<open>Recording a speed never loses one. While the counter has not wrapped, every record made before
  is kept and a new one is the newest; a purge then keeps exactly the records that count and are at
  most two hours old, and both leave the log ordered with keys below the counter.\<close>

lemma stats_log_grows:
  assumes "stats_inv st" "st_uid st \<noteq> - 1"
    "stats_remember_speed F env thr_id hashcount hashrate found height st = Some st'"
  shows "stats_inv st' \<and> stats_inv (stats_purge_old now st') \<and>
    (tlastscans st' = tlastscans st \<or>
      (\<exists>d. tlastscans st' = tlastscans st @ [(st_uid st, d)] \<and> sd_hashrate d = hashrate)) \<and>
    set (tlastscans (stats_purge_old now st')) =
      {(k, d) \<in> set (tlastscans st'). sd_ignored d = 0 \<and> now - sd_tm_stat d \<le> STATS_PURGE_TIMEOUT}"
proof -
  have a: "stats_inv st'" using remember_appends [OF assms] by blast
  then have e: "set (purge_scans now (tlastscans st')) =
      {(k, d) \<in> set (tlastscans st'). sd_ignored d = 0 \<and> now - sd_tm_stat d \<le> STATS_PURGE_TIMEOUT}"
    using sl.purge_exact [of "tlastscans st'" now] by (auto simp: stats_inv_def not_less)
  with a have "stats_inv (stats_purge_old now st')"
    using sl.purge_ok by (auto simp: stats_inv_def stats_purge_old_def)
  with a e show ?thesis using remember_appends [OF assms] by (auto simp: stats_purge_old_def)
qed

definition no_stats :: "int stats" where
  "no_stats = \<lparr>tlastscans = [], st_uid = 0\<rparr>"

definition small_env :: "int stats_env" where
  "small_env = \<lparr>se_device_map = [0], se_now = 5, se_cur_pooln = 0, se_pools = [undefined], se_net_diff = 1,
     se_stratum_diff = 1, se_global_hashrate = 3, se_opt_n_threads = 1\<rparr>"

end
