(* ===== verification/Pools.thy ===== *)
theory Pools
  imports Stratum Algos Stats Hashlog
begin

text \<open>The pools of \<open>pools.cpp\<close>: their configuration, the choice of the next usable one and the switch between
  them, with the functions of \<open>ccminer.cpp\<close> it calls (\<open>restart_threads\<close>, \<open>get_work\<close>). The globals of the
  program that these functions and those of \<open>Submit\<close> read or write are the record \<open>miner\<close>; handles of libraries (sockets,
  curl, mutexes) are not part of it. What another thread or the system answers is the record \<open>answers\<close>.\<close>

section \<open>The globals\<close>

datatype 'f workio_cmd =
    WC_GET_WORK int int              \<comment> \<open>thread, pool\<close>
  | WC_SUBMIT_WORK int "'f work" int \<comment> \<open>thread, work, pool\<close>
  | WC_ABORT

text \<open>The \<open>benchmark_\<close> variables; time points are doubles.\<close>

record 'f benchmark =
  benchmark_ready :: u32
  benchmark_go :: bool
  benchmark_stopping :: bool
  benchmark_arrived :: "bool list"
  benchmark_started_at :: 'f
  benchmark_ended_at :: "'f list"
  benchmark_hashes :: "u64 list"

record 'f miner =
  pools :: "'f pool_infos list"       \<comment> \<open>\<open>pools[MAX_POOLS]\<close>\<close>
  num_pools :: int
  cur_pooln :: int
  allow_gbt :: bool
  allow_mininginfo :: bool
  check_dups :: bool
  rpc_url :: string
  rpc_user :: string
  rpc_pass :: string
  short_url :: string
  opt_algo :: int
  opt_max_diff :: 'f
  opt_max_rate :: 'f
  opt_scantime :: int
  opt_shares_limit :: int
  opt_time_limit :: int
  want_stratum :: bool
  have_stratum :: bool
  want_longpoll :: bool
  have_longpoll :: bool
  opt_stratum_stats :: bool
  opt_benchmark :: bool
  opt_n_threads :: int
  thr_hashrates :: "'f list"
  conditional_state :: "bool list"
  work_restart :: "bool list option"
  scans :: "'f stats"
  shares :: "'f hashlog"
  stratum :: "'f stratum_ctx"
  stratum_q :: "string list"          \<comment> \<open>what was pushed to the queue of the stratum thread\<close>
  longpoll_q :: "string list"         \<comment> \<open>what was pushed to the queue of the longpoll thread\<close>
  workio_q :: "'f workio_cmd list"       \<comment> \<open>what was pushed to the queue of the workio thread\<close>
  pool_switch_count :: int
  pool_is_switching :: bool
  stratum_need_reset :: bool
  net_diff :: 'f
  g_work :: "'f work"
  g_work_time :: int
  firstwork_time :: int
  opt_quiet :: bool
  opt_showdiff :: bool
  opt_submit_stale :: bool
  submit_old :: bool
  check_stratum_jobs :: bool
  use_roots :: bool
  opt_vote :: u16
  opt_statsavg :: int
  opt_retries :: int
  global_hashrate :: u64
  sent_lines :: "string list"         \<comment> \<open>the lines sent over the stratum connection\<close>
  opt_resume_diff :: 'f
  opt_resume_rate :: 'f
  opt_difficulty :: 'f
  stratum_diff :: 'f
  net_hashrate :: u64
  net_blocks :: u64
  use_pok :: bool
  opt_debug :: bool
  opt_pool_failover :: bool
  conditional_pool_rotate :: bool
  pool_on_hold :: bool
  abort_flag :: bool
  app_exit_code :: int
  device_map :: "int list"
  cgpu_accepted :: "u32 list"         \<comment> \<open>\<open>thr_info[i].gpu.accepted\<close>\<close>
  thr_q :: "(int \<times> 'f work option) list" \<comment> \<open>what was pushed to the queues of the miner threads, null included\<close>
  benchmark :: "'f benchmark"

record ('j, 'f) answers =
  an_E :: "('j, 'f) senv"
  an_now :: int
  an_alloc :: bool
  an_push :: bool                     \<comment> \<open>whether the queues accept\<close>
  an_work :: "'f work option"         \<comment> \<open>what the workio thread pushes to the queue of the caller\<close>
  an_atof :: "string \<Rightarrow> 'f"

abbreviation an_F :: "('j, 'f) answers \<Rightarrow> 'f fops" where
  "an_F A \<equiv> sv_F (an_E A)"

definition upd_pool :: "int \<Rightarrow> ('f pool_infos \<Rightarrow> 'f pool_infos) \<Rightarrow> 'f miner \<Rightarrow> 'f miner option" where
  "upd_pool i h m = do { p \<leftarrow> rd_int (pools m) i; Some (m\<lparr>pools := (pools m)[nat i := h p]\<rparr>) }"

text \<open>\<open>snprintf(dst, n, "%s", s)\<close>\<close>

definition fit :: "nat \<Rightarrow> string \<Rightarrow> string" where
  "fit n s = take (n - 1) s"

definition strstr :: "string \<Rightarrow> string \<Rightarrow> bool" where
  "strstr s t \<longleftrightarrow> (\<exists>k \<in> {0..length s}. take (length t) (drop k s) = t)"

section \<open>Configuration\<close>

definition pool_set_creds :: "('j, 'f) answers \<Rightarrow> int \<Rightarrow> 'f miner \<Rightarrow> 'f miner option" where
  "pool_set_creds A pooln m = upd_pool pooln (\<lambda>p.
     let F = an_F A;
         p = p\<lparr>pool_url := fit 512 (rpc_url m), pool_short_url := fit 64 (short_url m), pool_user := fit 192 (rpc_user m),
               pool_pass := fit 384 (rpc_pass m)\<rparr>;
         p = (if pool_status p AND POOL_ST_DEFINED = 0
              then p\<lparr>pool_id := word_of_int pooln, pool_algo := - 1, pool_max_diff := f_lit F (- 1) 0, pool_max_rate := f_lit F (- 1) 0,
                     pool_scantime := - 1, pool_shares_limit := - 1, pool_time_limit := - 1,
                     pool_allow_mininginfo := of_bool (allow_mininginfo m), pool_allow_gbt := of_bool (allow_gbt m),
                     pool_check_dups := of_bool (check_dups m), pool_status := pool_status p OR POOL_ST_DEFINED\<rparr>
              else p)
     in if rpc_url m \<noteq> []
        then p\<lparr>pool_type := (if strcaseeq (take 7 (rpc_url m)) ''stratum'' then POOL_STRATUM else POOL_GETWORK),
               pool_status := pool_status p OR POOL_ST_VALID\<rparr>
        else p) m"

definition pool_defaults :: "('j, 'f) answers \<Rightarrow> 'f miner \<Rightarrow> 'f pool_infos \<Rightarrow> 'f pool_infos" where
  "pool_defaults A m p =
     (let F = an_F A;
          unset = f_lit F (- 1) 0;
          p = (if pool_algo p = - 1 then p\<lparr>pool_algo := opt_algo m\<rparr> else p);
          p = (if f_eq F (pool_max_diff p) unset then p\<lparr>pool_max_diff := opt_max_diff m\<rparr> else p);
          p = (if f_eq F (pool_max_rate p) unset then p\<lparr>pool_max_rate := opt_max_rate m\<rparr> else p);
          p = (if pool_scantime p = - 1 then p\<lparr>pool_scantime := opt_scantime m\<rparr> else p);
          p = (if pool_shares_limit p = - 1 then p\<lparr>pool_shares_limit := opt_shares_limit m\<rparr> else p)
      in if pool_time_limit p = - 1 then p\<lparr>pool_time_limit := opt_time_limit m\<rparr> else p)"

fun defaults_loop :: "('j, 'f) answers \<Rightarrow> nat \<Rightarrow> nat \<Rightarrow> 'f miner \<Rightarrow> 'f miner option" where
  "defaults_loop A i 0 m = Some m"
| "defaults_loop A i (Suc n) m = do { m \<leftarrow> upd_pool (int i) (pool_defaults A m) m; defaults_loop A (i + 1) n m }"

definition pool_init_defaults :: "('j, 'f) answers \<Rightarrow> 'f miner \<Rightarrow> 'f miner option" where
  "pool_init_defaults A m = defaults_loop A 0 (nat (num_pools m)) m"

definition pool_set_attr :: "('j, 'f) answers \<Rightarrow> int \<Rightarrow> string \<Rightarrow> string \<Rightarrow> 'f miner \<Rightarrow> 'f miner option" where
  "pool_set_attr A pooln key arg m = upd_pool pooln (\<lambda>p.
     if strcaseeq key ''name'' then p\<lparr>pool_name := fit 64 arg\<rparr>
     else if strcaseeq key ''algo'' then p\<lparr>pool_algo := algo_to_int arg\<rparr>
     else if strcaseeq key ''scantime'' then p\<lparr>pool_scantime := atoi arg\<rparr>
     else if strcaseeq key ''max-diff'' then p\<lparr>pool_max_diff := an_atof A arg\<rparr>
     else if strcaseeq key ''max-rate'' then p\<lparr>pool_max_rate := an_atof A arg\<rparr>
     else if strcaseeq key ''shares-limit'' then p\<lparr>pool_shares_limit := atoi arg\<rparr>
     else if strcaseeq key ''time-limit'' then p\<lparr>pool_time_limit := atoi arg\<rparr>
     else if strcaseeq key ''disabled'' then
       if atoi arg \<noteq> 0 then p\<lparr>pool_status := pool_status p OR POOL_ST_REMOVED\<rparr> else p
     else p) m"

section \<open>Calls into \<open>ccminer.cpp\<close>\<close>

text \<open>A loop \<open>for (i = 0; i < n; i++) xs[i] = v\<close>.\<close>

fun fill :: "nat \<Rightarrow> nat \<Rightarrow> 'a \<Rightarrow> 'a list \<Rightarrow> 'a list option" where
  "fill i 0 v xs = Some xs"
| "fill i (Suc n) v xs = do { xs \<leftarrow> wr xs i v; fill (i + 1) n v xs }"

definition restart_threads :: "'f miner \<Rightarrow> 'f miner option" where
  "restart_threads m = (case work_restart m of
     None \<Rightarrow> Some m
   | Some r \<Rightarrow> do { r \<leftarrow> fill 0 (nat (opt_n_threads m)) True r; Some (m\<lparr>work_restart := Some r\<rparr>) })"

text \<open>\<open>get_work\<close>: in a benchmark a fixed work, else a request to the workio thread and its answer.\<close>

definition benchmark_work :: "int \<Rightarrow> 'f work \<Rightarrow> 'f work option" where
  "benchmark_work algo w = do {
     data \<leftarrow> wrn (w_data w) 0 (replicate 19 0x55555555);
     data \<leftarrow> wrn data 19 (replicate 13 0);
     data \<leftarrow> (if algo = ALGO_DECRED then wrn data 35 (replicate 13 0)
              else if algo = ALGO_LBRY then wr data 28 0x80000000
              else do { data \<leftarrow> wr data 20 0x80000000; wr data 31 0x280 });
     Some (w\<lparr>w_data := data, w_target := replicate 8 0\<rparr>) }"

definition get_work :: "('j, 'f) answers \<Rightarrow> int \<Rightarrow> 'f work \<Rightarrow> 'f miner \<Rightarrow> (bool \<times> 'f work \<times> 'f miner) option" where
  "get_work A thr w m =
     (if opt_benchmark m then do { w \<leftarrow> benchmark_work (opt_algo m) w; Some (True, w, m) }
      else if \<not> an_alloc A \<or> \<not> an_push A then Some (False, w, m)
      else let m = m\<lparr>workio_q := workio_q m @ [WC_GET_WORK thr (cur_pooln m)]\<rparr> in
        case an_work A of None \<Rightarrow> Some (False, w, m) | Some v \<Rightarrow> Some (True, v, m))"

section \<open>Switching\<close>

definition is_stratum :: "'f pool_infos \<Rightarrow> bool" where
  "is_stratum p \<longleftrightarrow> pool_type p AND POOL_STRATUM \<noteq> 0"

definition rpc2_algo :: "int \<Rightarrow> bool" where
  "rpc2_algo a \<longleftrightarrow> a = ALGO_WILDKECCAK \<or> a = ALGO_CRYPTONIGHT \<or> a = ALGO_CRYPTOLIGHT"

text \<open>The globals that are copied from the pool.\<close>

definition load_pool :: "'f pool_infos \<Rightarrow> 'f miner \<Rightarrow> 'f miner" where
  "load_pool p m = m\<lparr>rpc_user := pool_user p, rpc_pass := pool_pass p, rpc_url := pool_url p, short_url := pool_short_url p,
     opt_scantime := pool_scantime p, opt_max_diff := pool_max_diff p, opt_max_rate := pool_max_rate p,
     opt_shares_limit := pool_shares_limit p, opt_time_limit := pool_time_limit p,
     want_stratum := is_stratum p, have_stratum := is_stratum p,
     opt_stratum_stats := strstr (pool_pass p) ''stats'' \<or> pool_user p = ''benchmark''\<rparr>"

definition switch_algo :: "('j, 'f) answers \<Rightarrow> 'f pool_infos \<Rightarrow> 'f miner \<Rightarrow> 'f miner option" where
  "switch_algo A p m =
     (if pool_algo p \<noteq> opt_algo m then do {
        m \<leftarrow> (if opt_algo m \<noteq> ALGO_AUTO then do {
            r \<leftarrow> fill 0 (nat (opt_n_threads m)) (f_lit (an_F A) 0 0) (thr_hashrates m);
            let m = m\<lparr>thr_hashrates := r, scans := stats_purge_all (scans m)\<rparr>;
            Some (if check_dups m then m\<lparr>shares := hashlog_purge_all (shares m)\<rparr> else m) }
          else Some m);
        Some (m\<lparr>opt_algo := pool_algo p\<rparr>) }
      else Some m)"

text \<open>The part that runs when the pool really changes.\<close>

definition change_pool :: "('j, 'f) answers \<Rightarrow> 'f pool_infos \<Rightarrow> 'f miner \<Rightarrow> 'f miner option" where
  "change_pool A p m = do {
     let F = an_F A;
     data \<leftarrow> wr (w_data (g_work m)) 0 0;
     let m = m\<lparr>pool_switch_count := pool_switch_count m + 1, net_diff := f_lit F 0 0, g_work_time := 0,
       g_work := (g_work m)\<lparr>w_data := data\<rparr>, pool_is_switching := True, stratum_need_reset := True, firstwork_time := an_now A\<rparr>;
     m \<leftarrow> restart_threads m;
     cs \<leftarrow> fill 0 (nat (opt_n_threads m)) False (conditional_state m);
     let m = m\<lparr>conditional_state := cs, allow_gbt := pool_allow_gbt p \<noteq> 0, allow_mininginfo := pool_allow_mininginfo p \<noteq> 0,
       check_dups := pool_check_dups p \<noteq> 0\<rparr>;
     let m = (if want_stratum m
       then m\<lparr>stratum := (pool_stratum p)\<lparr>ctx_pooln := cur_pooln m, ctx_rpc2 := rpc2_algo (pool_algo p)\<rparr>,
              stratum_q := (if an_push A then stratum_q m @ [rpc_url m] else stratum_q m)\<rparr>
       else m);
     let m = m\<lparr>want_longpoll := pool_type p AND POOL_LONGPOLL \<noteq> 0 \<or> \<not> is_stratum p\<rparr>;
     if want_longpoll m then do {
       (_, w, m) \<leftarrow> get_work A 0 (g_work m) (m\<lparr>have_longpoll := False\<rparr>);
       Some (m\<lparr>g_work := w\<rparr>) }
     else Some m }"

definition pool_switch :: "('j, 'f) answers \<Rightarrow> int \<Rightarrow> 'f miner \<Rightarrow> (bool \<times> 'f miner) option" where
  "pool_switch A pooln m = do {
     let prevn = cur_pooln m;
     prev \<leftarrow> rd_int (pools m) prevn;
     let m = (if is_stratum prev then m\<lparr>stratum := stratum_free_job (an_E A) (stratum m)\<rparr> else m);
     let prev = (if is_stratum prev then prev\<lparr>pool_stratum := stratum m\<rparr> else prev);
     let m = m\<lparr>pools := (pools m)[nat prevn := prev]\<rparr>;
     if \<not> pooln < num_pools m then Some (False, m)
     else do {
       let m = m\<lparr>cur_pooln := pooln\<rparr>;
       let prev = prev\<lparr>pool_allow_mininginfo := of_bool (allow_mininginfo m), pool_allow_gbt := of_bool (allow_gbt m),
         pool_check_dups := of_bool (check_dups m)\<rparr>;
       let m = m\<lparr>pools := (pools m)[nat prevn := prev]\<rparr>;
       p \<leftarrow> rd_int (pools m) pooln;
       let m = load_pool p m;
       m \<leftarrow> switch_algo A p m;
       m \<leftarrow> (if prevn \<noteq> pooln then change_pool A p m else Some m);
       Some (True, m\<lparr>stratum := (stratum m)\<lparr>ctx_rpc2 := rpc2_algo (pool_algo p)\<rparr>\<rparr>) } }"

text \<open>\<open>%\<close> of the C type \<open>int\<close>; the number of pools is positive wherever the loop runs.\<close>

definition usable :: "'f pool_infos \<Rightarrow> bool" where
  "usable p \<longleftrightarrow> pool_status p AND POOL_ST_VALID \<noteq> 0 \<and> pool_status p AND (POOL_ST_DISABLED OR POOL_ST_REMOVED) = 0"

fun valid_loop :: "'f miner \<Rightarrow> int \<Rightarrow> nat \<Rightarrow> nat \<Rightarrow> int option" where
  "valid_loop m startfrom i 0 = Some 0"
| "valid_loop m startfrom i (Suc n) = do {
     let pooln = (startfrom + int i) smod num_pools m;
     p \<leftarrow> rd_int (pools m) pooln;
     if usable p then Some pooln else valid_loop m startfrom (i + 1) n }"

definition pool_get_first_valid :: "int \<Rightarrow> 'f miner \<Rightarrow> int option" where
  "pool_get_first_valid startfrom m = valid_loop m startfrom 0 (nat (num_pools m))"

definition pool_switch_next :: "('j, 'f) answers \<Rightarrow> 'f miner \<Rightarrow> (bool \<times> 'f miner) option" where
  "pool_switch_next A m =
     (if num_pools m > 1 then do { pooln \<leftarrow> pool_get_first_valid (cur_pooln m + 1) m; pool_switch A pooln m }
      else Some (False, m))"

section \<open>Well-formed globals\<close>

definition wf_miner :: "'f miner \<Rightarrow> bool" where
  "wf_miner m \<longleftrightarrow> length (pools m) = MAX_POOLS \<and> 0 \<le> cur_pooln m \<and> cur_pooln m < num_pools m \<and> num_pools m \<le> int MAX_POOLS \<and>
     length (thr_hashrates m) = MAX_GPUS \<and> length (conditional_state m) = MAX_GPUS \<and> nat (opt_n_threads m) \<le> MAX_GPUS \<and>
     (\<forall>r. work_restart m = Some r \<longrightarrow> length r = nat (opt_n_threads m)) \<and> length (w_data (g_work m)) = 48"

definition wf_answers :: "('j, 'f) answers \<Rightarrow> bool" where
  "wf_answers A \<longleftrightarrow> (\<forall>w. an_work A = Some w \<longrightarrow> length (w_data w) = 48)"

lemma fill_total: "i + n \<le> length xs \<Longrightarrow> \<exists>ys. fill i n v xs = Some ys \<and> length ys = length xs"
proof (induction n arbitrary: i xs)
  case (Suc n)
  then show ?case using Suc.IH [of "i + 1" "xs[i := v]"] by (simp add: mem_simps)
qed simp

lemma fill_all: "length xs = i + n \<Longrightarrow> fill i n v xs = Some (take i xs @ replicate n v)"
proof (induction n arbitrary: i xs)
  case (Suc n)
  then show ?case
    using Suc.IH [of "xs[i := v]" "i + 1"] by (simp add: mem_simps take_Suc_conv_app_nth)
qed simp

text \<open>The globals agree with the current pool.\<close>

definition in_sync :: "'f miner \<Rightarrow> bool" where
  "in_sync m \<longleftrightarrow> (let p = pools m ! nat (cur_pooln m) in
     rpc_user m = pool_user p \<and> rpc_pass m = pool_pass p \<and> rpc_url m = pool_url p \<and> short_url m = pool_short_url p \<and>
     opt_scantime m = pool_scantime p \<and> opt_max_diff m = pool_max_diff p \<and> opt_max_rate m = pool_max_rate p \<and>
     opt_shares_limit m = pool_shares_limit p \<and> opt_time_limit m = pool_time_limit p \<and>
     want_stratum m = is_stratum p \<and> have_stratum m = is_stratum p \<and> opt_algo m = pool_algo p)"

text \<open>What a switch leaves alone in a pool.\<close>

definition same_config :: "'f pool_infos \<Rightarrow> 'f pool_infos \<Rightarrow> bool" where
  "same_config p q \<longleftrightarrow> (\<exists>c g i d. q = p\<lparr>pool_stratum := c, pool_allow_gbt := g, pool_allow_mininginfo := i, pool_check_dups := d\<rparr>)"

lemma same_config_refl [simp]: "same_config p p"
  unfolding same_config_def
  by (intro exI [of _ "pool_stratum p"] exI [of _ "pool_allow_gbt p"] exI [of _ "pool_allow_mininginfo p"]
      exI [of _ "pool_check_dups p"]) simp

section \<open>The effect of a switch\<close>

lemma restart_threads_total:
  assumes "\<forall>r. work_restart m = Some r \<longrightarrow> length r = nat (opt_n_threads m)"
  shows "\<exists>r. restart_threads m = Some (m\<lparr>work_restart := r\<rparr>) \<and> (r = None \<longleftrightarrow> work_restart m = None) \<and>
    (\<forall>x. r = Some x \<longrightarrow> x = replicate (nat (opt_n_threads m)) True)"
proof (cases "work_restart m")
  case None
  then show ?thesis by (intro exI [of _ None]) (simp add: restart_threads_def)
next
  case (Some r)
  then show ?thesis
    using assms fill_all [of r 0 "nat (opt_n_threads m)" True]
    by (intro exI [of _ "Some (replicate (nat (opt_n_threads m)) True)"]) (simp add: restart_threads_def)
qed

lemma switch_algo_total:
  assumes "wf_miner m"
  shows "\<exists>r sc sh. switch_algo A p m = Some (m\<lparr>thr_hashrates := r, scans := sc, shares := sh, opt_algo := pool_algo p\<rparr>) \<and>
    length r = MAX_GPUS"
proof -
  have "nat (opt_n_threads m) \<le> length (thr_hashrates m)" "length (thr_hashrates m) = MAX_GPUS"
    using assms by (simp_all add: wf_miner_def)
  then obtain r where r: "fill 0 (nat (opt_n_threads m)) (f_lit (an_F A) 0 0) (thr_hashrates m) = Some r" "length r = MAX_GPUS"
    using fill_total [of 0 "nat (opt_n_threads m)" "thr_hashrates m"] by auto
  show ?thesis
  proof (cases "pool_algo p \<noteq> opt_algo m \<and> opt_algo m \<noteq> ALGO_AUTO")
    case True
    with r show ?thesis
      by (intro exI [of _ r] exI [of _ "stats_purge_all (scans m)"]
          exI [of _ "if check_dups m then hashlog_purge_all (shares m) else shares m"]) (simp add: switch_algo_def)
  next
    case False
    then show ?thesis
      using \<open>length (thr_hashrates m) = MAX_GPUS\<close>
      by (intro exI [of _ "thr_hashrates m"] exI [of _ "scans m"] exI [of _ "shares m"]) (auto simp: switch_algo_def)
  qed
qed

lemma get_work_total:
  assumes "length (w_data w) = 48" "wf_answers A"
  shows "\<exists>b v q. get_work A t w m = Some (b, v, m\<lparr>workio_q := q\<rparr>) \<and> length (w_data v) = 48"
proof (cases "opt_benchmark m")
  case True
  have "\<exists>v. benchmark_work (opt_algo m) w = Some v \<and> length (w_data v) = 48"
    using assms(1) by (simp add: benchmark_work_def mem_simps len_simps)
  then obtain v where "benchmark_work (opt_algo m) w = Some v" "length (w_data v) = 48" by blast
  with True show ?thesis
    by (intro exI [of _ True] exI [of _ v] exI [of _ "workio_q m"]) (simp add: get_work_def)
next
  case False
  show ?thesis
  proof (cases "an_alloc A \<and> an_push A")
    case True
    then show ?thesis
      using False assms
      by (cases "an_work A"; intro exI [of _ "an_work A \<noteq> None"] exI [of _ "case an_work A of None \<Rightarrow> w | Some v \<Rightarrow> v"]
          exI [of _ "workio_q m @ [WC_GET_WORK t (cur_pooln m)]"]) (simp_all add: get_work_def wf_answers_def)
  next
    case False
    then show ?thesis
      using \<open>\<not> opt_benchmark m\<close> assms(1)
      by (intro exI [of _ False] exI [of _ w] exI [of _ "workio_q m"]) (simp add: get_work_def)
  qed
qed

lemma change_pool_total:
  assumes "wf_miner m" "wf_answers A"
  shows "\<exists>w q r cs sq h. change_pool A p m = Some (m\<lparr>pool_switch_count := pool_switch_count m + 1, net_diff := f_lit (an_F A) 0 0,
      g_work_time := 0, g_work := w, pool_is_switching := True, stratum_need_reset := True, firstwork_time := an_now A,
      work_restart := r, conditional_state := cs, allow_gbt := pool_allow_gbt p \<noteq> 0,
      allow_mininginfo := pool_allow_mininginfo p \<noteq> 0, check_dups := pool_check_dups p \<noteq> 0,
      stratum := (if want_stratum m then (pool_stratum p)\<lparr>ctx_pooln := cur_pooln m, ctx_rpc2 := rpc2_algo (pool_algo p)\<rparr> else stratum m),
      stratum_q := sq, want_longpoll := pool_type p AND POOL_LONGPOLL \<noteq> 0 \<or> \<not> is_stratum p, have_longpoll := h, workio_q := q\<rparr>) \<and>
    length (w_data w) = 48 \<and> length cs = MAX_GPUS \<and> (\<forall>x. r = Some x \<longrightarrow> x = replicate (nat (opt_n_threads m)) True) \<and>
    (want_stratum m \<and> an_push A \<longrightarrow> sq = stratum_q m @ [rpc_url m])"
proof -
  let ?sq = "if want_stratum m \<and> an_push A then stratum_q m @ [rpc_url m] else stratum_q m"
  let ?lp = "pool_type p AND POOL_LONGPOLL \<noteq> 0 \<or> \<not> is_stratum p"
  let ?g = "(g_work m)\<lparr>w_data := (w_data (g_work m))[0 := 0]\<rparr>"
  have w: "length (w_data (g_work m)) = 48" "nat (opt_n_threads m) \<le> length (conditional_state m)" "length (conditional_state m) = MAX_GPUS"
    "\<forall>r. work_restart m = Some r \<longrightarrow> length r = nat (opt_n_threads m)"
    using assms(1) by (simp_all add: wf_miner_def)
  define m1 where "m1 = m\<lparr>pool_switch_count := pool_switch_count m + 1, net_diff := f_lit (an_F A) 0 0, g_work_time := 0,
    g_work := ?g, pool_is_switching := True, stratum_need_reset := True, firstwork_time := an_now A\<rparr>"
  obtain r where r: "restart_threads m1 = Some (m1\<lparr>work_restart := r\<rparr>)"
    "\<forall>x. r = Some x \<longrightarrow> x = replicate (nat (opt_n_threads m)) True"
    using restart_threads_total [of m1] w(4) by (auto simp: m1_def)
  obtain cs where cs: "fill 0 (nat (opt_n_threads m)) False (conditional_state m) = Some cs" "length cs = MAX_GPUS"
    using fill_total [of 0 "nat (opt_n_threads m)" "conditional_state m" False] w(2,3) by auto
  define m2 where "m2 = m1\<lparr>work_restart := r, conditional_state := cs, allow_gbt := pool_allow_gbt p \<noteq> 0,
    allow_mininginfo := pool_allow_mininginfo p \<noteq> 0, check_dups := pool_check_dups p \<noteq> 0,
    stratum := (if want_stratum m then (pool_stratum p)\<lparr>ctx_pooln := cur_pooln m, ctx_rpc2 := rpc2_algo (pool_algo p)\<rparr> else stratum m),
    stratum_q := ?sq, want_longpoll := ?lp\<rparr>"
  have e: "change_pool A p m = (if ?lp then do { (_, w, m) \<leftarrow> get_work A 0 ?g (m2\<lparr>have_longpoll := False\<rparr>); Some (m\<lparr>g_work := w\<rparr>) } else Some m2)"
    using w(1) r(1) cs by (auto simp: change_pool_def mem_simps Let_def m2_def m1_def)
  obtain b v q where g: "get_work A 0 ?g (m2\<lparr>have_longpoll := False\<rparr>) = Some (b, v, m2\<lparr>have_longpoll := False, workio_q := q\<rparr>)"
    "length (w_data v) = 48"
    using get_work_total [of ?g A 0 "m2\<lparr>have_longpoll := False\<rparr>"] w(1) assms(2) by auto
  have "change_pool A p m = Some (if ?lp then m2\<lparr>have_longpoll := False, workio_q := q, g_work := v\<rparr> else m2)"
    using e g(1) by (cases ?lp) (simp_all only: if_True if_False bind.bind_lunit split miner.update_convs)
  then show ?thesis
    using g(2) r(2) cs(2) w(1)
    by (intro exI [of _ "if ?lp then v else ?g"] exI [of _ "if ?lp then q else workio_q m"] exI [of _ r] exI [of _ cs] exI [of _ ?sq]
        exI [of _ "if ?lp then False else have_longpoll m"]) (simp add: m2_def m1_def)
qed

text \<open>The record of the pool that is left.\<close>

definition saved_pool :: "('j, 'f) answers \<Rightarrow> 'f miner \<Rightarrow> 'f pool_infos" where
  "saved_pool A m = (let p = pools m ! nat (cur_pooln m) in
     (if is_stratum p then p\<lparr>pool_stratum := stratum_free_job (an_E A) (stratum m)\<rparr> else p)
       \<lparr>pool_allow_mininginfo := of_bool (allow_mininginfo m), pool_allow_gbt := of_bool (allow_gbt m),
        pool_check_dups := of_bool (check_dups m)\<rparr>)"

definition left_pools :: "('j, 'f) answers \<Rightarrow> 'f miner \<Rightarrow> 'f pool_infos list" where
  "left_pools A m = (pools m)[nat (cur_pooln m) := saved_pool A m]"

lemma saved_pool_config: "same_config (pools m ! nat (cur_pooln m)) (saved_pool A m)"
  unfolding same_config_def saved_pool_def Let_def
  by (intro exI [of _ "if is_stratum (pools m ! nat (cur_pooln m)) then stratum_free_job (an_E A) (stratum m)
        else pool_stratum (pools m ! nat (cur_pooln m))"] exI [of _ "of_bool (allow_gbt m)"]
      exI [of _ "of_bool (allow_mininginfo m)"] exI [of _ "of_bool (check_dups m)"]) simp

text \<open>The globals when the pool has been left and the number of the new one is set.\<close>

definition leave_pool :: "('j, 'f) answers \<Rightarrow> int \<Rightarrow> 'f miner \<Rightarrow> 'f miner" where
  "leave_pool A n m = (if is_stratum (pools m ! nat (cur_pooln m)) then m\<lparr>stratum := stratum_free_job (an_E A) (stratum m)\<rparr> else m)
    \<lparr>cur_pooln := n, pools := left_pools A m\<rparr>"

lemma pool_switch_steps:
  assumes "wf_miner m" "0 \<le> n" "n < num_pools m"
  shows "pool_switch A n m = do {
      let p = left_pools A m ! nat n;
      m' \<leftarrow> switch_algo A p (load_pool p (leave_pool A n m));
      m' \<leftarrow> (if cur_pooln m \<noteq> n then change_pool A p m' else Some m');
      Some (True, m'\<lparr>stratum := (stratum m')\<lparr>ctx_rpc2 := rpc2_algo (pool_algo p)\<rparr>\<rparr>) }"
proof -
  let ?c = "cur_pooln m"
  have w: "length (pools m) = 8" "0 \<le> ?c" "?c < num_pools m" "num_pools m \<le> 8"
    using assms(1) by (simp_all add: wf_miner_def MAX_POOLS_def)
  then have "length (left_pools A m) = 8" "nat n < 8" using assms(2,3) by (simp_all add: left_pools_def)
  then show ?thesis
    using w assms(2,3)
    by (cases "is_stratum (pools m ! nat ?c)")
      (simp_all add: pool_switch_def mem_simps Let_def leave_pool_def left_pools_def saved_pool_def split del: if_split cong: if_cong)
qed

lemma pool_switch_effect:
  fixes m :: "'f miner" and A :: "('j, 'f) answers"
  assumes "wf_miner m" "wf_answers A" "0 \<le> n" "n < num_pools m"
  defines "p \<equiv> left_pools A m ! nat n"
  shows "\<exists>m'. pool_switch A n m = Some (True, m') \<and> wf_miner m' \<and> in_sync m' \<and> cur_pooln m' = n \<and>
    num_pools m' = num_pools m \<and> pools m' = left_pools A m \<and>
    (n \<noteq> cur_pooln m \<longrightarrow> allow_gbt m' = (pool_allow_gbt p \<noteq> 0) \<and> allow_mininginfo m' = (pool_allow_mininginfo p \<noteq> 0) \<and>
       check_dups m' = (pool_check_dups p \<noteq> 0) \<and> (\<forall>r. work_restart m' = Some r \<longrightarrow> set r \<subseteq> {True}) \<and>
       (is_stratum p \<longrightarrow> stratum m' = (pool_stratum p)\<lparr>ctx_pooln := n, ctx_rpc2 := rpc2_algo (pool_algo p)\<rparr> \<and>
          (an_push A \<longrightarrow> stratum_q m' = stratum_q m @ [pool_url p])))"
proof -
  let ?c = "cur_pooln m" and ?ps = "left_pools A m"
  have w: "length (pools m) = 8" "0 \<le> ?c" "?c < num_pools m" "num_pools m \<le> 8"
    using assms(1) by (simp_all add: wf_miner_def MAX_POOLS_def)
  have l: "length ?ps = 8" "nat n < 8" using w assms(3,4) by (simp_all add: left_pools_def)
  define m1 where "m1 = leave_pool A n m"
  have m1: "wf_miner (load_pool p m1)" "num_pools m1 = num_pools m" "stratum_q m1 = stratum_q m" "cur_pooln m1 = n" "pools m1 = ?ps"
    using assms(1,3,4) l by (simp_all add: wf_miner_def load_pool_def m1_def leave_pool_def MAX_POOLS_def)
  have sw: "pool_switch A n m = do {
      m \<leftarrow> switch_algo A p (load_pool p m1);
      m \<leftarrow> (if ?c \<noteq> n then change_pool A p m else Some m);
      Some (True, m\<lparr>stratum := (stratum m)\<lparr>ctx_rpc2 := rpc2_algo (pool_algo p)\<rparr>\<rparr>) }"
    using pool_switch_steps [OF assms(1,3,4), of A] unfolding Let_def p_def m1_def .
  obtain r sc sh where a: "switch_algo A p (load_pool p m1) =
      Some ((load_pool p m1)\<lparr>thr_hashrates := r, scans := sc, shares := sh, opt_algo := pool_algo p\<rparr>)" "length r = MAX_GPUS"
    using switch_algo_total [OF m1(1), of A p] by blast
  define m2 where "m2 = (load_pool p m1)\<lparr>thr_hashrates := r, scans := sc, shares := sh, opt_algo := pool_algo p\<rparr>"
  have m2: "wf_miner m2" "want_stratum m2 = is_stratum p" "pools m2 = ?ps" "cur_pooln m2 = n" "num_pools m2 = num_pools m"
    "in_sync m2" "rpc_url m2 = pool_url p" "stratum_q m2 = stratum_q m"
    using m1 a(2) by (simp_all add: m2_def wf_miner_def load_pool_def in_sync_def p_def)
  show ?thesis
  proof (cases "?c = n")
    case True
    then have "pool_switch A n m = Some (True, m2\<lparr>stratum := (stratum m2)\<lparr>ctx_rpc2 := rpc2_algo (pool_algo p)\<rparr>\<rparr>)"
      using sw a(1) by (simp add: m2_def [symmetric])
    then show ?thesis using True m2 by (simp add: wf_miner_def in_sync_def)
  next
    case False
    obtain w q rs cs sq h where c: "change_pool A p m2 = Some (m2\<lparr>pool_switch_count := pool_switch_count m2 + 1,
      net_diff := f_lit (an_F A) 0 0,
      g_work_time := 0, g_work := w, pool_is_switching := True, stratum_need_reset := True, firstwork_time := an_now A,
      work_restart := rs, conditional_state := cs, allow_gbt := pool_allow_gbt p \<noteq> 0,
      allow_mininginfo := pool_allow_mininginfo p \<noteq> 0, check_dups := pool_check_dups p \<noteq> 0,
      stratum := (if want_stratum m2 then (pool_stratum p)\<lparr>ctx_pooln := cur_pooln m2, ctx_rpc2 := rpc2_algo (pool_algo p)\<rparr> else stratum m2),
      stratum_q := sq, want_longpoll := pool_type p AND POOL_LONGPOLL \<noteq> 0 \<or> \<not> is_stratum p, have_longpoll := h, workio_q := q\<rparr>)"
      "length (w_data w) = 48" "length cs = MAX_GPUS" "\<forall>x. rs = Some x \<longrightarrow> x = replicate (nat (opt_n_threads m2)) True"
      "want_stratum m2 \<and> an_push A \<longrightarrow> sq = stratum_q m2 @ [rpc_url m2]"
      using change_pool_total [OF m2(1) assms(2), of p] by blast
    show ?thesis
      using False sw a(1) c m2 unfolding m2_def [symmetric]
      by (auto simp: wf_miner_def in_sync_def)
  qed
qed

lemma same_config_trans: "same_config p q \<Longrightarrow> same_config q r \<Longrightarrow> same_config p r"
  unfolding same_config_def by (elim exE) (simp, blast)

lemma config_update: "same_config (ps ! i) q \<Longrightarrow> list_all2 same_config ps (ps[i := q])"
  unfolding list_all2_conv_all_nth
proof (intro conjI allI impI)
  fix j assume "same_config (ps ! i) q" "j < length ps"
  then show "same_config (ps ! j) (ps[i := q] ! j)" by (cases "j = i") simp_all
qed simp

lemma left_pools_config: "list_all2 same_config (pools m) (left_pools A m)"
  unfolding left_pools_def by (rule config_update [OF saved_pool_config])

text \<open>The pool that a search finds, \<open>k\<close> places after the start.\<close>

definition first_usable :: "'f miner \<Rightarrow> int \<Rightarrow> nat \<Rightarrow> bool" where
  "first_usable m start k \<longleftrightarrow> int k < num_pools m \<and> usable (pools m ! nat ((start + int k) mod num_pools m)) \<and>
     (\<forall>j < k. \<not> usable (pools m ! nat ((start + int j) mod num_pools m)))"

lemma valid_loop_spec:
  assumes "wf_miner m" "0 \<le> start" "i + n = nat (num_pools m)"
    "\<forall>j < i. \<not> usable (pools m ! nat ((start + int j) mod num_pools m))"
  shows "if \<exists>p \<in> set (take (nat (num_pools m)) (pools m)). usable p
    then \<exists>k. first_usable m start k \<and> valid_loop m start i n = Some ((start + int k) mod num_pools m)
    else valid_loop m start i n = Some 0"
  using assms(3,4)
proof (induction n arbitrary: i)
  case 0
  let ?n = "num_pools m"
  have n: "0 < ?n" "?n \<le> int (length (pools m))" using assms(1) by (simp_all add: wf_miner_def)
  have "\<not> usable p" if p: "p \<in> set (take (nat ?n) (pools m))" for p
  proof -
    obtain q where q: "q < nat ?n" "p = pools m ! q" using p n by (auto simp: in_set_conv_nth)
    define j where "j = nat ((int q - start) mod ?n)"
    have "int j = (int q - start) mod ?n" "j < i" using n 0 by (simp_all add: j_def nat_less_iff)
    then have "(start + int j) mod ?n = int q" using q(1) n by (simp add: mod_add_right_eq)
    then show ?thesis using 0(2) \<open>j < i\<close> q by (metis nat_int)
  qed
  then show ?case by auto
next
  case (Suc n)
  let ?n = "num_pools m" and ?q = "(start + int i) mod num_pools m"
  have n: "0 < ?n" "?n \<le> int (length (pools m))" using assms(1) by (simp_all add: wf_miner_def)
  have q: "0 \<le> ?q" "?q < ?n" using n by simp_all
  have sm: "(start + int i) smod ?n = ?q" using assms(2) n 
    by (cases "start + int i = 0") (auto simp: signed_modulo_int_def signed_divide_int_def minus_div_mult_eq_mod sgn_if)
  have "?q < int (length (pools m))" using q(2) n(2) by (rule less_le_trans)
  then have rd: "rd_int (pools m) ?q = Some (pools m ! nat ?q)" using q(1) by (simp add: rd_int_Some nat_less_iff)
  show ?case
  proof (cases "usable (pools m ! nat ?q)")
    case True
    then have "first_usable m start i" using Suc.prems by (auto simp: first_usable_def)
    moreover have "pools m ! nat ?q \<in> set (take (nat ?n) (pools m))"
      using q n by (auto simp: in_set_conv_nth intro!: exI [of _ "nat ?q"])
    ultimately show ?thesis using True sm rd by auto
  next
    case False
    then have "\<forall>j < i + 1. \<not> usable (pools m ! nat ((start + int j) mod ?n))" using Suc.prems(2) by (metis less_antisym Suc_eq_plus1)
    then show ?thesis using Suc.IH [of "i + 1"] Suc.prems(1) False sm rd by (simp cong: if_cong)
  qed
qed

section \<open>A small configuration\<close>

text \<open>Two pools, a stratum pool in use and a getwork pool, to evaluate examples on.\<close>

definition zero_pool :: "int pool_infos" where
  "zero_pool = \<lparr>pool_id = 0, pool_type = 0, pool_status = 0, pool_algo = 0, pool_name = [], pool_url = [], pool_short_url = [],
     pool_user = [], pool_pass = [], pool_max_diff = 0, pool_max_rate = 0, pool_shares_limit = 0, pool_time_limit = 0,
     pool_scantime = 0, pool_stratum = small_ctx, pool_allow_gbt = 0, pool_allow_mininginfo = 0, pool_check_dups = 0,
     pool_retries = 0, pool_fail_pause = 0, pool_timeout = 0, pool_work_time = 0, pool_wait_time = 0, pool_accepted_count = 0,
     pool_rejected_count = 0, pool_solved_count = 0, pool_stales_count = 0, pool_last_share_time = 0, pool_best_share = 0,
     pool_disconnects = 0\<rparr>"

definition pool_a :: "int pool_infos" where
  "pool_a = zero_pool\<lparr>pool_type := POOL_STRATUM, pool_status := 3, pool_algo := 12, pool_url := ''stratum+tcp://a'', pool_user := ''u'',
     pool_pass := ''x'', pool_scantime := 10\<rparr>"

definition pool_b :: "int pool_infos" where
  "pool_b = zero_pool\<lparr>pool_id := 1, pool_type := POOL_GETWORK, pool_status := 3, pool_algo := 12, pool_url := ''http://b'',
     pool_user := ''v'', pool_scantime := 5\<rparr>"

definition two_pools :: "int miner" where
  "two_pools = \<lparr>pools = pool_a # pool_b # replicate 6 zero_pool, num_pools = 2, cur_pooln = 0, allow_gbt = True,
     allow_mininginfo = True, check_dups = True, rpc_url = ''stratum+tcp://a'', rpc_user = ''u'', rpc_pass = ''x'', short_url = [],
     opt_algo = 12, opt_max_diff = 0, opt_max_rate = 0, opt_scantime = 10, opt_shares_limit = 0, opt_time_limit = 0,
     want_stratum = True, have_stratum = True, want_longpoll = False, have_longpoll = False, opt_stratum_stats = False,
     opt_benchmark = False, opt_n_threads = 4, thr_hashrates = replicate 140 0, conditional_state = replicate 140 False,
     work_restart = Some [False, False, False, False], scans = \<lparr>tlastscans = [], st_uid = 0\<rparr>, shares = [], stratum = small_ctx,
     stratum_q = [], longpoll_q = [], workio_q = [], pool_switch_count = 0, pool_is_switching = False, stratum_need_reset = False, net_diff = 0,
     g_work = zero_work 0, g_work_time = 0, firstwork_time = 0, opt_quiet = False, opt_showdiff = True, opt_submit_stale = False,
     submit_old = False, check_stratum_jobs = False, use_roots = False, opt_vote = 0, opt_statsavg = 30, opt_retries = 2,
     global_hashrate = 0, sent_lines = [], opt_resume_diff = 0, opt_resume_rate = - 1, opt_difficulty = 1, stratum_diff = 0,
     net_hashrate = 0, net_blocks = 0, use_pok = False, opt_debug = False, opt_pool_failover = True, conditional_pool_rotate = False,
     pool_on_hold = False, abort_flag = False, app_exit_code = 0, device_map = replicate 140 0, cgpu_accepted = replicate 140 0, thr_q = [],
     benchmark = \<lparr>benchmark_ready = 0, benchmark_go = False, benchmark_stopping = False, benchmark_arrived = replicate 140 False,
       benchmark_started_at = 0, benchmark_ended_at = replicate 140 0, benchmark_hashes = replicate 140 0\<rparr>\<rparr>"

definition small_answers :: "(jval, int) answers" where
  "small_answers = \<lparr>an_E = small_senv [], an_now = 7, an_alloc = True, an_push = True, an_work = None, an_atof = (\<lambda>_. 0)\<rparr>"

lemma small_facts: "wf_miner two_pools" "in_sync two_pools" "wf_answers small_answers"
proof -
  have "length (w_data (zero_work (0 :: int))) = 48" using wf_zero_work [of "0 :: int"] by (simp add: wf_work_def)
  then show "wf_miner two_pools" by (simp add: wf_miner_def two_pools_def MAX_POOLS_def MAX_GPUS_def)
  show "in_sync two_pools"
    by (simp add: in_sync_def two_pools_def pool_a_def zero_pool_def is_stratum_def POOL_STRATUM_def)
  show "wf_answers small_answers" by (simp add: wf_answers_def small_answers_def)
qed

section \<open>Properties\<close>

text \<open>A sequence of switches, to given pools or (\<open>None\<close>) to the next usable one.\<close>

fun switches :: "('j, 'f) answers \<Rightarrow> int option list \<Rightarrow> 'f miner \<Rightarrow> 'f miner option" where
  "switches A [] m = Some m"
| "switches A (None # ns) m = do { (_, m) \<leftarrow> pool_switch_next A m; switches A ns m }"
| "switches A (Some n # ns) m = do { (_, m) \<leftarrow> pool_switch A n m; switches A ns m }"

lemma first_valid_range:
  assumes "wf_miner m"
  shows "\<exists>r. pool_get_first_valid (cur_pooln m + 1) m = Some r \<and> 0 \<le> r \<and> r < num_pools m"
proof -
  have n: "0 < num_pools m" "0 \<le> cur_pooln m + 1" using assms by (simp_all add: wf_miner_def)
  show ?thesis
    using valid_loop_spec [OF assms n(2), of 0 "nat (num_pools m)"] n(1)
    by (auto simp: pool_get_first_valid_def split: if_splits)
qed

lemma switch_keeps:
  assumes "wf_miner m" "in_sync m" "wf_answers A" "0 \<le> n"
  shows "\<exists>b m'. pool_switch A n m = Some (b, m') \<and> wf_miner m' \<and> in_sync m' \<and> num_pools m' = num_pools m \<and>
    list_all2 same_config (pools m) (pools m')"
proof (cases "n < num_pools m")
  case True
  then show ?thesis using pool_switch_effect [OF assms(1,3,4) True] left_pools_config [of m A] by auto
next
  case False
  let ?p = "pools m ! nat (cur_pooln m)"
  define q where "q = (if is_stratum ?p then ?p\<lparr>pool_stratum := stratum_free_job (an_E A) (stratum m)\<rparr> else ?p)"
  define m' where "m' = (if is_stratum ?p then m\<lparr>stratum := stratum_free_job (an_E A) (stratum m)\<rparr> else m)
    \<lparr>pools := (pools m)[nat (cur_pooln m) := q]\<rparr>"
  have w: "nat (cur_pooln m) < length (pools m)" "0 \<le> cur_pooln m" using assms(1) by (auto simp: wf_miner_def nat_less_iff)
  have "same_config ?p q"
    unfolding q_def same_config_def
    by (intro exI [of _ "if is_stratum ?p then stratum_free_job (an_E A) (stratum m) else pool_stratum ?p"]
        exI [of _ "pool_allow_gbt ?p"] exI [of _ "pool_allow_mininginfo ?p"] exI [of _ "pool_check_dups ?p"]) simp
  then have "list_all2 same_config (pools m) (pools m')"
    using config_update by (simp add: m'_def)
  moreover have "pool_switch A n m = Some (False, m')"
    using False w by (simp add: pool_switch_def mem_simps Let_def m'_def q_def)
  moreover have "wf_miner m' \<and> in_sync m' \<and> num_pools m' = num_pools m"
    using assms(1,2) w by (simp add: m'_def q_def wf_miner_def in_sync_def is_stratum_def Let_def)
  ultimately show ?thesis by blast
qed

text \<open>C27: the globals follow the current pool. However often the pool is switched, to a given pool, to a
  number that is not one, or to the next usable pool, every switch returns, the credentials, limits,
  algorithm and protocol in force are those of the current pool, which is one of the pools, and of the
  pools' own settings nothing changes but the saved connection and flags.\<close>

theorem switches_stay_in_sync:
  assumes "wf_miner m" "in_sync m" "wf_answers A" "list_all (\<lambda>n. case n of None \<Rightarrow> True | Some k \<Rightarrow> 0 \<le> k) ns"
  shows "\<exists>m'. switches A ns m = Some m' \<and> wf_miner m' \<and> in_sync m' \<and> num_pools m' = num_pools m \<and>
    list_all2 same_config (pools m) (pools m')"
  using assms(1,2,4)
proof (induction ns arbitrary: m)
  case Nil
  then show ?case by (simp add: list_all2_conv_all_nth)
next
  case (Cons n ns)
  have step: "\<exists>b m1. (case n of None \<Rightarrow> pool_switch_next A m | Some k \<Rightarrow> pool_switch A k m) = Some (b, m1) \<and>
    wf_miner m1 \<and> in_sync m1 \<and> num_pools m1 = num_pools m \<and> list_all2 same_config (pools m) (pools m1)"
  proof (cases n)
    case None
    then show ?thesis
      using first_valid_range [OF Cons.prems(1)] switch_keeps [OF Cons.prems(1,2) assms(3)] Cons.prems(1,2)
      by (auto simp: pool_switch_next_def list_all2_conv_all_nth)
  next
    case (Some k)
    then show ?thesis using switch_keeps [OF Cons.prems(1,2) assms(3), of k] Cons.prems(3) by simp
  qed
  then obtain b m1 where m1: "(case n of None \<Rightarrow> pool_switch_next A m | Some k \<Rightarrow> pool_switch A k m) = Some (b, m1)"
    "wf_miner m1" "in_sync m1" "num_pools m1 = num_pools m" "list_all2 same_config (pools m) (pools m1)" by blast
  obtain m' where m': "switches A ns m1 = Some m'" "wf_miner m'" "in_sync m'" "num_pools m' = num_pools m1"
    "list_all2 same_config (pools m1) (pools m')" using Cons.IH [OF m1(2,3)] Cons.prems(3) by auto
  have "list_all2 same_config (pools m) (pools m')"
    by (rule list_all2_trans [OF _ m1(5) m'(5)]) (rule same_config_trans)
  then show ?case using m1(1,4) m'(1-4) by (cases n) simp_all
qed

theorem switches_stay_in_sync_witness:
  "\<exists>m'. switches small_answers [Some 1, None, Some 9, Some 1] two_pools = Some m' \<and> wf_miner m' \<and> in_sync m' \<and>
    num_pools m' = num_pools two_pools \<and> list_all2 same_config (pools two_pools) (pools m')"
  by (rule switches_stay_in_sync [OF small_facts]) simp

text \<open>Switching to another pool and back restores what was in force: credentials, limits, algorithm and
  flags, and for a stratum pool its connection, which has only lost its job.\<close>

lemma switch_and_back:
  assumes "wf_miner m" "in_sync m" "wf_answers A" "0 \<le> n" "n < num_pools m" "n \<noteq> cur_pooln m"
    "ctx_pooln (stratum m) = cur_pooln m" "ctx_rpc2 (stratum m) = rpc2_algo (opt_algo m)"
  shows "\<exists>m1 m2. pool_switch A n m = Some (True, m1) \<and> pool_switch A (cur_pooln m) m1 = Some (True, m2) \<and>
    cur_pooln m2 = cur_pooln m \<and> rpc_url m2 = rpc_url m \<and> rpc_user m2 = rpc_user m \<and> rpc_pass m2 = rpc_pass m \<and>
    opt_scantime m2 = opt_scantime m \<and> opt_max_diff m2 = opt_max_diff m \<and> opt_max_rate m2 = opt_max_rate m \<and>
    opt_shares_limit m2 = opt_shares_limit m \<and> opt_time_limit m2 = opt_time_limit m \<and> opt_algo m2 = opt_algo m \<and>
    allow_gbt m2 = allow_gbt m \<and> allow_mininginfo m2 = allow_mininginfo m \<and> check_dups m2 = check_dups m \<and>
    (have_stratum m \<longrightarrow> stratum m2 = stratum_free_job (an_E A) (stratum m))"
proof -
  let ?c = "cur_pooln m"
  have w: "0 \<le> ?c" "?c < num_pools m" "nat ?c < length (pools m)" "nat n \<noteq> nat ?c"
    using assms(1,4-6) by (auto simp: wf_miner_def nat_eq_iff2)
  obtain m1 where m1: "pool_switch A n m = Some (True, m1)" "wf_miner m1" "cur_pooln m1 = n" "num_pools m1 = num_pools m"
    "pools m1 = left_pools A m" using pool_switch_effect [OF assms(1,3-5)] by blast
  define p where "p = left_pools A m1 ! nat ?c"
  have p: "p = saved_pool A m" using w m1 by (simp add: p_def left_pools_def)
  obtain m2 where m2: "pool_switch A ?c m1 = Some (True, m2)" "in_sync m2" "cur_pooln m2 = ?c" "pools m2 = left_pools A m1"
    "allow_gbt m2 = (pool_allow_gbt p \<noteq> 0)" "allow_mininginfo m2 = (pool_allow_mininginfo p \<noteq> 0)"
    "check_dups m2 = (pool_check_dups p \<noteq> 0)"
    "is_stratum p \<longrightarrow> stratum m2 = (pool_stratum p)\<lparr>ctx_pooln := ?c, ctx_rpc2 := rpc2_algo (pool_algo p)\<rparr>"
    using pool_switch_effect [OF m1(2) assms(3) w(1)] m1(3,4) w(2) assms(6) unfolding p_def by auto
  have "pools m2 ! nat ?c = saved_pool A m" using m2(4) p p_def by simp
  then show ?thesis
    using m1(1) m2 p assms(2,7,8)
    by (auto simp: in_sync_def saved_pool_def is_stratum_def Let_def stratum_free_job_def)
qed

text \<open>C31: the next pool is the first usable one after the current one in cyclic order, when one of the pools is
  valid and neither disabled nor removed.\<close>

theorem switch_next_takes_first_usable:
  assumes "wf_miner m" "wf_answers A" "1 < num_pools m" "\<exists>p \<in> set (take (nat (num_pools m)) (pools m)). usable p"
  shows "\<exists>k m'. first_usable m (cur_pooln m + 1) k \<and> pool_switch_next A m = Some (True, m') \<and>
    cur_pooln m' = (cur_pooln m + 1 + int k) mod num_pools m"
proof -
  have c: "0 \<le> cur_pooln m + 1" using assms(1) by (simp add: wf_miner_def)
  obtain k where k: "first_usable m (cur_pooln m + 1) k"
    "pool_get_first_valid (cur_pooln m + 1) m = Some ((cur_pooln m + 1 + int k) mod num_pools m)"
    using valid_loop_spec [OF assms(1) c, of 0 "nat (num_pools m)"] assms(4) by (auto simp: pool_get_first_valid_def)
  let ?r = "(cur_pooln m + 1 + int k) mod num_pools m"
  have "0 \<le> ?r" "?r < num_pools m" using assms(3) by simp_all
  then show ?thesis using pool_switch_effect [OF assms(1,2)] k assms(3) by (fastforce simp: pool_switch_next_def)
qed

theorem switch_next_takes_first_usable_witness:
  "\<exists>k m'. first_usable two_pools (cur_pooln two_pools + 1) k \<and> pool_switch_next small_answers two_pools = Some (True, m') \<and>
    cur_pooln m' = (cur_pooln two_pools + 1 + int k) mod num_pools two_pools"
  by (rule switch_next_takes_first_usable [OF small_facts(1,3)])
    (simp_all add: two_pools_def pool_a_def zero_pool_def usable_def POOL_ST_VALID_def POOL_ST_DISABLED_def POOL_ST_REMOVED_def)

end
