(* ===== verification/Workgen.thy ===== *)
theory Workgen
  imports Stratum Algos
begin

text \<open>From a job to a work and from a found nonce to a submission: \<open>stratum_gen_work\<close> of \<open>ccminer.cpp\<close>,
  which assembles the block header a thread hashes, and \<open>verus_stratum_submit\<close> of \<open>verus/stratum.cpp\<close>,
  which sends the share. \<open>SHA256\<close> and \<open>rand\<close> are arguments.\<close>

section \<open>Helpers\<close>

text \<open>\<open>memcpy\<close> to a byte offset of an array of words.\<close>

definition put_bytes :: "u32 list \<Rightarrow> nat \<Rightarrow> bytes \<Rightarrow> u32 list option" where
  "put_bytes ws off bs = do { b \<leftarrow> wrn (u32s_to_bytes ws) off bs; Some (bytes_to_u32s b) }"

fun le_words :: "nat \<Rightarrow> bytes \<Rightarrow> u32 list option" where
  "le_words 0 bs = Some []"
| "le_words (Suc n) bs = do { w \<leftarrow> le32dec bs; ws \<leftarrow> le_words n (drop 4 bs); Some (w # ws) }"

fun be_words :: "nat \<Rightarrow> bytes \<Rightarrow> u32 list option" where
  "be_words 0 bs = Some []"
| "be_words (Suc n) bs = do { w \<leftarrow> be32dec bs; ws \<leftarrow> be_words n (drop 4 bs); Some (w # ws) }"

definition hex_digits :: "nat \<Rightarrow> u32 \<Rightarrow> string" where
  "hex_digits n x = map (\<lambda>k. hexdigit (unat x div 16 ^ k mod 16)) (rev [0..<n])"

text \<open>\<open>for (i = 0; i < n && !++x[i]; i++);\<close>\<close>

fun incr_loop :: "bytes \<Rightarrow> nat \<Rightarrow> nat \<Rightarrow> bytes option" where
  "incr_loop cb p 0 = Some cb"
| "incr_loop cb p (Suc n) = do {
     b \<leftarrow> rd cb p;
     cb \<leftarrow> wr cb p (b + 1);
     if b + 1 \<noteq> 0 then Some cb else incr_loop cb (p + 1) n }"

text \<open>The globals that \<open>stratum_gen_work\<close> reads and writes.\<close>

record 'f diffs =
  d_net_diff :: 'f
  d_stratum_diff :: 'f
  d_opt_difficulty :: 'f

record 'f genopts =
  g_algo :: int
  g_vote :: u16
  g_calc_diff :: bool             \<comment> \<open>\<open>opt_showdiff || opt_max_diff > 0.\<close>\<close>
  g_sha :: "bytes \<Rightarrow> bytes"
  g_rand :: "nat \<Rightarrow> u32"

section \<open>The header of each kind of work\<close>

definition gen_root :: "'f genopts \<Rightarrow> 'f stratum_job \<Rightarrow> bytes \<Rightarrow> bytes option" where
  "gen_root G j cb = do {
     let root = replicate 64 0;
     root \<leftarrow> (if g_algo G \<in> {ALGO_DECRED, ALGO_EQUIHASH, ALGO_SIA} then Some root
              else do { b \<leftarrow> rdn cb 0 (job_coinbase_size j); wrn root 0 (take 32 (g_sha G b)) });
     foldl (\<lambda>r m. do { r \<leftarrow> r; b \<leftarrow> rdn m 0 32; wrn r 32 b }) (Some root) (job_merkle j) }"

definition header_decred :: "'f genopts \<Rightarrow> 'f stratum_ctx \<Rightarrow> bytes \<Rightarrow> u32 list \<Rightarrow> (u32 list \<times> 'f stratum_ctx) option" where
  "header_decred G c cb data = do {
     prev \<leftarrow> rdn data 1 8;
     data \<leftarrow> wrn data 1 (map swab32 prev);
     b \<leftarrow> rdn cb 0 108;
     data \<leftarrow> put_bytes data 36 b;
     v \<leftarrow> le16dec (drop 100 (u32s_to_bytes data));
     let vote = push_bit 1 (g_vote G) OR (v AND 1);
     data \<leftarrow> put_bytes data 100 (le16enc vote);
     let c = (if ctx_xnonce1_size c > 64 then c\<lparr>ctx_xnonce1_size := 64\<rparr> else c);
     xn1 \<leftarrow> (if ctx_xnonce1_size c = 0 then Some [] else do { x \<leftarrow> ctx_xnonce1 c; rdn x 0 (ctx_xnonce1_size c) });
     data \<leftarrow> put_bytes data 144 xn1;
     data \<leftarrow> wr data 37 (push_bit 8 (g_rand G 0 * 4));
     if job_coinbase_size (ctx_job c) < 4 then None else do {
       s \<leftarrow> rdn cb (job_coinbase_size (ctx_job c) - 4) 4;
       data \<leftarrow> put_bytes data 176 s;
       h \<leftarrow> rd data 32;
       Some (data, upd_job (job_height_update (\<lambda>_. h)) c) } }"

definition header_verus :: "'f stratum_ctx \<Rightarrow> bytes \<Rightarrow> u32 list \<Rightarrow> u32 list option" where
  "header_verus c cb data = do {
     b \<leftarrow> rdn cb 0 64;
     data \<leftarrow> put_bytes data 36 b;
     nt \<leftarrow> le32dec (job_ntime (ctx_job c));
     data \<leftarrow> wr data 25 nt;
     nb \<leftarrow> le32dec (job_nbits (ctx_job c));
     data \<leftarrow> wr data 26 nb;
     let n = ctx_xnonce1_size c mod 32;
     xn1 \<leftarrow> (if n = 0 then Some [] else do { x \<leftarrow> ctx_xnonce1 c; rdn x 0 n });
     data \<leftarrow> put_bytes data 108 xn1;
     wr data 35 0x80 }"

definition header_lbry :: "'f stratum_job \<Rightarrow> bytes \<Rightarrow> u32 list \<Rightarrow> u32 list option" where
  "header_lbry j root data = do {
     r \<leftarrow> be_words 8 root;
     data \<leftarrow> wrn data 9 r;
     e \<leftarrow> le_words 8 (job_extra j);
     data \<leftarrow> wrn data 17 e;
     nt \<leftarrow> le32dec (job_ntime j);
     data \<leftarrow> wr data 25 nt;
     nb \<leftarrow> le32dec (job_nbits j);
     data \<leftarrow> wr data 26 nb;
     wr data 28 0x80000000 }"

definition header_phi2 :: "'f stratum_job \<Rightarrow> bytes \<Rightarrow> u32 list \<Rightarrow> u32 list option" where
  "header_phi2 j root data = do {
     r \<leftarrow> be_words 8 root;
     data \<leftarrow> wrn data 9 r;
     nt \<leftarrow> le32dec (job_ntime j);
     data \<leftarrow> wr data 17 nt;
     nb \<leftarrow> le32dec (job_nbits j);
     data \<leftarrow> wr data 18 nb;
     e \<leftarrow> le_words 16 (job_extra j);
     wrn data 20 e }"

definition header_sia :: "'f genopts \<Rightarrow> 'f stratum_job \<Rightarrow> bytes \<Rightarrow> u32 list \<Rightarrow> u32 list option" where
  "header_sia G j cb data = do {
     x \<leftarrow> rdn cb 32 2;
     let extra = (of_le x :: u32);
     prev \<leftarrow> le_words 8 (job_prevhash j);
     data \<leftarrow> wrn data 0 (rev prev);
     data \<leftarrow> wr data 8 0;
     data \<leftarrow> wr data 9 (swab32 extra OR (push_bit 8 (g_rand G 0) AND 0xffff));
     nt \<leftarrow> be32dec (job_ntime j);
     data \<leftarrow> wr data 10 nt;
     nb \<leftarrow> be32dec (job_nbits j);
     data \<leftarrow> wr data 11 nb;
     b \<leftarrow> rdn cb 0 32;
     data \<leftarrow> put_bytes data 48 b;
     wr data 20 0x80000000 }"

definition header_default :: "'f genopts \<Rightarrow> 'f stratum_job \<Rightarrow> bytes \<Rightarrow> u32 list \<Rightarrow> u32 list option" where
  "header_default G j root data = do {
     r \<leftarrow> be_words 8 root;
     data \<leftarrow> wrn data 9 r;
     nt \<leftarrow> le32dec (job_ntime j);
     data \<leftarrow> wr data 17 nt;
     nb \<leftarrow> le32dec (job_nbits j);
     data \<leftarrow> wr data 18 nb;
     data \<leftarrow> wr data 20 0x80000000;
     wr data 31 (if g_algo G = ALGO_MJOLLNIR then 0x2A0 else 0x280) }"

definition gen_header :: "'f genopts \<Rightarrow> 'f stratum_ctx \<Rightarrow> bytes \<Rightarrow> bytes \<Rightarrow> (u32 list \<times> 'f stratum_ctx) option" where
  "gen_header G c root cb = do {
     let j = ctx_job c;
     let data = replicate 48 0;
     v \<leftarrow> le32dec (job_version j);
     data \<leftarrow> wr data 0 v;
     prev \<leftarrow> le_words 8 (job_prevhash j);
     data \<leftarrow> wrn data 1 prev;
     if g_algo G = ALGO_DECRED then header_decred G c cb data
     else do {
       data \<leftarrow> (if g_algo G = ALGO_EQUIHASH then header_verus c cb data
                else if g_algo G = ALGO_LBRY then header_lbry j root data
                else if g_algo G = ALGO_PHI2 then header_phi2 j root data
                else if g_algo G = ALGO_SIA then header_sia G j cb data
                else header_default G j root data);
       Some (data, c) } }"

section \<open>The target\<close>

definition gen_target :: "('j, 'f) senv \<Rightarrow> 'f genopts \<Rightarrow> 'f diffs \<Rightarrow> 'f stratum_job \<Rightarrow> 'f work \<Rightarrow> 'f work option" where
  "gen_target E G D j work =
     (let F = sv_F E;
          scaled = (\<lambda>k. f_div F (job_diff j) (f_mul F (f_lit F k 0) (d_opt_difficulty D)));
          plain = f_div F (job_diff j) (d_opt_difficulty D)
      in if g_algo G \<in> {ALGO_HMQ1725, ALGO_JACKPOT, ALGO_JHA, ALGO_NEOSCRYPT, ALGO_SCRYPT, ALGO_SCRYPT_JANE}
         then work_set_target F work (scaled 65536)
         else if g_algo G \<in> {ALGO_ALLIUM, ALGO_DMD_GR, ALGO_FRESH, ALGO_FUGUE256, ALGO_GROESTL, ALGO_KECCAKC, ALGO_LBRY,
           ALGO_LYRA2v2, ALGO_LYRA2Z, ALGO_PHI2, ALGO_TIMETRAVEL, ALGO_BITCORE, ALGO_X16R, ALGO_X16S}
         then work_set_target F work (scaled 256)
         else if g_algo G \<in> {ALGO_KECCAK, ALGO_LYRA2} then work_set_target F work (scaled 128)
         else if g_algo G = ALGO_EQUIHASH then do {
           t \<leftarrow> rdn (job_extra j) 0 32;
           Some (verus_work_set_target (work\<lparr>w_target := bytes_to_u32s t\<rparr>) plain) }
         else work_set_target F work plain)"

section \<open>Generating work\<close>

definition calc_network_diff :: "('j, 'f) senv \<Rightarrow> 'f genopts \<Rightarrow> 'f work \<Rightarrow> 'f diffs \<Rightarrow> 'f diffs option" where
  "calc_network_diff E G work D =
     (if g_algo G = ALGO_EQUIHASH then do { d \<leftarrow> verus_network_diff E work; Some (D\<lparr>d_net_diff := d\<rparr>) } else Some D)"

definition heavy_fields :: "'f genopts \<Rightarrow> 'f stratum_job \<Rightarrow> 'f work \<Rightarrow> 'f work option" where
  "heavy_fields G j work = do {
     let data = w_data work;
     data \<leftarrow> (if g_algo G \<in> {ALGO_MJOLLNIR, ALGO_HEAVY, ALGO_ZR5}
              then do { h \<leftarrow> rdn data 0 20; wrn data 0 (map swab32 h) } else Some data);
     if g_algo G = ALGO_HEAVY then do {
       r \<leftarrow> be16dec (job_nreward j);
       data \<leftarrow> put_bytes data 80 (le16enc (g_vote G) @ le16enc r);
       Some (work\<lparr>w_data := data, w_maxvote := 2048\<rparr>) }
     else Some (work\<lparr>w_data := data\<rparr>) }"

definition stratum_gen_work ::
  "('j, 'f) senv \<Rightarrow> 'f genopts \<Rightarrow> 'f diffs \<Rightarrow> 'f stratum_ctx \<Rightarrow> 'f work \<Rightarrow> (bool \<times> 'f diffs \<times> 'f stratum_ctx \<times> 'f work) option" where
  "stratum_gen_work E G D c work = (case job_job_id (ctx_job c) of
     None \<Rightarrow> Some (False, D, c, work)
   | Some jid \<Rightarrow> do {
       let F = sv_F E;
       let j = ctx_job c;
       nt \<leftarrow> be32dec (job_ntime j);
       let work = work\<lparr>w_job_id := take 127 (hex_digits 7 (nt AND 0xfffffff) @ '' '' @ jid),
         w_xnonce2_len := of_nat (ctx_xnonce2_size c)\<rparr>;
       cb \<leftarrow> job_coinbase j;
       x2 \<leftarrow> rdn cb (job_xnonce2 j) (ctx_xnonce2_size c);
       x \<leftarrow> wrn (w_xnonce2 work) 0 x2;
       let work = work\<lparr>w_xnonce2 := x, w_height := job_height j, w_pooln := word_of_int (ctx_pooln c)\<rparr>;
       root \<leftarrow> gen_root G j cb;
       cb \<leftarrow> incr_loop cb (job_xnonce2 j) (ctx_xnonce2_size c);
       let c = upd_job (job_coinbase_update (\<lambda>_. Some cb)) c;
       (data, c) \<leftarrow> gen_header G c root cb;
       sol \<leftarrow> (if g_algo G = ALGO_EQUIHASH then do { s \<leftarrow> rdn (job_solution j) 0 1344; wrn (w_solution work) 0 s }
               else Some (w_solution work));
       let work = work\<lparr>w_data := data, w_solution := sol\<rparr>;
       D \<leftarrow> (if g_calc_diff G then calc_network_diff E G work D else Some D);
       work \<leftarrow> heavy_fields G j work;
       let D = (if f_eq F (d_opt_difficulty D) (f_lit F 0 0) then D\<lparr>d_opt_difficulty := f_lit F 1 0\<rparr> else D);
       work \<leftarrow> gen_target E G D (ctx_job c) work;
       let D = (if \<not> f_eq F (d_stratum_diff D) (job_diff j) then D\<lparr>d_stratum_diff := job_diff j\<rparr> else D);
       Some (True, D, c, work) })"

section \<open>Submitting a share\<close>

definition JSON_SUBMIT_BUF_LEN :: nat where "JSON_SUBMIT_BUF_LEN = 20 * 1024"

definition submit_message :: "string \<Rightarrow> string \<Rightarrow> string \<Rightarrow> string \<Rightarrow> string \<Rightarrow> u32 \<Rightarrow> string" where
  "submit_message user jobid timehex noncestr solhex n =
     ''{\"method\":\"mining.submit\",\"params\":[\"'' @ user @ ''\",\"'' @ jobid @ ''\",\"'' @ timehex @ ''\",\"'' @ noncestr @
     ''\",\"'' @ solhex @ ''\"], \"id\":'' @ dec_nat (unat n) @ ''}''"

text \<open>\<open>size_t\<close> arithmetic: a pool prefix longer than the nonce makes the length wrap.\<close>

definition verus_stratum_submit ::
  "('j, 'f) senv \<Rightarrow> timeval \<Rightarrow> string \<Rightarrow> 'f work \<Rightarrow> 'f conn \<Rightarrow> (bool \<times> 'f work \<times> 'f conn) option" where
  "verus_stratum_submit E now user work c = do {
     let ctx = cn_ctx c;
     let idnonce = unat (w_submit_nonce_id work);
     n \<leftarrow> rd (w_nonces work) idnonce;
     data \<leftarrow> wr (w_data work) 30 n;
     let work = work\<lparr>w_data := data\<rparr>;
     let nonce_len = unat (32 - of_nat (ctx_xnonce1_size ctx) :: u64);
     nonce \<leftarrow> rdn (u32s_to_bytes data) (4 * 27 + ctx_xnonce1_size ctx) nonce_len;
     if \<not> sv_alloc E then Some (False, work, c)
     else do {
       e \<leftarrow> rdn (w_extra work) 0 1347;
       r \<leftarrow> rdn (w_solution work) 8 64;
       solhex \<leftarrow> wrn (cbin2hex e) (6 + 16) (cbin2hex r);
       jobid \<leftarrow> (if length (w_job_id work) < 8 then None else Some (drop 8 (w_job_id work)));
       t \<leftarrow> rd data 25;
       sd \<leftarrow> rd (w_sharediff work) idnonce;
       let s = take (JSON_SUBMIT_BUF_LEN - 1)
         (submit_message user jobid (hex_digits 8 (swab32 t)) (cbin2hex nonce) solhex (job_shares_count (ctx_job ctx) + 10));
       let c = upd_ctx (ctx_tv_submit_update (\<lambda>_. (tv_sec now, tv_usec now))) c;
       let (ok, c) = stratum_send_line E s c;
       if \<not> ok then Some (False, work, c)
       else Some (True, work, upd_ctx (\<lambda>x. upd_job (\<lambda>j. j\<lparr>job_shares_count := job_shares_count j + 1\<rparr>)
         (x\<lparr>ctx_sharediff := sd\<rparr>)) c) } }"

section \<open>Words and the bytes they occupy\<close>

named_theorems header_simps \<open>writes to the header, as writes to the bytes it occupies\<close>

lemma u32s_to_bytes_append: "u32s_to_bytes (a @ b) = u32s_to_bytes a @ u32s_to_bytes b"
  by (simp add: u32s_to_bytes_def)

lemma take_u32s_to_bytes: "take (4 * i) (u32s_to_bytes ws) = u32s_to_bytes (take i ws)"
proof (induction ws arbitrary: i)
  case (Cons w ws)
  then show ?case by (cases i) (simp_all add: u32s_to_bytes_def)
qed (simp add: u32s_to_bytes_def)

lemma drop_u32s_to_bytes: "drop (4 * i) (u32s_to_bytes ws) = u32s_to_bytes (drop i ws)"
proof (induction ws arbitrary: i)
  case (Cons w ws)
  then show ?case by (cases i) (simp_all add: u32s_to_bytes_def)
qed (simp add: u32s_to_bytes_def)

lemma u32s_to_bytes_splice: "u32s_to_bytes (splice xs i ws) = splice (u32s_to_bytes xs) (4 * i) (u32s_to_bytes ws)"
proof -
  have "4 * i + length (u32s_to_bytes ws) = 4 * (i + length ws)" by simp
  then show ?thesis by (simp only: splice_def u32s_to_bytes_append take_u32s_to_bytes drop_u32s_to_bytes)
qed

lemma update_splice: "i < length xs \<Longrightarrow> xs[i := w] = splice xs i [w]"
  by (simp add: splice_def upd_conv_take_nth_drop)

text \<open>A header of \<open>n\<close> words is the list of words of some \<open>4 * n\<close> bytes.\<close>

lemma wrn_words [header_simps]:
  assumes "length b mod 4 = 0" "4 * i + 4 * length ws \<le> length b"
  shows "wrn (bytes_to_u32s b) i ws = Some (bytes_to_u32s (splice b (4 * i) (u32s_to_bytes ws)))"
proof -
  have e: "4 dvd length b" using assms(1) by auto
  have "splice (bytes_to_u32s b) i ws = bytes_to_u32s (splice b (4 * i) (u32s_to_bytes ws))"
    using u32s_to_bytes_splice [of "bytes_to_u32s b" i ws] u32s_to_bytes_to_u32s [OF e]
    by (metis bytes_to_u32s_to_bytes)
  then show ?thesis using assms(2) by (simp add: wrn_def length_bytes_to_u32s)
qed

lemma wr_words [header_simps]:
  assumes "length b mod 4 = 0" "4 * i + 4 \<le> length b"
  shows "wr (bytes_to_u32s b) i w = Some (bytes_to_u32s (splice b (4 * i) (to_le 4 w)))"
proof -
  have "wr (bytes_to_u32s b) i w = wrn (bytes_to_u32s b) i [w]"
    using assms(2) by (simp add: wr_def wrn_def length_bytes_to_u32s update_splice)
  then show ?thesis using wrn_words [OF assms(1), of i "[w]"] assms(2) by (simp add: u32s_to_bytes_def)
qed

lemma put_bytes_words [header_simps]:
  assumes "length b mod 4 = 0" "off + length bs \<le> length b"
  shows "put_bytes (bytes_to_u32s b) off bs = Some (bytes_to_u32s (splice b off bs))"
proof -
  have "4 dvd length b" using assms(1) by auto
  then show ?thesis using assms(2) by (simp add: put_bytes_def u32s_to_bytes_to_u32s mem_simps)
qed

lemma rd_words: "4 * i + 4 \<le> length b \<Longrightarrow> \<exists>w. rd (bytes_to_u32s b) i = Some w"
  by (simp add: rd_def length_bytes_to_u32s)

lemma replicate_words [header_simps]: "replicate 48 0 = bytes_to_u32s (replicate 192 0)"
  by code_simp

lemma le32dec_4: "length b = 4 \<Longrightarrow> le32dec b = Some (of_le b)"
proof -
  assume "length b = 4"
  then obtain w x y z where "b = [w, x, y, z]" by (auto simp: length_Suc_conv numeral_eq_Suc)
  then show ?thesis using le32dec_bytes [of w x y z "[]"] by (simp only:)
qed

lemma to_le_of_le_4 [header_simps]: "length b = 4 \<Longrightarrow> to_le 4 (of_le b :: u32) = b"
  using to_le_of_le [of b, where ?'a = 32] by simp

lemma le_words_bytes: "length b = 4 * n \<Longrightarrow> le_words n b = Some (bytes_to_u32s b)"
proof (induction n arbitrary: b)
  case (Suc n)
  then obtain w x y z r where b: "b = w # x # y # z # r" "length r = 4 * n"
    by (auto simp: length_Suc_conv numeral_eq_Suc)
  then show ?case using Suc.IH [of r] by (simp add: le32dec_bytes del: le32dec.simps)
qed simp

section \<open>The counter of extranonces\<close>

fun incr :: "bytes \<Rightarrow> bytes" where
  "incr [] = []"
| "incr (b # bs) = (if b + 1 = 0 then 0 # incr bs else (b + 1) # bs)"

lemma length_incr [simp]: "length (incr x) = length x"
  by (induction x) simp_all

lemma incr_loop_incr: "incr_loop (a @ x @ r) (length a) (length x) = Some (a @ incr x @ r)"
proof (induction x arbitrary: a)
  case (Cons b x)
  show ?case
  proof (cases "b + 1 = 0")
    case True
    then show ?thesis using Cons.IH [of "a @ [0]"] by (simp add: mem_simps nth_append)
  next
    case False
    then show ?thesis by (simp add: mem_simps nth_append)
  qed
qed simp

lemma le_nat_bound: "le_nat x < 256 ^ length x"
proof (induction x)
  case (Cons b x)
  then have "unat b + 256 * le_nat x < 256 + 256 * le_nat x" using unsigned_less [of b] by simp
  also have "\<dots> \<le> 256 * 256 ^ length x" using Cons by (simp add: Suc_leI flip: mult_Suc_right)
  finally show ?case by simp
qed simp

lemma le_nat_incr: "le_nat (incr x) = (le_nat x + 1) mod 256 ^ length x"
proof (induction x)
  case (Cons b x)
  have m: "b + 1 = 0 \<longleftrightarrow> b = - 1" by (simp add: eq_neg_iff_add_eq_0)
  have u: "unat (- 1 :: u8) = 255" by code_simp
  show ?case
  proof (cases "b + 1 = 0")
    case True
    then have "le_nat (b # x) + 1 = 256 * (le_nat x + 1)" using m u by simp
    then have "(le_nat (b # x) + 1) mod 256 ^ length (b # x) = 256 * ((le_nat x + 1) mod 256 ^ length x)"
      by (simp only: length_Cons power_Suc mult_mod_right)
    then show ?thesis using True Cons.IH by simp
  next
    case False
    then have "unat b \<noteq> 255" using m u by (metis word_unat_eq_iff)
    moreover have "unat b < 256" using unsigned_less [of b] by simp
    ultimately have "unat (b + 1) = unat b + 1" by (simp add: unat_word_ariths)
    then show ?thesis using False le_nat_bound [of "incr (b # x)"] by simp
  qed
qed simp

section \<open>The header of a Verus work\<close>

lemma gen_root_total:
  assumes "list_all (\<lambda>b. length b = 32) (job_merkle j)" "g_algo G = ALGO_EQUIHASH"
  shows "\<exists>r. gen_root G j cb = Some r"
proof -
  have "\<exists>r'. foldl (\<lambda>r m. do { r \<leftarrow> r; b \<leftarrow> rdn m 0 32; wrn r 32 b }) (Some r) ms = Some r'"
    if "list_all (\<lambda>b. length b = 32) ms" "length r = 64" for r :: bytes and ms
    using that
  proof (induction ms arbitrary: r)
    case (Cons b ms)
    then show ?case using Cons.IH [of "splice r 32 b"] by (simp add: mem_simps len_simps)
  qed simp
  then show ?thesis using assms by (simp add: gen_root_def)
qed

lemma heavy_fields_verus: "g_algo G = ALGO_EQUIHASH \<Longrightarrow> heavy_fields G j v = Some v"
proof -
  have "ALGO_EQUIHASH \<notin> {ALGO_MJOLLNIR, ALGO_HEAVY, ALGO_ZR5}" by code_simp
  then show "g_algo G = ALGO_EQUIHASH \<Longrightarrow> heavy_fields G j v = Some v" by (simp add: heavy_fields_def)
qed

lemma gen_target_verus:
  assumes "g_algo G = ALGO_EQUIHASH" "length (job_extra j) = 64"
  shows "gen_target E G D j v = Some (v\<lparr>w_target := bytes_to_u32s (take 32 (job_extra j)),
    w_targetdiff := f_div (sv_F E) (job_diff j) (d_opt_difficulty D)\<rparr>)"
proof -
  have "ALGO_EQUIHASH \<notin> {ALGO_HMQ1725, ALGO_JACKPOT, ALGO_JHA, ALGO_NEOSCRYPT, ALGO_SCRYPT, ALGO_SCRYPT_JANE,
    ALGO_ALLIUM, ALGO_DMD_GR, ALGO_FRESH, ALGO_FUGUE256, ALGO_GROESTL, ALGO_KECCAKC, ALGO_LBRY,
    ALGO_LYRA2v2, ALGO_LYRA2Z, ALGO_PHI2, ALGO_TIMETRAVEL, ALGO_BITCORE, ALGO_X16R, ALGO_X16S, ALGO_KECCAK, ALGO_LYRA2}"
    by code_simp
  then show ?thesis using assms by (simp add: gen_target_def Let_def rdn_Some verus_work_set_target_def)
qed

lemma length_hex_digits [simp]: "length (hex_digits n x) = n"
  by (simp add: hex_digits_def)

text \<open>The bytes of a Verus header.\<close>

definition verus_header :: "bytes \<Rightarrow> bytes \<Rightarrow> bytes \<Rightarrow> bytes \<Rightarrow> bytes \<Rightarrow> bytes \<Rightarrow> bytes" where
  "verus_header version prevhash root_reserved ntime nbits x =
     version @ prevhash @ root_reserved @ ntime @ nbits @ x @ replicate (32 - length x) 0"

lemma gen_header_verus:
  assumes "wf_ctx c" "g_algo G = ALGO_EQUIHASH" "ctx_xnonce1 c = Some x" "length x < 32" "64 \<le> length cb"
  shows "gen_header G c root cb = Some (bytes_to_u32s
    (verus_header (job_version (ctx_job c)) (job_prevhash (ctx_job c)) (take 64 cb) (job_ntime (ctx_job c))
      (job_nbits (ctx_job c)) x @ to_le 4 (0x80 :: u32) @ replicate 48 0), c)"
proof -
  have l: "length (job_version (ctx_job c)) = 4" "length (job_prevhash (ctx_job c)) = 32" "length (job_ntime (ctx_job c)) = 4"
    "length (job_nbits (ctx_job c)) = 4" "ctx_xnonce1_size c = length x" "length (take 64 cb) = 64"
    using assms by (simp_all add: wf_ctx_def wf_job_def)
  have a: "ALGO_EQUIHASH \<noteq> ALGO_DECRED" by (simp add: ALGO_EQUIHASH_def ALGO_DECRED_def)
  show ?thesis
    using l assms(2-5) a
    by (simp add: gen_header_def header_verus_def Let_def header_simps le32dec_4 le_words_bytes u32s_to_bytes_to_u32s
        length_bytes_to_u32s len_simps rdn_Some verus_header_def)
      (simp add: splice_def)
qed

section \<open>The text of a submission\<close>

lemma cbin2hex_append: "cbin2hex (a @ b) = cbin2hex a @ cbin2hex b"
  by (simp add: cbin2hex_def)

lemma take_cbin2hex: "take (2 * n) (cbin2hex bs) = cbin2hex (take n bs)"
proof (cases "n \<le> length bs")
  case True
  then have "cbin2hex bs = cbin2hex (take n bs) @ cbin2hex (drop n bs)" "length (cbin2hex (take n bs)) = 2 * n"
    by (simp_all flip: cbin2hex_append)
  then show ?thesis by simp
qed simp

lemma drop_cbin2hex: "drop (2 * n) (cbin2hex bs) = cbin2hex (drop n bs)"
proof (cases "n \<le> length bs")
  case True
  then have "cbin2hex bs = cbin2hex (take n bs) @ cbin2hex (drop n bs)" "length (cbin2hex (take n bs)) = 2 * n"
    by (simp_all flip: cbin2hex_append)
  then show ?thesis by simp
next
  case False
  moreover have "cbin2hex [] = []" by (simp add: cbin2hex_def)
  ultimately show ?thesis by simp
qed

lemma cbin2hex_splice: "cbin2hex (splice a n b) = splice (cbin2hex a) (2 * n) (cbin2hex b)"
proof -
  have "2 * n + length (cbin2hex b) = 2 * (n + length b)" by simp
  then show ?thesis by (simp only: splice_def cbin2hex_append take_cbin2hex drop_cbin2hex)
qed

lemma length_dec_nat: "n < 10 ^ Suc k \<Longrightarrow> length (dec_nat n) \<le> Suc k"
proof (induction k arbitrary: n)
  case 0
  then show ?case by (subst dec_nat.simps) simp
next
  case (Suc k)
  then have "length (dec_nat (n div 10)) \<le> Suc k" by (intro Suc.IH) simp
  then show ?case by (subst dec_nat.simps) simp
qed

lemma length_dec_u32: "length (dec_nat (unat (n :: u32))) \<le> 10"
proof -
  have "unat n < 2 ^ 32" using unsigned_less [of n] by simp
  then show ?thesis using length_dec_nat [of "unat n" 9] by simp
qed

text \<open>The solution that is submitted: the recorded one with the 64 bytes the scan may have cleared put back.\<close>

definition sent_solution :: "'f work \<Rightarrow> bytes" where
  "sent_solution w = splice (take 1347 (w_extra w)) 11 (take 64 (drop 8 (w_solution w)))"

lemma submit_no_memory:
  assumes "wf_work w" "unat (w_submit_nonce_id w) < MAX_NONCES" "ctx_xnonce1_size (cn_ctx c) \<le> 32" "\<not> sv_alloc E"
  shows "\<exists>w'. verus_stratum_submit E now user w c = Some (False, w', c) \<and> w_nonces w' = w_nonces w"
proof -
  have "unat (32 - of_nat (ctx_xnonce1_size (cn_ctx c)) :: u64) = 32 - ctx_xnonce1_size (cn_ctx c)"
    using assms(3) by (subst unat_sub) (simp_all add: word_le_nat_alt unat_of_nat)
  then show ?thesis
    using assms by (simp add: verus_stratum_submit_def mem_simps wf_work_def)
qed

text \<open>The message for a share.\<close>

definition share_message :: "string \<Rightarrow> 'f work \<Rightarrow> 'f stratum_ctx \<Rightarrow> string" where
  "share_message user w c = submit_message user (drop 8 (w_job_id w)) (hex_digits 8 (swab32 (w_data w ! 25)))
     (cbin2hex (drop (ctx_xnonce1_size c)
       (take 32 (drop 108 (u32s_to_bytes ((w_data w)[30 := w_nonces w ! unat (w_submit_nonce_id w)]))))))
     (cbin2hex (sent_solution w)) (job_shares_count (ctx_job c) + 10)"

lemma submit_sends:
  fixes w :: "'f work"
  defines "k \<equiv> unat (w_submit_nonce_id w)"
  assumes "wf_work w" "k < MAX_NONCES" "ctx_xnonce1_size (cn_ctx c) \<le> 32" "sv_alloc E"
    "8 \<le> length (w_job_id w)" "length (w_job_id w) \<le> 127" "length user \<le> 191"
  defines "msg \<equiv> share_message user w (cn_ctx c)"
  shows "length msg < JSON_SUBMIT_BUF_LEN \<and> (\<exists>w' c'. verus_stratum_submit E now user w c = Some (sv_send E msg, w', c') \<and>
    cn_sent c' = (if sv_send E msg then cn_sent c @ [msg] else cn_sent c) \<and>
    job_shares_count (ctx_job (cn_ctx c')) = job_shares_count (ctx_job (cn_ctx c)) + (if sv_send E msg then 1 else 0) \<and>
    w' = w\<lparr>w_data := (w_data w)[30 := w_nonces w ! k]\<rparr> \<and> ctx_xnonce1_size (cn_ctx c') = ctx_xnonce1_size (cn_ctx c))"
proof -
  have l: "length (w_data w) = 48" "length (w_nonces w) = 2" "length (w_sharediff w) = 2" "length (w_extra w) = 1388"
    "length (w_solution w) = 1344" "k < 2"
    using assms(2,3) by (simp_all add: wf_work_def MAX_NONCES_def)
  let ?n = "ctx_xnonce1_size (cn_ctx c)"
  have "length (sent_solution w) = 1347" using l by (simp add: sent_solution_def len_simps)
  then have m: "length msg < JSON_SUBMIT_BUF_LEN"
    using assms(7,8) l(1) length_dec_u32 [of "job_shares_count (ctx_job (cn_ctx c)) + 10"]
    by (simp add: msg_def share_message_def submit_message_def JSON_SUBMIT_BUF_LEN_def)
  have "unat (32 - of_nat ?n :: u64) = 32 - ?n"
    using assms(4) by (subst unat_sub) (simp_all add: word_le_nat_alt unat_of_nat)
  then have nonce: "rdn (u32s_to_bytes ((w_data w)[30 := w_nonces w ! k])) (4 * 27 + ?n) (unat (32 - of_nat ?n :: u64)) =
     Some (drop ?n (take 32 (drop 108 (u32s_to_bytes ((w_data w)[30 := w_nonces w ! k])))))"
    using assms(4) l(1) by (simp add: rdn_Some drop_take add.commute)
  have sol: "wrn (cbin2hex (take 1347 (w_extra w))) 22 (cbin2hex (take 64 (drop 8 (w_solution w)))) = Some (cbin2hex (sent_solution w))"
    using l cbin2hex_splice [of "take 1347 (w_extra w)" 11 "take 64 (drop 8 (w_solution w))"]
    by (simp add: wrn_Some sent_solution_def)
  have t: "take (JSON_SUBMIT_BUF_LEN - 1) msg = msg" using m by simp
  have me: "submit_message user (drop 8 (w_job_id w)) (hex_digits 8 (swab32 (w_data w ! 25)))
      (cbin2hex (drop ?n (take 32 (drop 108 (u32s_to_bytes ((w_data w)[30 := w_nonces w ! k]))))))
      (cbin2hex (sent_solution w)) (job_shares_count (ctx_job (cn_ctx c)) + 10) = msg"
    by (simp add: msg_def share_message_def k_def)
  have "\<exists>w' c'. verus_stratum_submit E now user w c = Some (sv_send E msg, w', c') \<and>
    cn_sent c' = (if sv_send E msg then cn_sent c @ [msg] else cn_sent c) \<and>
    job_shares_count (ctx_job (cn_ctx c')) = job_shares_count (ctx_job (cn_ctx c)) + (if sv_send E msg then 1 else 0) \<and>
    w' = w\<lparr>w_data := (w_data w)[30 := w_nonces w ! k]\<rparr> \<and> ctx_xnonce1_size (cn_ctx c') = ctx_xnonce1_size (cn_ctx c)"
    using l assms(5,6) nonce sol t
    by (simp add: verus_stratum_submit_def Let_def mem_simps stratum_send_line_def upd_ctx_def upd_job_def
        me flip: k_def)
  with m show ?thesis by blast
qed

section \<open>Generating Verus work succeeds\<close>

lemma gen_work_verus:
  assumes "wf_ctx c" "wf_work w" "g_algo G = ALGO_EQUIHASH" "job_job_id (ctx_job c) = Some jid" "ctx_xnonce1 c = Some x"
    "length x < 32" "job_coinbase (ctx_job c) = Some (rr @ x1 @ x2)" "length rr = 64" "job_xnonce2 (ctx_job c) = 64 + length x1"
    "length x2 = ctx_xnonce2_size c" "ctx_xnonce2_size c \<le> 32"
  shows "\<exists>D' w'. stratum_gen_work E G D c w = Some (True, D', upd_job (job_coinbase_update (\<lambda>_. Some (rr @ x1 @ incr x2))) c, w') \<and>
    u32s_to_bytes (take 35 (w_data w')) = verus_header (job_version (ctx_job c)) (job_prevhash (ctx_job c)) rr
      (job_ntime (ctx_job c)) (job_nbits (ctx_job c)) x \<and>
    u32s_to_bytes (w_target w') = take 32 (job_extra (ctx_job c)) \<and> w_solution w' = job_solution (ctx_job c) \<and>
    drop 8 (w_job_id w') = take 119 jid \<and> w_height w' = job_height (ctx_job c) \<and> wf_work w'"
proof -
  let ?j = "ctx_job c" and ?cb = "rr @ x1 @ x2" and ?cb' = "rr @ x1 @ incr x2"
  have l: "length (job_ntime ?j) = 4" "length (job_extra ?j) = 64" "length (job_solution ?j) = 1344"
    "list_all (\<lambda>b. length b = 32) (job_merkle ?j)" "length (job_version ?j) = 4" "length (job_prevhash ?j) = 32"
    "length (job_nbits ?j) = 4" "length (w_solution w) = 1344" "length (w_xnonce2 w) = 32" "length (w_target w) = 8"
    using assms(1,2) by (simp_all add: wf_ctx_def wf_job_def wf_work_def)
  let ?b = "verus_header (job_version ?j) (job_prevhash ?j) rr (job_ntime ?j) (job_nbits ?j) x"
  define d where "d = bytes_to_u32s (?b @ to_le 4 (0x80 :: u32) @ replicate 48 0)"
  have b: "length ?b = 140" using l assms(6,8) by (simp add: verus_header_def)
  then have "take (4 * 35) (u32s_to_bytes d) = ?b" unfolding d_def by (simp add: u32s_to_bytes_to_u32s)
  then have d: "u32s_to_bytes (take 35 d) = ?b" by (simp only: take_u32s_to_bytes)
  obtain nt where nt: "be32dec (job_ntime ?j) = Some nt"
    using l(1) by (auto simp: length_Suc_conv numeral_eq_Suc)
  obtain r where r: "gen_root G ?j ?cb = Some r" using gen_root_total [OF l(4) assms(3)] by blast
  have i: "incr_loop ?cb (64 + length x1) (ctx_xnonce2_size c) = Some ?cb'"
    using incr_loop_incr [of "rr @ x1" x2 "[]"] assms(8,10) by simp
  let ?c' = "upd_job (job_coinbase_update (\<lambda>_. Some ?cb')) c"
  have "wf_ctx ?c'" using assms(1,7) by (simp add: wf_ctx_def wf_job_def upd_job_def)
  then have h: "gen_header G ?c' r ?cb' = Some (d, ?c')"
    using gen_header_verus [of ?c' G x ?cb' r] assms(3,5,6,8) by (simp add: upd_job_def d_def)
  define D1 where "D1 = (if g_calc_diff G then D\<lparr>d_net_diff := target_to_diff_verus E (d ! 26)\<rparr> else D)"
  have n: "(if g_calc_diff G then calc_network_diff E G v D else Some D) = Some D1" if "w_data v = d" for v
    using that b assms(3)
    by (simp add: calc_network_diff_def verus_network_diff_def mem_simps length_bytes_to_u32s D1_def d_def)
  have t: "u32s_to_bytes (bytes_to_u32s (take 32 (job_extra ?j))) = take 32 (job_extra ?j)"
    using l(2) by (simp add: u32s_to_bytes_to_u32s)
  have s: "splice (w_solution w) 0 (job_solution ?j) = job_solution ?j" using l by (simp add: splice_def)
  have "length d = 48" "length (bytes_to_u32s (take 32 (job_extra ?j))) = 8" using b l by (simp_all add: d_def length_bytes_to_u32s)
  then have "\<exists>D' w'. stratum_gen_work E G D c w = Some (True, D', ?c', w') \<and> w_data w' = d \<and>
    w_target w' = bytes_to_u32s (take 32 (job_extra ?j)) \<and> w_solution w' = job_solution ?j \<and> drop 8 (w_job_id w') = take 119 jid \<and>
    w_height w' = job_height ?j \<and> wf_work w'"
    using assms(2-11) l nt r i h s
    by (simp add: stratum_gen_work_def Let_def mem_simps n heavy_fields_verus gen_target_verus upd_job_def wf_work_def len_simps)
  then show ?thesis using d t by (elim ex_forward) simp
qed

section \<open>Properties\<close>

text \<open>C8: the work made from a Verus job has the announced header. With a job whose coinbase has the Merkle
  root and the reserved field before the extranonces, \<open>stratum_gen_work\<close> succeeds; the first 140 bytes
  of the header are version, previous hash, the first 64 bytes of the coinbase, time, bits and the pool's
  extranonce padded with zeros; target and solution are the job's, the job id follows the eight
  characters put before it, and the miner's part of the coinbase is incremented as a little-endian
  number of its size, everything else in it being kept.\<close>

theorem verus_work_header:
  assumes "wf_ctx c" "wf_work w" "g_algo G = ALGO_EQUIHASH" "job_job_id (ctx_job c) = Some jid" "ctx_xnonce1 c = Some x"
    "length x < 32" "job_coinbase (ctx_job c) = Some (rr @ x1 @ x2)" "length rr = 64" "job_xnonce2 (ctx_job c) = 64 + length x1"
    "length x2 = ctx_xnonce2_size c" "ctx_xnonce2_size c \<le> 32"
  shows "\<exists>D' c' w'. stratum_gen_work E G D c w = Some (True, D', c', w') \<and>
    u32s_to_bytes (take 35 (w_data w')) = verus_header (job_version (ctx_job c)) (job_prevhash (ctx_job c)) rr
      (job_ntime (ctx_job c)) (job_nbits (ctx_job c)) x \<and>
    u32s_to_bytes (w_target w') = take 32 (job_extra (ctx_job c)) \<and> w_solution w' = job_solution (ctx_job c) \<and>
    drop 8 (w_job_id w') = take 119 jid \<and> w_height w' = job_height (ctx_job c) \<and>
    (\<exists>x2'. job_coinbase (ctx_job c') = Some (rr @ x1 @ x2') \<and> length x2' = length x2 \<and>
       le_nat x2' = (le_nat x2 + 1) mod 256 ^ length x2)"
  using gen_work_verus [OF assms, of E D] le_nat_incr [of x2] by (auto simp: upd_job_def)

definition small_gen :: "int genopts" where
  "small_gen = \<lparr>g_algo = ALGO_EQUIHASH, g_vote = 0, g_calc_diff = True, g_sha = (\<lambda>_. replicate 32 0), g_rand = (\<lambda>_. 0)\<rparr>"

definition small_diffs :: "int diffs" where
  "small_diffs = \<lparr>d_net_diff = 0, d_stratum_diff = 0, d_opt_difficulty = 0\<rparr>"

definition job_ctx :: "int stratum_ctx" where
  "job_ctx = small_ctx\<lparr>ctx_job := (zero_job int_fops)\<lparr>job_job_id := Some ''j1'', job_version := [4, 0, 1, 0],
     job_coinbase := Some (replicate 64 3 @ [1, 2, 3, 4] @ replicate 28 255), job_coinbase_size := 96, job_xnonce2 := 68\<rparr>\<rparr>"

theorem verus_work_header_witness:
  "\<exists>D' c' w'. stratum_gen_work (small_senv []) small_gen small_diffs job_ctx (zero_work (0 :: int)) = Some (True, D', c', w') \<and>
    u32s_to_bytes (take 35 (w_data w')) = verus_header (job_version (ctx_job job_ctx)) (job_prevhash (ctx_job job_ctx)) (replicate 64 3)
      (job_ntime (ctx_job job_ctx)) (job_nbits (ctx_job job_ctx)) [1, 2, 3, 4] \<and>
    u32s_to_bytes (w_target w') = take 32 (job_extra (ctx_job job_ctx)) \<and> w_solution w' = job_solution (ctx_job job_ctx) \<and>
    drop 8 (w_job_id w') = take 119 ''j1'' \<and> w_height w' = job_height (ctx_job job_ctx) \<and>
    (\<exists>x2'. job_coinbase (ctx_job c') = Some (replicate 64 3 @ [1, 2, 3, 4] @ x2') \<and> length x2' = length (replicate 28 (255 :: u8)) \<and>
       le_nat x2' = (le_nat (replicate 28 255) + 1) mod 256 ^ length (replicate 28 (255 :: u8)))"
proof (rule verus_work_header)
  show "wf_ctx job_ctx" by (simp add: wf_ctx_def wf_job_def job_ctx_def small_ctx_def zero_job_def)
qed (simp_all add: job_ctx_def small_ctx_def small_gen_def)

end
