(* ===== verification/Submit.thy ===== *)
theory Submit
  imports Pools Workgen
begin

text \<open>Submitting shares and accounting for the answers: \<open>share_result\<close>, \<open>submit_upstream_work\<close> with the block template
  it consults, the retry loop of the workio thread, the queueing functions and \<open>stratum_handle_response\<close> of
  \<open>ccminer.cpp\<close>. What the pool, the clock and the allocator answer to one call is the record \<open>replies\<close>.\<close>

section \<open>The surroundings\<close>

record ('j, 'f) replies =
  re_E :: "('j, 'f) senv"
  re_now :: u32
  re_tv :: timeval
  re_llround :: "'f \<Rightarrow> u64"
  re_rpc :: "string \<Rightarrow> 'j option \<times> int"    \<comment> \<open>\<open>json_rpc_call_pool\<close>: the answer and \<open>curl_err\<close>\<close>

abbreviation re_F :: "('j, 'f) replies \<Rightarrow> 'f fops" where
  "re_F R \<equiv> sv_F (re_E R)"

abbreviation re_J :: "('j, 'f) replies \<Rightarrow> ('j, 'f) jansson" where
  "re_J R \<equiv> sv_J (re_E R)"

definition conn_of :: "'f miner \<Rightarrow> 'f conn" where
  "conn_of m = \<lparr>cn_ctx = stratum m, cn_disconnects = map pool_disconnects (pools m), cn_sent = sent_lines m,
     cn_restart = False, cn_inbox = []\<rparr>"

definition put_conn :: "'f conn \<Rightarrow> 'f miner \<Rightarrow> 'f miner" where
  "put_conn c m = m\<lparr>stratum := cn_ctx c, sent_lines := cn_sent c\<rparr>"

section \<open>The result of a share\<close>

fun speed_sum :: "'f fops \<Rightarrow> 'f miner \<Rightarrow> nat \<Rightarrow> nat \<Rightarrow> 'f \<Rightarrow> 'f option" where
  "speed_sum F m i 0 hashrate = Some hashrate"
| "speed_sum F m i (Suc n) hashrate = do {
     h \<leftarrow> rd (thr_hashrates m) i;
     speed_sum F m (i + 1) n (f_add F hashrate (stats_get_speed F (opt_statsavg m) (opt_n_threads m) (int i) h (scans m))) }"

text \<open>The text \<open>" solved: %u"\<close> is written to an array of 16 characters.\<close>

definition solved_fits :: "u32 \<Rightarrow> bool" where
  "solved_fits n \<longleftrightarrow> length ('' solved: '' @ dec_nat (unat n)) < 16"

definition count_share :: "('j, 'f) replies \<Rightarrow> bool \<Rightarrow> 'f \<Rightarrow> 'f pool_infos \<Rightarrow> 'f pool_infos" where
  "count_share R result sharediff p =
     (let p = (if result then p\<lparr>pool_accepted_count := pool_accepted_count p + 1\<rparr>
               else p\<lparr>pool_rejected_count := pool_rejected_count p + 1\<rparr>);
          p = p\<lparr>pool_last_share_time := uint (re_now R)\<rparr>
      in if f_lt (re_F R) (pool_best_share p) sharediff then p\<lparr>pool_best_share := sharediff\<rparr> else p)"

definition share_result :: "('j, 'f) replies \<Rightarrow> bool \<Rightarrow> int \<Rightarrow> 'f \<Rightarrow> string option \<Rightarrow> 'f miner \<Rightarrow> 'f miner option" where
  "share_result R result pooln sharediff reason m = do {
     let F = re_F R;
     hashrate \<leftarrow> speed_sum F m 0 (nat (opt_n_threads m)) (f_lit F 0 0);
     m \<leftarrow> upd_pool pooln (count_share R result sharediff) m;
     let m = m\<lparr>global_hashrate := re_llround R hashrate\<rparr>;
     m \<leftarrow> (if f_eq F (net_diff m) (f_lit F 0 0) \<or> f_lt F sharediff (net_diff m) then Some m
          else do {
            m \<leftarrow> upd_pool pooln (\<lambda>p. p\<lparr>pool_solved_count := pool_solved_count p + 1\<rparr>) m;
            p \<leftarrow> rd_int (pools m) pooln;
            if solved_fits (pool_solved_count p) then Some m else None });
     Some (case reason of
        None \<Rightarrow> m
      | Some r \<Rightarrow> if \<not> check_dups m \<and> strcaseeq (take 9 r) ''duplicate'' then m\<lparr>check_dups := True, g_work_time := 0\<rparr> else m) }"

section \<open>The block template\<close>

definition gbt_work_decode :: "('j, 'f) replies \<Rightarrow> 'j option \<Rightarrow> u32 \<Rightarrow> 'f miner \<Rightarrow> bool \<times> u32 \<times> 'f miner" where
  "gbt_work_decode R val height m =
     (let J = re_J R;
          err = json_object_get J val ''error'';
          key = json_object_get J val ''height''
      in if err \<noteq> None \<and> \<not> json_is_null J err then (False, height, m\<lparr>allow_gbt := False\<rparr>)
         else if height = 0 \<and> key \<noteq> None \<and> json_is_integer J key
         then let height = word_of_int (json_integer_value J key)
              in (True, height, if \<not> opt_quiet m \<and> height > w_height (g_work m)
                    then m\<lparr>g_work := (g_work m)\<lparr>w_height := height\<rparr>\<rparr> else m)
         else (True, height, m))"

definition gbt_req :: string where
  "gbt_req = ''{\"method\": \"getblocktemplate\", \"params\": [{}], \"id\":9}'' @ [CHR 0x0D, CHR 0x0A]"

definition get_blocktemplate :: "('j, 'f) replies \<Rightarrow> u32 \<Rightarrow> 'f miner \<Rightarrow> bool \<times> u32 \<times> 'f miner" where
  "get_blocktemplate R height m =
     (if \<not> allow_gbt m then (False, height, m)
      else let (val, curl_err) = re_rpc R gbt_req in
        if val = None \<and> curl_err = - 1 then (False, height, m\<lparr>allow_gbt := False\<rparr>)
        else gbt_work_decode R (json_object_get (re_J R) val ''result'') height m)"

section \<open>Submission\<close>

text \<open>\<open>job_id + 8\<close>; what a shorter text leaves there is not known.\<close>

definition job_tail :: "string \<Rightarrow> string option" where
  "job_tail s = (if length s < 8 then None else Some (drop 8 s))"

text \<open>Whether a newer job was received, and the counters of stale shares.\<close>

definition check_stale :: "'f work \<Rightarrow> int \<Rightarrow> 'f miner \<Rightarrow> (bool \<times> 'f miner) option" where
  "check_stale work pooln m =
     (let stale = w_height work \<noteq> 0 \<and> w_height work < w_height (g_work m)
      in if have_stratum m \<and> \<not> stale \<and> \<not> opt_submit_stale m \<and> opt_algo m \<noteq> ALGO_ZR5 \<and> opt_algo m \<noteq> ALGO_SCRYPT_JANE
         then do {
           j \<leftarrow> job_tail (w_job_id work);
           g \<leftarrow> job_tail (w_job_id (g_work m));
           if j \<noteq> [] \<and> j \<noteq> g then do {
             m \<leftarrow> upd_pool pooln (\<lambda>p. p\<lparr>pool_stales_count := pool_stales_count p + 1\<rparr>) m;
             p \<leftarrow> rd_int (pools m) pooln;
             Some (True, if \<not> check_stratum_jobs m \<and> pool_stales_count p > 5 then m\<lparr>check_stratum_jobs := True\<rparr> else m) }
           else Some (False, m) }
         else Some (stale, m))"

text \<open>Time, nonce and vote of a share, and whether the algorithm turns the check for duplicates on.\<close>

definition share_fields :: "int \<Rightarrow> u32 \<Rightarrow> u32 list \<Rightarrow> (bytes \<times> u32 \<times> bytes \<times> bool) option" where
  "share_fields algo nonce data =
     (let le = (\<lambda>t n. do { t \<leftarrow> rd data t; n \<leftarrow> rd data n; Some (to_le 4 t, n) });
          be = (\<lambda>t n. do { t \<leftarrow> rd data t; n \<leftarrow> rd data n; Some (to_le 4 (swab32 t), swab32 n) })
      in if algo \<in> {ALGO_BLAKE, ALGO_BLAKECOIN, ALGO_BLAKE2S, ALGO_BMW, ALGO_SHA256D, ALGO_SHA256T, ALGO_VANILLA}
         then do { (t, n) \<leftarrow> le 17 19; Some (t, n, [0, 0], True) }
         else if algo = ALGO_DECRED then do { (t, n) \<leftarrow> be 34 35; v \<leftarrow> rd data 25; Some (t, n, be16enc (ucast v), False) }
         else if algo = ALGO_HEAVY then do { (t, n) \<leftarrow> le 17 19; v \<leftarrow> rd data 20; Some (t, n, be16enc (ucast v), False) }
         else if algo = ALGO_LBRY then do { t \<leftarrow> rd data 25; Some (to_le 4 t, nonce, [0, 0], True) }
         else if algo = ALGO_SIA then do { (t, n) \<leftarrow> be 10 8; Some (t, n, [0, 0], False) }
         else if algo = ALGO_ZR5 then do { (t, n) \<leftarrow> be 17 19; Some (t, n, [0, 0], True) }
         else do { (t, n) \<leftarrow> le 17 19; Some (t, n, [0, 0], False) })"

definition share_xnonce2 :: "int \<Rightarrow> nat \<Rightarrow> 'f work \<Rightarrow> bytes option" where
  "share_xnonce2 algo xnonce1_size work =
     (if algo = ALGO_DECRED then rdn (u32s_to_bytes (w_data work)) 144 xnonce1_size
      else if algo = ALGO_SIA then do { d \<leftarrow> rd (w_data work) 9; Some (to_le 2 (drop_bit 16 (swab32 d))) }
      else rdn (w_xnonce2 work) 0 (unat (w_xnonce2_len work)))"

definition stratum_message :: "string \<Rightarrow> string list \<Rightarrow> u32 \<Rightarrow> string" where
  "stratum_message user args n =
     ''{\"method\": \"mining.submit\", \"params\": [\"'' @ user @ ''\"'' @ concat (map (\<lambda>a. '', \"'' @ a @ ''\"'') args) @
     ''], \"id\":'' @ dec_nat (unat n) @ ''}''"

text \<open>\<open>hashlog_remember_submit\<close> with the globals it reads.\<close>

definition remember_share :: "('j, 'f) replies \<Rightarrow> 'f work \<Rightarrow> u32 \<Rightarrow> 'f miner \<Rightarrow> 'f hashlog option" where
  "remember_share R work nonce m =
     (if 0 \<le> cur_pooln m
      then hashlog_remember_submit (re_F R) (re_now R) (nat (cur_pooln m)) (pools m) (job_shares_count (ctx_job (stratum m))) work nonce (shares m)
      else None)"

text \<open>\<open>sprintf\<close> to the array \<open>s[512]\<close>.\<close>

definition into_512 :: "string \<Rightarrow> string option" where
  "into_512 s = (if length s < 512 then Some s else None)"

definition send_share :: "('j, 'f) replies \<Rightarrow> string \<Rightarrow> 'f work \<Rightarrow> u32 \<Rightarrow> 'f miner \<Rightarrow> (bool \<times> 'f miner) option" where
  "send_share R s work nonce m = do {
     let m = m\<lparr>stratum := (stratum m)\<lparr>ctx_tv_submit := (tv_sec (re_tv R), tv_usec (re_tv R))\<rparr>\<rparr>;
     let (ok, c) = stratum_send_line (re_E R) s (conn_of m);
     let m = put_conn c m;
     if \<not> ok then Some (False, m)
     else do {
       ts \<leftarrow> (if check_dups m \<or> opt_showdiff m then remember_share R work nonce m else Some (shares m));
       Some (True, m\<lparr>shares := ts,
         stratum := upd_job (\<lambda>j. j\<lparr>job_shares_count := job_shares_count j + 1\<rparr>) (stratum m)\<rparr>) } }"

definition submit_stratum :: "('j, 'f) replies \<Rightarrow> 'f work \<Rightarrow> 'f pool_infos \<Rightarrow> 'f miner \<Rightarrow> (bool \<times> 'f miner) option" where
  "submit_stratum R work pool m = do {
     let E = re_E R;
     let idnonce = unat (w_submit_nonce_id work);
     n0 \<leftarrow> rd (w_nonces work) idnonce;
     (ntime, nonce, nvote, dups) \<leftarrow> share_fields (opt_algo m) n0 (w_data work);
     let m = (if dups then m\<lparr>check_dups := True\<rparr> else m);
     if check_dups m \<and> hashlog_already_submittted (shares m) (w_job_id work) nonce > 0
     then do { m \<leftarrow> restart_threads (m\<lparr>g_work_time := 0\<rparr>); Some (True, m) }
     else do {
       xn2 \<leftarrow> share_xnonce2 (opt_algo m) (ctx_xnonce1_size (stratum m)) work;
       sd \<leftarrow> rd (w_sharediff work) idnonce;
       let m = m\<lparr>stratum := (stratum m)\<lparr>ctx_sharediff := sd\<rparr>\<rparr>;
       j \<leftarrow> job_tail (w_job_id work);
       s \<leftarrow> into_512 (stratum_message (pool_user pool)
              ([j, cbin2hex xn2, cbin2hex ntime, cbin2hex (to_le 4 nonce)] @ (if opt_vote m \<noteq> 0 then [cbin2hex nvote] else []))
              (job_shares_count (ctx_job (stratum m)) + 10));
       send_share R s work nonce m } }"

definition getwork_words :: "'f miner \<Rightarrow> nat" where
  "getwork_words m = (if opt_algo m = ALGO_ZR5 then 20 else if opt_algo m = ALGO_DECRED then 48
     else if opt_algo m = ALGO_PHI2 \<and> use_roots m then 36 else 32)"

definition submit_getwork :: "('j, 'f) replies \<Rightarrow> 'f work \<Rightarrow> 'f miner \<Rightarrow> (bool \<times> 'f miner) option" where
  "submit_getwork R work m = do {
     let J = re_J R;
     d \<leftarrow> rdn (w_data work) 0 (getwork_words m);
     if \<not> sv_alloc (re_E R) then Some (False, m)
     else do {
       s \<leftarrow> into_512 (''{\"method\": \"getwork\", \"params\": [\"'' @ cbin2hex (u32s_to_bytes d) @ ''\"], \"id\":10}'' @ [CHR 0x0D, CHR 0x0A]);
       case fst (re_rpc R s) of
         None \<Rightarrow> Some (False, m)
       | Some v \<Rightarrow> do {
           sd \<leftarrow> rd (w_sharediff work) 0;
           m \<leftarrow> share_result R (json_is_true J (json_object_get J (Some v) ''result'')) (uint (w_pooln work)) sd
                 (case json_object_get J (Some v) ''reject-reason'' of None \<Rightarrow> None | r \<Rightarrow> json_string_value J r) m;
           Some (True, m) } } }"

definition submit_verus :: "('j, 'f) replies \<Rightarrow> 'f work \<Rightarrow> 'f pool_infos \<Rightarrow> 'f miner \<Rightarrow> (bool \<times> 'f miner) option" where
  "submit_verus R work pool m = do {
     (ok, w, c) \<leftarrow> verus_stratum_submit (re_E R) (re_tv R) (pool_user pool) work (conn_of m);
     let m = put_conn c m;
     n \<leftarrow> rd (w_nonces w) (unat (w_submit_nonce_id work));
     ts \<leftarrow> (if ok then remember_share R w n m else Some (shares m));
     Some (True, m\<lparr>shares := ts, stratum := upd_job (\<lambda>j. j\<lparr>job_shares_count := job_shares_count j + 1\<rparr>) (stratum m)\<rparr>) }"

definition submit_upstream_work :: "('j, 'f) replies \<Rightarrow> 'f work \<Rightarrow> 'f miner \<Rightarrow> (bool \<times> 'f miner) option" where
  "submit_upstream_work R work m = do {
     pool \<leftarrow> rd_int (pools m) (uint (w_pooln work));
     if is_stratum pool \<and> ctx_is_equihash (stratum m) then submit_verus R work pool m
     else do {
       (stale, m) \<leftarrow> check_stale work (uint (w_pooln work)) m;
       let (solved, m) = (if \<not> have_stratum m \<and> \<not> stale \<and> allow_gbt m
         then let (ok, height, m) = get_blocktemplate R 0 m
              in (ok \<and> w_height work \<noteq> 0 \<and> w_height work < height, m)
         else (False, m));
       if solved then Some (True, m)
       else do {
         stale \<leftarrow> (if \<not> stale \<and> opt_algo m = ALGO_ZR5 \<and> \<not> have_stratum m
                  then do { a \<leftarrow> rdn (w_data work) 1 17; b \<leftarrow> rdn (w_data (g_work m)) 1 17; Some (a \<noteq> b) }
                  else Some stale);
         if \<not> submit_old m \<and> stale then Some (True, m)
         else if is_stratum pool then submit_stratum R work pool m
         else submit_getwork R work m } } }"

section \<open>The workio thread\<close>

definition submit_work :: "bool \<Rightarrow> bool \<Rightarrow> int \<Rightarrow> 'f work \<Rightarrow> 'f miner \<Rightarrow> bool \<times> 'f miner" where
  "submit_work alloc_ok push_ok thr work m =
     (if alloc_ok \<and> push_ok then (True, m\<lparr>workio_q := workio_q m @ [WC_SUBMIT_WORK thr work (uint (w_pooln work))]\<rparr>)
      else (False, m))"

definition workio_abort :: "bool \<Rightarrow> bool \<Rightarrow> 'f miner \<Rightarrow> 'f miner" where
  "workio_abort alloc_ok push_ok m = (if alloc_ok \<and> push_ok then m\<lparr>workio_q := workio_q m @ [WC_ABORT]\<rparr> else m)"

text \<open>\<open>workio_submit_work\<close>, with the number of attempts; \<open>Rs i\<close> is what attempt \<open>i\<close> meets, and \<open>other i\<close> what the
  other threads do to the globals until the check after it.\<close>

partial_function (option) submit_loop ::
  "(nat \<Rightarrow> ('j, 'f) replies) \<Rightarrow> (nat \<Rightarrow> 'f miner \<Rightarrow> 'f miner) \<Rightarrow> 'f work \<Rightarrow> int \<Rightarrow> nat \<Rightarrow> 'f miner \<Rightarrow> (bool \<times> nat \<times> 'f miner) option" where
  "submit_loop Rs other work pooln failures m = do {
     (ok, m) \<leftarrow> submit_upstream_work (Rs failures) work m;
     let m = other failures m;
     if ok then Some (True, failures + 1, m)
     else if pooln \<noteq> cur_pooln m then Some (True, failures + 1, m)
     else if opt_retries m \<ge> 0 \<and> int (failures + 1) > opt_retries m then Some (False, failures + 1, m)
     else submit_loop Rs other work pooln (failures + 1) m }"

definition workio_submit_work ::
  "(nat \<Rightarrow> ('j, 'f) replies) \<Rightarrow> (nat \<Rightarrow> 'f miner \<Rightarrow> 'f miner) \<Rightarrow> 'f work \<Rightarrow> int \<Rightarrow> 'f miner \<Rightarrow> (bool \<times> nat \<times> 'f miner) option" where
  "workio_submit_work Rs other work pooln m = submit_loop Rs other work pooln 0 m"

section \<open>Answers of the pool\<close>

definition stratum_handle_response :: "('j, 'f) replies \<Rightarrow> string \<Rightarrow> 'f miner \<Rightarrow> (bool \<times> 'f miner) option" where
  "stratum_handle_response R buf m =
     (let J = re_J R; F = re_F R
      in case json_loads J buf of
        None \<Rightarrow> Some (False, m)
      | Some val \<Rightarrow>
          let res_val = json_object_get J (Some val) ''result'';
              err_val = json_object_get J (Some val) ''error'';
              id_val = json_object_get J (Some val) ''id'';
              num = int32 (json_integer_value J id_val)
          in if id_val = None \<or> json_is_null J id_val \<or> num < 4 then Some (False, m)
          else
            let sharediff = (if opt_showdiff m \<and> check_dups m
                  then hashlog_get_sharediff (shares m) (Some (w_job_id (g_work m))) (num - 10) (ctx_sharediff (stratum m))
                  else ctx_sharediff (stratum m));
                (diff, _, _) = timeval_subtract (re_tv R) \<lparr>tv_sec = fst (ctx_tv_submit (stratum m)), tv_usec = snd (ctx_tv_submit (stratum m))\<rparr>;
                m = m\<lparr>stratum := (stratum m)\<lparr>ctx_answer_msec :=
                  word_of_int (1000 * tv_sec diff) + ucast (f_to_u64 F (f_mul F (f_lit F 1 (- 3)) (f_of_int F (tv_usec diff))))\<rparr>\<rparr>
            in if res_val = None then Some (False, m)
               else do {
                 m \<leftarrow> share_result R (json_is_true J res_val) (ctx_pooln (stratum m)) sharediff
                   (case err_val of None \<Rightarrow> None | e \<Rightarrow> json_string_value J (json_array_get J e 1)) m;
                 Some (True, m) })"

section \<open>States in which a share can be submitted\<close>

definition submit_ready :: "'f work \<Rightarrow> 'f miner \<Rightarrow> bool" where
  "submit_ready work m \<longleftrightarrow> wf_work work \<and> unat (w_submit_nonce_id work) < MAX_NONCES \<and> unat (w_xnonce2_len work) \<le> 32 \<and>
     unat (w_pooln work) < length (pools m) \<and> 0 \<le> cur_pooln m \<and> nat (cur_pooln m) < length (pools m) \<and>
     8 \<le> length (w_job_id work) \<and> length (w_job_id work) \<le> 127 \<and> 8 \<le> length (w_job_id (g_work m)) \<and>
     length (w_data (g_work m)) = 48 \<and> ctx_xnonce1_size (stratum m) \<le> 32 \<and>
     list_all (\<lambda>p. length (pool_user p) \<le> 191 \<and> unat (pool_solved_count p) < 999999) (pools m) \<and>
     nat (opt_n_threads m) \<le> length (thr_hashrates m) \<and>
     (\<forall>r. work_restart m = Some r \<longrightarrow> length r = nat (opt_n_threads m))"

text \<open>What a submission that fails may have changed.\<close>

definition keeps :: "'f work \<Rightarrow> 'f miner \<Rightarrow> bool \<times> 'f miner \<Rightarrow> bool" where
  "keeps work m = (\<lambda>(ok, m'). (\<not> ok \<longrightarrow> submit_ready work m') \<and> opt_retries m' = opt_retries m \<and>
     (sent_lines m' = sent_lines m \<or> (\<exists>s. sent_lines m' = sent_lines m @ [s] \<and> length s < JSON_SUBMIT_BUF_LEN)))"

lemma ready_pool:
  assumes "submit_ready work m"
  obtains pool where "rd_int (pools m) (uint (w_pooln work)) = Some pool" "length (pool_user pool) \<le> 191"
proof -
  have "unat (w_pooln work) < length (pools m)" using assms by (simp add: submit_ready_def)
  then have "rd_int (pools m) (uint (w_pooln work)) = Some (pools m ! unat (w_pooln work))"
    by (simp add: rd_int_def rd_def unsigned_less flip: nat_uint_eq)
  moreover have "length (pool_user (pools m ! unat (w_pooln work))) \<le> 191"
    using assms by (simp add: submit_ready_def list_all_length)
  ultimately show thesis using that by blast
qed

lemma speed_sum_total: "i + n \<le> length (thr_hashrates m) \<Longrightarrow> \<exists>h. speed_sum F m i n acc = Some h"
  by (induction n arbitrary: i acc) (simp_all add: mem_simps)

lemma upd_pool_nth: "nat i < length (pools m) \<Longrightarrow> 0 \<le> i \<Longrightarrow>
  upd_pool i h m = Some (m\<lparr>pools := (pools m)[nat i := h (pools m ! nat i)]\<rparr>)"
  by (simp add: upd_pool_def mem_simps)

lemma solved_fits_small:
  assumes "unat n < 999999"
  shows "solved_fits (n + 1)"
proof -
  have "unat (n + 1) < 10 ^ Suc 5" using assms by (simp add: unat_word_ariths)
  then show ?thesis using length_dec_nat [of "unat (n + 1)" 5] by (simp add: solved_fits_def)
qed

lemma count_share_solved [simp]: "pool_solved_count (count_share R b d p) = pool_solved_count p"
  by (simp add: count_share_def Let_def)

text \<open>Whether the pool has called the share a duplicate.\<close>

definition dup_reason :: "string option \<Rightarrow> bool" where
  "dup_reason r \<longleftrightarrow> (case r of None \<Rightarrow> False | Some s \<Rightarrow> strcaseeq (take 9 s) ''duplicate'')"

lemma share_result_spec:
  assumes "nat (opt_n_threads m) \<le> length (thr_hashrates m)" "0 \<le> i" "nat i < length (pools m)"
    "unat (pool_solved_count (pools m ! nat i)) < 999999"
  shows "\<exists>m'. share_result R b i d r m = Some m' \<and> opt_retries m' = opt_retries m \<and> sent_lines m' = sent_lines m \<and>
    shares m' = shares m \<and> stratum m' = stratum m \<and> pools m' = (pools m)[nat i :=
        if f_eq (re_F R) (net_diff m) (f_lit (re_F R) 0 0) \<or> f_lt (re_F R) d (net_diff m) then count_share R b d (pools m ! nat i)
        else (count_share R b d (pools m ! nat i))\<lparr>pool_solved_count := pool_solved_count (pools m ! nat i) + 1\<rparr>] \<and>
    check_dups m' = (check_dups m \<or> dup_reason r)"
proof -
  obtain h where h: "speed_sum (re_F R) m 0 (nat (opt_n_threads m)) (f_lit (re_F R) 0 0) = Some h"
    using speed_sum_total [of 0 "nat (opt_n_threads m)" m] assms(1) by auto
  show ?thesis
  proof (cases "f_eq (re_F R) (net_diff m) (f_lit (re_F R) 0 0) \<or> f_lt (re_F R) d (net_diff m)")
    case True
    then show ?thesis
      using assms(2,3) h by (auto simp: share_result_def upd_pool_nth dup_reason_def Let_def split: option.splits)
  next
    case False
    then show ?thesis
      using assms(2-4) h
      by (auto simp: share_result_def upd_pool_nth mem_simps solved_fits_small dup_reason_def Let_def split: option.splits)
  qed
qed

section \<open>Every branch returns\<close>

lemma share_fields_total:
  assumes "length data = 48"
  shows "\<exists>t k v d. share_fields algo n data = Some (t, k, v, d) \<and> length t = 4 \<and> length v = 2"
proof -
  note r = rd_Some [of _ data, unfolded assms]
  consider "algo \<in> {ALGO_BLAKE, ALGO_BLAKECOIN, ALGO_BLAKE2S, ALGO_BMW, ALGO_SHA256D, ALGO_SHA256T, ALGO_VANILLA}"
    | "algo \<notin> {ALGO_BLAKE, ALGO_BLAKECOIN, ALGO_BLAKE2S, ALGO_BMW, ALGO_SHA256D, ALGO_SHA256T, ALGO_VANILLA}" by blast
  then show ?thesis
    unfolding share_fields_def Let_def by cases (simp_all add: r be16enc_def ex_bool_eq)
qed

lemma share_xnonce2_total:
  assumes "wf_work work" "unat (w_xnonce2_len work) \<le> 32" "x \<le> 32"
  shows "\<exists>b. share_xnonce2 algo x work = Some b \<and> length b \<le> 32"
  using assms by (simp add: share_xnonce2_def wf_work_def rdn_Some rd_Some)

lemma stratum_message_fits:
  assumes "length user \<le> 191" "length j \<le> 119" "length x \<le> 32" "length t = 4" "length v = 2"
  shows "length (stratum_message user ([j, cbin2hex x, cbin2hex t, cbin2hex (to_le 4 k)] @ (if b then [cbin2hex v] else [])) n) < 512"
  using assms length_dec_u32 [of n] by (simp add: stratum_message_def)

lemma remember_total:
  assumes "wf_work work" "unat (w_submit_nonce_id work) < MAX_NONCES" "0 \<le> cur_pooln m" "nat (cur_pooln m) < length (pools m)"
  shows "\<exists>d. remember_share R work nonce m = Some (om_put (share_key (w_job_id work) nonce) d (shares m)) \<and>
    hl_tm_sent d = re_now R \<and> hl_job_nonce_id d = ucast (job_shares_count (ctx_job (stratum m)))"
  using assms
  by (simp add: remember_share_def hashlog_remember_submit_def mem_simps wf_work_def Let_def) (rule exI, rule conjI, rule refl, simp)

lemma restart_ready:
  assumes "submit_ready work m"
  shows "\<exists>r. restart_threads (m\<lparr>g_work_time := t\<rparr>) = Some (m\<lparr>g_work_time := t, work_restart := r\<rparr>)"
proof -
  have "\<forall>r. work_restart (m\<lparr>g_work_time := t\<rparr>) = Some r \<longrightarrow> length r = nat (opt_n_threads (m\<lparr>g_work_time := t\<rparr>))"
    using assms by (simp add: submit_ready_def)
  from restart_threads_total [OF this] show ?thesis by auto
qed

lemma ready_stratum: "submit_ready work m \<Longrightarrow> ctx_xnonce1_size c \<le> 32 \<Longrightarrow> submit_ready work (m\<lparr>stratum := c, sent_lines := l\<rparr>)"
  by (simp add: submit_ready_def)

lemma send_share_total:
  assumes "submit_ready work m" "length s < JSON_SUBMIT_BUF_LEN"
  shows "\<exists>r. send_share R s work nonce m = Some r \<and> keeps work m r"
proof (cases "sv_send (re_E R) s")
  case False
  then have "send_share R s work nonce m =
      Some (False, m\<lparr>stratum := (stratum m)\<lparr>ctx_tv_submit := (tv_sec (re_tv R), tv_usec (re_tv R))\<rparr>, sent_lines := sent_lines m\<rparr>)"
    by (simp add: send_share_def stratum_send_line_def conn_of_def put_conn_def)
  then show ?thesis using assms(1) ready_stratum [OF assms(1)] by (simp add: keeps_def submit_ready_def)
next
  case True
  define m2 where "m2 = m\<lparr>stratum := (stratum m)\<lparr>ctx_tv_submit := (tv_sec (re_tv R), tv_usec (re_tv R))\<rparr>, sent_lines := sent_lines m @ [s]\<rparr>"
  have "wf_work work" "unat (w_submit_nonce_id work) < MAX_NONCES" "0 \<le> cur_pooln m2" "nat (cur_pooln m2) < length (pools m2)"
    using assms(1) by (simp_all add: submit_ready_def m2_def)
  then obtain d where "remember_share R work nonce m2 = Some (om_put (share_key (w_job_id work) nonce) d (shares m2))"
    using remember_total by blast
  then show ?thesis
    using True assms(2)
    by (cases "check_dups m2 \<or> opt_showdiff m2")
      (auto simp: send_share_def stratum_send_line_def conn_of_def put_conn_def m2_def keeps_def)
qed

lemma submit_stratum_total:
  assumes "submit_ready work m" "length (pool_user pool) \<le> 191"
  shows "\<exists>r. submit_stratum R work pool m = Some r \<and> keeps work m r"
proof -
  have w: "wf_work work" "unat (w_submit_nonce_id work) < MAX_NONCES" "length (w_data work) = 48" "length (w_nonces work) = MAX_NONCES"
    "length (w_sharediff work) = MAX_NONCES" "8 \<le> length (w_job_id work)" "length (w_job_id work) \<le> 127"
    "unat (w_xnonce2_len work) \<le> 32" "ctx_xnonce1_size (stratum m) \<le> 32"
    using assms(1) by (simp_all add: submit_ready_def wf_work_def)
  obtain t k v d where f: "share_fields (opt_algo m) (w_nonces work ! unat (w_submit_nonce_id work)) (w_data work) = Some (t, k, v, d)"
    "length t = 4" "length v = 2" using share_fields_total [OF w(3)] by blast
  obtain x where x: "share_xnonce2 (opt_algo m) (ctx_xnonce1_size (stratum m)) work = Some x" "length x \<le> 32"
    using share_xnonce2_total [OF w(1,8,9)] by blast
  define m1 where "m1 = (if d then m\<lparr>check_dups := True\<rparr> else m)"
  have m1: "submit_ready work m1" "opt_algo m1 = opt_algo m" "stratum m1 = stratum m" "sent_lines m1 = sent_lines m"
    "opt_retries m1 = opt_retries m"
    using assms(1) by (simp_all add: m1_def submit_ready_def)
  define msg where "msg = stratum_message (pool_user pool)
    ([drop 8 (w_job_id work), cbin2hex x, cbin2hex t, cbin2hex (to_le 4 k)] @ (if opt_vote m1 \<noteq> 0 then [cbin2hex v] else []))
    (job_shares_count (ctx_job (stratum m)) + 10)"
  have msg: "length msg < 512" unfolding msg_def
    using w(7) by (intro stratum_message_fits [OF assms(2) _ x(2) f(2,3)]) simp
  show ?thesis
  proof (cases "check_dups m1 \<and> hashlog_already_submittted (shares m1) (w_job_id work) k > 0")
    case True
    then show ?thesis
      using restart_ready [OF m1(1), of 0] f(1) w m1
      by (auto simp: submit_stratum_def mem_simps m1_def [symmetric] keeps_def)
  next
    case False
    define m2 where "m2 = m1\<lparr>stratum := (stratum m)\<lparr>ctx_sharediff := w_sharediff work ! unat (w_submit_nonce_id work)\<rparr>\<rparr>"
    have e: "submit_stratum R work pool m = send_share R msg work k m2"
      using False f(1) x(1) w msg m1
      by (cases "check_dups m1")
        (simp_all add: submit_stratum_def mem_simps m1_def [symmetric] job_tail_def into_512_def m2_def msg_def)
    have "submit_ready work m2" "sent_lines m2 = sent_lines m" "opt_retries m2 = opt_retries m"
      using m1 w(9) by (simp_all add: m2_def submit_ready_def)
    then show ?thesis
      using send_share_total [of work m2 msg R k] msg e by (auto simp: keeps_def JSON_SUBMIT_BUF_LEN_def)
  qed
qed

lemma submit_getwork_total:
  assumes "submit_ready work m"
  shows "\<exists>r. submit_getwork R work m = Some r \<and> keeps work m r"
proof -
  have w: "length (w_data work) = 48" "length (w_sharediff work) = 2" "unat (w_pooln work) < length (pools m)"
    "nat (opt_n_threads m) \<le> length (thr_hashrates m)" "unat (pool_solved_count (pools m ! unat (w_pooln work))) < 999999"
    using assms by (simp_all add: submit_ready_def wf_work_def MAX_NONCES_def list_all_length)
  have n: "getwork_words m \<le> 48" by (simp add: getwork_words_def)
  let ?s = "''{\"method\": \"getwork\", \"params\": [\"'' @ cbin2hex (u32s_to_bytes (take (getwork_words m) (w_data work))) @ ''\"], \"id\":10}'' @
    [CHR 0x0D, CHR 0x0A]"
  have "length ?s < 512" using n w(1) by simp
  then have s: "into_512 ?s = Some ?s" unfolding into_512_def by (rule if_P)
  have p: "nat (uint (w_pooln work)) = unat (w_pooln work)" "0 \<le> uint (w_pooln work)" by simp_all
  have sr: "\<exists>m'. share_result R b (uint (w_pooln work)) d r m = Some m' \<and> opt_retries m' = opt_retries m \<and> sent_lines m' = sent_lines m" for b d r
    using share_result_spec [of m "uint (w_pooln work)" R b d r] w p by auto
  have d: "rdn (w_data work) 0 (getwork_words m) = Some (take (getwork_words m) (w_data work))" using n w(1) by (simp add: rdn_Some)
  show ?thesis
  proof (cases "sv_alloc (re_E R) \<and> fst (re_rpc R ?s) \<noteq> None")
    case True
    then obtain v where v: "sv_alloc (re_E R)" "fst (re_rpc R ?s) = Some v" by blast
    obtain m' where m': "share_result R (json_is_true (re_J R) (json_object_get (re_J R) (Some v) ''result'')) (uint (w_pooln work)) (w_sharediff work ! 0)
        (case json_object_get (re_J R) (Some v) ''reject-reason'' of None \<Rightarrow> None | r \<Rightarrow> json_string_value (re_J R) r) m = Some m'"
      "opt_retries m' = opt_retries m" "sent_lines m' = sent_lines m" using sr by blast
    have "submit_getwork R work m = Some (True, m')"
      unfolding submit_getwork_def Let_def d bind.bind_lunit s using v m'(1) w(2) by (simp add: rd_Some cong: option.case_cong)
    then show ?thesis using m' by (simp add: keeps_def)
  next
    case False
    then have "submit_getwork R work m = Some (False, m)"
      unfolding submit_getwork_def Let_def d bind.bind_lunit s by auto
    then show ?thesis using assms by (simp add: keeps_def)
  qed
qed

lemma submit_verus_spec:
  assumes "submit_ready work m" "length (pool_user pool) \<le> 191" "sv_alloc (re_E R)"
  shows "\<exists>msg m' d. submit_verus R work pool m = Some (True, m') \<and> opt_retries m' = opt_retries m \<and>
    length msg < JSON_SUBMIT_BUF_LEN \<and>
    (if sv_send (re_E R) msg
     then sent_lines m' = sent_lines m @ [msg] \<and>
       job_shares_count (ctx_job (stratum m')) = job_shares_count (ctx_job (stratum m)) + 2 \<and>
       shares m' = om_put (share_key (w_job_id work) (w_nonces work ! unat (w_submit_nonce_id work))) d (shares m) \<and>
       hl_job_nonce_id d = ucast (job_shares_count (ctx_job (stratum m)) + 1)
     else sent_lines m' = sent_lines m \<and> shares m' = shares m \<and>
       job_shares_count (ctx_job (stratum m')) = job_shares_count (ctx_job (stratum m)) + 1)"
proof -
  let ?k = "unat (w_submit_nonce_id work)"
  have w: "wf_work work" "?k < MAX_NONCES" "ctx_xnonce1_size (cn_ctx (conn_of m)) \<le> 32" "8 \<le> length (w_job_id work)"
    "length (w_job_id work) \<le> 127" "0 \<le> cur_pooln m" "nat (cur_pooln m) < length (pools m)" "length (w_nonces work) = MAX_NONCES"
    using assms(1) by (simp_all add: submit_ready_def conn_of_def wf_work_def)
  define msg where "msg = share_message (pool_user pool) work (cn_ctx (conn_of m))"
  obtain w' c' where s: "length msg < JSON_SUBMIT_BUF_LEN"
    "verus_stratum_submit (re_E R) (re_tv R) (pool_user pool) work (conn_of m) = Some (sv_send (re_E R) msg, w', c')"
    "cn_sent c' = (if sv_send (re_E R) msg then sent_lines m @ [msg] else sent_lines m)"
    "job_shares_count (ctx_job (cn_ctx c')) = job_shares_count (ctx_job (stratum m)) + (if sv_send (re_E R) msg then 1 else 0)"
    "w' = work\<lparr>w_data := (w_data work)[30 := w_nonces work ! ?k]\<rparr>"
    using submit_sends [of work "conn_of m" "re_E R" "pool_user pool" "re_tv R", OF w(1-3) assms(3) w(4,5) assms(2)]
    unfolding msg_def [symmetric] by (auto simp: conn_of_def)
  define m2 where "m2 = put_conn c' m"
  have "wf_work w'" "unat (w_submit_nonce_id w') < MAX_NONCES" "0 \<le> cur_pooln m2" "nat (cur_pooln m2) < length (pools m2)"
    using w s(5) by (simp_all add: wf_work_def m2_def put_conn_def)
  then obtain d where d: "remember_share R w' (w_nonces work ! ?k) m2 =
      Some (om_put (share_key (w_job_id w') (w_nonces work ! ?k)) d (shares m2))"
    "hl_job_nonce_id d = ucast (job_shares_count (ctx_job (stratum m2)))"
    using remember_total [of w' m2] by blast
  have "submit_verus R work pool m = Some (True, m2\<lparr>shares := (if sv_send (re_E R) msg
      then om_put (share_key (w_job_id work) (w_nonces work ! ?k)) d (shares m) else shares m),
      stratum := upd_job (\<lambda>j. j\<lparr>job_shares_count := job_shares_count j + 1\<rparr>) (stratum m2)\<rparr>)"
    using s(2,5) w(2,8) d(1) by (simp add: submit_verus_def mem_simps m2_def put_conn_def)
  then show ?thesis
    using s(1,3,4) d(2)
    by (intro exI [of _ msg] exI [of _ "m2\<lparr>shares := (if sv_send (re_E R) msg
      then om_put (share_key (w_job_id work) (w_nonces work ! ?k)) d (shares m) else shares m),
      stratum := upd_job (\<lambda>j. j\<lparr>job_shares_count := job_shares_count j + 1\<rparr>) (stratum m2)\<rparr>"] exI [of _ d])
      (simp add: m2_def put_conn_def upd_job_def add.assoc)
qed

lemma submit_verus_total:
  assumes "submit_ready work m" "length (pool_user pool) \<le> 191"
  shows "\<exists>r. submit_verus R work pool m = Some r \<and> keeps work m r"
proof (cases "sv_alloc (re_E R)")
  case True
  then show ?thesis using submit_verus_spec [OF assms True] by (fastforce simp: keeps_def split: if_splits)
next
  case False
  have w: "wf_work work" "unat (w_submit_nonce_id work) < MAX_NONCES" "ctx_xnonce1_size (cn_ctx (conn_of m)) \<le> 32"
    using assms(1) by (simp_all add: submit_ready_def conn_of_def)
  obtain w' where v: "verus_stratum_submit (re_E R) (re_tv R) (pool_user pool) work (conn_of m) = Some (False, w', conn_of m)"
    "w_nonces w' = w_nonces work" using submit_no_memory [OF w False] by blast
  then show ?thesis
    using w by (simp add: submit_verus_def mem_simps wf_work_def keeps_def put_conn_def conn_of_def)
qed

lemma check_stale_total:
  assumes "submit_ready work m"
  shows "\<exists>b m'. check_stale work (uint (w_pooln work)) m = Some (b, m') \<and> submit_ready work m' \<and> opt_retries m' = opt_retries m \<and>
    sent_lines m' = sent_lines m \<and> stratum m' = stratum m"
proof -
  have w: "8 \<le> length (w_job_id work)" "8 \<le> length (w_job_id (g_work m))" "nat (uint (w_pooln work)) < length (pools m)"
    using assms by (simp_all add: submit_ready_def)
  then have u: "upd_pool (uint (w_pooln work)) f m =
      Some (m\<lparr>pools := (pools m)[nat (uint (w_pooln work)) := f (pools m ! nat (uint (w_pooln work)))]\<rparr>)" for f
    by (simp add: upd_pool_nth)
  have r: "submit_ready work (m\<lparr>pools := (pools m)[nat (uint (w_pooln work)) :=
      (pools m ! nat (uint (w_pooln work)))\<lparr>pool_stales_count := c\<rparr>]\<rparr>)" for c
    using assms by (auto simp: submit_ready_def list_all_length nth_list_update)
  then have r': "submit_ready work (m\<lparr>pools := (pools m)[nat (uint (w_pooln work)) :=
      (pools m ! nat (uint (w_pooln work)))\<lparr>pool_stales_count := c\<rparr>], check_stratum_jobs := True\<rparr>)" for c
    by (simp add: submit_ready_def)
  have "check_stale work (uint (w_pooln work)) m \<in> {Some (True, m), Some (False, m)} \<or>
    (\<exists>c b. check_stale work (uint (w_pooln work)) m = Some (True, m\<lparr>pools := (pools m)[nat (uint (w_pooln work)) :=
      (pools m ! nat (uint (w_pooln work)))\<lparr>pool_stales_count := c\<rparr>], check_stratum_jobs := b\<rparr>) \<and> (b \<longrightarrow> True)) \<or>
    (\<exists>c. check_stale work (uint (w_pooln work)) m = Some (True, m\<lparr>pools := (pools m)[nat (uint (w_pooln work)) :=
      (pools m ! nat (uint (w_pooln work)))\<lparr>pool_stales_count := c\<rparr>]\<rparr>))"
    using w by (auto simp: check_stale_def Let_def job_tail_def u mem_simps)
  then show ?thesis using assms r r' by (elim disjE exE) (auto simp: submit_ready_def)
qed

lemma get_blocktemplate_keeps:
  assumes "submit_ready work m" "get_blocktemplate R h m = (ok, h', m')"
  shows "submit_ready work m' \<and> opt_retries m' = opt_retries m \<and> sent_lines m' = sent_lines m"
  using assms
  by (auto simp: get_blocktemplate_def gbt_work_decode_def Let_def submit_ready_def split: if_splits prod.splits)

lemma keeps_from:
  "keeps work m1 r \<Longrightarrow> opt_retries m1 = opt_retries m \<Longrightarrow> sent_lines m1 = sent_lines m \<Longrightarrow> keeps work m r"
  by (simp add: keeps_def split_beta)

lemma submit_total:
  assumes "submit_ready work m"
  shows "\<exists>r. submit_upstream_work R work m = Some r \<and> keeps work m r"
proof -
  obtain pool where p: "rd_int (pools m) (uint (w_pooln work)) = Some pool" "length (pool_user pool) \<le> 191"
    using ready_pool [OF assms] by blast
  obtain st m1 where m1: "check_stale work (uint (w_pooln work)) m = Some (st, m1)" "submit_ready work m1" "opt_retries m1 = opt_retries m"
    "sent_lines m1 = sent_lines m" using check_stale_total [OF assms] by blast
  obtain solved m2 where m2: "(if \<not> have_stratum m1 \<and> \<not> st \<and> allow_gbt m1
      then let (ok, height, m) = get_blocktemplate R 0 m1 in (ok \<and> w_height work \<noteq> 0 \<and> w_height work < height, m)
      else (False, m1)) = (solved, m2)" by fastforce
  then have r2: "submit_ready work m2" "opt_retries m2 = opt_retries m" "sent_lines m2 = sent_lines m"
    using m1 get_blocktemplate_keeps [OF m1(2), of R 0] by (auto split: if_splits prod.splits)
  have d: "length (w_data work) = 48" "length (w_data (g_work m2)) = 48" using r2(1) by (simp_all add: submit_ready_def wf_work_def)
  then have "\<exists>st2. (if \<not> st \<and> opt_algo m2 = ALGO_ZR5 \<and> \<not> have_stratum m2
      then do { a \<leftarrow> rdn (w_data work) 1 17; b \<leftarrow> rdn (w_data (g_work m2)) 1 17; Some (a \<noteq> b) } else Some st) = Some st2"
    by (simp add: rdn_Some)
  then obtain st2 where s2: "(if \<not> st \<and> opt_algo m2 = ALGO_ZR5 \<and> \<not> have_stratum m2
      then do { a \<leftarrow> rdn (w_data work) 1 17; b \<leftarrow> rdn (w_data (g_work m2)) 1 17; Some (a \<noteq> b) } else Some st) = Some st2" by blast
  have k: "keeps work m (True, m2)" using r2 by (simp add: keeps_def)
  have e: "submit_upstream_work R work m = (if is_stratum pool \<and> ctx_is_equihash (stratum m) then submit_verus R work pool m
     else if solved then Some (True, m2) else if \<not> submit_old m2 \<and> st2 then Some (True, m2)
     else if is_stratum pool then submit_stratum R work pool m2 else submit_getwork R work m2)"
    using p(1) m1(1) m2 s2 by (simp add: submit_upstream_work_def cong: if_cong)
  show ?thesis
    unfolding e using k submit_verus_total [OF assms p(2), of R] submit_stratum_total [OF r2(1) p(2), of R]
      submit_getwork_total [OF r2(1), of R] keeps_from [OF _ r2(2,3)]
    by (cases "is_stratum pool \<and> ctx_is_equihash (stratum m)"; cases solved; cases "\<not> submit_old m2 \<and> st2"; cases "is_stratum pool")
      (simp_all, blast+)
qed

section \<open>A small session\<close>

definition small_replies :: "(jval, int) replies" where
  "small_replies = \<lparr>re_E = small_senv [], re_now = 100, re_tv = \<lparr>tv_sec = 100, tv_usec = 0\<rparr>, re_llround = word_of_int, re_rpc = (\<lambda>_. (None, 0))\<rparr>"

definition deaf_replies :: "(jval, int) replies" where
  "deaf_replies = small_replies\<lparr>re_E := (small_senv [])\<lparr>sv_send := (\<lambda>_. False)\<rparr>\<rparr>"

definition small_share :: "int work" where
  "small_share = (zero_work 0)\<lparr>w_job_id := ''0000000 j1''\<rparr>"

definition session :: "int miner" where
  "session = two_pools\<lparr>stratum := small_ctx\<lparr>ctx_is_equihash := False\<rparr>, g_work := small_share\<rparr>"

lemma session_ready: "submit_ready small_share session"
proof -
  have "wf_work small_share" using wf_zero_work [of "0 :: int"] by (simp add: small_share_def wf_work_def)
  then show ?thesis
    by (simp add: submit_ready_def wf_work_def session_def two_pools_def small_share_def zero_work_def MAX_NONCES_def pool_a_def pool_b_def
        zero_pool_def small_ctx_def list_all_iff)
qed

section \<open>Properties\<close>



text \<open>C29: the workio thread does not retry forever. When the number of retries is limited, submitting a share returns
  after at most one more attempt than there are retries, and only gives up after all of them, whatever the pool answers and
  whatever other threads do that keeps the share submittable and the limit.\<close>

theorem submit_retries_end:
  assumes "submit_ready work m" "0 \<le> opt_retries m"
    "\<And>i m. submit_ready work m \<Longrightarrow> submit_ready work (other i m) \<and> opt_retries (other i m) = opt_retries m"
  shows "\<exists>ok n m'. workio_submit_work Rs other work pooln m = Some (ok, n, m') \<and> 1 \<le> n \<and> int n \<le> opt_retries m + 1 \<and>
    (\<not> ok \<longrightarrow> int n = opt_retries m + 1)"
proof -
  have "\<exists>ok n m'. submit_loop Rs other work pooln k m = Some (ok, n, m') \<and> k < n \<and> int n \<le> opt_retries m + 1 \<and>
    (\<not> ok \<longrightarrow> int n = opt_retries m + 1)" if "submit_ready work m" "int k \<le> opt_retries m" for k m
    using that
  proof (induction "nat (opt_retries m) - k" arbitrary: k m)
    case (0 k m)
    obtain ok m1 where s: "submit_upstream_work (Rs k) work m = Some (ok, m1)" "keeps work m (ok, m1)"
      using submit_total [OF 0(2)] by fastforce
    then show ?case
      using 0 assms(3) [of m1 k] by (subst submit_loop.simps) (auto simp: Let_def keeps_def)
  next
    case (Suc x k m)
    obtain ok m1 where s: "submit_upstream_work (Rs k) work m = Some (ok, m1)" "keeps work m (ok, m1)"
      using submit_total [OF Suc(3)] by fastforce
    show ?case
    proof (cases ok)
      case True
      then show ?thesis using s Suc(4) by (subst submit_loop.simps) (auto simp: Let_def)
    next
      case False
      then have o: "submit_ready work (other k m1)" "opt_retries (other k m1) = opt_retries m"
        using s(2) assms(3) [of m1 k] by (simp_all add: keeps_def)
      have "nat (opt_retries (other k m1)) - (k + 1) = x" "int (k + 1) \<le> opt_retries (other k m1)" using Suc(2) o(2) by simp_all
      then obtain ok' n m' where "submit_loop Rs other work pooln (k + 1) (other k m1) = Some (ok', n, m')" "k + 1 < n"
        "int n \<le> opt_retries m + 1" "\<not> ok' \<longrightarrow> int n = opt_retries m + 1"
        using Suc(1) [of "other k m1" "k + 1"] o by metis
      then show ?thesis
        using s(1) False Suc(2,4) o(2) by (subst submit_loop.simps) (auto simp: Let_def)
    qed
  qed
  from this [OF assms(1), of 0] show ?thesis using assms(2) unfolding workio_submit_work_def by (auto simp: Suc_le_eq)
qed

theorem submit_retries_end_witness:
  "\<exists>ok n m'. workio_submit_work (\<lambda>_. deaf_replies) (\<lambda>_ m. m) small_share 0 session = Some (ok, n, m') \<and> 1 \<le> n \<and>
    int n \<le> opt_retries session + 1 \<and> (\<not> ok \<longrightarrow> int n = opt_retries session + 1)"
  by (rule submit_retries_end [OF session_ready]) (simp_all add: session_def two_pools_def)



section \<open>The numbers of Verus shares\<close>

text \<open>The message carries the number of shares plus ten as its id; the record of the share in the log is made after
  \<open>verus_stratum_submit\<close> has counted it and so has the next number, and \<open>submit_upstream_work\<close> counts the share once more. The
  answer is looked up under the number of the message: that is never the number of a record, because shares have even
  numbers and records odd ones.\<close>

lemma find_odd:
  assumes "\<forall>(k, d) \<in> set ts. odd (unat (hl_job_nonce_id d))" "even n"
  shows "hashlog_get_sharediff ts j (int n) x = x"
proof -
  have no: "uint (hl_job_nonce_id d) \<noteq> int n" if "(k, d) \<in> set ts" for k d
  proof
    assume "uint (hl_job_nonce_id d) = int n"
    then have "unat (hl_job_nonce_id d) = n" by (metis nat_int nat_uint_eq)
    then show False using assms that by auto
  qed
  have "find (\<lambda>(k, d). (push_bit 32 0xffffffff AND k) = job_prefix j \<and> uint (hl_job_nonce_id d) = int n \<and> hl_tm_sent d \<noteq> 0)
      (rev ts) = None"
    unfolding find_None_iff using no by auto
  then show ?thesis by (simp only: hashlog_get_sharediff_def Let_def option.case)
qed

lemma odd_next:
  assumes "even (unat (n :: u32))"
  shows "odd (unat (ucast (n + 1) :: u8))" "even (unat (n + 2))"
proof -
  have "unat (n + 1) = (unat n + 1) mod 2 ^ 32" "unat (n + 2) = (unat n + 2) mod 2 ^ 32" by (simp_all add: unat_word_ariths)
  moreover have "unat (ucast (n + 1) :: u8) = unat (n + 1) mod 2 ^ 8" by (simp add: unsigned_ucast_eq take_bit_eq_mod)
  ultimately show "odd (unat (ucast (n + 1) :: u8))" "even (unat (n + 2))"
    using assms by (simp_all add: even_iff_mod_2_eq_zero odd_iff_mod_2_eq_one mod_mod_cancel) presburger+
qed

lemma verus_share_not_found:
  assumes "submit_ready work m" "length (pool_user pool) \<le> 191" "sv_alloc (re_E R)" "even (unat (job_shares_count (ctx_job (stratum m))))"
    "\<forall>(k, d) \<in> set (shares m). odd (unat (hl_job_nonce_id d))"
  shows "\<exists>m'. submit_verus R work pool m = Some (True, m') \<and>
    (sent_lines m' \<noteq> sent_lines m \<longrightarrow> even (unat (job_shares_count (ctx_job (stratum m'))))) \<and>
    (\<forall>n. even n \<longrightarrow> hashlog_get_sharediff (shares m') j (int n) x = x)"
proof -
  let ?n = "job_shares_count (ctx_job (stratum m))"
  obtain msg m' d where s: "submit_verus R work pool m = Some (True, m')"
    "if sv_send (re_E R) msg
     then sent_lines m' = sent_lines m @ [msg] \<and> job_shares_count (ctx_job (stratum m')) = ?n + 2 \<and>
       shares m' = om_put (share_key (w_job_id work) (w_nonces work ! unat (w_submit_nonce_id work))) d (shares m) \<and>
       hl_job_nonce_id d = ucast (?n + 1)
     else sent_lines m' = sent_lines m \<and> shares m' = shares m \<and> job_shares_count (ctx_job (stratum m')) = ?n + 1"
    using submit_verus_spec [OF assms(1-3)] by blast
  have "\<forall>(k, d) \<in> set (shares m'). odd (unat (hl_job_nonce_id d))"
  proof (cases "sv_send (re_E R) msg")
    case True
    then have "set (shares m') \<subseteq> insert (share_key (w_job_id work) (w_nonces work ! unat (w_submit_nonce_id work)), d) (set (shares m))"
      "odd (unat (hl_job_nonce_id d))"
      using s(2) om_put_set [of "share_key (w_job_id work) (w_nonces work ! unat (w_submit_nonce_id work))" d "shares m"]
        odd_next(1) [OF assms(4)] by simp_all
    then show ?thesis using assms(5) by fastforce
  qed (use s(2) assms(5) in simp)
  then show ?thesis using s odd_next(2) [OF assms(4)] find_odd by (intro exI [of _ m']) (auto split: if_splits)
qed

end
