(* ===== verification/Getwork.thy ===== *)
theory Getwork
  imports Submit
begin

text \<open>The getwork protocol of \<open>ccminer.cpp\<close>: decoding a work, the information requests that go with it, the request
  loop of the workio thread and that thread itself, which serves the commands of the miner threads. What the server
  answers is the record \<open>replies\<close>; other threads may change the globals while an answer is waited for.\<close>

section \<open>Decoding\<close>

definition jobj_binary :: "('j, 'f) jansson \<Rightarrow> 'j option \<Rightarrow> string \<Rightarrow> bytes \<Rightarrow> nat \<Rightarrow> (bool \<times> bytes) option" where
  "jobj_binary J obj key buf buflen = (case json_object_get J obj key of
     None \<Rightarrow> Some (False, buf)
   | Some v \<Rightarrow> (case json_string_value J (Some v) of
       None \<Rightarrow> Some (False, buf)
     | Some hexstr \<Rightarrow> hex2bin buf hexstr buflen))"

text \<open>The same into an array of words.\<close>

definition jobj_words :: "('j, 'f) jansson \<Rightarrow> 'j option \<Rightarrow> string \<Rightarrow> u32 list \<Rightarrow> nat \<Rightarrow> (bool \<times> u32 list) option" where
  "jobj_words J obj key ws buflen = do {
     (ok, b) \<leftarrow> jobj_binary J obj key (u32s_to_bytes ws) buflen;
     Some (ok, bytes_to_u32s b) }"

text \<open>\<open>data_size\<close> and \<open>adata_sz\<close>.\<close>

definition data_sizes :: "int \<Rightarrow> nat \<times> nat" where
  "data_sizes algo =
     (if algo = ALGO_DECRED then (192, 45)
      else if algo = ALGO_PHI2 then (144, 36)
      else if algo = ALGO_NEOSCRYPT \<or> algo = ALGO_ZR5 then (80, 20)
      else (128, 32))"

text \<open>The header, of the usual size or of the size that was sent. The length is an \<open>int\<close> that is compared with a
  \<open>size_t\<close>.\<close>

definition decode_data :: "('j, 'f) jansson \<Rightarrow> 'j option \<Rightarrow> int \<Rightarrow> u32 list \<Rightarrow> (bool \<times> u32 list) option" where
  "decode_data J val algo data = do {
     (ok, data) \<leftarrow> jobj_words J val ''data'' data (fst (data_sizes algo));
     if ok then Some (True, data)
     else do {
       len \<leftarrow> (case json_object_get J val ''data'' of
           None \<Rightarrow> Some 0
         | Some v \<Rightarrow> do { s \<leftarrow> json_string_value J (Some v); Some (int32 (int (length s))) });
       if len = 0 \<or> (word_of_int len :: u64) > of_nat (4 * 48 * 2) then Some (False, data)
       else jobj_words J val ''data'' data (nat (len div 2)) } }"

text \<open>\<open>for (i = 0; i < n; i++) xs[i] = le32dec(xs + i)\<close>.\<close>

fun le32dec_loop :: "nat \<Rightarrow> nat \<Rightarrow> u32 list \<Rightarrow> u32 list option" where
  "le32dec_loop i 0 xs = Some xs"
| "le32dec_loop i (Suc n) xs = do {
     w \<leftarrow> rd xs i;
     v \<leftarrow> le32dec (to_le 4 w);
     xs \<leftarrow> wr xs i v;
     le32dec_loop (i + 1) n xs }"

text \<open>The transactions of a proof of knowledge block: \<open>use_pok\<close>, \<open>tx_count\<close> and \<open>txs\<close>.\<close>

fun pok_loop :: "('j, 'f) jansson \<Rightarrow> 'j option list \<Rightarrow> u32 \<Rightarrow> (bytes \<times> u32) list \<Rightarrow> (bool \<times> u32 \<times> (bytes \<times> u32) list) option" where
  "pok_loop J [] n txs = Some (True, n, txs)"
| "pok_loop J (p # ps) n txs = do {
     let tx = unat n mod POK_MAX_TXS;
     hexstr \<leftarrow> json_string_value J p;
     let txlen = length hexstr div 2;
     let n = n + 1;
     if unat n > POK_MAX_TXS \<or> txlen \<ge> POK_MAX_TX_SZ then Some (False, 0, txs)
     else do {
       (d, _) \<leftarrow> rd txs tx;
       (_, d) \<leftarrow> hex2bin d hexstr (min txlen POK_MAX_TX_SZ);
       txs \<leftarrow> wr txs tx (d, of_nat txlen);
       pok_loop J ps n txs } }"

definition POK_BOOL_MASK :: u32 where "POK_BOOL_MASK = 0x00008000"

definition decode_pok :: "('j, 'f) jansson \<Rightarrow> 'j option \<Rightarrow> int \<Rightarrow> 'f work \<Rightarrow> (bool \<times> 'f work) option" where
  "decode_pok J val algo work = do {
     let work = work\<lparr>w_tx_count := 0\<rparr>;
     d0 \<leftarrow> rd (w_data work) 0;
     if algo = ALGO_ZR5 \<and> d0 AND POK_BOOL_MASK \<noteq> 0 then do {
       let txs = json_object_get J val ''txs'';
       if txs \<noteq> None \<and> json_is_array J txs then do {
         (pok, n, t) \<leftarrow> pok_loop J (map (json_array_get J txs) [0..<json_array_size J txs]) 0 (w_txs work);
         Some (pok, work\<lparr>w_tx_count := n, w_txs := t\<rparr>) }
       else Some (True, work) }
     else Some (False, work) }"

text \<open>Votes, extra data and height of a Decred work.\<close>

definition decode_decred :: "(nat \<Rightarrow> u32) \<Rightarrow> 'f work \<Rightarrow> 'f miner \<Rightarrow> ('f work \<times> 'f miner) option" where
  "decode_decred rand work m = do {
     d \<leftarrow> rd (w_data work) 25;
     let vote = (ucast (push_bit 1 (ucast (opt_vote m) :: u32) OR (ucast (ucast d :: u16) AND 1)) :: u16);
     data \<leftarrow> wr (w_data work) 25 (push_bit 16 (drop_bit 16 d) OR ucast vote);
     data \<leftarrow> wr data 36 (rand 0 * 4);
     data \<leftarrow> wr data 37 (push_bit 8 (rand 1 * 4));
     h \<leftarrow> rd data 32;
     let m = (if \<not> have_longpoll m \<and> ucast h > net_blocks m + 1 then m\<lparr>net_blocks := ucast (h - 1)\<rparr> else m);
     t \<leftarrow> rd data 34;
     Some (work\<lparr>w_data := data, w_height := h, w_job_id := cbin2hex (to_le 4 t)\<rparr>, m) }"

text \<open>Roots of the algorithm phi2, and the network difficulty when the server does not tell it.\<close>

definition decode_network :: "('j, 'f) replies \<Rightarrow> 'f work \<Rightarrow> 'f miner \<Rightarrow> 'f miner option" where
  "decode_network R work m = do {
     let F = re_F R;
     m \<leftarrow> (if opt_algo m = ALGO_PHI2 then do {
         r \<leftarrow> rdn (w_data work) 20 16;
         Some (if \<exists>x \<in> set r. x \<noteq> 0 then m\<lparr>use_roots := True\<rparr> else m) }
       else Some m);
     if (opt_showdiff m \<or> f_lt F (f_lit F 0 0) (opt_max_diff m)) \<and> \<not> allow_mininginfo m \<and> opt_algo m = ALGO_EQUIHASH
     then do { d \<leftarrow> verus_network_diff (re_E R) work; Some (m\<lparr>net_diff := d\<rparr>) }
     else Some m }"

text \<open>What follows the header and the target.\<close>

definition decode_rest :: "('j, 'f) replies \<Rightarrow> (nat \<Rightarrow> u32) \<Rightarrow> 'j option \<Rightarrow> 'f work \<Rightarrow> 'f miner \<Rightarrow> ('f work \<times> 'f miner) option" where
  "decode_rest R rand val work m = do {
     let J = re_J R;
     let algo = opt_algo m;
     v \<leftarrow> (if algo = ALGO_HEAVY then do {
         (ok, b) \<leftarrow> jobj_binary J val ''maxvote'' (to_le 4 (w_maxvote work)) 4;
         Some (if ok then of_le b else 2048) }
       else Some 0);
     data \<leftarrow> le32dec_loop 0 (snd (data_sizes algo)) (w_data work);
     target \<leftarrow> le32dec_loop 0 8 (w_target work);
     let work = work\<lparr>w_maxvote := v, w_data := data, w_target := target\<rparr>;
     m \<leftarrow> decode_network R work m;
     d \<leftarrow> target_to_diff (re_F R) (w_target work);
     let work = work\<lparr>w_targetdiff := d\<rparr>;
     (pok, work) \<leftarrow> decode_pok J val algo work;
     let m = m\<lparr>stratum_diff := d, use_pok := pok\<rparr>;
     t \<leftarrow> rd (w_data work) 17;
     let work = work\<lparr>w_job_id := cbin2hex (to_le 4 t)\<rparr>;
     if algo = ALGO_DECRED then decode_decred rand work m else Some (work, m) }"

definition work_decode :: "('j, 'f) replies \<Rightarrow> (nat \<Rightarrow> u32) \<Rightarrow> 'j option \<Rightarrow> 'f work \<Rightarrow> 'f miner \<Rightarrow> (bool \<times> 'f work \<times> 'f miner) option" where
  "work_decode R rand val work m = do {
     (ok, data) \<leftarrow> decode_data (re_J R) val (opt_algo m) (w_data work);
     let work = work\<lparr>w_data := data\<rparr>;
     if \<not> ok then Some (False, work, m)
     else do {
       (ok, target) \<leftarrow> jobj_words (re_J R) val ''target'' (w_target work) 32;
       let work = work\<lparr>w_target := target\<rparr>;
       if \<not> ok then Some (False, work, m)
       else do {
         (work, m) \<leftarrow> decode_rest R rand val work m;
         Some (True, work, m) } } }"

section \<open>Requests\<close>

definition info_req :: string where
  "info_req = ''{\"method\": \"getmininginfo\", \"params\": [], \"id\":8}'' @ [CHR 0x0D, CHR 0x0A]"

definition json_rpc_getwork :: string where
  "json_rpc_getwork = ''{\"method\":\"getwork\",\"params\":[],\"id\":0}'' @ [CHR 0x0D, CHR 0x0A]"

definition read_mininginfo :: "('j, 'f) replies \<Rightarrow> 'j option \<Rightarrow> 'f miner \<Rightarrow> 'f miner" where
  "read_mininginfo R res m =
     (let J = re_J R; F = re_F R;
          key = json_object_get J res ''difficulty'';
          key = (if key \<noteq> None \<and> json_is_object J key then json_object_get J key ''proof-of-work'' else key);
          m = (if json_object_get J res ''difficulty'' \<noteq> None \<and> json_is_real J key then m\<lparr>net_diff := json_real_value J key\<rparr> else m);
          key = json_object_get J res ''networkhashps'';
          m = (if key \<noteq> None \<and> json_is_integer J key then m\<lparr>net_hashrate := word_of_int (json_integer_value J key)\<rparr> else m);
          key = json_object_get J res ''netmhashps'';
          m = (if key \<noteq> None \<and> json_is_real J key
               then m\<lparr>net_hashrate := f_to_u64 F (f_mul F (json_real_value J key) (f_lit F 1 6))\<rparr> else m);
          key = json_object_get J res ''blocks''
      in if key \<noteq> None \<and> json_is_integer J key then m\<lparr>net_blocks := word_of_int (json_integer_value J key)\<rparr> else m)"

definition get_mininginfo :: "('j, 'f) replies \<Rightarrow> 'f miner \<Rightarrow> bool \<times> 'f miner" where
  "get_mininginfo R m =
     (if have_stratum m \<or> have_longpoll m \<or> \<not> allow_mininginfo m then (False, m)
      else let (val, curl_err) = re_rpc R info_req in
        if val = None \<and> curl_err = - 1 then (False, m\<lparr>allow_mininginfo := False\<rparr>)
        else let res = json_object_get (re_J R) val ''result'' in
          (True, if res \<noteq> None then read_mininginfo R res m else m))"

text \<open>\<open>other\<close> is what the other threads do to the globals during the request.\<close>

definition get_upstream_work ::
  "('j, 'f) replies \<Rightarrow> ('f miner \<Rightarrow> 'f miner) \<Rightarrow> (nat \<Rightarrow> u32) \<Rightarrow> 'f work \<Rightarrow> 'f miner \<Rightarrow> (bool \<times> 'f work \<times> 'f miner) option" where
  "get_upstream_work R other rand work m = do {
     pool \<leftarrow> rd_int (pools m) (uint (w_pooln work));
     let val = fst (re_rpc R json_rpc_getwork);
     let m = other m;
     if have_stratum m \<or> uint (w_pooln work) \<noteq> cur_pooln m then Some (False, work, m)
     else if val = None then Some (False, work, m)
     else do {
       (rc, work, m) \<leftarrow> work_decode R rand (json_object_get (re_J R) val ''result'') work m;
       let (_, m) = get_mininginfo R m;
       let (_, h, m) = get_blocktemplate R (w_height work) m;
       Some (rc, work\<lparr>w_height := h\<rparr>, m) } }"

section \<open>The workio thread\<close>

text \<open>What one command meets: the answers to its attempts, what other threads do during attempt \<open>i\<close> (at \<open>2 * i\<close>) and
  until the check after it (at \<open>2 * i + 1\<close>), random numbers, and whether allocation and the queue of the
  requesting thread succeed.\<close>

record ('j, 'f) io_env =
  io_R :: "nat \<Rightarrow> ('j, 'f) replies"
  io_other :: "nat \<Rightarrow> 'f miner \<Rightarrow> 'f miner"
  io_rand :: "nat \<Rightarrow> nat \<Rightarrow> u32"
  io_alloc :: bool
  io_push :: bool
  io_A :: "('j, 'f) answers"

datatype get_end = Got | Pool_changed | Gave_up

partial_function (option) get_loop ::
  "('j, 'f) io_env \<Rightarrow> 'f work \<Rightarrow> nat \<Rightarrow> 'f miner \<Rightarrow> (get_end \<times> nat \<times> 'f work \<times> 'f miner) option" where
  "get_loop e work failures m = do {
     (ok, work, m) \<leftarrow> get_upstream_work (io_R e failures) (io_other e (2 * failures)) (io_rand e failures) work m;
     let m = io_other e (2 * failures + 1) m;
     if ok then Some (Got, failures + 1, work, m)
     else if uint (w_pooln work) \<noteq> cur_pooln m then Some (Pool_changed, failures + 1, work, m)
     else if opt_retries m \<ge> 0 \<and> int (failures + 1) > opt_retries m then Some (Gave_up, failures + 1, work, m)
     else get_loop e work (failures + 1) m }"

definition push_thr :: "('j, 'f) io_env \<Rightarrow> int \<Rightarrow> 'f work option \<Rightarrow> 'f miner \<Rightarrow> 'f miner" where
  "push_thr e thr x m = (if io_push e then m\<lparr>thr_q := thr_q m @ [(thr, x)]\<rparr> else m)"

text \<open>The work is zero-initialised; the value is the result and the number of attempts.\<close>

definition workio_get_work :: "('j, 'f) io_env \<Rightarrow> int \<Rightarrow> int \<Rightarrow> 'f miner \<Rightarrow> (bool \<times> nat \<times> 'f miner) option" where
  "workio_get_work e thr pooln m =
     (if \<not> io_alloc e then Some (False, 0, m)
      else do {
        (r, n, work, m) \<leftarrow> get_loop e ((zero_work (f_lit (re_F (io_R e 0)) 0 0))\<lparr>w_pooln := word_of_int pooln\<rparr>) 0 m;
        case r of
          Got \<Rightarrow> Some (True, n, push_thr e thr (Some work) m)
        | Pool_changed \<Rightarrow> Some (True, n, push_thr e thr None m)
        | Gave_up \<Rightarrow> Some (False, n, m) })"

text \<open>\<open>wc->thr\<close>; \<open>workio_abort\<close> leaves it null.\<close>

fun wc_thr :: "'f workio_cmd \<Rightarrow> int option" where
  "wc_thr (WC_GET_WORK thr pooln) = Some thr"
| "wc_thr (WC_SUBMIT_WORK thr work pooln) = Some thr"
| "wc_thr WC_ABORT = None"

text \<open>One command.\<close>

definition workio_serve :: "('j, 'f) io_env \<Rightarrow> 'f workio_cmd \<Rightarrow> 'f miner \<Rightarrow> (bool \<times> 'f miner) option" where
  "workio_serve e wc m = do {
     (ok, m) \<leftarrow> (case wc of
         WC_GET_WORK thr pooln \<Rightarrow> do { (ok, _, m) \<leftarrow> workio_get_work e thr pooln m; Some (ok, m) }
       | WC_SUBMIT_WORK thr work pooln \<Rightarrow> do { (ok, _, m) \<leftarrow> workio_submit_work (io_R e) (io_other e) work pooln m; Some (ok, m) }
       | WC_ABORT \<Rightarrow> Some (False, m));
     if \<not> ok \<and> num_pools m > 1 \<and> opt_pool_failover m then do {
       (ok, m) \<leftarrow> pool_switch_next (io_A e) m;
       thr \<leftarrow> wc_thr wc;
       Some (ok, push_thr e thr None m) }
     else Some (ok, m) }"

text \<open>The thread, on the commands it pops; the result is whether it still waits for another one. It leaves its loop
  when a command fails, when a null pointer arrives and when the program ends.\<close>

fun workio_thread :: "(('j, 'f) io_env \<times> 'f workio_cmd option) list \<Rightarrow> 'f miner \<Rightarrow> (bool \<times> 'f miner) option" where
  "workio_thread [] m = Some (True, m)"
| "workio_thread ((e, wc) # r) m =
     (if abort_flag m then Some (False, m)
      else case wc of
        None \<Rightarrow> Some (False, m)
      | Some c \<Rightarrow> do {
          (ok, m) \<leftarrow> workio_serve e c m;
          if ok then workio_thread r m else Some (False, m) })"

section \<open>Decoding stays in its arrays\<close>

lemma wf_work_updates:
  "wf_work (w\<lparr>w_maxvote := a\<rparr>) = wf_work w" "wf_work (w\<lparr>w_targetdiff := d\<rparr>) = wf_work w" "wf_work (w\<lparr>w_job_id := s\<rparr>) = wf_work w"
  "wf_work (w\<lparr>w_height := h\<rparr>) = wf_work w" "wf_work (w\<lparr>w_tx_count := n\<rparr>) = wf_work w" "wf_work (w\<lparr>w_pooln := i\<rparr>) = wf_work w"
  "wf_work w \<Longrightarrow> wf_work (w\<lparr>w_data := data\<rparr>) \<longleftrightarrow> length data = 48"
  "wf_work w \<Longrightarrow> wf_work (w\<lparr>w_target := t\<rparr>) \<longleftrightarrow> length t = 8"
  by (auto simp: wf_work_def)

lemma wf_work_lengths: "wf_work w \<Longrightarrow> length (w_data w) = 48" "wf_work w \<Longrightarrow> length (w_target w) = 8"
  by (simp_all add: wf_work_def)

text \<open>Of the answer the code relies on \<open>data\<close> and the transactions being strings when they are there.\<close>

definition text_fields :: "('j, 'f) jansson \<Rightarrow> 'j option \<Rightarrow> bool" where
  "text_fields J val \<longleftrightarrow>
     (json_object_get J val ''data'' \<noteq> None \<longrightarrow> json_string_value J (json_object_get J val ''data'') \<noteq> None) \<and>
     (\<forall>i < json_array_size J (json_object_get J val ''txs'').
        json_string_value J (json_array_get J (json_object_get J val ''txs'') i) \<noteq> None)"

lemma jobj_binary_total:
  "n \<le> length buf \<Longrightarrow> returns (jobj_binary J obj key buf n) (\<lambda>(ok, buf'). length buf' = length buf)"
  unfolding jobj_binary_def by (intro rets) (auto intro: hex2bin_total)

lemma returns_jobj_binary [rets]:
  "n \<le> length buf \<Longrightarrow> (\<And>ok b. length b = length buf \<Longrightarrow> P (ok, b)) \<Longrightarrow> returns (jobj_binary J obj key buf n) P"
  by (rule returns_weaken [OF jobj_binary_total]) auto

lemma jobj_words_total:
  assumes "n \<le> 4 * length ws"
  shows "returns (jobj_words J obj key ws n) (\<lambda>(ok, ws'). length ws' = length ws)"
proof -
  have "returns (jobj_binary J obj key (u32s_to_bytes ws) n) (\<lambda>(ok, b). length b = 4 * length ws)"
    using jobj_binary_total [of n "u32s_to_bytes ws" J obj key] assms by simp
  then show ?thesis
    unfolding jobj_words_def by (auto elim!: returnsE simp: length_bytes_to_u32s returns_def)
qed

lemma returns_jobj_words [rets]:
  "n \<le> 4 * length ws \<Longrightarrow> (\<And>ok ws'. length ws' = length ws \<Longrightarrow> P (ok, ws')) \<Longrightarrow> returns (jobj_words J obj key ws n) P"
  by (rule returns_weaken [OF jobj_words_total]) auto

lemma data_sizes_fit: "fst (data_sizes algo) \<le> 192" "snd (data_sizes algo) \<le> 48"
  by (simp_all add: data_sizes_def)

lemma int_below_size:
  assumes "(word_of_int (int32 x) :: u64) \<le> of_nat k" "k < 2 ^ 31"
  shows "0 \<le> int32 x" "int32 x \<le> int k"
proof -
  have b: "- (2 ^ 31) \<le> int32 x" "int32 x < 2 ^ 31"
    unfolding int32_def using sint_greater_eq [of "word_of_int x :: u32"] sint_less [of "word_of_int x :: u32"] by simp_all
  have "int32 x mod 2 ^ 64 \<le> int k"
    using assms by (simp add: word_le_def uint_word_of_int unsigned_of_nat take_bit_nat_eq_self)
  moreover have "int32 x mod 2 ^ 64 = (if int32 x < 0 then int32 x + 2 ^ 64 else int32 x)"
    using b mod_pos_pos_trivial [of "int32 x + 2 ^ 64" "2 ^ 64"] by (auto simp: mod_pos_pos_trivial)
  ultimately show "0 \<le> int32 x" "int32 x \<le> int k" using b assms(2) by (auto split: if_splits)
qed

lemma decode_data_total:
  assumes "length data = 48" "text_fields J val"
  shows "returns (decode_data J val algo data) (\<lambda>(ok, data'). length data' = 48)"
proof -
  have 1: "returns (jobj_words J val ''data'' data (fst (data_sizes algo))) (\<lambda>(ok, d). length d = 48)"
    using jobj_words_total [of "fst (data_sizes algo)" data] data_sizes_fit(1) [of algo] assms(1) by simp
  have 2: "returns (jobj_words J val ''data'' d (nat (int32 x div 2))) (\<lambda>(ok, d). length d = 48)"
    if "length d = 48" "\<not> (int32 x = 0 \<or> (word_of_int (int32 x) :: u64) > of_nat (4 * 48 * 2))" for d :: "u32 list" and x
  proof -
    have "0 \<le> int32 x" "int32 x \<le> int (4 * 48 * 2)" using int_below_size [of x "4 * 48 * 2"] that(2) by (auto simp: not_less)
    then have "nat (int32 x div 2) \<le> 4 * length d" using that(1) by auto
    then show ?thesis using jobj_words_total [of "nat (int32 x div 2)" d J val "''data''"] that(1) by simp
  qed
  have z: "returns (jobj_words J val ''data'' d 0) (\<lambda>(ok, d). length d = 48)" if "length d = 48" for d
    using jobj_words_total [of 0 d] that by simp
  show ?thesis
    unfolding decode_data_def
  proof (rule returns_bind, rule returns_weaken [OF 1], clarify)
    fix ok and d :: "u32 list" assume d: "length d = 48"
    show "returns (if ok then Some (True, d) else do {
       len \<leftarrow> (case json_object_get J val ''data'' of
           None \<Rightarrow> Some 0
         | Some v \<Rightarrow> do { s \<leftarrow> json_string_value J (Some v); Some (int32 (int (length s))) });
       if len = 0 \<or> (word_of_int len :: u64) > of_nat (4 * 48 * 2) then Some (False, d)
       else jobj_words J val ''data'' d (nat (len div 2)) }) (\<lambda>(ok, data'). length data' = 48)"
      using assms(2) d 2 [OF d]
      by (cases "json_object_get J val ''data''") (auto simp: text_fields_def intro!: rets)
  qed
qed

lemma returns_decode_data [rets]:
  "length data = 48 \<Longrightarrow> text_fields J val \<Longrightarrow> (\<And>ok d. length d = 48 \<Longrightarrow> P (ok, d)) \<Longrightarrow> returns (decode_data J val algo data) P"
  by (rule returns_weaken [OF decode_data_total]) auto

lemma le32dec_to_le: "le32dec (to_le 4 w) = Some w"
proof -
  obtain a b c d where e: "to_le 4 w = [a, b, c, d]" by (rule to_le_4_cases)
  then show ?thesis using le32dec_bytes [of a b c d "[]"] of_le_4 [of w] by (simp only: e)
qed

text \<open>On the supported targets the words are in order already.\<close>

lemma le32dec_loop_id: "i + n \<le> length xs \<Longrightarrow> le32dec_loop i n xs = Some xs"
  by (induction n arbitrary: i) (simp_all add: mem_simps le32dec_to_le)

lemma returns_le32dec_loop [rets]: "i + n \<le> length xs \<Longrightarrow> P xs \<Longrightarrow> returns (le32dec_loop i n xs) P"
  by (simp add: le32dec_loop_id returns_def)

lemma pok_loop_total:
  assumes "list_all (\<lambda>p. json_string_value J p \<noteq> None) ps" "length txs = POK_MAX_TXS"
    "list_all (\<lambda>t. length (fst t) = POK_MAX_TX_SZ) txs"
  shows "returns (pok_loop J ps n txs) (\<lambda>(pok, n', txs'). length txs' = POK_MAX_TXS \<and>
    list_all (\<lambda>t. length (fst t) = POK_MAX_TX_SZ) txs' \<and> unat n' \<le> max (unat n) POK_MAX_TXS)"
  using assms
proof (induction ps arbitrary: n txs)
  case Nil
  then show ?case by (simp add: returns_def)
next
  case (Cons p ps)
  obtain s where s: "json_string_value J p = Some s" using Cons.prems(1) by auto
  let ?k = "unat n mod POK_MAX_TXS" and ?l = "length s div 2"
  show ?case
  proof (cases "unat (n + 1) > POK_MAX_TXS \<or> ?l \<ge> POK_MAX_TX_SZ")
    case True
    then show ?thesis using s Cons.prems(2,3) by (simp add: returns_def Let_def)
  next
    case False
    have k: "?k < length txs" using Cons.prems(2) by (simp add: POK_MAX_TXS_def)
    obtain d0 l0 where t: "txs ! ?k = (d0, l0)" by fastforce
    have "length (fst (txs ! ?k)) = POK_MAX_TX_SZ" using Cons.prems(3) k unfolding list_all_length by blast
    then have "length d0 = POK_MAX_TX_SZ" using t by simp
    then obtain r d where d: "hex2bin d0 s ?l = Some (r, d)" "length d = POK_MAX_TX_SZ"
      using hex2bin_total [of ?l d0 s] False by (auto elim!: returnsE)
    have "list_all (\<lambda>t. length (fst t) = POK_MAX_TX_SZ) (txs[?k := (d, of_nat ?l)])"
      using Cons.prems(3) d(2) k by (simp add: list_all_length nth_list_update)
    then have "returns (pok_loop J ps (n + 1) (txs[?k := (d, of_nat ?l)])) (\<lambda>(pok, n', txs'). length txs' = POK_MAX_TXS \<and>
      list_all (\<lambda>t. length (fst t) = POK_MAX_TX_SZ) txs' \<and> unat n' \<le> max (unat (n + 1)) POK_MAX_TXS)"
      using Cons.IH [of "txs[?k := (d, of_nat ?l)]" "n + 1"] Cons.prems(1,2) by simp
    then have "returns (pok_loop J ps (n + 1) (txs[?k := (d, of_nat ?l)])) (\<lambda>(pok, n', txs'). length txs' = POK_MAX_TXS \<and>
      list_all (\<lambda>t. length (fst t) = POK_MAX_TX_SZ) txs' \<and> unat n' \<le> max (unat n) POK_MAX_TXS)"
      by (rule returns_weaken) (use False in auto)
    then show ?thesis using False s k t d(1) by (simp add: Let_def mem_simps)
  qed
qed

lemma decode_pok_total:
  assumes "wf_work work" "text_fields J val"
  shows "returns (decode_pok J val algo work) (\<lambda>(pok, w). wf_work w \<and> w_data w = w_data work \<and> w_target w = w_target work \<and>
    unat (w_tx_count w) \<le> POK_MAX_TXS \<and> w_pooln w = w_pooln work)"
proof -
  let ?ps = "map (json_array_get J (json_object_get J val ''txs'')) [0..<json_array_size J (json_object_get J val ''txs'')]"
  have "list_all (\<lambda>p. json_string_value J p \<noteq> None) ?ps" using assms(2) by (simp add: text_fields_def list_all_iff)
  then have "returns (pok_loop J ?ps 0 (w_txs work)) (\<lambda>(pok, n', txs'). length txs' = POK_MAX_TXS \<and>
    list_all (\<lambda>t. length (fst t) = POK_MAX_TX_SZ) txs' \<and> unat n' \<le> POK_MAX_TXS)"
    using pok_loop_total [of J ?ps "w_txs work" 0] assms(1) by (simp add: wf_work_def)
  then show ?thesis
    unfolding decode_pok_def using assms(1)
    by (auto simp: wf_work_def elim!: returnsE intro!: rets)
qed

lemma returns_decode_pok [rets]:
  assumes "wf_work work" "text_fields J val"
    "\<And>pok w. wf_work w \<Longrightarrow> w_data w = w_data work \<Longrightarrow> w_target w = w_target work \<Longrightarrow> unat (w_tx_count w) \<le> POK_MAX_TXS \<Longrightarrow>
       w_pooln w = w_pooln work \<Longrightarrow> P (pok, w)"
  shows "returns (decode_pok J val algo work) P"
  by (rule returns_weaken [OF decode_pok_total [OF assms(1,2)]]) (auto intro: assms(3))

text \<open>What decoding a work leaves alone in the globals.\<close>

definition same_session :: "'f miner \<Rightarrow> 'f miner \<Rightarrow> bool" where
  "same_session m m' \<longleftrightarrow> pools m' = pools m \<and> num_pools m' = num_pools m \<and> cur_pooln m' = cur_pooln m \<and>
     opt_retries m' = opt_retries m \<and> opt_pool_failover m' = opt_pool_failover m \<and> thr_q m' = thr_q m \<and> workio_q m' = workio_q m \<and>
     thr_hashrates m' = thr_hashrates m \<and> conditional_state m' = conditional_state m \<and> opt_n_threads m' = opt_n_threads m \<and>
     work_restart m' = work_restart m \<and> w_data (g_work m') = w_data (g_work m) \<and>
     rpc_user m' = rpc_user m \<and> rpc_pass m' = rpc_pass m \<and> rpc_url m' = rpc_url m \<and> short_url m' = short_url m \<and>
     opt_scantime m' = opt_scantime m \<and> opt_max_diff m' = opt_max_diff m \<and> opt_max_rate m' = opt_max_rate m \<and>
     opt_shares_limit m' = opt_shares_limit m \<and> opt_time_limit m' = opt_time_limit m \<and> want_stratum m' = want_stratum m \<and>
     have_stratum m' = have_stratum m \<and> opt_algo m' = opt_algo m \<and> stratum m' = stratum m \<and> benchmark m' = benchmark m \<and>
     device_map m' = device_map m \<and> cgpu_accepted m' = cgpu_accepted m"

lemma same_session_refl [simp]: "same_session m m"
  by (simp add: same_session_def)

lemma same_session_updates [simp]:
  "same_session m (n\<lparr>use_roots := a\<rparr>) = same_session m n" "same_session m (n\<lparr>net_diff := b\<rparr>) = same_session m n"
  "same_session m (n\<lparr>stratum_diff := c\<rparr>) = same_session m n" "same_session m (n\<lparr>use_pok := d\<rparr>) = same_session m n"
  "same_session m (n\<lparr>net_blocks := e\<rparr>) = same_session m n" "same_session m (n\<lparr>net_hashrate := f\<rparr>) = same_session m n"
  "same_session m (n\<lparr>allow_mininginfo := g\<rparr>) = same_session m n" "same_session m (n\<lparr>allow_gbt := h\<rparr>) = same_session m n"
  "same_session (m\<lparr>stratum_diff := c\<rparr>) n = same_session m n" "same_session (m\<lparr>use_pok := d\<rparr>) n = same_session m n"
  "same_session m (n\<lparr>g_work := (g_work n)\<lparr>w_height := i\<rparr>\<rparr>) = same_session m n"
  by (simp_all add: same_session_def)

lemma same_session_trans: "same_session a b \<Longrightarrow> same_session b c \<Longrightarrow> same_session a c"
  by (simp add: same_session_def)

lemma same_session_wf: "same_session m m' \<Longrightarrow> wf_miner m \<Longrightarrow> wf_miner m'"
  by (simp add: same_session_def wf_miner_def)

lemma same_session_sync: "same_session m m' \<Longrightarrow> in_sync m \<Longrightarrow> in_sync m'"
  by (simp add: same_session_def in_sync_def)

lemma decode_decred_total:
  assumes "wf_work work"
  shows "returns (decode_decred rand work m) (\<lambda>(w, m'). wf_work w \<and> w_target w = w_target work \<and> w_pooln w = w_pooln work \<and>
    same_session m m')"
  unfolding decode_decred_def using assms by (auto simp: wf_work_def intro!: rets)

lemma returns_decode_decred [rets]:
  assumes "wf_work work"
    "\<And>w m'. wf_work w \<Longrightarrow> w_target w = w_target work \<Longrightarrow> w_pooln w = w_pooln work \<Longrightarrow> same_session m m' \<Longrightarrow> P (w, m')"
  shows "returns (decode_decred rand work m) P"
  by (rule returns_weaken [OF decode_decred_total [OF assms(1)]]) (auto intro: assms(2))

lemma target_to_diff_total: "length t = 8 \<Longrightarrow> \<exists>d. target_to_diff F t = Some d"
  by (simp add: target_to_diff_def mem_simps Let_def)

lemma returns_target_to_diff [rets]: "length t = 8 \<Longrightarrow> (\<And>d. target_to_diff F t = Some d \<Longrightarrow> P d) \<Longrightarrow> returns (target_to_diff F t) P"
  using target_to_diff_total [of t F] by (auto simp: returns_def)

lemma returns_network_diff [rets]: "length (w_data w) = 48 \<Longrightarrow> (\<And>d. P d) \<Longrightarrow> returns (verus_network_diff E w) P"
  by (simp add: verus_network_diff_def mem_simps returns_def)

lemma returns_decode_network [rets]:
  assumes "wf_work work" "\<And>m'. same_session m m' \<Longrightarrow> P m'"
  shows "returns (decode_network R work m) P"
proof -
  have "returns (decode_network R work m) (same_session m)"
    unfolding decode_network_def
    by (intro rets) (use assms(1) in \<open>simp_all add: wf_work_lengths\<close>)
  then show ?thesis by (rule returns_weaken) (rule assms(2))
qed

lemma returns_decode_rest [rets]:
  assumes "wf_work work" "text_fields (re_J R) val"
    "\<And>w m'. wf_work w \<Longrightarrow> w_pooln w = w_pooln work \<Longrightarrow> same_session m m' \<Longrightarrow> P (w, m')"
  shows "returns (decode_rest R rand val work m) P"
proof -
  have "returns (decode_rest R rand val work m) (\<lambda>(w, m'). wf_work w \<and> w_pooln w = w_pooln work \<and> same_session m m')"
    unfolding decode_rest_def
    by (intro rets)
      (use assms(1,2) in \<open>simp_all add: wf_work_lengths wf_work_updates data_sizes_fit same_session_trans [of m]\<close>)
  then show ?thesis by (rule returns_weaken) (auto intro: assms(3))
qed

lemma returns_work_decode [rets]:
  assumes "wf_work work" "text_fields (re_J R) val"
    "\<And>ok w m'. wf_work w \<Longrightarrow> w_pooln w = w_pooln work \<Longrightarrow> same_session m m' \<Longrightarrow> P (ok, w, m')"
  shows "returns (work_decode R rand val work m) P"
proof -
  have "returns (work_decode R rand val work m) (\<lambda>(ok, w, m'). wf_work w \<and> w_pooln w = w_pooln work \<and> same_session m m')"
    unfolding work_decode_def
    by (intro rets) (use assms(1,2) in \<open>simp_all add: wf_work_lengths wf_work_updates\<close>)
  then show ?thesis by (rule returns_weaken) (auto intro: assms(3))
qed

lemma read_mininginfo_session: "same_session m (read_mininginfo R res m)"
  by (simp add: read_mininginfo_def Let_def)

lemma mininginfo_session: "same_session m (snd (get_mininginfo R m))"
  by (simp add: get_mininginfo_def read_mininginfo_session Let_def split: prod.split)

lemma blocktemplate_session: "same_session m (snd (snd (get_blocktemplate R h m)))"
  by (simp add: get_blocktemplate_def gbt_work_decode_def Let_def split: prod.split)

section \<open>Every request is answered\<close>

definition io_ready :: "'f miner \<Rightarrow> bool" where
  "io_ready m \<longleftrightarrow> wf_miner m \<and> in_sync m"

text \<open>What other threads may do meanwhile: anything that keeps the globals well-formed and in step with the current
  pool, the limit of retries, the number of pools and the queues of the miner threads, to which only the workio thread pushes.\<close>

definition io_same :: "'f miner \<Rightarrow> 'f miner \<Rightarrow> bool" where
  "io_same m m' \<longleftrightarrow> io_ready m' \<and> opt_retries m' = opt_retries m \<and> num_pools m' = num_pools m \<and>
     opt_pool_failover m' = opt_pool_failover m \<and> thr_q m' = thr_q m"

definition steady :: "('j, 'f) io_env \<Rightarrow> bool" where
  "steady e \<longleftrightarrow> (\<forall>i m. io_ready m \<longrightarrow> io_same m (io_other e i m))"

definition text_answers :: "('j, 'f) io_env \<Rightarrow> bool" where
  "text_answers e \<longleftrightarrow> (\<forall>i. text_fields (re_J (io_R e i))
     (json_object_get (re_J (io_R e i)) (fst (re_rpc (io_R e i) json_rpc_getwork)) ''result''))"

lemma io_same_trans: "io_same a b \<Longrightarrow> io_same b c \<Longrightarrow> io_same a c"
  by (simp add: io_same_def)

lemma session_io_same: "same_session m m' \<Longrightarrow> io_ready m \<Longrightarrow> io_same m m'"
  using same_session_wf [of m m'] same_session_sync [of m m'] by (simp add: io_same_def io_ready_def) (simp add: same_session_def)

lemma get_upstream_total:
  assumes "wf_work work" "io_ready m" "unat (w_pooln work) < MAX_POOLS" "io_same m (other m)"
    "text_fields (re_J R) (json_object_get (re_J R) (fst (re_rpc R json_rpc_getwork)) ''result'')"
  shows "returns (get_upstream_work R other rand work m) (\<lambda>(ok, w, m'). wf_work w \<and> w_pooln w = w_pooln work \<and> io_same m m')"
proof -
  have p: "nat (uint (w_pooln work)) < length (pools m)" using assms(2,3) by (simp add: io_ready_def wf_miner_def)
  have s: "io_same m m3" if "same_session (other m) m1" "(b, m2) = get_mininginfo R m1" "(c, h', m3) = get_blocktemplate R h m2"
    for m1 m2 m3 b c h h'
  proof -
    have "same_session m1 m2" using mininginfo_session [of m1 R] that(2) [symmetric] by simp
    moreover have "same_session m2 m3" using blocktemplate_session [of m2 R h] that(3) [symmetric] by simp
    ultimately have "same_session (other m) m3" using that(1) same_session_trans by blast
    moreover have "io_ready (other m)" using assms(4) by (simp add: io_same_def)
    ultimately show ?thesis using io_same_trans [OF assms(4) session_io_same] by blast
  qed
  show ?thesis
    unfolding get_upstream_work_def
    by (intro rets) (use p assms in \<open>auto simp: wf_work_updates intro: s\<close>)
qed

text \<open>One round of the loop: what the attempt and the other threads leave behind.\<close>

lemma get_round:
  assumes "steady e" "text_answers e" "wf_work work" "io_ready m" "unat (w_pooln work) < MAX_POOLS"
  obtains ok w m1 where "get_upstream_work (io_R e k) (io_other e (2 * k)) (io_rand e k) work m = Some (ok, w, m1)"
    "wf_work w" "w_pooln w = w_pooln work" "io_same m (io_other e (2 * k + 1) m1)"
proof -
  have s: "io_same a (io_other e i a)" if "io_ready a" for i a using assms(1) that unfolding steady_def by blast
  have t: "text_fields (re_J (io_R e k)) (json_object_get (re_J (io_R e k)) (fst (re_rpc (io_R e k) json_rpc_getwork)) ''result'')"
    using assms(2) unfolding text_answers_def by blast
  from get_upstream_total [where other = "io_other e (2 * k)" and rand = "io_rand e k", OF assms(3-5) s [OF assms(4)] t]
  obtain ok w m1 where r: "get_upstream_work (io_R e k) (io_other e (2 * k)) (io_rand e k) work m = Some (ok, w, m1)"
    "wf_work w" "w_pooln w = w_pooln work" "io_same m m1"
    by (auto elim!: returnsE)
  moreover have "io_same m1 (io_other e (2 * k + 1) m1)" using r(4) by (intro s) (simp add: io_same_def)
  ultimately show thesis using that io_same_trans by blast
qed

lemma get_loop_total:
  assumes "steady e" "text_answers e" "wf_work work" "io_ready m" "unat (w_pooln work) < MAX_POOLS" "int k \<le> opt_retries m"
  shows "returns (get_loop e work k m) (\<lambda>(r, n, w, m'). wf_work w \<and> w_pooln w = w_pooln work \<and> io_same m m' \<and> k < n \<and>
    int n \<le> opt_retries m + 1 \<and> (r = Gave_up \<longrightarrow> int n = opt_retries m + 1))"
  using assms(3-6)
proof (induction "nat (opt_retries m) - k" arbitrary: k m work)
  case 0
  obtain ok w m1 where r: "get_upstream_work (io_R e k) (io_other e (2 * k)) (io_rand e k) work m = Some (ok, w, m1)"
    "wf_work w" "w_pooln w = w_pooln work" "io_same m (io_other e (2 * k + 1) m1)"
    by (rule get_round [OF assms(1,2) 0(2-4), of k])
  then show ?case using 0 by (subst get_loop.simps) (auto simp: Let_def returns_def io_same_def)
next
  case (Suc x)
  obtain ok w m1 where r: "get_upstream_work (io_R e k) (io_other e (2 * k)) (io_rand e k) work m = Some (ok, w, m1)"
    "wf_work w" "w_pooln w = w_pooln work" "io_same m (io_other e (2 * k + 1) m1)"
    by (rule get_round [OF assms(1,2) Suc(3-5), of k])
  let ?m = "io_other e (2 * k + 1) m1"
  have "x = nat (opt_retries ?m) - (k + 1)" "int (k + 1) \<le> opt_retries ?m" "io_ready ?m" "opt_retries ?m = opt_retries m"
    using r(4) Suc(2) by (simp_all add: io_same_def)
  then have "returns (get_loop e w (k + 1) ?m) (\<lambda>(r, n, w', m'). wf_work w' \<and> w_pooln w' = w_pooln work \<and> io_same m m' \<and> k < n \<and>
    int n \<le> opt_retries m + 1 \<and> (r = Gave_up \<longrightarrow> int n = opt_retries m + 1))"
    using Suc(1) [of ?m "k + 1" w] r Suc(5)
    by (auto elim!: returns_weaken intro: io_same_trans)
  then show ?case
    using r Suc(2) \<open>int (k + 1) \<le> opt_retries ?m\<close> by (subst get_loop.simps) (auto simp: Let_def returns_def)
qed

definition io_fixed :: "'f miner \<Rightarrow> (int \<times> 'f work option) list \<times> int \<times> bool" where
  "io_fixed m = (thr_q m, opt_retries m, opt_pool_failover m)"

lemma ensures_fill [ens]: "(\<And>x. P x) \<Longrightarrow> ensures (fill i n v xs) P"
  by (simp add: ensures_def)

lemma ensures_restart [ens]: "(\<And>b. io_fixed b = io_fixed a \<Longrightarrow> P b) \<Longrightarrow> ensures (restart_threads a) P"
  unfolding restart_threads_def by (intro ens) (simp_all add: io_fixed_def)

lemma ensures_get_work [ens]: "(\<And>r w b. io_fixed b = io_fixed a \<Longrightarrow> P (r, w, b)) \<Longrightarrow> ensures (get_work A t w a) P"
  unfolding get_work_def by (intro ens ensures_var) (simp_all add: io_fixed_def)

lemma ensures_switch_algo [ens]: "(\<And>b. io_fixed b = io_fixed a \<Longrightarrow> P b) \<Longrightarrow> ensures (switch_algo A p a) P"
  unfolding switch_algo_def by (intro ens) (simp_all add: io_fixed_def)

lemma ensures_change_pool [ens]: "(\<And>b. io_fixed b = io_fixed a \<Longrightarrow> P b) \<Longrightarrow> ensures (change_pool A p a) P"
  unfolding change_pool_def by (intro ens ensures_var) (auto simp: io_fixed_def)

lemma switch_keeps_fixed: "ensures (pool_switch A n m) (\<lambda>(b, m'). io_fixed m' = io_fixed m)"
  unfolding pool_switch_def by (intro ens ensures_var) (auto simp: io_fixed_def load_pool_def)

lemma switch_next_ready:
  assumes "io_ready m" "wf_answers A"
  shows "returns (pool_switch_next A m) (\<lambda>(b, m'). io_same m m')"
proof (cases "num_pools m > 1")
  case True
  obtain r where r: "pool_get_first_valid (cur_pooln m + 1) m = Some r" "0 \<le> r"
    using first_valid_range [of m] assms(1) by (auto simp: io_ready_def)
  obtain b m' where s: "pool_switch A r m = Some (b, m')" "wf_miner m'" "in_sync m'" "num_pools m' = num_pools m"
    using switch_keeps [OF _ _ assms(2) r(2), of m] assms(1) by (auto simp: io_ready_def)
  have "io_fixed m' = io_fixed m" using ensuresD [OF switch_keeps_fixed s(1)] by simp
  then show ?thesis using True r(1) s by (simp add: pool_switch_next_def returns_def io_same_def io_ready_def io_fixed_def)
next
  case False
  then show ?thesis using assms(1) by (simp add: pool_switch_next_def returns_def io_same_def)
qed

text \<open>The command that ends the program carries no thread. With several pools and failover the workio thread takes it for a
  failure, switches the pool and follows the null pointer.\<close>

lemma abort_follows_null:
  assumes "io_ready m" "wf_answers (io_A e)" "num_pools m > 1" "opt_pool_failover m"
  shows "workio_serve e WC_ABORT m = None"
  using switch_next_ready [OF assms(1,2)] assms(3,4) by (auto simp: workio_serve_def elim!: returnsE)

lemma jobj_words_text:
  assumes "json_object_get J obj key = Some v" "json_string_value J (Some v) = Some (cbin2hex (u32s_to_bytes ws))"
    "4 * length ws = n" "length ws \<le> length data"
  shows "jobj_words J obj key data n = Some (True, splice data 0 ws)"
  using assms hex2bin_cbin2hex [of "u32s_to_bytes ws" n "u32s_to_bytes data"] u32s_to_bytes_splice [of data 0 ws]
    bytes_to_u32s_to_bytes [of "splice data 0 ws"]
  by (simp add: jobj_words_def jobj_binary_def)

lemma decode_rest_data:
  assumes "wf_work work" "text_fields (re_J R) val" "opt_algo m \<noteq> ALGO_DECRED"
  shows "returns (decode_rest R rand val work m) (\<lambda>(w, m'). w_data w = w_data work \<and> w_target w = w_target work \<and>
    w_job_id w = cbin2hex (to_le 4 (w_data work ! 17)) \<and> target_to_diff (re_F R) (w_target work) = Some (stratum_diff m'))"
proof -
  obtain d where d: "target_to_diff (re_F R) (w_target work) = Some d"
    using target_to_diff_total [of "w_target work" "re_F R"] assms(1) by (auto simp: wf_work_lengths)
  show ?thesis
    unfolding decode_rest_def
    by (intro rets) (use assms d in \<open>simp_all add: wf_work_lengths wf_work_updates data_sizes_fit\<close>)
qed

section \<open>A small server\<close>

definition small_data :: "u32 list" where
  "small_data = map of_nat [0..<32]"

definition small_target :: "u32 list" where
  "small_target = replicate 7 0xffffffff @ [0xff]"

definition small_result :: jval where
  "small_result = JObj [(''data'', JStr (cbin2hex (u32s_to_bytes small_data))), (''target'', JStr (cbin2hex (u32s_to_bytes small_target)))]"

definition small_server :: "(jval, int) replies" where
  "small_server = small_replies\<lparr>re_rpc := (\<lambda>req. if req = json_rpc_getwork then (Some (JObj [(''result'', small_result)]), 0) else (None, - 1))\<rparr>"

definition small_io :: "(jval, int) io_env" where
  "small_io = \<lparr>io_R = (\<lambda>_. small_server), io_other = (\<lambda>_ m. m), io_rand = (\<lambda>_ _. 0), io_alloc = True, io_push = True, io_A = small_answers\<rparr>"

lemma small_io_facts: "steady small_io" "text_answers small_io" "wf_answers (io_A small_io)" "io_ready two_pools"
  using small_facts
  by (simp_all add: steady_def small_io_def io_same_def text_answers_def text_fields_def small_server_def small_replies_def
      small_senv_def small_json_def small_result_def io_ready_def)

section \<open>Properties\<close>



text \<open>C21: a work survives its text form. When the server sends the words of a header of the size of the algorithm and those
  of a target in hexadecimal, decoding succeeds and gives exactly these words, leaves the rest of the
  header as it was, names the job by its time and takes the difficulty of that target.\<close>

theorem getwork_decodes:
  assumes "wf_work work" "text_fields (re_J R) val" "opt_algo m \<noteq> ALGO_DECRED"
    "json_object_get (re_J R) val ''data'' = Some d" "json_string_value (re_J R) (Some d) = Some (cbin2hex (u32s_to_bytes ws))"
    "json_object_get (re_J R) val ''target'' = Some t" "json_string_value (re_J R) (Some t) = Some (cbin2hex (u32s_to_bytes tg))"
    "4 * length ws = fst (data_sizes (opt_algo m))" "length tg = 8"
  shows "\<exists>w m'. work_decode R rand val work m = Some (True, w, m') \<and> w_data w = splice (w_data work) 0 ws \<and> w_target w = tg \<and>
    w_job_id w = cbin2hex (to_le 4 (ws ! 17)) \<and> target_to_diff (re_F R) tg = Some (stratum_diff m')"
proof -
  let ?w = "work\<lparr>w_data := splice (w_data work) 0 ws, w_target := tg\<rparr>"
  have l: "length ws \<le> 48" "17 < length ws" "length (w_data work) = 48" "length (w_target work) = 8"
    using assms(1,8) data_sizes_fit(1) [of "opt_algo m"] by (auto simp: wf_work_lengths data_sizes_def split: if_splits)
  have w: "wf_work ?w" using assms(1,9) l by (simp add: wf_work_updates len_simps)
  have "decode_data (re_J R) val (opt_algo m) (w_data work) = Some (True, splice (w_data work) 0 ws)"
    unfolding decode_data_def using jobj_words_text [OF assms(4,5,8), of "w_data work"] l by simp
  moreover have "jobj_words (re_J R) val ''target'' (w_target work) 32 = Some (True, tg)"
    using jobj_words_text [OF assms(6,7), of 32 "w_target work"] assms(9) l by (simp add: splice_def)
  moreover obtain w' m' where "decode_rest R rand val ?w m = Some (w', m')" "w_data w' = splice (w_data work) 0 ws" "w_target w' = tg"
    "w_job_id w' = cbin2hex (to_le 4 (splice (w_data work) 0 ws ! 17))" "target_to_diff (re_F R) tg = Some (stratum_diff m')"
    using decode_rest_data [OF w assms(2,3), of rand] by (auto elim!: returnsE)
  moreover have "splice (w_data work) 0 ws ! 17 = ws ! 17" using l by (simp add: splice_def nth_append)
  ultimately show ?thesis by (simp add: work_decode_def)
qed

theorem getwork_decodes_witness:
  "\<exists>w m'. work_decode small_server (\<lambda>_. 0) (Some small_result) (zero_work 0) two_pools = Some (True, w, m') \<and>
    w_data w = splice (w_data (zero_work (0 :: int))) 0 small_data \<and> w_target w = small_target \<and>
    w_job_id w = cbin2hex (to_le 4 (small_data ! 17)) \<and> target_to_diff (re_F small_server) small_target = Some (stratum_diff m')"
  by (rule getwork_decodes [where d = "JStr (cbin2hex (u32s_to_bytes small_data))" and t = "JStr (cbin2hex (u32s_to_bytes small_target))"])
    (simp_all add: small_server_def small_replies_def small_senv_def small_json_def small_result_def text_fields_def two_pools_def
      data_sizes_def small_data_def small_target_def ALGO_DECRED_def ALGO_PHI2_def ALGO_NEOSCRYPT_def ALGO_ZR5_def)

end
