(* ===== verification/Simd.thy ===== *)
theory Simd
  imports Miner_Prelude
begin

text \<open>
  The 128-bit vector operations. The sources call Intel-style \<open>_mm_*\<close> intrinsics, which the
  supported build takes from the \<open>verus/sse2neon\<close> submodule; its text is not part of the
  repository, so the operations are one parameter, a record \<open>sse\<close> that every kernel
  definition takes as its first argument. What the kernel relies on is the locale
  \<open>sse_intrinsics\<close>: the documented behaviour of the operations. \<open>sse_doc\<close> is the record
  of the documented operations themselves (AES round included) and interprets the locale.
  The second half models \<open>verus_mulhrs_epi16\<close> of \<open>verus/verus_clhash.cpp\<close>, written in
  NEON intrinsics of the compiler, and proves that it is the SSE operation it stands for.
\<close>

section \<open>The intrinsics as a parameter\<close>

record sse =
  mm_xor_si128 :: "u128 \<Rightarrow> u128 \<Rightarrow> u128"
  mm_aesenc_si128 :: "u128 \<Rightarrow> u128 \<Rightarrow> u128"
  mm_clmulepi64_si128 :: "u128 \<Rightarrow> u128 \<Rightarrow> u8 \<Rightarrow> u128"
  mm_shuffle_epi8 :: "u128 \<Rightarrow> u128 \<Rightarrow> u128"
  mm_unpacklo_epi32 :: "u128 \<Rightarrow> u128 \<Rightarrow> u128"
  mm_unpackhi_epi32 :: "u128 \<Rightarrow> u128 \<Rightarrow> u128"
  mm_unpacklo_epi64 :: "u128 \<Rightarrow> u128 \<Rightarrow> u128"
  mm_unpackhi_epi64 :: "u128 \<Rightarrow> u128 \<Rightarrow> u128"
  mm_cvtsi128_si64 :: "u128 \<Rightarrow> u64"
  mm_cvtsi64_si128 :: "u64 \<Rightarrow> u128"
  mm_cvtsi32_si128 :: "u32 \<Rightarrow> u128"
  mm_set_epi32 :: "u32 \<Rightarrow> u32 \<Rightarrow> u32 \<Rightarrow> u32 \<Rightarrow> u128"
  mm_set_epi64x :: "u64 \<Rightarrow> u64 \<Rightarrow> u128"
  mm_setr_epi8 :: "u8 list \<Rightarrow> u128"

section \<open>Lanes of a vector\<close>

definition lane8 :: "u128 \<Rightarrow> nat \<Rightarrow> u8" where
  "lane8 a i = ucast (drop_bit (8 * i) a)"

definition lane16 :: "u128 \<Rightarrow> nat \<Rightarrow> u16" where
  "lane16 a i = ucast (drop_bit (16 * i) a)"

definition lane32 :: "u128 \<Rightarrow> nat \<Rightarrow> u32" where
  "lane32 a i = ucast (drop_bit (32 * i) a)"

definition lane64 :: "u128 \<Rightarrow> nat \<Rightarrow> u64" where
  "lane64 a i = ucast (drop_bit (64 * i) a)"

definition of_lanes8 :: "u8 list \<Rightarrow> u128" where
  "of_lanes8 xs = foldr (\<lambda>x r. ucast x OR push_bit 8 r) xs 0"

definition of_lanes16 :: "u16 list \<Rightarrow> u128" where
  "of_lanes16 xs = foldr (\<lambda>x r. ucast x OR push_bit 16 r) xs 0"

definition of_lanes32 :: "u32 list \<Rightarrow> u128" where
  "of_lanes32 xs = foldr (\<lambda>x r. ucast x OR push_bit 32 r) xs 0"

definition of_lanes64 :: "u64 list \<Rightarrow> u128" where
  "of_lanes64 xs = foldr (\<lambda>x r. ucast x OR push_bit 64 r) xs 0"

lemma bit_lane32: "bit (lane32 a i) k \<longleftrightarrow> k < 32 \<and> bit a (32 * i + k)"
  by (auto simp: lane32_def bit_ucast_iff bit_drop_bit_eq)

text \<open>A bit index written as an offset beyond the width is clear.\<close>

lemma bit_beyond_32: "32 \<le> n \<Longrightarrow> \<not> bit (a :: u32) n" and bit_beyond_64: "64 \<le> n \<Longrightarrow> \<not> bit (x :: u64) n"
  using bit_imp_le_length [of a n] bit_imp_le_length [of x n] by auto

lemma lane32_of_lanes32:
  "lane32 (of_lanes32 [a, b, c, d]) 0 = a"
  "lane32 (of_lanes32 [a, b, c, d]) (Suc 0) = b"
  "lane32 (of_lanes32 [a, b, c, d]) 2 = c"
  "lane32 (of_lanes32 [a, b, c, d]) 3 = d"
  by (auto intro!: bit_word_eqI
      simp: bit_lane32 of_lanes32_def bit_or_iff bit_push_bit_iff bit_ucast_iff bit_beyond_32)

lemma lane32_xor: "lane32 (a XOR b) i = lane32 a i XOR lane32 b i"
  by (rule bit_word_eqI) (auto simp: bit_lane32 bit_xor_iff)

lemma lane32_lane64:
  "lane32 (of_lanes64 [x, y]) 0 = ucast x"
  "lane32 (of_lanes64 [x, y]) (Suc 0) = ucast (drop_bit 32 x)"
  "lane32 (of_lanes64 [x, y]) 2 = ucast y"
  "lane32 (of_lanes64 [x, y]) 3 = ucast (drop_bit 32 y)"
  by (auto intro!: bit_word_eqI
      simp: bit_lane32 of_lanes64_def bit_or_iff bit_push_bit_iff bit_ucast_iff bit_drop_bit_eq
      bit_beyond_64)

lemma ucast_lane64:
  "ucast (lane64 a i) = lane32 a (2 * i)"
  "ucast (drop_bit 32 (lane64 a i)) = lane32 a (2 * i + 1)"
  by (auto intro!: bit_word_eqI simp: bit_lane32 lane64_def bit_ucast_iff bit_drop_bit_eq ac_simps)

section \<open>Documented behaviour\<close>

text \<open>Carry-less product of two 64-bit polynomials over GF(2).\<close>

definition clmul64 :: "u64 \<Rightarrow> u64 \<Rightarrow> u128" where
  "clmul64 x y = foldr (\<lambda>i r. (if bit y i then push_bit i (ucast x) else 0) XOR r) [0..<64] 0"

text \<open>\<open>PSHUFB\<close>: a selector byte with its top bit set gives zero, otherwise its low four bits index.\<close>

definition pshufb :: "u128 \<Rightarrow> u128 \<Rightarrow> u128" where
  "pshufb a m = of_lanes8 (map (\<lambda>i. if bit (lane8 m i) 7 then 0
                                     else lane8 a (unat (lane8 m i AND 15))) [0..<16])"

text \<open>One AES encryption round (\<open>AESENC\<close>): ShiftRows, SubBytes, MixColumns, AddRoundKey.\<close>

definition xtime :: "u8 \<Rightarrow> u8" where
  "xtime b = push_bit 1 b XOR (if bit b 7 then 0x1b else 0)"

definition aes_sbox :: "u8 list" where
  "aes_sbox = [
    0x63,0x7c,0x77,0x7b,0xf2,0x6b,0x6f,0xc5,0x30,0x01,0x67,0x2b,0xfe,0xd7,0xab,0x76,
    0xca,0x82,0xc9,0x7d,0xfa,0x59,0x47,0xf0,0xad,0xd4,0xa2,0xaf,0x9c,0xa4,0x72,0xc0,
    0xb7,0xfd,0x93,0x26,0x36,0x3f,0xf7,0xcc,0x34,0xa5,0xe5,0xf1,0x71,0xd8,0x31,0x15,
    0x04,0xc7,0x23,0xc3,0x18,0x96,0x05,0x9a,0x07,0x12,0x80,0xe2,0xeb,0x27,0xb2,0x75,
    0x09,0x83,0x2c,0x1a,0x1b,0x6e,0x5a,0xa0,0x52,0x3b,0xd6,0xb3,0x29,0xe3,0x2f,0x84,
    0x53,0xd1,0x00,0xed,0x20,0xfc,0xb1,0x5b,0x6a,0xcb,0xbe,0x39,0x4a,0x4c,0x58,0xcf,
    0xd0,0xef,0xaa,0xfb,0x43,0x4d,0x33,0x85,0x45,0xf9,0x02,0x7f,0x50,0x3c,0x9f,0xa8,
    0x51,0xa3,0x40,0x8f,0x92,0x9d,0x38,0xf5,0xbc,0xb6,0xda,0x21,0x10,0xff,0xf3,0xd2,
    0xcd,0x0c,0x13,0xec,0x5f,0x97,0x44,0x17,0xc4,0xa7,0x7e,0x3d,0x64,0x5d,0x19,0x73,
    0x60,0x81,0x4f,0xdc,0x22,0x2a,0x90,0x88,0x46,0xee,0xb8,0x14,0xde,0x5e,0x0b,0xdb,
    0xe0,0x32,0x3a,0x0a,0x49,0x06,0x24,0x5c,0xc2,0xd3,0xac,0x62,0x91,0x95,0xe4,0x79,
    0xe7,0xc8,0x37,0x6d,0x8d,0xd5,0x4e,0xa9,0x6c,0x56,0xf4,0xea,0x65,0x7a,0xae,0x08,
    0xba,0x78,0x25,0x2e,0x1c,0xa6,0xb4,0xc6,0xe8,0xdd,0x74,0x1f,0x4b,0xbd,0x8b,0x8a,
    0x70,0x3e,0xb5,0x66,0x48,0x03,0xf6,0x0e,0x61,0x35,0x57,0xb9,0x86,0xc1,0x1d,0x9e,
    0xe1,0xf8,0x98,0x11,0x69,0xd9,0x8e,0x94,0x9b,0x1e,0x87,0xe9,0xce,0x55,0x28,0xdf,
    0x8c,0xa1,0x89,0x0d,0xbf,0xe6,0x42,0x68,0x41,0x99,0x2d,0x0f,0xb0,0x54,0xbb,0x16]"

fun mix_column :: "u8 list \<Rightarrow> u8 list" where
  "mix_column [a, b, c, d] =
     [xtime a XOR (xtime b XOR b) XOR c XOR d,
      a XOR xtime b XOR (xtime c XOR c) XOR d,
      a XOR b XOR xtime c XOR (xtime d XOR d),
      (xtime a XOR a) XOR b XOR c XOR xtime d]"
| "mix_column xs = xs"

definition aesenc :: "u128 \<Rightarrow> u128 \<Rightarrow> u128" where
  "aesenc a k =
     (let st = map (lane8 a) [0..<16];
          sr = map (\<lambda>i. st ! ((5 * i) mod 16)) [0..<16];
          sb = map (\<lambda>b. aes_sbox ! unat b) sr;
          mc = concat (map (\<lambda>c. mix_column (take 4 (drop (4 * c) sb))) [0..<4])
      in of_lanes8 mc XOR k)"

definition sse_doc :: sse where
  "sse_doc =
     \<lparr>mm_xor_si128 = (XOR),
      mm_aesenc_si128 = aesenc,
      mm_clmulepi64_si128 = (\<lambda>a b imm. clmul64 (lane64 a (if bit imm 0 then 1 else 0))
                                               (lane64 b (if bit imm 4 then 1 else 0))),
      mm_shuffle_epi8 = pshufb,
      mm_unpacklo_epi32 = (\<lambda>a b. of_lanes32 [lane32 a 0, lane32 b 0, lane32 a 1, lane32 b 1]),
      mm_unpackhi_epi32 = (\<lambda>a b. of_lanes32 [lane32 a 2, lane32 b 2, lane32 a 3, lane32 b 3]),
      mm_unpacklo_epi64 = (\<lambda>a b. of_lanes64 [lane64 a 0, lane64 b 0]),
      mm_unpackhi_epi64 = (\<lambda>a b. of_lanes64 [lane64 a 1, lane64 b 1]),
      mm_cvtsi128_si64 = (\<lambda>a. lane64 a 0),
      mm_cvtsi64_si128 = ucast,
      mm_cvtsi32_si128 = ucast,
      mm_set_epi32 = (\<lambda>e3 e2 e1 e0. of_lanes32 [e0, e1, e2, e3]),
      mm_set_epi64x = (\<lambda>e1 e0. of_lanes64 [e0, e1]),
      mm_setr_epi8 = of_lanes8\<rparr>"

text \<open>What the kernel relies on: the documented behaviour, operation by operation.\<close>

locale sse_intrinsics =
  fixes S :: sse
  assumes xor_doc: "mm_xor_si128 S a b = a XOR b"
    and unpacklo_epi32_doc:
      "mm_unpacklo_epi32 S a b = of_lanes32 [lane32 a 0, lane32 b 0, lane32 a 1, lane32 b 1]"
    and unpackhi_epi32_doc:
      "mm_unpackhi_epi32 S a b = of_lanes32 [lane32 a 2, lane32 b 2, lane32 a 3, lane32 b 3]"
    and unpacklo_epi64_doc: "mm_unpacklo_epi64 S a b = of_lanes64 [lane64 a 0, lane64 b 0]"
    and unpackhi_epi64_doc: "mm_unpackhi_epi64 S a b = of_lanes64 [lane64 a 1, lane64 b 1]"
    and clmul_doc: "mm_clmulepi64_si128 S a b imm =
          clmul64 (lane64 a (if bit imm 0 then 1 else 0)) (lane64 b (if bit imm 4 then 1 else 0))"
    and shuffle_doc: "mm_shuffle_epi8 S a m = pshufb a m"
    and cvtsi128_si64_doc: "mm_cvtsi128_si64 S a = lane64 a 0"
    and cvtsi64_si128_doc: "mm_cvtsi64_si128 S x = ucast x"
    and set_epi64x_doc: "mm_set_epi64x S e1 e0 = of_lanes64 [e0, e1]"
    and setr_epi8_doc: "mm_setr_epi8 S xs = of_lanes8 xs"
begin

lemma lane32_unpacklo_epi32:
  "lane32 (mm_unpacklo_epi32 S a b) 0 = lane32 a 0"
  "lane32 (mm_unpacklo_epi32 S a b) (Suc 0) = lane32 b 0"
  "lane32 (mm_unpacklo_epi32 S a b) 2 = lane32 a (Suc 0)"
  "lane32 (mm_unpacklo_epi32 S a b) 3 = lane32 b (Suc 0)"
  by (simp_all add: unpacklo_epi32_doc lane32_of_lanes32)

lemma lane32_unpackhi_epi32:
  "lane32 (mm_unpackhi_epi32 S a b) 0 = lane32 a 2"
  "lane32 (mm_unpackhi_epi32 S a b) (Suc 0) = lane32 b 2"
  "lane32 (mm_unpackhi_epi32 S a b) 2 = lane32 a 3"
  "lane32 (mm_unpackhi_epi32 S a b) 3 = lane32 b 3"
  by (simp_all add: unpackhi_epi32_doc lane32_of_lanes32)

lemma lane32_unpacklo_epi64:
  "lane32 (mm_unpacklo_epi64 S a b) 3 = lane32 b (Suc 0)"
  using ucast_lane64(2) [of b 0] by (simp add: unpacklo_epi64_doc lane32_lane64)

lemma lane32_xor_si128: "lane32 (mm_xor_si128 S a b) i = lane32 a i XOR lane32 b i"
  by (simp add: xor_doc lane32_xor)

end

interpretation doc: sse_intrinsics sse_doc
  by unfold_locales (simp_all add: sse_doc_def)

section \<open>\<open>verus_mulhrs_epi16\<close>: the NEON form\<close>

text \<open>The NEON intrinsics used, lane by lane (Arm C Language Extensions).\<close>

definition sat16 :: "int \<Rightarrow> u16" where
  "sat16 x = (if x > 32767 then 32767 else if x < - 32768 then word_of_int (- 32768) else word_of_int x)"

definition vqrdmulh_s16 :: "u16 \<Rightarrow> u16 \<Rightarrow> u16" where
  "vqrdmulh_s16 a b = sat16 ((2 * sint a * sint b + 2 ^ 15) div 2 ^ 16)"

definition vmax_s16 :: "u16 \<Rightarrow> u16 \<Rightarrow> u16" where
  "vmax_s16 a b = (if sint a \<ge> sint b then a else b)"

definition vceq_s16 :: "u16 \<Rightarrow> u16 \<Rightarrow> u16" where
  "vceq_s16 a b = (if a = b then 0xffff else 0)"

definition verus_mulhrs_lane :: "u16 \<Rightarrow> u16 \<Rightarrow> u16" where
  "verus_mulhrs_lane a16 b16 =
     (let rounded = vqrdmulh_s16 a16 b16;
          minimum = word_of_int (- 32768);
          both_minimum = vceq_s16 (vmax_s16 a16 b16) minimum
      in rounded XOR both_minimum)"

definition verus_mulhrs_epi16 :: "u128 \<Rightarrow> u128 \<Rightarrow> u128" where
  "verus_mulhrs_epi16 a b =
     of_lanes16 (map (\<lambda>i. verus_mulhrs_lane (lane16 a i) (lane16 b i)) [0..<8])"

text \<open>The documented \<open>_mm_mulhrs_epi16\<close> (\<open>PMULHRSW\<close>), which the other build calls directly.\<close>

definition mm_mulhrs_lane :: "u16 \<Rightarrow> u16 \<Rightarrow> u16" where
  "mm_mulhrs_lane a b = word_of_int (((sint a * sint b) div 2 ^ 14 + 1) div 2)"

definition mm_mulhrs_epi16 :: "u128 \<Rightarrow> u128 \<Rightarrow> u128" where
  "mm_mulhrs_epi16 a b =
     of_lanes16 (map (\<lambda>i. mm_mulhrs_lane (lane16 a i) (lane16 b i)) [0..<8])"

lemma sint_u16_bounds: "- 32768 \<le> sint (a :: u16) \<and> sint a \<le> 32767"
  using sint_range_size [of a] by (simp add: word_size)

lemma round_half: "((x :: int) div 2 ^ 14 + 1) div 2 = (2 * x + 2 ^ 15) div 2 ^ 16"
  by simp

lemma product_bounds:
  assumes x: "- 32768 \<le> (x :: int)" "x \<le> 32767" and y: "- 32768 \<le> y" "y \<le> 32767"
  shows "- (32768 * 32768) \<le> x * y"
    and "x \<noteq> - 32768 \<or> y \<noteq> - 32768 \<Longrightarrow> x * y \<le> 32768 * 32767"
proof -
  have "\<bar>x\<bar> \<le> 32768" "\<bar>y\<bar> \<le> 32768" using x y by auto
  then have "\<bar>x * y\<bar> \<le> 32768 * 32768" unfolding abs_mult by (intro mult_mono) auto
  then show "- (32768 * 32768) \<le> x * y" by linarith
  assume "x \<noteq> - 32768 \<or> y \<noteq> - 32768"
  then have "\<bar>x\<bar> \<le> 32767 \<and> \<bar>y\<bar> \<le> 32768 \<or> \<bar>x\<bar> \<le> 32768 \<and> \<bar>y\<bar> \<le> 32767"
    using x y by auto
  then have "\<bar>x\<bar> * \<bar>y\<bar> \<le> 32767 * 32768 \<or> \<bar>x\<bar> * \<bar>y\<bar> \<le> 32768 * 32767"
    using mult_mono [of "\<bar>x\<bar>" 32767 "\<bar>y\<bar>" 32768] mult_mono [of "\<bar>x\<bar>" 32768 "\<bar>y\<bar>" 32767]
    by fastforce
  then have "\<bar>x * y\<bar> \<le> 32768 * 32767" by (simp add: abs_mult)
  then show "x * y \<le> 32768 * 32767" by linarith
qed

lemma sint_eq_min: "sint (a :: u16) = - 32768 \<longleftrightarrow> a = word_of_int (- 32768)"
proof
  assume "sint a = - 32768"
  then have "word_of_int (sint a) = (word_of_int (- 32768) :: u16)" by (rule arg_cong)
  then show "a = word_of_int (- 32768)" by simp
qed simp

lemma verus_mulhrs_lane_eq: "verus_mulhrs_lane a b = mm_mulhrs_lane a b"
proof (cases "sint a = - 32768 \<and> sint b = - 32768")
  case True
  then have "a = word_of_int (- 32768)" "b = word_of_int (- 32768)" by (simp_all only: sint_eq_min)
  then show ?thesis
    by (simp add: verus_mulhrs_lane_def mm_mulhrs_lane_def vqrdmulh_s16_def vmax_s16_def
        vceq_s16_def sat16_def)
next
  case False
  then have max: "vceq_s16 (vmax_s16 a b) (word_of_int (- 32768)) = 0"
    using sint_u16_bounds [of a] sint_u16_bounds [of b]
    by (auto simp: vceq_s16_def vmax_s16_def simp flip: sint_eq_min)
  have "- (32768 * 32768) \<le> sint a * sint b" "sint a * sint b \<le> 32768 * 32767"
    using product_bounds [of "sint a" "sint b"] False sint_u16_bounds [of a] sint_u16_bounds [of b]
    by auto
  then have "\<not> (2 * (sint a * sint b) + 2 ^ 15) div 2 ^ 16 > 32767"
      "\<not> (2 * (sint a * sint b) + 2 ^ 15) div 2 ^ 16 < - 32768"
    by auto
  then show ?thesis
    using max by (simp add: verus_mulhrs_lane_def mm_mulhrs_lane_def vqrdmulh_s16_def sat16_def
        round_half mult.assoc del: power_numeral)
qed

lemma verus_mulhrs_epi16_eq: "verus_mulhrs_epi16 a b = mm_mulhrs_epi16 a b"
  by (simp add: verus_mulhrs_epi16_def mm_mulhrs_epi16_def verus_mulhrs_lane_eq)

text \<open>The NEON form of the 16-bit rounding multiply is \<open>PMULHRSW\<close> on every input, the corner
  case of two minimal operands included, where the saturating NEON multiply alone would differ.\<close>

lemma neon_mulhrs_is_pmulhrsw:
  "verus_mulhrs_epi16 a b =
     of_lanes16 (map (\<lambda>i. word_of_int (((sint (lane16 a i) * sint (lane16 b i)) div 2 ^ 14 + 1) div 2)) [0..<8])"
  unfolding verus_mulhrs_epi16_eq mm_mulhrs_epi16_def mm_mulhrs_lane_def ..

end
