(* ===== verification/Haraka.thy ===== *)
theory Haraka
  imports Simd
begin

text \<open>
  The Haraka permutations of \<open>verus/haraka.c\<close> and \<open>verus/haraka.h\<close>. A buffer is a byte list; a
  kernel returns the bytes it stores in its output buffer, or \<open>None\<close> when one of its loads or
  round-constant reads leaves the object it is made on. The macros of the header are functions on
  the tuple of vector registers they update. A pointer to round constants is the suffix of the
  array that starts there.
\<close>

section \<open>Loads, stores and the round macros\<close>

definition LOAD :: "bytes \<Rightarrow> nat \<Rightarrow> u128 option" where
  "LOAD src off = do { bs \<leftarrow> rdn src off 16; Some (of_le bs) }"

definition STORE :: "u128 \<Rightarrow> bytes" where
  "STORE v = to_le 16 v"

type_synonym state2 = "u128 \<times> u128"
type_synonym state4 = "u128 \<times> u128 \<times> u128 \<times> u128"

definition LOAD2 :: "bytes \<Rightarrow> nat \<Rightarrow> state2 option" where
  "LOAD2 src off = do {
     s0 \<leftarrow> LOAD src off;
     s1 \<leftarrow> LOAD src (off + 16);
     Some (s0, s1) }"

definition LOAD4 :: "bytes \<Rightarrow> nat \<Rightarrow> state4 option" where
  "LOAD4 src off = do {
     s0 \<leftarrow> LOAD src off;
     s1 \<leftarrow> LOAD src (off + 16);
     s2 \<leftarrow> LOAD src (off + 32);
     s3 \<leftarrow> LOAD src (off + 48);
     Some (s0, s1, s2, s3) }"

fun AES2 :: "sse \<Rightarrow> u128 list \<Rightarrow> nat \<Rightarrow> state2 \<Rightarrow> state2 option" where
  "AES2 S rc rci (s0, s1) = do {
     k0 \<leftarrow> rd rc rci;
     let s0 = mm_aesenc_si128 S s0 k0;
     k1 \<leftarrow> rd rc (rci + 1);
     let s1 = mm_aesenc_si128 S s1 k1;
     k2 \<leftarrow> rd rc (rci + 2);
     let s0 = mm_aesenc_si128 S s0 k2;
     k3 \<leftarrow> rd rc (rci + 3);
     let s1 = mm_aesenc_si128 S s1 k3;
     Some (s0, s1) }"

fun AES4 :: "sse \<Rightarrow> u128 list \<Rightarrow> nat \<Rightarrow> state4 \<Rightarrow> state4 option" where
  "AES4 S rc rci (s0, s1, s2, s3) = do {
     k0 \<leftarrow> rd rc rci;
     let s0 = mm_aesenc_si128 S s0 k0;
     k1 \<leftarrow> rd rc (rci + 1);
     let s1 = mm_aesenc_si128 S s1 k1;
     k2 \<leftarrow> rd rc (rci + 2);
     let s2 = mm_aesenc_si128 S s2 k2;
     k3 \<leftarrow> rd rc (rci + 3);
     let s3 = mm_aesenc_si128 S s3 k3;
     k4 \<leftarrow> rd rc (rci + 4);
     let s0 = mm_aesenc_si128 S s0 k4;
     k5 \<leftarrow> rd rc (rci + 5);
     let s1 = mm_aesenc_si128 S s1 k5;
     k6 \<leftarrow> rd rc (rci + 6);
     let s2 = mm_aesenc_si128 S s2 k6;
     k7 \<leftarrow> rd rc (rci + 7);
     let s3 = mm_aesenc_si128 S s3 k7;
     Some (s0, s1, s2, s3) }"

fun AES4_LAST :: "sse \<Rightarrow> u128 list \<Rightarrow> nat \<Rightarrow> state4 \<Rightarrow> state4 option" where
  "AES4_LAST S rc rci (s0, s1, s2, s3) = do {
     k2 \<leftarrow> rd rc (rci + 2);
     let s2 = mm_aesenc_si128 S s2 k2;
     k6 \<leftarrow> rd rc (rci + 6);
     let s2 = mm_aesenc_si128 S s2 k6;
     Some (s0, s1, s2, s3) }"

fun MIX2 :: "sse \<Rightarrow> state2 \<Rightarrow> state2" where
  "MIX2 S (s0, s1) =
     (let tmp = mm_unpacklo_epi32 S s0 s1;
          s1 = mm_unpackhi_epi32 S s0 s1;
          s0 = tmp
      in (s0, s1))"

fun MIX4 :: "sse \<Rightarrow> state4 \<Rightarrow> state4" where
  "MIX4 S (s0, s1, s2, s3) =
     (let tmp = mm_unpacklo_epi32 S s0 s1;
          s0 = mm_unpackhi_epi32 S s0 s1;
          s1 = mm_unpacklo_epi32 S s2 s3;
          s2 = mm_unpackhi_epi32 S s2 s3;
          s3 = mm_unpacklo_epi32 S s0 s2;
          s0 = mm_unpackhi_epi32 S s0 s2;
          s2 = mm_unpackhi_epi32 S s1 tmp;
          s1 = mm_unpacklo_epi32 S s1 tmp
      in (s0, s1, s2, s3))"

fun MIX4_LAST :: "sse \<Rightarrow> state4 \<Rightarrow> state4" where
  "MIX4_LAST S (s0, s1, s2, s3) =
     (let tmp = mm_unpacklo_epi32 S s0 s1;
          s1 = mm_unpacklo_epi32 S s2 s3;
          s2 = mm_unpackhi_epi32 S s1 tmp
      in (s0, s1, s2, s3))"

fun TRUNCSTORE :: "sse \<Rightarrow> state4 \<Rightarrow> bytes" where
  "TRUNCSTORE S (s0, s1, s2, s3) =
     (let trunc0 = mm_unpackhi_epi64 S s0 s1;
          trunc1 = mm_unpacklo_epi64 S s2 s3
      in STORE trunc0 @ STORE trunc1)"

text \<open>The feed-forward: the state xor the input it was loaded from.\<close>

fun FEED2 :: "sse \<Rightarrow> bytes \<Rightarrow> nat \<Rightarrow> state2 \<Rightarrow> state2 option" where
  "FEED2 S src off (s0, s1) = do {
     (i0, i1) \<leftarrow> LOAD2 src off;
     Some (mm_xor_si128 S s0 i0, mm_xor_si128 S s1 i1) }"

fun FEED4 :: "sse \<Rightarrow> bytes \<Rightarrow> nat \<Rightarrow> state4 \<Rightarrow> state4 option" where
  "FEED4 S src off (s0, s1, s2, s3) = do {
     (i0, i1, i2, i3) \<leftarrow> LOAD4 src off;
     Some (mm_xor_si128 S s0 i0, mm_xor_si128 S s1 i1, mm_xor_si128 S s2 i2, mm_xor_si128 S s3 i3) }"

section \<open>Round constants\<close>

definition load_constants :: "sse \<Rightarrow> u128 list" where
  "load_constants S =
    [mm_set_epi32 S 0x0684704c 0xe620c00a 0xb2c5fef0 0x75817b9d,
     mm_set_epi32 S 0x8b66b4e1 0x88f3a06b 0x640f6ba4 0x2f08f717,
     mm_set_epi32 S 0x3402de2d 0x53f28498 0xcf029d60 0x9f029114,
     mm_set_epi32 S 0x0ed6eae6 0x2e7b4f08 0xbbf3bcaf 0xfd5b4f79,
     mm_set_epi32 S 0xcbcfb0cb 0x4872448b 0x79eecd1c 0xbe397044,
     mm_set_epi32 S 0x7eeacdee 0x6e9032b7 0x8d5335ed 0x2b8a057b,
     mm_set_epi32 S 0x67c28f43 0x5e2e7cd0 0xe2412761 0xda4fef1b,
     mm_set_epi32 S 0x2924d9b0 0xafcacc07 0x675ffde2 0x1fc70b3b,
     mm_set_epi32 S 0xab4d63f1 0xe6867fe9 0xecdb8fca 0xb9d465ee,
     mm_set_epi32 S 0x1c30bf84 0xd4b7cd64 0x5b2a404f 0xad037e33,
     mm_set_epi32 S 0xb2cc0bb9 0x941723bf 0x69028b2e 0x8df69800,
     mm_set_epi32 S 0xfa0478a6 0xde6f5572 0x4aaa9ec8 0x5c9d2d8a,
     mm_set_epi32 S 0xdfb49f2b 0x6b772a12 0x0efa4f2e 0x29129fd4,
     mm_set_epi32 S 0x1ea10344 0xf449a236 0x32d611ae 0xbb6a12ee,
     mm_set_epi32 S 0xaf044988 0x4b050084 0x5f9600c9 0x9ca8eca6,
     mm_set_epi32 S 0x21025ed8 0x9d199c4f 0x78a2c7e3 0x27e593ec,
     mm_set_epi32 S 0xbf3aaaf8 0xa759c9b7 0xb9282ecd 0x82d40173,
     mm_set_epi32 S 0x6260700d 0x6186b017 0x37f2efd9 0x10307d6b,
     mm_set_epi32 S 0x5aca45c2 0x21300443 0x81c29153 0xf6fc9ac6,
     mm_set_epi32 S 0x9223973c 0x226b68bb 0x2caf92e8 0x36d1943a,
     mm_set_epi32 S 0xd3bf9238 0x225886eb 0x6cbab958 0xe51071b4,
     mm_set_epi32 S 0xdb863ce5 0xaef0c677 0x933dfddd 0x24e1128d,
     mm_set_epi32 S 0xbb606268 0xffeba09c 0x83e48de3 0xcb2212b1,
     mm_set_epi32 S 0x734bd3dc 0xe2e4d19c 0x2db91a4e 0xc72bf77d,
     mm_set_epi32 S 0x43bb47c3 0x61301b43 0x4b1415c4 0x2cb3924e,
     mm_set_epi32 S 0xdba775a8 0xe707eff6 0x03b231dd 0x16eb6899,
     mm_set_epi32 S 0x6df3614b 0x3c755977 0x8e5e2302 0x7eca472c,
     mm_set_epi32 S 0xcda75a17 0xd6de7d77 0x6d1be5b9 0xb88617f9,
     mm_set_epi32 S 0xec6b43f0 0x6ba8e9aa 0x9d6c069d 0xa946ee5d,
     mm_set_epi32 S 0xcb1e6950 0xf957332b 0xa2531159 0x3bf327c1,
     mm_set_epi32 S 0x2cee0c75 0x00da619c 0xe4ed0353 0x600ed0d9,
     mm_set_epi32 S 0xf0b1a5a1 0x96e90cab 0x80bbbabc 0x63a4a350,
     mm_set_epi32 S 0xae3db102 0x5e962988 0xab0dde30 0x938dca39,
     mm_set_epi32 S 0x17bb8f38 0xd554a40b 0x8814f3a8 0x2e75b442,
     mm_set_epi32 S 0x34bb8a5b 0x5f427fd7 0xaeb6b779 0x360a16f6,
     mm_set_epi32 S 0x26f65241 0xcbe55438 0x43ce5918 0xffbaafde,
     mm_set_epi32 S 0x4ce99a54 0xb9f3026a 0xa2ca9cf7 0x839ec978,
     mm_set_epi32 S 0xae51a51a 0x1bdff7be 0x40c06e28 0x22901235,
     mm_set_epi32 S 0xa0c1613c 0xba7ed22b 0xc173bc0f 0x48a659cf,
     mm_set_epi32 S 0x756acc03 0x02288288 0x4ad6bdfd 0xe9c59da1]"

definition rc0 :: "u128 list" where
  "rc0 = replicate 40 0"

section \<open>The permutations\<close>

definition haraka256 :: "sse \<Rightarrow> u128 list \<Rightarrow> bytes \<Rightarrow> bytes option" where
  "haraka256 S rc src = do {
     s \<leftarrow> LOAD2 src 0;
     s \<leftarrow> AES2 S rc 0 s;
     let s = MIX2 S s;
     s \<leftarrow> AES2 S rc 4 s;
     let s = MIX2 S s;
     s \<leftarrow> AES2 S rc 8 s;
     let s = MIX2 S s;
     s \<leftarrow> AES2 S rc 12 s;
     let s = MIX2 S s;
     s \<leftarrow> AES2 S rc 16 s;
     let s = MIX2 S s;
     (s0, s1) \<leftarrow> FEED2 S src 0 s;
     Some (STORE s0 @ STORE s1) }"

text \<open>\<open>haraka256_keyed\<close> has no rounds: it loads, feeds forward and stores.\<close>

definition haraka256_keyed :: "sse \<Rightarrow> bytes \<Rightarrow> u128 list \<Rightarrow> bytes option" where
  "haraka256_keyed S src rc = do {
     s \<leftarrow> LOAD2 src 0;
     (s0, s1) \<leftarrow> FEED2 S src 0 s;
     Some (STORE s0 @ STORE s1) }"

text \<open>\<open>haraka256_4x\<close> never loads \<open>s[3][1]\<close>: its indeterminate initial value is the argument \<open>junk\<close>.\<close>

definition haraka256_4x :: "sse \<Rightarrow> u128 \<Rightarrow> bytes \<Rightarrow> bytes option" where
  "haraka256_4x S junk src = do {
     s0 \<leftarrow> LOAD2 src 0;
     s1 \<leftarrow> LOAD2 src 32;
     s2 \<leftarrow> LOAD2 src 64;
     s30 \<leftarrow> LOAD src 96;
     let s3 = (s30, junk);
     let s0 = MIX2 S s0;
     let s1 = MIX2 S s1;
     let s2 = MIX2 S s2;
     let s3 = MIX2 S s3;
     (a0, a1) \<leftarrow> FEED2 S src 0 s0;
     (b0, b1) \<leftarrow> FEED2 S src 32 s1;
     (c0, c1) \<leftarrow> FEED2 S src 64 s2;
     (d0, d1) \<leftarrow> FEED2 S src 96 s3;
     Some (STORE a0 @ STORE a1 @ STORE b0 @ STORE b1 @ STORE c0 @ STORE c1 @ STORE d0 @ STORE d1) }"

definition haraka256_8x :: "sse \<Rightarrow> u128 \<Rightarrow> u128 \<Rightarrow> bytes \<Rightarrow> bytes option" where
  "haraka256_8x S junk junk' src = do {
     a \<leftarrow> haraka256_4x S junk src;
     b \<leftarrow> haraka256_4x S junk' (drop 128 src);
     Some (a @ b) }"

definition haraka512 :: "sse \<Rightarrow> u128 list \<Rightarrow> bytes \<Rightarrow> bytes option" where
  "haraka512 S rc src = do {
     s \<leftarrow> LOAD4 src 0;
     s \<leftarrow> AES4 S rc 0 s;
     let s = MIX4 S s;
     s \<leftarrow> AES4 S rc 8 s;
     let s = MIX4 S s;
     s \<leftarrow> AES4 S rc 16 s;
     let s = MIX4 S s;
     s \<leftarrow> AES4 S rc 24 s;
     let s = MIX4 S s;
     s \<leftarrow> AES4 S rc 32 s;
     let s = MIX4 S s;
     s \<leftarrow> FEED4 S src 0 s;
     Some (TRUNCSTORE S s) }"

text \<open>\<open>AES4_zero\<close> is \<open>AES4\<close> on the array \<open>rc0\<close>.\<close>

definition haraka512_zero :: "sse \<Rightarrow> bytes \<Rightarrow> bytes option" where
  "haraka512_zero S src = do {
     s \<leftarrow> LOAD4 src 0;
     s \<leftarrow> AES4 S rc0 0 s;
     let s = MIX4 S s;
     s \<leftarrow> AES4 S rc0 8 s;
     let s = MIX4 S s;
     s \<leftarrow> AES4 S rc0 16 s;
     let s = MIX4 S s;
     s \<leftarrow> AES4 S rc0 24 s;
     let s = MIX4 S s;
     s \<leftarrow> AES4 S rc0 32 s;
     let s = MIX4 S s;
     s \<leftarrow> FEED4 S src 0 s;
     Some (TRUNCSTORE S s) }"

definition haraka512_keyed :: "sse \<Rightarrow> bytes \<Rightarrow> u128 list \<Rightarrow> bytes option" where
  "haraka512_keyed S src rc = do {
     s \<leftarrow> LOAD4 src 0;
     s \<leftarrow> AES4 S rc 0 s;
     let s = MIX4 S s;
     s \<leftarrow> AES4 S rc 8 s;
     let s = MIX4 S s;
     s \<leftarrow> AES4 S rc 16 s;
     let s = MIX4 S s;
     s \<leftarrow> AES4 S rc 24 s;
     let s = MIX4 S s;
     s \<leftarrow> AES4 S rc 32 s;
     let s = MIX4 S s;
     s \<leftarrow> FEED4 S src 0 s;
     Some (TRUNCSTORE S s) }"

text \<open>The prefilter: only the high word of the keyed hash, with the last round cut to the one
  register the word comes from.\<close>

definition haraka512_keyed_highword :: "sse \<Rightarrow> bytes \<Rightarrow> u128 list \<Rightarrow> u32 option" where
  "haraka512_keyed_highword S src rc = do {
     s \<leftarrow> LOAD4 src 0;
     s \<leftarrow> AES4 S rc 0 s;
     let s = MIX4 S s;
     s \<leftarrow> AES4 S rc 8 s;
     let s = MIX4 S s;
     s \<leftarrow> AES4 S rc 16 s;
     let s = MIX4 S s;
     s \<leftarrow> AES4 S rc 24 s;
     let s = MIX4_LAST S s;
     (s0, s1, s2, s3) \<leftarrow> AES4_LAST S rc 32 s;
     state_bytes \<leftarrow> rdn (STORE s2) 8 4;
     let state_word = of_le state_bytes;
     input_bytes \<leftarrow> rdn src 52 4;
     let input_word = of_le input_bytes;
     Some (state_word XOR input_word) }"

type_synonym state4x4 = "state4 \<times> state4 \<times> state4 \<times> state4"

fun AES4_4x :: "sse \<Rightarrow> u128 list \<Rightarrow> nat \<Rightarrow> state4x4 \<Rightarrow> state4x4 option" where
  "AES4_4x S rc rci (s0, s1, s2, s3) = do {
     s0 \<leftarrow> AES4 S rc rci s0;
     s1 \<leftarrow> AES4 S rc rci s1;
     s2 \<leftarrow> AES4 S rc rci s2;
     s3 \<leftarrow> AES4 S rc rci s3;
     Some (s0, s1, s2, s3) }"

fun MIX4_4x :: "sse \<Rightarrow> state4x4 \<Rightarrow> state4x4" where
  "MIX4_4x S (s0, s1, s2, s3) = (MIX4 S s0, MIX4 S s1, MIX4 S s2, MIX4 S s3)"

definition haraka512_4x :: "sse \<Rightarrow> u128 list \<Rightarrow> bytes \<Rightarrow> bytes option" where
  "haraka512_4x S rc src = do {
     s0 \<leftarrow> LOAD4 src 0;
     s1 \<leftarrow> LOAD4 src 64;
     s2 \<leftarrow> LOAD4 src 128;
     s3 \<leftarrow> LOAD4 src 192;
     s \<leftarrow> AES4_4x S rc 0 (s0, s1, s2, s3);
     let s = MIX4_4x S s;
     s \<leftarrow> AES4_4x S rc 8 s;
     let s = MIX4_4x S s;
     s \<leftarrow> AES4_4x S rc 16 s;
     let s = MIX4_4x S s;
     s \<leftarrow> AES4_4x S rc 24 s;
     let s = MIX4_4x S s;
     s \<leftarrow> AES4_4x S rc 32 s;
     let (s0, s1, s2, s3) = MIX4_4x S s;
     s0 \<leftarrow> FEED4 S src 0 s0;
     s1 \<leftarrow> FEED4 S src 64 s1;
     s2 \<leftarrow> FEED4 S src 128 s2;
     s3 \<leftarrow> FEED4 S src 192 s3;
     Some (TRUNCSTORE S s0 @ TRUNCSTORE S s1 @ TRUNCSTORE S s2 @ TRUNCSTORE S s3) }"

definition haraka512_8x :: "sse \<Rightarrow> u128 list \<Rightarrow> bytes \<Rightarrow> bytes option" where
  "haraka512_8x S rc src = do {
     a \<leftarrow> haraka512_4x S rc src;
     b \<leftarrow> haraka512_4x S rc (drop 256 src);
     Some (a @ b) }"

section \<open>The self test\<close>

definition testvector512 :: bytes where
  "testvector512 = [0xbe,0x7f,0x72,0x3b,0x4e,0x80,0xa9,0x98,0x13,0xb2,0x92,0x28,0x7f,0x30,0x6f,0x62,0x5a,0x6d,0x57,0x33,0x1c,0xae,0x5f,0x34,0xdd,0x92,0x77,0xb0,0x94,0x5b,0xe2,0xaa]"

text \<open>\<open>test_implementations\<close>: the value is whether the comparison loop runs to its end.\<close>

definition test_implementations :: "sse \<Rightarrow> bool option" where
  "test_implementations S = do {
     let src = map (\<lambda>i. of_nat (i mod 64)) [0..<512];
     let rc = load_constants S;
     out512 \<leftarrow> haraka512_8x S rc src;
     Some (list_all (\<lambda>i. out512 ! (i mod 32) = testvector512 ! i) [0..<32]) }"

section \<open>Every kernel returns\<close>

declare AES2.simps [simp del] AES4.simps [simp del] AES4_LAST.simps [simp del]
  MIX2.simps [simp del] MIX4.simps [simp del] MIX4_LAST.simps [simp del]
  TRUNCSTORE.simps [simp del] FEED2.simps [simp del] FEED4.simps [simp del]

lemma LOAD_Some: "off + 16 \<le> length src \<Longrightarrow> LOAD src off = Some (of_le (take 16 (drop off src)))"
  by (simp add: LOAD_def mem_simps)

lemma LOAD2_Some:
  "off + 32 \<le> length src \<Longrightarrow>
   LOAD2 src off = Some (of_le (take 16 (drop off src)), of_le (take 16 (drop (off + 16) src)))"
  by (simp add: LOAD2_def LOAD_Some)

lemma LOAD4_Some:
  "off + 64 \<le> length src \<Longrightarrow>
   LOAD4 src off = Some (of_le (take 16 (drop off src)), of_le (take 16 (drop (off + 16) src)),
     of_le (take 16 (drop (off + 32) src)), of_le (take 16 (drop (off + 48) src)))"
  by (simp add: LOAD4_def LOAD_Some)

lemma AES2_Some:
  "rci + 4 \<le> length rc \<Longrightarrow>
   AES2 S rc rci (s0, s1) = Some
     (mm_aesenc_si128 S (mm_aesenc_si128 S s0 (rc ! rci)) (rc ! (rci + 2)),
      mm_aesenc_si128 S (mm_aesenc_si128 S s1 (rc ! (rci + 1))) (rc ! (rci + 3)))"
  by (simp add: AES2.simps mem_simps)

lemma AES4_Some:
  "rci + 8 \<le> length rc \<Longrightarrow>
   AES4 S rc rci (s0, s1, s2, s3) = Some
     (mm_aesenc_si128 S (mm_aesenc_si128 S s0 (rc ! rci)) (rc ! (rci + 4)),
      mm_aesenc_si128 S (mm_aesenc_si128 S s1 (rc ! (rci + 1))) (rc ! (rci + 5)),
      mm_aesenc_si128 S (mm_aesenc_si128 S s2 (rc ! (rci + 2))) (rc ! (rci + 6)),
      mm_aesenc_si128 S (mm_aesenc_si128 S s3 (rc ! (rci + 3))) (rc ! (rci + 7)))"
  by (simp add: AES4.simps mem_simps)

lemma AES2_total: "rci + 4 \<le> length rc \<Longrightarrow> \<exists>t. AES2 S rc rci s = Some t"
  by (cases s) (simp add: AES2_Some)

lemma AES4_total: "rci + 8 \<le> length rc \<Longrightarrow> \<exists>t. AES4 S rc rci s = Some t"
  by (cases s) (simp add: AES4_Some)

lemma FEED4_total: "off + 64 \<le> length src \<Longrightarrow> \<exists>t. FEED4 S src off s = Some t"
  by (cases s) (simp add: FEED4.simps LOAD4_Some)

lemma FEED2_total: "off + 32 \<le> length src \<Longrightarrow> \<exists>t. FEED2 S src off s = Some t"
  by (cases s) (simp add: FEED2.simps LOAD2_Some)

lemma length_STORE [simp]: "length (STORE v) = 16"
  by (simp add: STORE_def)

lemma length_TRUNCSTORE [simp]: "length (TRUNCSTORE S s) = 32"
  by (cases s) (simp add: TRUNCSTORE.simps Let_def)

text \<open>The five rounds of the 512-bit permutation, on the loaded state.\<close>

definition rounds512 :: "sse \<Rightarrow> u128 list \<Rightarrow> state4 \<Rightarrow> state4 option" where
  "rounds512 S rc s = do {
     s \<leftarrow> AES4 S rc 0 s;
     s \<leftarrow> AES4 S rc 8 (MIX4 S s);
     s \<leftarrow> AES4 S rc 16 (MIX4 S s);
     s \<leftarrow> AES4 S rc 24 (MIX4 S s);
     s \<leftarrow> AES4 S rc 32 (MIX4 S s);
     Some (MIX4 S s) }"

lemma rounds512_total: "40 \<le> length rc \<Longrightarrow> \<exists>t. rounds512 S rc s = Some t"
  unfolding rounds512_def by (intro bind_total AES4_total) (simp_all del: split_paired_Ex)

lemma haraka512_rounds:
  "haraka512 S rc src = do {
     s \<leftarrow> LOAD4 src 0; s \<leftarrow> rounds512 S rc s; s \<leftarrow> FEED4 S src 0 s; Some (TRUNCSTORE S s) }"
  by (simp add: haraka512_def rounds512_def Let_def)

lemma haraka512_keyed_eq: "haraka512_keyed S src rc = haraka512 S rc src"
  by (simp add: haraka512_keyed_def haraka512_def)

lemma haraka512_zero_eq: "haraka512_zero S src = haraka512 S rc0 src"
  by (simp add: haraka512_zero_def haraka512_def)

lemma haraka512_total:
  assumes "40 \<le> length rc" "64 \<le> length src"
  shows "\<exists>out. haraka512 S rc src = Some out \<and> length out = 32"
proof -
  obtain s where s: "LOAD4 src 0 = Some s" using assms by (simp add: LOAD4_Some)
  obtain t where t: "rounds512 S rc s = Some t" using rounds512_total assms by blast
  obtain u where "FEED4 S src 0 t = Some u" using FEED4_total [of 0 src S t] assms by auto
  with s t show ?thesis by (simp add: haraka512_rounds)
qed

lemma haraka256_total:
  assumes "20 \<le> length rc" "32 \<le> length src"
  shows "\<exists>out. haraka256 S rc src = Some out"
  unfolding haraka256_def Let_def using assms
  by (intro bind_total AES2_total FEED2_total) (auto simp: LOAD2_Some split: prod.splits)

lemma length_haraka256: "haraka256 S rc src = Some out \<Longrightarrow> length out = 32"
  by (auto simp: haraka256_def Let_def bind_eq_Some_conv split: prod.splits)

section \<open>The prefilter computes the high word of the keyed hash\<close>

lemma lane32_of_le:
  assumes "length bs = 16" "i < 4"
  shows "lane32 (of_le bs) i = of_le (take 4 (drop (4 * i) bs))"
proof (rule bit_word_eqI)
  fix k assume "k < LENGTH(32)"
  then have k: "k < 32" by simp
  have "32 * i + k = k + 4 * i * 8" by simp
  then have e: "(32 * i + k) div 8 = 4 * i + k div 8" "(32 * i + k) mod 8 = k mod 8"
    by (simp_all only: div_mult_self1 mod_mult_self1)
  from k have "k div 8 < 4" "32 * i + k < 128" "min (16 - 4 * i) 4 = 4" using assms by auto
  with e k assms show "bit (lane32 (of_le bs) i) k = bit (of_le (take 4 (drop (4 * i) bs)) :: u32) k"
    by (simp add: bit_lane32 bit_of_le)
qed

lemma lane32_STORE: "i < 4 \<Longrightarrow> of_le (take 4 (drop (4 * i) (STORE v))) = lane32 v i"
  using lane32_of_le [of "STORE v" i] of_le_to_le [of 16 v] by (simp add: STORE_def)

lemma of_le_word_of_block:
  assumes "off + 16 \<le> length src" "i < 4"
  shows "of_le (take 4 (drop (off + 4 * i) src)) = lane32 (of_le (take 16 (drop off src))) i"
  using assms lane32_of_le [of "take 16 (drop off src)" i]
  by (simp add: drop_take min_absorb1 add.commute)

text \<open>One register is enough: the last AES round and the last mix reach the high word only
  through lane 2 of \<open>s2\<close>.\<close>

lemma MIX4_LAST_s2:
  "MIX4 S s = (m0, m1, m2, m3) \<Longrightarrow> MIX4_LAST S s = (n0, n1, n2, n3) \<Longrightarrow> n2 = m2"
  by (cases s) (simp add: MIX4.simps MIX4_LAST.simps Let_def)

context sse_intrinsics
begin

lemma highword_lane:
  assumes "MIX4 S (a0, a1, a2, a3) = (b0, b1, b2, b3)"
  shows "lane32 b3 (Suc 0) = lane32 a2 2"
  using assms by (auto simp: MIX4.simps Let_def lane32_unpacklo_epi32 lane32_unpackhi_epi32)

lemma TRUNCSTORE_word7:
  "of_le (drop 28 (TRUNCSTORE S (s0, s1, s2, s3))) = lane32 s3 (Suc 0)"
  using lane32_STORE [of 3 "mm_unpacklo_epi64 S s2 s3"]
  by (simp add: TRUNCSTORE.simps Let_def lane32_unpacklo_epi64)

lemma highword_eq:
  assumes rc: "40 \<le> length rc" and src: "64 \<le> length src"
  shows "\<exists>out. haraka512_keyed S src rc = Some out \<and>
    haraka512_keyed_highword S src rc = Some (of_le (take 4 (drop 28 out)))"
proof -
  obtain s where s: "LOAD4 src 0 = Some s" using src by (simp add: LOAD4_Some)
  obtain t1 where t1: "AES4 S rc 0 s = Some t1" using AES4_total [of 0 rc] rc by fastforce
  obtain t2 where t2: "AES4 S rc 8 (MIX4 S t1) = Some t2" using AES4_total [of 8 rc] rc by fastforce
  obtain t3 where t3: "AES4 S rc 16 (MIX4 S t2) = Some t3" using AES4_total [of 16 rc] rc by fastforce
  obtain t4 where t4: "AES4 S rc 24 (MIX4 S t3) = Some t4" using AES4_total [of 24 rc] rc by fastforce
  obtain m0 m1 m2 m3 where m: "MIX4 S t4 = (m0, m1, m2, m3)" by (rule prod_cases4)
  obtain n0 n1 n2 n3 where n: "MIX4_LAST S t4 = (n0, n1, n2, n3)" by (rule prod_cases4)
  have n2: "n2 = m2" using MIX4_LAST_s2 [OF m n] .
  obtain a0 a1 a2 a3 where a: "AES4 S rc 32 (m0, m1, m2, m3) = Some (a0, a1, a2, a3)"
    using AES4_total [of 32 rc S "(m0, m1, m2, m3)"] rc by force
  have l: "AES4_LAST S rc 32 (n0, n1, n2, n3) = Some (n0, n1, a2, n3)"
    using a rc by (simp add: n2 AES4_Some AES4_LAST.simps mem_simps)
  obtain b0 b1 b2 b3 where b: "MIX4 S (a0, a1, a2, a3) = (b0, b1, b2, b3)" by (rule prod_cases4)
  let ?i = "\<lambda>k. of_le (take 16 (drop (16 * k) src)) :: u128"
  have f: "FEED4 S src 0 (b0, b1, b2, b3) =
      Some (mm_xor_si128 S b0 (?i 0), mm_xor_si128 S b1 (?i 1), mm_xor_si128 S b2 (?i 2),
        mm_xor_si128 S b3 (?i 3))"
    using src by (simp add: FEED4.simps LOAD4_Some)
  have w: "of_le (take 4 (drop 52 src)) = lane32 (?i 3) (Suc 0)"
    using of_le_word_of_block [of 48 src 1] src by simp
  have "haraka512_keyed S src rc = Some (TRUNCSTORE S (mm_xor_si128 S b0 (?i 0),
      mm_xor_si128 S b1 (?i 1), mm_xor_si128 S b2 (?i 2), mm_xor_si128 S b3 (?i 3)))"
    by (simp add: haraka512_keyed_def s t1 t2 t3 t4 m a b f)
  moreover have "haraka512_keyed_highword S src rc = Some (lane32 a2 2 XOR lane32 (?i 3) (Suc 0))"
    using src lane32_STORE [of 2 a2]
    by (simp add: haraka512_keyed_highword_def s t1 t2 t3 t4 n l w mem_simps)
  ultimately show ?thesis
    by (simp add: TRUNCSTORE_word7 lane32_xor_si128 highword_lane [OF b])
qed

end

section \<open>The four-way and eight-way kernels\<close>

definition aes4 :: "sse \<Rightarrow> u128 list \<Rightarrow> nat \<Rightarrow> state4 \<Rightarrow> state4" where
  "aes4 S rc rci s = the (AES4 S rc rci s)"

definition feed4 :: "sse \<Rightarrow> bytes \<Rightarrow> nat \<Rightarrow> state4 \<Rightarrow> state4" where
  "feed4 S src off s = the (FEED4 S src off s)"

lemma AES4_aes4: "rci + 8 \<le> length rc \<Longrightarrow> AES4 S rc rci s = Some (aes4 S rc rci s)"
  using AES4_total [of rci rc S s] by (auto simp: aes4_def)

lemma FEED4_feed4: "off + 64 \<le> length src \<Longrightarrow> FEED4 S src off s = Some (feed4 S src off s)"
  using FEED4_total [of off src S s] by (auto simp: feed4_def)

lemma LOAD4_drop: "off + 64 \<le> length src \<Longrightarrow> LOAD4 (drop off src) 0 = LOAD4 src off"
  by (simp add: LOAD4_Some add.commute)

lemma FEED4_drop: "off + 64 \<le> length src \<Longrightarrow> FEED4 S (drop off src) 0 s = FEED4 S src off s"
  by (cases s) (simp add: FEED4.simps LOAD4_drop)

lemma feed4_drop: "off + 64 \<le> length src \<Longrightarrow> feed4 S (drop off src) 0 s = feed4 S src off s"
  by (simp add: feed4_def FEED4_drop)

lemma haraka512_4x_lanes:
  assumes rc: "40 \<le> length rc" and src: "256 \<le> length src"
  shows "haraka512_4x S rc src = do {
    a \<leftarrow> haraka512 S rc src;
    b \<leftarrow> haraka512 S rc (drop 64 src);
    c \<leftarrow> haraka512 S rc (drop 128 src);
    d \<leftarrow> haraka512 S rc (drop 192 src);
    Some (a @ b @ c @ d) }"
proof -
  have l: "\<exists>s. LOAD4 src off = Some s" if "off \<le> 192" for off
    using that src by (simp add: LOAD4_Some)
  obtain s0 s1 s2 s3 where s: "LOAD4 src 0 = Some s0" "LOAD4 src 64 = Some s1"
    "LOAD4 src 128 = Some s2" "LOAD4 src 192 = Some s3"
    using l [of 0] l [of 64] l [of 128] l [of 192] by auto
  show ?thesis
    using rc src
    by (simp add: haraka512_4x_def haraka512_def LOAD4_drop s AES4_aes4 FEED4_feed4 feed4_drop)
qed

lemma length_haraka512: "haraka512 S rc src = Some out \<Longrightarrow> length out = 32"
  by (auto simp: haraka512_rounds bind_eq_Some_conv)

lemma length_load_constants [simp]: "length (load_constants S) = 40"
  by (simp add: load_constants_def)

section \<open>Properties\<close>

text \<open>C36: the prefilter is exact. For vector operations that behave as documented, a round-key
  array of at least 40 vectors and a 64-byte input, \<open>haraka512_keyed_highword\<close>, which skips most of
  the last round, returns the last 32-bit word (bytes 28 to 31) of what \<open>haraka512_keyed\<close> stores.\<close>

theorem highword_is_last_word:
  assumes "sse_intrinsics S" "40 \<le> length rc" "64 \<le> length src"
  shows "\<exists>out. haraka512_keyed S src rc = Some out \<and> length out = 32 \<and>
    haraka512_keyed_highword S src rc = Some (of_le (take 4 (drop 28 out)))"
  using sse_intrinsics.highword_eq [OF assms] length_haraka512
  by (auto simp: haraka512_keyed_eq)

theorem highword_is_last_word_witness:
  "\<exists>out. haraka512_keyed sse_doc (replicate 64 1) (load_constants sse_doc) = Some out \<and> length out = 32 \<and>
    haraka512_keyed_highword sse_doc (replicate 64 1) (load_constants sse_doc) =
      Some (of_le (take 4 (drop 28 out)))"
  by (rule highword_is_last_word) (simp_all add: doc.sse_intrinsics_axioms)

text \<open>The eight-way kernel is eight hashes. On 512 bytes of input, \<open>haraka512_8x\<close> stores, one
  after the other, the 32-byte outputs of \<open>haraka512\<close> on the eight 64-byte blocks.\<close>

lemma haraka512_8x_lanes:
  assumes "40 \<le> length rc" "512 \<le> length src"
  shows "\<exists>outs. length outs = 8 \<and> haraka512_8x S rc src = Some (concat outs) \<and>
    (\<forall>k < 8. haraka512 S rc (drop (64 * k) src) = Some (outs ! k))"
proof -
  have "\<exists>out. haraka512 S rc (drop (64 * k) src) = Some out" if "k < 8" for k
  proof -
    have "64 \<le> length (drop (64 * k) src)" using assms(2) that by simp
    then show ?thesis using haraka512_total [OF assms(1)] by blast
  qed
  then obtain f where f: "\<And>k. k < 8 \<Longrightarrow> haraka512 S rc (drop (64 * k) src) = Some (f k)" by metis
  have u: "[0..<8] = [0, 1, 2, 3, 4, 5, 6, 7 :: nat]" by (simp add: upt_rec)
  have "haraka512_8x S rc src = Some (concat (map f [0..<8]))"
    using assms f [of 0] f [of 1] f [of 2] f [of 3] f [of 4] f [of 5] f [of 6] f [of 7]
    by (simp add: haraka512_8x_def haraka512_4x_lanes u)
  then show ?thesis using f by (intro exI [of _ "map f [0..<8]"]) simp
qed

end
