(* ===== verification/Clhash.thy ===== *)
theory Clhash
  imports Haraka
begin

text \<open>
  The keyed carry-less hash of \<open>verus/verus_clhash.cpp\<close>. The flag \<open>ARM\<close> is the build
  configuration: it selects the 16-bit multiply, how the reduction shifts and which log of the
  mutated key entries a lane keeps. The lane is a record; its pointers are the arrays they point
  to (the key, the logs), and the local pointers of \<open>clhash_step\<close> are indices into them.
  Undefined behaviour (an access outside the key, the buffer or a log; a division by zero or the
  overflowing one) is \<open>None\<close>.
\<close>

section \<open>Reduction to 64 bits\<close>

definition lazyLengthHash :: "sse \<Rightarrow> u64 \<Rightarrow> u64 \<Rightarrow> u128" where
  "lazyLengthHash S keylength len =
     (let lengthvector = mm_set_epi64x S keylength len;
          clprod1 = mm_clmulepi64_si128 S lengthvector lengthvector 0x10
      in clprod1)"

text \<open>The NEON byte extraction \<open>vextq_u8\<close>: bytes \<open>n..15\<close> of the first, then \<open>0..n-1\<close> of the second.\<close>

definition vextq_u8 :: "u128 \<Rightarrow> u128 \<Rightarrow> nat \<Rightarrow> u128" where
  "vextq_u8 a b n = drop_bit (8 * n) a OR push_bit (8 * (16 - n)) b"

definition mm_srli_si128 :: "u128 \<Rightarrow> nat \<Rightarrow> u128" where
  "mm_srli_si128 a n = drop_bit (8 * n) a"

definition precompReduction64_si128 :: "bool \<Rightarrow> sse \<Rightarrow> u128 \<Rightarrow> u128" where
  "precompReduction64_si128 ARM S A =
     (let C = mm_cvtsi64_si128 S (push_bit 4 1 + push_bit 3 1 + push_bit 1 1 + push_bit 0 1);
          Q2 = mm_clmulepi64_si128 S A C 0x01;
          Q2High = (if ARM then vextq_u8 Q2 0 8 else mm_srli_si128 Q2 8);
          Q3 = mm_shuffle_epi8 S
                 (mm_setr_epi8 S [0, 27, 54, 45, 108, 119, 90, 65,
                                  216, 195, 238, 245, 180, 175, 130, 153])
                 Q2High;
          Q4 = mm_xor_si128 S Q2 A;
          final = mm_xor_si128 S Q3 Q4
      in final)"

definition precompReduction64 :: "bool \<Rightarrow> sse \<Rightarrow> u128 \<Rightarrow> u64" where
  "precompReduction64 ARM S A = mm_cvtsi128_si64 S (precompReduction64_si128 ARM S A)"

section \<open>The lane\<close>

text \<open>The 16-bit rounding multiply of either build.\<close>

definition verus_mulhrs :: "bool \<Rightarrow> u128 \<Rightarrow> u128 \<Rightarrow> u128" where
  "verus_mulhrs ARM a b = (if ARM then verus_mulhrs_epi16 a b else mm_mulhrs_epi16 a b)"

record clhash_lane =
  randomsource :: "u128 list"
  keyMask :: u64
  touched :: "u32 list"
  fixrand :: "u32 list"
  fixrandex :: "u32 list"
  g_prand :: "u128 list"
  g_prandex :: "u128 list"
  pbuf_copy :: "u128 list"
  acc :: u128

text \<open>\<open>init_lane\<close>: on ARM the first log argument is the packed log and the others are unused.\<close>

definition init_lane ::
  "bool \<Rightarrow> sse \<Rightarrow> u128 list \<Rightarrow> u128 list \<Rightarrow> u64 \<Rightarrow> u32 list \<Rightarrow> u32 list \<Rightarrow> u128 list \<Rightarrow> u128 list
    \<Rightarrow> clhash_lane option" where
  "init_lane ARM S rs buf kmask frand frandex gprand gprandex = do {
     b0 \<leftarrow> rd buf 0;
     b2 \<leftarrow> rd buf 2;
     b1 \<leftarrow> rd buf 1;
     b3 \<leftarrow> rd buf 3;
     a \<leftarrow> rd rs (unat (kmask + 2));
     Some \<lparr>randomsource = rs, keyMask = kmask,
           touched = (if ARM then frand else []),
           fixrand = (if ARM then [] else frand),
           fixrandex = (if ARM then [] else frandex),
           g_prand = (if ARM then [] else gprand),
           g_prandex = (if ARM then [] else gprandex),
           pbuf_copy = [mm_xor_si128 S b0 b2, mm_xor_si128 S b1 b3, b2, b3],
           acc = a\<rparr> }"

text \<open>C's \<open>%\<close> on \<open>int64_t\<close>: division by zero and the overflowing quotient are undefined.\<close>

definition c_mod64 :: "u64 \<Rightarrow> u64 \<Rightarrow> u64 option" where
  "c_mod64 a b =
     (if b = 0 \<or> (sint a = - (2 ^ 63) \<and> sint b = - 1) then None
      else Some (word_of_int (sint a smod sint b)))"

text \<open>\<open>_mm_cvtsi32_si128(dividend % (int32_t) selector)\<close>: the divisor is sign extended to the
  width of the dividend, the remainder is converted to \<open>int\<close>.\<close>

definition selector_modulo :: "sse \<Rightarrow> u64 \<Rightarrow> u64 \<Rightarrow> u128 option" where
  "selector_modulo S dividend selector = do {
     let divisor = scast (ucast selector :: u32);
     r \<leftarrow> c_mod64 dividend divisor;
     Some (mm_cvtsi32_si128 S (ucast r)) }"

text \<open>The eight cases of the switch. Each takes the key \<open>rs\<close>, the buffer copy \<open>pb\<close>, the selector,
  the indices \<open>p\<close> (\<open>prand\<close>), \<open>q\<close> (\<open>prandex\<close>) and \<open>b\<close> (\<open>pbuf\<close>), and the accumulator, and returns
  the key and the accumulator.\<close>

definition pbuf_other :: "u64 \<Rightarrow> nat \<Rightarrow> int" where
  "pbuf_other sel b = int b + (if bit sel 0 then - 1 else 1)"

definition case0 :: "bool \<Rightarrow> sse \<Rightarrow> u128 list \<Rightarrow> u128 list \<Rightarrow> u64 \<Rightarrow> nat \<Rightarrow> nat \<Rightarrow> nat \<Rightarrow> u128
    \<Rightarrow> (u128 list \<times> u128) option" where
  "case0 ARM S rs pb sel p q b ac = do {
     temp1 \<leftarrow> rd rs q;
     temp2 \<leftarrow> rd_int pb (pbuf_other sel b);
     let add1 = mm_xor_si128 S temp1 temp2;
     let clprod1 = mm_clmulepi64_si128 S add1 add1 0x10;
     let ac = mm_xor_si128 S clprod1 ac;
     let tempa1 = verus_mulhrs ARM ac temp1;
     let tempa2 = mm_xor_si128 S tempa1 temp1;
     temp12 \<leftarrow> rd rs p;
     rs \<leftarrow> wr rs p tempa2;
     temp22 \<leftarrow> rd pb b;
     let add12 = mm_xor_si128 S temp12 temp22;
     let clprod12 = mm_clmulepi64_si128 S add12 add12 0x10;
     let ac = mm_xor_si128 S clprod12 ac;
     let tempb1 = verus_mulhrs ARM ac temp12;
     let tempb2 = mm_xor_si128 S tempb1 temp12;
     rs \<leftarrow> wr rs q tempb2;
     Some (rs, ac) }"

definition case1 :: "bool \<Rightarrow> sse \<Rightarrow> u128 list \<Rightarrow> u128 list \<Rightarrow> u64 \<Rightarrow> nat \<Rightarrow> nat \<Rightarrow> nat \<Rightarrow> u128
    \<Rightarrow> (u128 list \<times> u128) option" where
  "case1 ARM S rs pb sel p q b ac = do {
     temp1 \<leftarrow> rd rs p;
     temp2 \<leftarrow> rd pb b;
     let add1 = mm_xor_si128 S temp1 temp2;
     let clprod1 = mm_clmulepi64_si128 S add1 add1 0x10;
     let ac = mm_xor_si128 S clprod1 ac;
     let clprod2 = mm_clmulepi64_si128 S temp2 temp2 0x10;
     let ac = mm_xor_si128 S clprod2 ac;
     let tempa1 = verus_mulhrs ARM ac temp1;
     let tempa2 = mm_xor_si128 S tempa1 temp1;
     temp12 \<leftarrow> rd rs q;
     rs \<leftarrow> wr rs q tempa2;
     temp22 \<leftarrow> rd_int pb (pbuf_other sel b);
     let add12 = mm_xor_si128 S temp12 temp22;
     let ac = mm_xor_si128 S add12 ac;
     let tempb1 = verus_mulhrs ARM ac temp12;
     rs \<leftarrow> wr rs p (mm_xor_si128 S tempb1 temp12);
     Some (rs, ac) }"

definition case2 :: "bool \<Rightarrow> sse \<Rightarrow> u128 list \<Rightarrow> u128 list \<Rightarrow> u64 \<Rightarrow> nat \<Rightarrow> nat \<Rightarrow> nat \<Rightarrow> u128
    \<Rightarrow> (u128 list \<times> u128) option" where
  "case2 ARM S rs pb sel p q b ac = do {
     temp1 \<leftarrow> rd rs q;
     temp2 \<leftarrow> rd pb b;
     let add1 = mm_xor_si128 S temp1 temp2;
     let ac = mm_xor_si128 S add1 ac;
     let tempa1 = verus_mulhrs ARM ac temp1;
     let tempa2 = mm_xor_si128 S tempa1 temp1;
     temp12 \<leftarrow> rd rs p;
     rs \<leftarrow> wr rs p tempa2;
     temp22 \<leftarrow> rd_int pb (pbuf_other sel b);
     let add12 = mm_xor_si128 S temp12 temp22;
     let clprod12 = mm_clmulepi64_si128 S add12 add12 0x10;
     let ac = mm_xor_si128 S clprod12 ac;
     let clprod22 = mm_clmulepi64_si128 S temp22 temp22 0x10;
     let ac = mm_xor_si128 S clprod22 ac;
     let tempb1 = verus_mulhrs ARM ac temp12;
     let tempb2 = mm_xor_si128 S tempb1 temp12;
     rs \<leftarrow> wr rs q tempb2;
     Some (rs, ac) }"

definition case3 :: "bool \<Rightarrow> sse \<Rightarrow> u128 list \<Rightarrow> u128 list \<Rightarrow> u64 \<Rightarrow> nat \<Rightarrow> nat \<Rightarrow> nat \<Rightarrow> u128
    \<Rightarrow> (u128 list \<times> u128) option" where
  "case3 ARM S rs pb sel p q b ac = do {
     temp1 \<leftarrow> rd rs p;
     temp2 \<leftarrow> rd_int pb (pbuf_other sel b);
     let add1 = mm_xor_si128 S temp1 temp2;
     let ac = mm_xor_si128 S add1 ac;
     let dividend = mm_cvtsi128_si64 S ac;
     m \<leftarrow> selector_modulo S dividend sel;
     let ac = mm_xor_si128 S m ac;
     let tempa1 = verus_mulhrs ARM ac temp1;
     let tempa2 = mm_xor_si128 S tempa1 temp1;
     if bit dividend 0 then do {
       temp12 \<leftarrow> rd rs q;
       rs \<leftarrow> wr rs q tempa2;
       temp22 \<leftarrow> rd pb b;
       let add12 = mm_xor_si128 S temp12 temp22;
       let clprod12 = mm_clmulepi64_si128 S add12 add12 0x10;
       let ac = mm_xor_si128 S clprod12 ac;
       let clprod22 = mm_clmulepi64_si128 S temp22 temp22 0x10;
       let ac = mm_xor_si128 S clprod22 ac;
       let tempb1 = verus_mulhrs ARM ac temp12;
       let tempb2 = mm_xor_si128 S tempb1 temp12;
       rs \<leftarrow> wr rs p tempb2;
       Some (rs, ac) }
     else do {
       x \<leftarrow> rd rs q;
       rs \<leftarrow> wr rs p x;
       rs \<leftarrow> wr rs q tempa2;
       y \<leftarrow> rd pb b;
       Some (rs, mm_xor_si128 S y ac) } }"

text \<open>Case 4 stages the load of \<open>prandex\<close> before the AES chain on ARM and loads it after it
  otherwise; the key is not written in between.\<close>

definition case4 :: "bool \<Rightarrow> sse \<Rightarrow> u128 list \<Rightarrow> u128 list \<Rightarrow> u64 \<Rightarrow> nat \<Rightarrow> nat \<Rightarrow> nat \<Rightarrow> u128
    \<Rightarrow> (u128 list \<times> u128) option" where
  "case4 ARM S rs pb sel p q b ac = do {
     let rc = drop p rs;
     staged_prandex \<leftarrow> rd rs q;
     temp1 \<leftarrow> rd_int pb (pbuf_other sel b);
     temp2 \<leftarrow> rd pb b;
     t \<leftarrow> AES2 S rc 0 (temp1, temp2);
     let t = MIX2 S t;
     t \<leftarrow> AES2 S rc 4 t;
     let t = MIX2 S t;
     t \<leftarrow> AES2 S rc 8 t;
     let (temp1, temp2) = MIX2 S t;
     let ac = mm_xor_si128 S temp2 (mm_xor_si128 S temp1 ac);
     tempa1 \<leftarrow> rd rs p;
     let tempa2 = verus_mulhrs ARM ac tempa1;
     late_prandex \<leftarrow> rd rs q;
     rs \<leftarrow> wr rs p (if ARM then staged_prandex else late_prandex);
     rs \<leftarrow> wr rs q (mm_xor_si128 S tempa1 tempa2);
     Some (rs, ac) }"

text \<open>The do-while loop of case 5, from \<open>rounds\<close> down to 0; \<open>rc\<close> is the index \<open>r\<close> into the key.\<close>

fun loop5 :: "sse \<Rightarrow> u128 list \<Rightarrow> u128 list \<Rightarrow> u64 \<Rightarrow> nat \<Rightarrow> int \<Rightarrow> nat \<Rightarrow> nat \<Rightarrow> nat \<Rightarrow> u128 \<Rightarrow> u128 option" where
  "loop5 S rs pb sel b buftmp rounds r aesroundoffset ac = do {
     (r, aesroundoffset, ac) \<leftarrow>
       (if bit sel (28 + rounds) then do {
          temp2 \<leftarrow> rd_int pb (if odd rounds then int b else buftmp);
          rc0 \<leftarrow> rd rs r;
          let add1 = mm_xor_si128 S rc0 temp2;
          let clprod1 = mm_clmulepi64_si128 S add1 add1 0x10;
          Some (r + 1, aesroundoffset, mm_xor_si128 S clprod1 ac) }
        else do {
          onekey \<leftarrow> rd rs r;
          let r = r + 1;
          temp2 \<leftarrow> rd_int pb (if odd rounds then buftmp else int b);
          t \<leftarrow> AES2 S (drop r rs) aesroundoffset (onekey, temp2);
          let aesroundoffset = aesroundoffset + 4;
          let (onekey, temp2) = MIX2 S t;
          let ac = mm_xor_si128 S onekey ac;
          Some (r, aesroundoffset, mm_xor_si128 S temp2 ac) });
     (case rounds of 0 \<Rightarrow> Some ac
      | Suc n \<Rightarrow> loop5 S rs pb sel b buftmp n r aesroundoffset ac) }"

definition case5 :: "bool \<Rightarrow> sse \<Rightarrow> u128 list \<Rightarrow> u128 list \<Rightarrow> u64 \<Rightarrow> nat \<Rightarrow> nat \<Rightarrow> nat \<Rightarrow> u128
    \<Rightarrow> (u128 list \<times> u128) option" where
  "case5 ARM S rs pb sel p q b ac = do {
     let buftmp = pbuf_other sel b;
     let rounds = unat (drop_bit 61 sel);
     ac \<leftarrow> loop5 S rs pb sel b buftmp rounds p 0 ac;
     tempa1 \<leftarrow> rd rs p;
     let tempa2 = verus_mulhrs ARM ac tempa1;
     let tempa3 = mm_xor_si128 S tempa1 tempa2;
     tempa4 \<leftarrow> rd rs q;
     rs \<leftarrow> wr rs q tempa3;
     rs \<leftarrow> wr rs p tempa4;
     Some (rs, ac) }"

text \<open>The loop of case 6 returns the accumulator and the last \<open>onekey\<close>.\<close>

fun loop6 :: "bool \<Rightarrow> sse \<Rightarrow> u128 list \<Rightarrow> u128 list \<Rightarrow> u64 \<Rightarrow> nat \<Rightarrow> int \<Rightarrow> nat \<Rightarrow> nat \<Rightarrow> u128
    \<Rightarrow> (u128 \<times> u128) option" where
  "loop6 ARM S rs pb sel b buftmp rounds r ac = do {
     (onekey, ac) \<leftarrow>
       (if bit sel (28 + rounds) then do {
          temp2 \<leftarrow> rd_int pb (if odd rounds then int b else buftmp);
          rc0 \<leftarrow> rd rs r;
          let onekey = mm_xor_si128 S rc0 temp2;
          let dividend = mm_cvtsi128_si64 S onekey;
          m \<leftarrow> selector_modulo S dividend sel;
          Some (onekey, mm_xor_si128 S m ac) }
        else do {
          temp2 \<leftarrow> rd_int pb (if odd rounds then buftmp else int b);
          rc0 \<leftarrow> rd rs r;
          let add1 = mm_xor_si128 S rc0 temp2;
          let onekey = mm_clmulepi64_si128 S add1 add1 0x10;
          let clprod2 = verus_mulhrs ARM ac onekey;
          Some (onekey, mm_xor_si128 S clprod2 ac) });
     (case rounds of 0 \<Rightarrow> Some (onekey, ac)
      | Suc n \<Rightarrow> loop6 ARM S rs pb sel b buftmp n (r + 1) ac) }"

definition case6 :: "bool \<Rightarrow> sse \<Rightarrow> u128 list \<Rightarrow> u128 list \<Rightarrow> u64 \<Rightarrow> nat \<Rightarrow> nat \<Rightarrow> nat \<Rightarrow> u128
    \<Rightarrow> (u128 list \<times> u128) option" where
  "case6 ARM S rs pb sel p q b ac = do {
     let buftmp = pbuf_other sel b;
     let rounds = unat (drop_bit 61 sel);
     (onekey, ac) \<leftarrow> loop6 ARM S rs pb sel b buftmp rounds p ac;
     tempa3 \<leftarrow> rd rs q;
     rs \<leftarrow> wr rs q onekey;
     rs \<leftarrow> wr rs p (mm_xor_si128 S tempa3 ac);
     Some (rs, ac) }"

definition case7 :: "bool \<Rightarrow> sse \<Rightarrow> u128 list \<Rightarrow> u128 list \<Rightarrow> u64 \<Rightarrow> nat \<Rightarrow> nat \<Rightarrow> nat \<Rightarrow> u128
    \<Rightarrow> (u128 list \<times> u128) option" where
  "case7 ARM S rs pb sel p q b ac = do {
     temp1 \<leftarrow> rd pb b;
     temp2 \<leftarrow> rd rs q;
     let add1 = mm_xor_si128 S temp1 temp2;
     let clprod1 = mm_clmulepi64_si128 S add1 add1 0x10;
     let ac = mm_xor_si128 S clprod1 ac;
     let tempa1 = verus_mulhrs ARM ac temp2;
     let tempa2 = mm_xor_si128 S tempa1 temp2;
     tempa3 \<leftarrow> rd rs p;
     rs \<leftarrow> wr rs p tempa2;
     let ac = mm_xor_si128 S tempa3 ac;
     temp4 \<leftarrow> rd_int pb (pbuf_other sel b);
     let ac = mm_xor_si128 S temp4 ac;
     let tempb1 = verus_mulhrs ARM ac tempa3;
     rs \<leftarrow> wr rs q (mm_xor_si128 S tempb1 tempa3);
     Some (rs, ac) }"

text \<open>The switch on \<open>(selector >> 2) & 7\<close>.\<close>

definition clhash_switch :: "bool \<Rightarrow> sse \<Rightarrow> nat \<Rightarrow> u128 list \<Rightarrow> u128 list \<Rightarrow> u64 \<Rightarrow> nat \<Rightarrow> nat \<Rightarrow> nat
    \<Rightarrow> u128 \<Rightarrow> (u128 list \<times> u128) option" where
  "clhash_switch ARM S c =
     (if c = 0 then case0 ARM S else if c = 1 then case1 ARM S
      else if c = 2 then case2 ARM S else if c = 3 then case3 ARM S
      else if c = 4 then case4 ARM S else if c = 5 then case5 ARM S
      else if c = 6 then case6 ARM S else case7 ARM S)"

text \<open>The log of one step: the packed indices on ARM; otherwise the two entries and their indices.\<close>

definition log_step :: "bool \<Rightarrow> clhash_lane \<Rightarrow> nat \<Rightarrow> u32 \<Rightarrow> u32 \<Rightarrow> clhash_lane option" where
  "log_step ARM lane i prand_idx prandex_idx =
     (if ARM then do {
        t \<leftarrow> wr (touched lane) i (prand_idx OR push_bit 16 prandex_idx);
        Some (lane\<lparr>touched := t\<rparr>) }
      else do {
        x \<leftarrow> rd (randomsource lane) (unat prand_idx);
        gp \<leftarrow> wr (g_prand lane) i x;
        y \<leftarrow> rd (randomsource lane) (unat prandex_idx);
        gx \<leftarrow> wr (g_prandex lane) i y;
        fr \<leftarrow> wr (fixrand lane) i prand_idx;
        fx \<leftarrow> wr (fixrandex lane) i prandex_idx;
        Some (lane\<lparr>g_prand := gp, g_prandex := gx, fixrand := fr, fixrandex := fx\<rparr>) })"

definition clhash_step :: "bool \<Rightarrow> sse \<Rightarrow> clhash_lane \<Rightarrow> nat \<Rightarrow> clhash_lane option" where
  "clhash_step ARM S lane i = do {
     let selector = mm_cvtsi128_si64 S (acc lane);
     let prand_idx = (ucast (drop_bit 5 selector AND keyMask lane) :: u32);
     let prandex_idx = (ucast (drop_bit 32 selector AND keyMask lane) :: u32);
     let b = unat (selector AND 3);
     lane \<leftarrow> log_step ARM lane i prand_idx prandex_idx;
     (rs, a) \<leftarrow> clhash_switch ARM S (unat (drop_bit 2 selector AND 7))
                  (randomsource lane) (pbuf_copy lane) selector
                  (unat prand_idx) (unat prandex_idx) b (acc lane);
     Some (lane\<lparr>randomsource := rs, acc := a\<rparr>) }"

text \<open>The loop \<open>for (i = from; i < from + n; ++i)\<close> of the steps.\<close>

fun clhash_steps :: "bool \<Rightarrow> sse \<Rightarrow> nat \<Rightarrow> nat \<Rightarrow> clhash_lane \<Rightarrow> clhash_lane option" where
  "clhash_steps ARM S i 0 lane = Some lane"
| "clhash_steps ARM S i (Suc n) lane = do {
     lane \<leftarrow> clhash_step ARM S lane i;
     clhash_steps ARM S (i + 1) n lane }"

text \<open>\<open>__verusclmulwithoutreduction64alignedrepeatv2_2\<close>: the final lane (its \<open>acc\<close> is the value
  returned, its arrays are the memory left behind).\<close>

definition verusclmul_v2_2 ::
  "bool \<Rightarrow> sse \<Rightarrow> u128 list \<Rightarrow> u128 list \<Rightarrow> u64 \<Rightarrow> u32 list \<Rightarrow> u32 list \<Rightarrow> u128 list \<Rightarrow> u128 list
    \<Rightarrow> clhash_lane option" where
  "verusclmul_v2_2 ARM S rs buf kmask frand frandex gprand gprandex = do {
     lane \<leftarrow> init_lane ARM S rs buf kmask frand frandex gprand gprandex;
     clhash_steps ARM S 0 32 lane }"

text \<open>The 64 bytes of the buffer read as four vectors.\<close>

definition as_vectors :: "bytes \<Rightarrow> u128 list option" where
  "as_vectors buf = do {
     (a, b, c, d) \<leftarrow> LOAD4 buf 0;
     Some [a, b, c, d] }"

definition verusclhashv2_2 ::
  "bool \<Rightarrow> sse \<Rightarrow> u128 list \<Rightarrow> bytes \<Rightarrow> u32 list \<Rightarrow> u32 list \<Rightarrow> u128 list \<Rightarrow> u128 list
    \<Rightarrow> (u64 \<times> clhash_lane) option" where
  "verusclhashv2_2 ARM S random buf frand frandex gprand gprandex = do {
     v \<leftarrow> as_vectors buf;
     lane \<leftarrow> verusclmul_v2_2 ARM S random v 511 frand frandex gprand gprandex;
     let a = mm_xor_si128 S (acc lane) (mm_cvtsi64_si128 S 0x10000);
     Some (precompReduction64 ARM S a, lane) }"

text \<open>The interleaved kernel: one step of lane 0, one step of lane 1, 32 times.\<close>

fun dual_steps :: "sse \<Rightarrow> nat \<Rightarrow> nat \<Rightarrow> clhash_lane \<Rightarrow> clhash_lane \<Rightarrow> (clhash_lane \<times> clhash_lane) option" where
  "dual_steps S i 0 lane0 lane1 = Some (lane0, lane1)"
| "dual_steps S i (Suc n) lane0 lane1 = do {
     lane0 \<leftarrow> clhash_step True S lane0 i;
     lane1 \<leftarrow> clhash_step True S lane1 i;
     dual_steps S (i + 1) n lane0 lane1 }"

definition verusclhashv2_2_dual ::
  "sse \<Rightarrow> u128 list \<Rightarrow> bytes \<Rightarrow> u32 list \<Rightarrow> u128 list \<Rightarrow> bytes \<Rightarrow> u32 list
    \<Rightarrow> ((u64 \<times> clhash_lane) \<times> (u64 \<times> clhash_lane)) option" where
  "verusclhashv2_2_dual S random0 buf0 touched0 random1 buf1 touched1 = do {
     v0 \<leftarrow> as_vectors buf0;
     v1 \<leftarrow> as_vectors buf1;
     lane0 \<leftarrow> init_lane True S random0 v0 511 touched0 [] [] [];
     lane1 \<leftarrow> init_lane True S random1 v1 511 touched1 [] [] [];
     (lane0, lane1) \<leftarrow> dual_steps S 0 32 lane0 lane1;
     let length_hash = mm_cvtsi64_si128 S 0x10000;
     Some ((precompReduction64 True S (mm_xor_si128 S (acc lane0) length_hash), lane0),
           (precompReduction64 True S (mm_xor_si128 S (acc lane1) length_hash), lane1)) }"

section \<open>No step leaves its objects\<close>

lemma unat_take_bit_less: "unat (take_bit n (x :: 'a::len word)) < 2 ^ n"
  by (simp add: unsigned_take_bit_eq take_bit_nat_less_exp)

lemma unat_and_511: "unat (ucast ((x :: u64) AND 511) :: u32) < 512"
proof -
  have "x AND 511 = take_bit 9 x" by (simp add: take_bit_eq_mask mask_eq_exp_minus_1)
  then have "unat (x AND 511) < 512" using unat_take_bit_less [of 9 x] by simp
  moreover from this have "unat (ucast (x AND 511) :: u32) = unat (x AND 511)"
    by (simp add: unsigned_ucast_eq take_bit_nat_eq_self)
  ultimately show ?thesis by simp
qed

lemma unat_and_3: "unat ((x :: u64) AND 3) < 4"
  using unat_take_bit_less [of 2 x] by (simp add: take_bit_eq_mask mask_eq_exp_minus_1)

lemma unat_and_7: "unat ((x :: u64) AND 7) < 8"
  using unat_take_bit_less [of 3 x] by (simp add: take_bit_eq_mask mask_eq_exp_minus_1)

lemma unat_shift_61: "unat (drop_bit 61 (x :: u64)) < 8"
proof -
  have "unat (drop_bit 61 x) = unat x div 2 ^ 61" by (subst unat_drop_bit_eq) (simp add: drop_bit_eq_div)
  then show ?thesis using unsigned_less [of x, where ?'a = nat] by simp
qed

text \<open>The other half of a pair of buffer entries is always inside the four entries.\<close>

lemma pbuf_other_bounds:
  assumes "b = unat ((sel :: u64) AND 3)"
  shows "0 \<le> pbuf_other sel b \<and> pbuf_other sel b < 4"
proof -
  have "bit (sel AND 3) 0 = bit sel 0" by (simp only: bit_and_iff) (simp add: bit_0)
  moreover have "bit (unat (sel AND 3)) 0 = bit (sel AND 3) 0" by (simp only: bit_unsigned_iff) simp
  ultimately have "odd b = bit sel 0" using assms by (simp add: bit_0)
  moreover have "b < 4" using unat_and_3 [of sel] assms by (simp only:)
  ultimately show ?thesis
    by (cases "bit sel 0") (auto simp: pbuf_other_def elim!: oddE evenE)
qed

text \<open>In the cases that divide, the divisor is neither 0 nor -1.\<close>

lemma selector_modulo_total:
  assumes "unat (drop_bit 2 (sel :: u64) AND 7) = c" "c = 3 \<or> c = 6"
  shows "\<exists>m. selector_modulo S d sel = Some m"
proof -
  let ?v = "scast (ucast sel :: u32) :: u64"
  have "of_nat (unat (drop_bit 2 sel AND 7)) = drop_bit 2 sel AND 7" by simp
  then have e: "drop_bit 2 sel AND 7 = of_nat c" by (simp only: assms(1))
  have b: "bit ?v k = bit sel k" if "k < 31" for k
    using that by (simp add: bit_signed_iff bit_ucast_iff min_def)
  have d: "bit (drop_bit 2 sel AND 7) k = bit sel (2 + k)" if "k < 3" for k
  proof -
    have "bit (7 :: u64) k" using that by (auto simp: less_Suc_eq numeral_eq_Suc bit_Suc)
    then show ?thesis by (simp add: bit_and_iff bit_drop_bit_eq)
  qed
  have "bit sel 3" "\<not> bit sel 2 \<or> \<not> bit sel 4"
    using assms(2) d [of 0] d [of 1] d [of 2] unfolding e by (auto simp: bit_0 bit_Suc)
  then have "bit ?v 3" "\<not> bit ?v 2 \<or> \<not> bit ?v 4" using b by auto
  then have "?v \<noteq> 0" "?v \<noteq> - 1" by (auto simp: bit_minus_1_iff)
  moreover have "?v = - 1" if "sint ?v = - 1"
    using arg_cong [OF that, of "word_of_int :: int \<Rightarrow> u64"] by simp
  ultimately show ?thesis by (auto simp: selector_modulo_def c_mod64_def Let_def)
qed

text \<open>A step rewrites_at the key at its two indices and nowhere else.\<close>

definition rewrites_at :: "u128 list \<Rightarrow> nat \<Rightarrow> nat \<Rightarrow> u128 list \<Rightarrow> bool" where
  "rewrites_at rs p q rs' \<longleftrightarrow> length rs' = length rs \<and> (\<forall>k < length rs. k \<noteq> p \<longrightarrow> k \<noteq> q \<longrightarrow> rs' ! k = rs ! k)"

lemma rewrites_at_upd [simp]:
  "rewrites_at rs p q (rs[p := x, q := y])" "rewrites_at rs p q (rs[q := y, p := x])"
  by (simp_all add: rewrites_at_def)

text \<open>What every case of the switch promises about memory.\<close>

definition case_ok :: "u128 list \<Rightarrow> nat \<Rightarrow> nat \<Rightarrow> (u128 list \<times> u128) option \<Rightarrow> bool" where
  "case_ok rs p q res \<longleftrightarrow> (\<exists>rs' a. res = Some (rs', a) \<and> rewrites_at rs p q rs')"

lemma case_okI: "res = Some (rs', a) \<Longrightarrow> rewrites_at rs p q rs' \<Longrightarrow> case_ok rs p q res"
  by (auto simp: case_ok_def)

lemma case0_ok:
  assumes "p < length rs" "q < length rs" "b < length pb"
    "0 \<le> pbuf_other sel b" "nat (pbuf_other sel b) < length pb"
  shows "case_ok rs p q (case0 ARM S rs pb sel p q b ac)"
  using assms by (simp add: case_ok_def case0_def mem_simps Let_def)

lemma case1_ok:
  assumes "p < length rs" "q < length rs" "b < length pb"
    "0 \<le> pbuf_other sel b" "nat (pbuf_other sel b) < length pb"
  shows "case_ok rs p q (case1 ARM S rs pb sel p q b ac)"
  using assms by (simp add: case_ok_def case1_def mem_simps Let_def)

lemma case2_ok:
  assumes "p < length rs" "q < length rs" "b < length pb"
    "0 \<le> pbuf_other sel b" "nat (pbuf_other sel b) < length pb"
  shows "case_ok rs p q (case2 ARM S rs pb sel p q b ac)"
  using assms by (simp add: case_ok_def case2_def mem_simps Let_def)

lemma case3_ok:
  assumes "p < length rs" "q < length rs" "b < length pb"
    "0 \<le> pbuf_other sel b" "nat (pbuf_other sel b) < length pb"
    and "\<And>d. \<exists>m. selector_modulo S d sel = Some m"
  shows "case_ok rs p q (case3 ARM S rs pb sel p q b ac)"
proof -
  obtain f where f: "\<And>d. selector_modulo S d sel = Some (f d)" using assms(6) by metis
  show ?thesis using assms(1-5) by (simp add: case_ok_def case3_def mem_simps Let_def f)
qed

lemma case7_ok:
  assumes "p < length rs" "q < length rs" "b < length pb"
    "0 \<le> pbuf_other sel b" "nat (pbuf_other sel b) < length pb"
  shows "case_ok rs p q (case7 ARM S rs pb sel p q b ac)"
  using assms by (simp add: case_ok_def case7_def mem_simps Let_def)

lemma case4_ok:
  assumes "p + 12 \<le> length rs" "q < length rs" "b < length pb"
    "0 \<le> pbuf_other sel b" "nat (pbuf_other sel b) < length pb"
  shows "case_ok rs p q (case4 ARM S rs pb sel p q b ac)"
proof -
  have aes: "\<exists>t. AES2 S (drop p rs) k s = Some t" if "k \<le> 8" for k s
    using AES2_total [of k "drop p rs" S s] assms(1) that by auto
  then obtain f where f: "\<And>k s. k \<le> 8 \<Longrightarrow> AES2 S (drop p rs) k s = Some (f k s)" by metis
  show ?thesis using assms by (simp add: case_ok_def case4_def mem_simps Let_def f split: prod.split)
qed

text \<open>Case 5 reads at most 40 entries from \<open>prand\<close> on: 8 rounds of one entry, and of four round
  constants behind it.\<close>

declare loop5.simps [simp del] loop6.simps [simp del]

lemma AES2_drop_total:
  "r + off + 4 \<le> length rs \<Longrightarrow> \<exists>f. \<forall>s. AES2 S (drop r rs) off s = Some (f s)"
  using AES2_total [of off "drop r rs" S] by (intro choice) auto

lemma loop5_total:
  assumes "b < length pb" "0 \<le> t" "nat t < length pb" "r + off + 5 * (rounds + 1) \<le> length rs"
  shows "\<exists>a. loop5 S rs pb sel b t rounds r off ac = Some a"
  using assms
proof (induction rounds arbitrary: r off ac)
  case 0
  then obtain f where "\<And>s. AES2 S (drop (Suc r) rs) off s = Some (f s)"
    using AES2_drop_total [of "Suc r" off rs S] by auto
  then show ?case using "0.prems"
    by (subst loop5.simps) (simp add: mem_simps Let_def split: prod.split)
next
  case (Suc n)
  then obtain f where "\<And>s. AES2 S (drop (Suc r) rs) off s = Some (f s)"
    using AES2_drop_total [of "Suc r" off rs S] by auto
  then show ?case using Suc.prems Suc.IH
    by (subst loop5.simps) (simp add: mem_simps Let_def split: prod.split)
qed

lemma loop6_total:
  assumes "b < length pb" "0 \<le> t" "nat t < length pb" "r + rounds < length rs"
    and m: "\<And>d. \<exists>m. selector_modulo S d sel = Some m"
  shows "\<exists>a. loop6 ARM S rs pb sel b t rounds r ac = Some a"
proof -
  obtain f where f: "\<And>d. selector_modulo S d sel = Some (f d)" using m by metis
  show ?thesis using assms(1-4)
  proof (induction rounds arbitrary: r ac)
    case 0
    then show ?case by (subst loop6.simps) (simp add: mem_simps Let_def f)
  next
    case (Suc n)
    then show ?case by (subst loop6.simps) (simp add: mem_simps Let_def f)
  qed
qed

lemma case5_ok:
  assumes "p + 40 \<le> length rs" "q < length rs" "b < length pb"
    "0 \<le> pbuf_other sel b" "nat (pbuf_other sel b) < length pb"
  shows "case_ok rs p q (case5 ARM S rs pb sel p q b ac)"
proof -
  have "\<exists>a. loop5 S rs pb sel b (pbuf_other sel b) (unat (drop_bit 61 sel)) p 0 ac = Some a"
    using assms unat_shift_61 [of sel] by (intro loop5_total) auto
  then show ?thesis
    using assms by (auto simp: case_ok_def case5_def mem_simps Let_def)
qed

lemma case6_ok:
  assumes "p + 8 \<le> length rs" "q < length rs" "b < length pb"
    "0 \<le> pbuf_other sel b" "nat (pbuf_other sel b) < length pb"
    and "\<And>d. \<exists>m. selector_modulo S d sel = Some m"
  shows "case_ok rs p q (case6 ARM S rs pb sel p q b ac)"
proof -
  have "\<exists>a. loop6 ARM S rs pb sel b (pbuf_other sel b) (unat (drop_bit 61 sel)) p ac = Some a"
    using assms unat_shift_61 [of sel] by (intro loop6_total) auto
  then show ?thesis
    using assms by (auto simp: case_ok_def case6_def mem_simps Let_def)
qed

lemma switch_ok:
  assumes p: "p < 512" and q: "q < 512" and rs: "length rs = 552" and pb: "length pb = 4"
  shows "case_ok rs p q (clhash_switch ARM S (unat (drop_bit 2 sel AND 7)) rs pb sel p q
           (unat (sel AND 3)) ac)"
proof -
  let ?c = "unat (drop_bit 2 sel AND 7)" and ?b = "unat (sel AND 3)"
  have b: "?b < length pb" "0 \<le> pbuf_other sel ?b" "nat (pbuf_other sel ?b) < length pb"
    using unat_and_3 [of sel] pbuf_other_bounds [OF refl, of sel] pb by auto
  have m: "\<exists>m. selector_modulo S d sel = Some m" if "?c = 3 \<or> ?c = 6" for d
    using selector_modulo_total [OF refl that] .
  have "?c = 0 \<or> ?c = 1 \<or> ?c = 2 \<or> ?c = 3 \<or> ?c = 4 \<or> ?c = 5 \<or> ?c = 6 \<or> ?c = 7"
    using unat_and_7 [of "drop_bit 2 sel"] by linarith
  then show ?thesis
    using b m p q rs unfolding clhash_switch_def
    by (elim disjE) (simp_all add: case0_ok case1_ok case2_ok case3_ok case4_ok case5_ok case6_ok case7_ok)
qed

section \<open>The run of 32 steps\<close>

definition wf_lane :: "bool \<Rightarrow> clhash_lane \<Rightarrow> bool" where
  "wf_lane ARM lane \<longleftrightarrow>
     length (randomsource lane) = 552 \<and> keyMask lane = 511 \<and> length (pbuf_copy lane) = 4 \<and>
     (if ARM then length (touched lane) = 32
      else length (fixrand lane) = 32 \<and> length (fixrandex lane) = 32 \<and>
           length (g_prand lane) = 32 \<and> length (g_prandex lane) = 32)"

text \<open>The entry logs a step leaves: its two indices, below 512, and before them what was there.\<close>

lemma log_step_total:
  assumes "wf_lane ARM lane" "i < 32" "unat pi < 512" "unat qi < 512"
  shows "\<exists>l. log_step ARM lane i pi qi = Some l \<and> wf_lane ARM l \<and>
     randomsource l = randomsource lane \<and> acc l = acc lane \<and> pbuf_copy l = pbuf_copy lane"
  using assms by (auto simp: wf_lane_def log_step_def mem_simps)

lemma step_total:
  assumes wf: "wf_lane ARM lane" and i: "i < 32"
  obtains lane' pi qi where "clhash_step ARM S lane i = Some lane'" "wf_lane ARM lane'"
    "unat (pi :: u32) < 512" "unat (qi :: u32) < 512"
    "rewrites_at (randomsource lane) (unat pi) (unat qi) (randomsource lane')"
    "ARM \<Longrightarrow> touched lane' = (touched lane)[i := pi OR push_bit 16 qi]"
    "\<not> ARM \<Longrightarrow> fixrand lane' = (fixrand lane)[i := pi] \<and> fixrandex lane' = (fixrandex lane)[i := qi] \<and>
       g_prand lane' = (g_prand lane)[i := randomsource lane ! unat pi] \<and>
       g_prandex lane' = (g_prandex lane)[i := randomsource lane ! unat qi]"
proof -
  let ?sel = "mm_cvtsi128_si64 S (acc lane)"
  let ?pi = "ucast (drop_bit 5 ?sel AND keyMask lane) :: u32"
  let ?qi = "ucast (drop_bit 32 ?sel AND keyMask lane) :: u32"
  have k: "keyMask lane = 511" using wf by (simp add: wf_lane_def)
  have b: "unat ?pi < 512" "unat ?qi < 512" unfolding k by (rule unat_and_511)+
  obtain l where l: "log_step ARM lane i ?pi ?qi = Some l" "wf_lane ARM l"
    "randomsource l = randomsource lane" "acc l = acc lane" "pbuf_copy l = pbuf_copy lane"
    using log_step_total [OF wf i b] by blast
  have "case_ok (randomsource l) (unat ?pi) (unat ?qi)
      (clhash_switch ARM S (unat (drop_bit 2 ?sel AND 7)) (randomsource l) (pbuf_copy l) ?sel
        (unat ?pi) (unat ?qi) (unat (?sel AND 3)) (acc l))"
    using l(2) b by (intro switch_ok) (simp_all add: wf_lane_def)
  then obtain rs a where c: "clhash_switch ARM S (unat (drop_bit 2 ?sel AND 7)) (randomsource l)
      (pbuf_copy l) ?sel (unat ?pi) (unat ?qi) (unat (?sel AND 3)) (acc l) = Some (rs, a)"
    "rewrites_at (randomsource l) (unat ?pi) (unat ?qi) rs"
    unfolding case_ok_def by blast
  have s: "clhash_step ARM S lane i = Some (l\<lparr>randomsource := rs, acc := a\<rparr>)"
    by (simp add: clhash_step_def Let_def l(1) c(1))
  show thesis
  proof (rule that [OF s _ b])
    show "wf_lane ARM (l\<lparr>randomsource := rs, acc := a\<rparr>)"
      using l(2) c(2) by (simp add: wf_lane_def rewrites_at_def)
    show "rewrites_at (randomsource lane) (unat ?pi) (unat ?qi)
        (randomsource (l\<lparr>randomsource := rs, acc := a\<rparr>))"
      using c(2) l(3) by simp
  qed (use wf i b l(1) in \<open>auto simp: log_step_def wf_lane_def mem_simps\<close>)
qed

text \<open>The packed log entry of ARM and its two halves.\<close>

lemma bit_small: "unat (w :: u32) < 512 \<Longrightarrow> bit w k \<Longrightarrow> k < 9"
proof -
  assume "unat w < 512"
  then have "take_bit 9 (unat w) = unat w" by (simp add: take_bit_nat_eq_self)
  then have "unat (take_bit 9 w) = unat w" by (simp add: unsigned_take_bit_eq)
  then have "take_bit 9 w = w" by (simp only: word_unat_eq_iff)
  moreover assume "bit w k"
  ultimately show "k < 9" by (metis bit_take_bit_iff)
qed

lemma packed_first: "unat (pi :: u32) < 512 \<Longrightarrow> (pi OR push_bit 16 qi) AND 0xffff = pi"
proof -
  assume pi: "unat pi < 512"
  have "(pi OR push_bit 16 qi) AND 0xffff = take_bit 16 (pi OR push_bit 16 qi)"
    by (simp add: take_bit_eq_mask mask_eq_exp_minus_1)
  also have "\<dots> = pi"
    by (intro bit_word_eqI)
      (fastforce simp: bit_take_bit_iff bit_or_iff bit_push_bit_iff dest: bit_small [OF pi])
  finally show ?thesis .
qed

lemma packed_second:
  "unat (pi :: u32) < 512 \<Longrightarrow> unat qi < 512 \<Longrightarrow> drop_bit 16 (pi OR push_bit 16 qi) = qi"
  using bit_small [of pi] bit_small [of qi]
  by (intro bit_word_eqI) (force simp: bit_drop_bit_eq bit_or_iff bit_push_bit_iff)

abbreviation first_of :: "u32 list \<Rightarrow> nat \<Rightarrow> nat" where
  "first_of t j \<equiv> unat (t ! j AND 0xffff)"

abbreviation second_of :: "u32 list \<Rightarrow> nat \<Rightarrow> nat" where
  "second_of t j \<equiv> unat (drop_bit 16 (t ! j))"

text \<open>A run returns, and the packed log covers every key entry it changed.\<close>

lemma steps_total:
  assumes "wf_lane ARM lane" "i + n \<le> 32"
  shows "\<exists>lane'. clhash_steps ARM S i n lane = Some lane' \<and> wf_lane ARM lane'"
  using assms
proof (induction n arbitrary: i lane)
  case (Suc n)
  then have "i < 32" by simp
  obtain l where "clhash_step ARM S lane i = Some l" "wf_lane ARM l"
    using step_total [OF Suc.prems(1) \<open>i < 32\<close>] by blast
  with Suc show ?case by simp
qed simp

definition log_covers :: "nat \<Rightarrow> nat \<Rightarrow> clhash_lane \<Rightarrow> clhash_lane \<Rightarrow> bool" where
  "log_covers i n lane lane' \<longleftrightarrow>
     (\<forall>j < 32. j < i \<or> i + n \<le> j \<longrightarrow> touched lane' ! j = touched lane ! j) \<and>
     (\<forall>j. i \<le> j \<and> j < i + n \<longrightarrow> first_of (touched lane') j < 512 \<and> second_of (touched lane') j < 512) \<and>
     (\<forall>k < 552. (\<forall>j. i \<le> j \<and> j < i + n \<longrightarrow> k \<noteq> first_of (touched lane') j \<and> k \<noteq> second_of (touched lane') j)
        \<longrightarrow> randomsource lane' ! k = randomsource lane ! k)"

lemma step_log_covers:
  assumes "wf_lane True lane" "i < 32" "clhash_step True S lane i = Some lane'"
  shows "log_covers i 1 lane lane'"
proof -
  obtain pi qi :: u32 where b: "unat pi < 512" "unat qi < 512"
    and r: "rewrites_at (randomsource lane) (unat pi) (unat qi) (randomsource lane')"
    and t: "touched lane' = (touched lane)[i := pi OR push_bit 16 qi]"
    using step_total [OF assms(1,2), of S] assms(3) by (metis option.inject)
  have "touched lane' ! i = pi OR push_bit 16 qi"
    using assms(1,2) by (simp add: t wf_lane_def)
  then have "first_of (touched lane') i = unat pi" "second_of (touched lane') i = unat qi"
    by (simp_all only: packed_first packed_second b)
  then show ?thesis
    using assms(1) b r t by (auto simp: log_covers_def wf_lane_def rewrites_at_def less_Suc_eq_le
        nth_list_update le_antisym)
qed

lemma log_covers_one:
  assumes "log_covers i 1 a b" "k < 552" "k \<noteq> first_of (touched b) i" "k \<noteq> second_of (touched b) i"
  shows "randomsource b ! k = randomsource a ! k"
proof -
  have "\<forall>j. i \<le> j \<and> j < i + 1 \<longrightarrow> k \<noteq> first_of (touched b) j \<and> k \<noteq> second_of (touched b) j"
    using assms(3,4) by (metis le_antisym less_Suc_eq_le Suc_eq_plus1)
  with assms(1,2) show ?thesis unfolding log_covers_def by blast
qed

lemma log_covers_trans:
  assumes "log_covers i 1 a b" "log_covers (Suc i) n b c" "i + Suc n \<le> 32"
  shows "log_covers i (Suc n) a c"
proof -
  have "touched c ! i = touched b ! i" using assms by (auto simp: log_covers_def)
  then have *: "randomsource b ! k = randomsource a ! k"
    if "k < 552" "k \<noteq> first_of (touched c) i" "k \<noteq> second_of (touched c) i" for k
    using log_covers_one [OF assms(1) that(1)] that by simp
  show ?thesis
    unfolding log_covers_def
  proof (intro conjI allI impI, goal_cases)
    case (1 j)
    then show ?case using assms unfolding log_covers_def by auto
  next
    case (2 j)
    then show ?case using assms \<open>touched c ! i = touched b ! i\<close> unfolding log_covers_def
      by (cases "j = i") auto
  next
    case (3 j)
    then show ?case using assms \<open>touched c ! i = touched b ! i\<close> unfolding log_covers_def
      by (cases "j = i") auto
  next
    case (4 k)
    then have "randomsource c ! k = randomsource b ! k"
      using assms(2) unfolding log_covers_def by auto
    with 4 * show ?case by auto
  qed
qed

lemma steps_log_covers:
  assumes "wf_lane True lane" "i + n \<le> 32" "clhash_steps True S i n lane = Some lane'"
  shows "log_covers i n lane lane'"
  using assms
proof (induction n arbitrary: i lane)
  case 0
  then show ?case by (simp add: log_covers_def)
next
  case (Suc n)
  then have "i < 32" by simp
  obtain l where l: "clhash_step True S lane i = Some l" "wf_lane True l"
    using step_total [OF Suc.prems(1) \<open>i < 32\<close>] by blast
  then have "log_covers (Suc i) n l lane'" using Suc by simp
  then show ?case
    using log_covers_trans [OF step_log_covers [OF Suc.prems(1) \<open>i < 32\<close> l(1)]] Suc.prems(2) by simp
qed

section \<open>The interleaved kernel and the two builds\<close>

lemma bind_commute:
  "Option.bind a (\<lambda>x. Option.bind b (\<lambda>y. f x y)) = Option.bind b (\<lambda>y. Option.bind a (\<lambda>x. f x y))"
  by (cases a; cases b) auto

lemma dual_steps_split:
  "dual_steps S i n l0 l1 = do {
     l0 \<leftarrow> clhash_steps True S i n l0;
     l1 \<leftarrow> clhash_steps True S i n l1;
     Some (l0, l1) }"
proof (induction n arbitrary: i l0 l1)
  case (Suc n)
  show ?case
    by (cases "clhash_step True S l0 i"; cases "clhash_step True S l1 i"; simp add: Suc)
qed simp

lemma verus_mulhrs_build: "verus_mulhrs ARM = verus_mulhrs False"
  by (intro ext) (simp add: verus_mulhrs_def verus_mulhrs_epi16_eq)

lemma loop6_build: "loop6 ARM S rs pb sel b t n r ac = loop6 False S rs pb sel b t n r ac"
proof (induction n arbitrary: r ac)
  case 0
  then show ?case by (subst (1 2) loop6.simps) (simp add: verus_mulhrs_build [of ARM])
next
  case (Suc n)
  then show ?case by (subst (1 2) loop6.simps) (simp add: verus_mulhrs_build [of ARM])
qed

lemma case4_build: "case4 ARM S rs pb sel p q b ac = case4 False S rs pb sel p q b ac"
  by (cases "rd rs q") (simp_all add: case4_def verus_mulhrs_build [of ARM])

lemma case3_build: "case3 ARM S rs pb sel p q b ac = case3 False S rs pb sel p q b ac"
  by (simp add: case3_def verus_mulhrs_build [of ARM] cong: if_cong)

lemma switch_build: "clhash_switch ARM S c rs pb sel p q b ac = clhash_switch False S c rs pb sel p q b ac"
  by (simp add: clhash_switch_def case0_def case1_def case2_def case3_build [of ARM] case4_build [of ARM]
      case5_def case6_def case7_def verus_mulhrs_build [of ARM] loop6_build [of ARM])

text \<open>What the two builds share of a lane: all but the logs.\<close>

definition same_work :: "clhash_lane \<Rightarrow> clhash_lane \<Rightarrow> bool" where
  "same_work l m \<longleftrightarrow> randomsource l = randomsource m \<and> keyMask l = keyMask m \<and>
     pbuf_copy l = pbuf_copy m \<and> acc l = acc m"

lemma log_step_same:
  "log_step ARM l i p q = Some l' \<Longrightarrow> same_work l' l"
  by (auto simp: log_step_def same_work_def bind_eq_Some_conv split: if_splits)

lemma step_build:
  assumes s: "same_work l m" and l: "clhash_step ARM S l i = Some l'"
    and m: "clhash_step False S m i = Some m'"
  shows "same_work l' m'"
  using l m s unfolding clhash_step_def Let_def bind_eq_Some_conv
  by (auto simp: switch_build [of ARM] same_work_def dest!: log_step_same)

lemma steps_build:
  assumes "same_work l m" "wf_lane ARM l" "wf_lane False m" "i + n \<le> 32"
    "clhash_steps ARM S i n l = Some l'" "clhash_steps False S i n m = Some m'"
  shows "same_work l' m'"
  using assms
proof (induction n arbitrary: i l m)
  case (Suc n)
  then have i: "i < 32" by simp
  obtain a where a: "clhash_step ARM S l i = Some a" "wf_lane ARM a"
    using step_total [OF Suc.prems(2) i] by blast
  obtain b where b: "clhash_step False S m i = Some b" "wf_lane False b"
    using step_total [OF Suc.prems(3) i] by blast
  have "same_work a b" using step_build [OF Suc.prems(1) a(1) b(1)] .
  then show ?case using Suc.IH [of a b "i + 1"] Suc.prems a b by simp
qed simp

lemma vextq_is_srli: "vextq_u8 a 0 n = mm_srli_si128 a n"
  by (simp add: vextq_u8_def mm_srli_si128_def)

lemma reduction_build: "precompReduction64 ARM S A = precompReduction64 False S A"
  by (cases ARM) (simp_all add: precompReduction64_def precompReduction64_si128_def vextq_is_srli Let_def)

text \<open>The whole keyed hash, on a key of 552 entries and a buffer of 64 bytes.\<close>

lemma init_lane_wf:
  assumes "length rs = 552" "length v = 4"
    "if ARM then length fr = 32 else length fr = 32 \<and> length fx = 32 \<and> length gp = 32 \<and> length gx = 32"
  obtains lane where "init_lane ARM S rs v 511 fr fx gp gx = Some lane" "wf_lane ARM lane"
    "randomsource lane = rs"
proof -
  have "unat (511 + 2 :: u64) = 513" by simp
  with assms show thesis
    by (intro that [of "the (init_lane ARM S rs v 511 fr fx gp gx)"])
      (auto simp: init_lane_def wf_lane_def mem_simps split: if_splits)
qed

lemma as_vectors_total: "64 \<le> length buf \<Longrightarrow> \<exists>v. as_vectors buf = Some v \<and> length v = 4"
  by (simp add: as_vectors_def LOAD4_Some)

lemma verusclhash_total:
  assumes "length rs = 552" "64 \<le> length buf"
    "if ARM then length fr = 32 else length fr = 32 \<and> length fx = 32 \<and> length gp = 32 \<and> length gx = 32"
  obtains v lane h lane' where "as_vectors buf = Some v"
    "init_lane ARM S rs v 511 fr fx gp gx = Some lane" "wf_lane ARM lane" "randomsource lane = rs"
    "clhash_steps ARM S 0 32 lane = Some lane'" "wf_lane ARM lane'"
    "verusclhashv2_2 ARM S rs buf fr fx gp gx = Some (h, lane')"
    "h = precompReduction64 ARM S (mm_xor_si128 S (acc lane') (mm_cvtsi64_si128 S 0x10000))"
proof -
  obtain v where v: "as_vectors buf = Some v" "length v = 4" using as_vectors_total [OF assms(2)] by blast
  obtain l where l: "init_lane ARM S rs v 511 fr fx gp gx = Some l" "wf_lane ARM l" "randomsource l = rs"
    using init_lane_wf [OF assms(1) v(2) assms(3)] by blast
  obtain m where m: "clhash_steps ARM S 0 32 l = Some m" "wf_lane ARM m"
    using steps_total [OF l(2), of 0 32] by auto
  show thesis
    by (rule that [OF v(1) l m]) (simp_all add: verusclhashv2_2_def verusclmul_v2_2_def v l m)
qed

lemma dual_split:
  "verusclhashv2_2_dual S random0 buf0 touched0 random1 buf1 touched1 = do {
     r0 \<leftarrow> verusclhashv2_2 True S random0 buf0 touched0 [] [] [];
     r1 \<leftarrow> verusclhashv2_2 True S random1 buf1 touched1 [] [] [];
     Some (r0, r1) }"
  unfolding verusclhashv2_2_dual_def verusclhashv2_2_def verusclmul_v2_2_def dual_steps_split Let_def
  by (auto split: bind_splits)

section \<open>Properties\<close>

text \<open>C12: the keyed hash has no undefined behaviour. For every key of 552 vectors, every 64-byte
  buffer and log arrays of 32 entries, on either build and whatever the vector operations compute,
  \<open>verusclhashv2_2\<close> returns: no step reads or writes outside the key, the buffer copy or the logs
  and no remainder is undefined. The key keeps its length.\<close>

theorem verusclhash_safe:
  assumes "length rs = 552" "64 \<le> length buf"
    "if ARM then length fr = 32 else length fr = 32 \<and> length fx = 32 \<and> length gp = 32 \<and> length gx = 32"
  shows "\<exists>h lane. verusclhashv2_2 ARM S rs buf fr fx gp gx = Some (h, lane) \<and>
    length (randomsource lane) = 552"
  by (rule verusclhash_total [OF assms, of S]) (auto simp: wf_lane_def)

theorem verusclhash_safe_witness:
  "\<exists>h lane. verusclhashv2_2 False sse_doc (replicate 552 3) (replicate 64 7) (replicate 32 0)
     (replicate 32 0) (replicate 32 0) (replicate 32 0) = Some (h, lane) \<and>
     length (randomsource lane) = 552"
  by (rule verusclhash_safe) simp_all

text \<open>C11: the two-lane kernel is two single hashes. \<open>verusclhashv2_2_dual\<close>, which interleaves the
  32 steps of two lanes, gives for each lane the hash, the key and the log that
  \<open>verusclhashv2_2\<close> gives on that lane alone, and is undefined exactly when one of them is.\<close>

theorem dual_is_two_singles:
  "verusclhashv2_2_dual S random0 buf0 touched0 random1 buf1 touched1 = do {
     r0 \<leftarrow> verusclhashv2_2 True S random0 buf0 touched0 [] [] [];
     r1 \<leftarrow> verusclhashv2_2 True S random1 buf1 touched1 [] [] [];
     Some (r0, r1) }"
  by (rule dual_split)

text \<open>C35: the ARM and the non-ARM build compute the same hash and leave the same key behind, for
  every key, buffer and vector operations, although they multiply, shift and log differently.\<close>

theorem builds_agree:
  assumes "length rs = 552" "64 \<le> length buf" "length t = 32"
    "length fr = 32" "length fx = 32" "length gp = 32" "length gx = 32"
  shows "\<exists>h arm other. verusclhashv2_2 True S rs buf t [] [] [] = Some (h, arm) \<and>
    verusclhashv2_2 False S rs buf fr fx gp gx = Some (h, other) \<and>
    randomsource arm = randomsource other"
proof -
  obtain v l h l' where a: "as_vectors buf = Some v" "init_lane True S rs v 511 t [] [] [] = Some l"
    "wf_lane True l" "clhash_steps True S 0 32 l = Some l'"
    "verusclhashv2_2 True S rs buf t [] [] [] = Some (h, l')"
    "h = precompReduction64 True S (mm_xor_si128 S (acc l') (mm_cvtsi64_si128 S 0x10000))"
    using verusclhash_total [of rs buf True t "[]" "[]" "[]" S] assms by (metis (full_types))
  obtain w m k m' where b: "as_vectors buf = Some w" "init_lane False S rs w 511 fr fx gp gx = Some m"
    "wf_lane False m" "clhash_steps False S 0 32 m = Some m'"
    "verusclhashv2_2 False S rs buf fr fx gp gx = Some (k, m')"
    "k = precompReduction64 False S (mm_xor_si128 S (acc m') (mm_cvtsi64_si128 S 0x10000))"
    using verusclhash_total [of rs buf False fr fx gp gx S] assms by (metis (full_types))
  have "same_work l m"
    using a(1,2) b(1,2) by (auto simp: init_lane_def same_work_def bind_eq_Some_conv)
  then have "same_work l' m'" using steps_build [OF _ a(3) b(3) _ a(4) b(4)] by simp
  then show ?thesis using a(5,6) b(5,6) by (auto simp: same_work_def reduction_build [of True])
qed

theorem builds_agree_witness:
  "\<exists>h arm other. verusclhashv2_2 True sse_doc (replicate 552 5) (replicate 64 9) (replicate 32 0)
      [] [] [] = Some (h, arm) \<and>
    verusclhashv2_2 False sse_doc (replicate 552 5) (replicate 64 9) (replicate 32 0) (replicate 32 0)
      (replicate 32 0) (replicate 32 0) = Some (h, other) \<and>
    randomsource arm = randomsource other"
  by (rule builds_agree) simp_all

end
