(* ===== verification/Verusscan.thy ===== *)
theory Verusscan
  imports Clhash Util
begin

text \<open>
  The scanner of \<open>verus/verusscan.cpp\<close>: key generation and restoration, the half hash of the block
  header, the final hash test and \<open>scanhash_verus\<close>. The key storage is the lists of vectors that the
  lanes hold and the pristine copy; the uninitialised second buffer of \<open>VerusHashHalf\<close> and the
  uninitialised log arrays are arguments, so that nothing is assumed of their content. The flags
  \<open>work_restart[thr_id].restart\<close> and \<open>abort_flag\<close>, written by other threads, are a function \<open>stop\<close>
  of the number of hashes completed when they are read.
\<close>

section \<open>Key generation and restoration\<close>

definition VERUS_KEY_SIZE :: nat where "VERUS_KEY_SIZE = 8832"
definition VERUS_KEY_SIZE128 :: nat where "VERUS_KEY_SIZE128 = 552"
definition NONCE_OFT :: nat where "NONCE_OFT = 30"

fun bytes_to_vecs :: "bytes \<Rightarrow> u128 list" where
  "bytes_to_vecs bs = (if length bs < 16 then [] else of_le (take 16 bs) # bytes_to_vecs (drop 16 bs))"

declare bytes_to_vecs.simps [simp del]

text \<open>The loop of \<open>GenNewCLKey\<close>: the bytes written from \<open>pkey\<close> on and the final \<open>psrc\<close>.\<close>

fun GenNewCLKey_loop :: "sse \<Rightarrow> u128 list \<Rightarrow> nat \<Rightarrow> bytes \<Rightarrow> (bytes \<times> bytes) option" where
  "GenNewCLKey_loop S rc 0 psrc = Some ([], psrc)"
| "GenNewCLKey_loop S rc (Suc n) psrc = do {
     out \<leftarrow> haraka256 S rc psrc;
     (rest, last) \<leftarrow> GenNewCLKey_loop S rc n out;
     Some (out @ rest, last) }"

definition GenNewCLKey :: "sse \<Rightarrow> u128 list \<Rightarrow> bytes \<Rightarrow> u128 list \<Rightarrow> u128 list option" where
  "GenNewCLKey S rc seedBytes32 keyback = do {
     let n256blks = VERUS_KEY_SIZE div 32;
     let nbytesExtra = VERUS_KEY_SIZE mod 32;
     (written, psrc) \<leftarrow> GenNewCLKey_loop S rc n256blks seedBytes32;
     extra \<leftarrow> (if nbytesExtra \<noteq> 0 then do { buf \<leftarrow> haraka256 S rc psrc; rdn buf 0 nbytesExtra } else Some []);
     wrn keyback 0 (bytes_to_vecs (written @ extra)) }"

text \<open>\<open>FixKey\<close> undoes the log from its last entry to its first.\<close>

fun FixKey_loop :: "u32 list \<Rightarrow> u32 list \<Rightarrow> u128 list \<Rightarrow> u128 list \<Rightarrow> nat \<Rightarrow> u128 list \<Rightarrow> u128 list option" where
  "FixKey_loop fr fx gp gx 0 keyback = Some keyback"
| "FixKey_loop fr fx gp gx (Suc i) keyback = do {
     q \<leftarrow> rd fx i;
     y \<leftarrow> rd gx i;
     keyback \<leftarrow> wr keyback (unat q) y;
     p \<leftarrow> rd fr i;
     x \<leftarrow> rd gp i;
     keyback \<leftarrow> wr keyback (unat p) x;
     FixKey_loop fr fx gp gx i keyback }"

definition FixKey :: "u32 list \<Rightarrow> u32 list \<Rightarrow> u128 list \<Rightarrow> u128 list \<Rightarrow> u128 list \<Rightarrow> u128 list option" where
  "FixKey fr fx keyback gp gx = FixKey_loop fr fx gp gx 32 keyback"

text \<open>\<open>RestoreKey\<close> copies the touched entries back from the pristine key, first log entry first.\<close>

fun RestoreKey_loop :: "u32 list \<Rightarrow> u128 list \<Rightarrow> nat \<Rightarrow> nat \<Rightarrow> u128 list \<Rightarrow> u128 list option" where
  "RestoreKey_loop t pristine i 0 key = Some key"
| "RestoreKey_loop t pristine i (Suc n) key = do {
     packed \<leftarrow> rd t i;
     let first = unat (packed AND 0xffff);
     let second = unat (drop_bit 16 packed);
     a \<leftarrow> rd pristine first;
     key \<leftarrow> wr key first a;
     b \<leftarrow> rd pristine second;
     key \<leftarrow> wr key second b;
     RestoreKey_loop t pristine (i + 1) n key }"

definition RestoreKey :: "u32 list \<Rightarrow> u128 list \<Rightarrow> u128 list \<Rightarrow> u128 list option" where
  "RestoreKey t key pristine = RestoreKey_loop t pristine 0 32 key"

section \<open>The half hash\<close>

text \<open>The digest loop; the two buffers swap roles after each block.\<close>

partial_function (option) VerusHashHalf_loop ::
  "sse \<Rightarrow> u128 list \<Rightarrow> bytes \<Rightarrow> nat \<Rightarrow> bytes \<Rightarrow> bytes \<Rightarrow> nat \<Rightarrow> nat \<Rightarrow> bytes option" where
  "VerusHashHalf_loop S rc data len curBuf result curPos pos =
     (if pos < len then
        let room = 32 - curPos in
        if len - pos \<ge> room then do {
          d \<leftarrow> rdn data pos room;
          curBuf \<leftarrow> wrn curBuf (32 + curPos) d;
          h \<leftarrow> haraka512 S rc curBuf;
          result \<leftarrow> wrn result 0 h;
          VerusHashHalf_loop S rc data len result curBuf 0 (pos + room) }
        else do {
          d \<leftarrow> rdn data pos (len - pos);
          curBuf \<leftarrow> wrn curBuf (32 + curPos) d;
          VerusHashHalf_loop S rc data len curBuf result (curPos + (len - pos)) len }
      else Some curBuf)"

definition VerusHashHalf :: "sse \<Rightarrow> bytes \<Rightarrow> bytes \<Rightarrow> nat \<Rightarrow> bytes option" where
  "VerusHashHalf S buf2 data len = do {
     let buf1 = replicate 64 0;
     let rc = load_constants S;
     curBuf \<leftarrow> VerusHashHalf_loop S rc data len buf1 buf2 0 0;
     h \<leftarrow> rdn curBuf 0 16;
     curBuf \<leftarrow> wrn curBuf 47 h;
     b \<leftarrow> rdn curBuf 0 1;
     curBuf \<leftarrow> wrn curBuf 63 b;
     rdn curBuf 0 64 }"

section \<open>The hash of one nonce\<close>

definition PrepareHashInput :: "bytes \<Rightarrow> u128 \<Rightarrow> u8 \<Rightarrow> u32 \<Rightarrow> bytes option" where
  "PrepareHashInput curBuf fill1 first_byte nonce = do {
     curBuf \<leftarrow> wrn curBuf (32 + 16) (STORE fill1);
     curBuf \<leftarrow> wr curBuf (32 + 15) first_byte;
     wrn curBuf 43 (to_le 4 nonce) }"

text \<open>\<open>FinalizeHash\<close>: the verdict, the hash buffer (written only past the prefilter) and the buffer.\<close>

definition FinalizeHash ::
  "bool \<Rightarrow> sse \<Rightarrow> bytes \<Rightarrow> bytes \<Rightarrow> u32 list \<Rightarrow> u32 \<Rightarrow> u128 list \<Rightarrow> u64 \<Rightarrow> (bool \<times> bytes \<times> bytes) option" where
  "FinalizeHash ARM S hash curBuf target high_target data_key intermediate = do {
     let repeated = of_lanes64 [intermediate, intermediate];
     let fill2 = (if ARM then vextq_u8 repeated repeated 1
                  else mm_shuffle_epi8 S (ucast intermediate)
                         (mm_setr_epi8 S [1, 2, 3, 4, 5, 6, 7, 0, 1, 2, 3, 4, 5, 6, 7, 0]));
     curBuf \<leftarrow> wrn curBuf (32 + 16) (STORE fill2);
     curBuf \<leftarrow> wr curBuf (32 + 15) (ucast intermediate);
     let intermediate = intermediate AND 511;
     let key = drop (unat intermediate) data_key;
     highword \<leftarrow> haraka512_keyed_highword S curBuf key;
     if highword \<le> high_target then do {
       h \<leftarrow> haraka512_keyed S curBuf key;
       hash \<leftarrow> wrn hash 0 h;
       valid \<leftarrow> fulltest (bytes_to_u32s hash) target;
       Some (valid, hash, curBuf) }
     else Some (False, hash, curBuf) }"

text \<open>\<open>Verus2hash\<close> (ARM): hash, test and restore the key.\<close>

definition Verus2hash ::
  "sse \<Rightarrow> bytes \<Rightarrow> bytes \<Rightarrow> u32 list \<Rightarrow> u32 \<Rightarrow> u128 list \<Rightarrow> u128 list \<Rightarrow> u32 list
    \<Rightarrow> (bool \<times> bytes \<times> bytes \<times> u128 list \<times> u32 list) option" where
  "Verus2hash S hash curBuf target high_target data_key pristine_key t = do {
     (intermediate, lane) \<leftarrow> verusclhashv2_2 True S data_key curBuf t [] [] [];
     let data_key = randomsource lane;
     let t = touched lane;
     (valid, hash, curBuf) \<leftarrow> FinalizeHash True S hash curBuf target high_target data_key intermediate;
     data_key \<leftarrow> RestoreKey t data_key pristine_key;
     Some (valid, hash, curBuf, data_key, t) }"

text \<open>\<open>Verus2hash\<close> of the other build, with the undo log.\<close>

definition Verus2hash_x86 ::
  "sse \<Rightarrow> bytes \<Rightarrow> bytes \<Rightarrow> u32 list \<Rightarrow> u32 \<Rightarrow> u128 list \<Rightarrow> u32 list \<Rightarrow> u32 list \<Rightarrow> u128 list \<Rightarrow> u128 list
    \<Rightarrow> (bool \<times> bytes \<times> bytes \<times> clhash_lane) option" where
  "Verus2hash_x86 S hash curBuf target high_target data_key fr fx gp gx = do {
     (intermediate, lane) \<leftarrow> verusclhashv2_2 False S data_key curBuf fr fx gp gx;
     (valid, hash, curBuf) \<leftarrow>
       FinalizeHash False S hash curBuf target high_target (randomsource lane) intermediate;
     key \<leftarrow> FixKey (fixrand lane) (fixrandex lane) (randomsource lane) (g_prand lane) (g_prandex lane);
     Some (valid, hash, curBuf, lane\<lparr>randomsource := key\<rparr>) }"

section \<open>The scan\<close>

text \<open>The local variables of \<open>scanhash_verus\<close> (ARM: two lanes) that the loops use and change.\<close>

record 'f scan =
  sc_work :: "'f work"
  sc_full_data :: bytes            \<comment> \<open>\<open>full_data[140 + 3 + 1344]\<close>\<close>
  sc_nonceSpace :: bytes           \<comment> \<open>\<open>nonceSpace[15]\<close>\<close>
  sc_vhash :: bytes                \<comment> \<open>\<open>vhash[8]\<close>, as bytes\<close>
  sc_half0 :: bytes                \<comment> \<open>\<open>blockhash_half[0]\<close>\<close>
  sc_half1 :: bytes
  sc_key0 :: "u128 list"           \<comment> \<open>\<open>data_key[0]\<close>\<close>
  sc_key1 :: "u128 list"
  sc_touched0 :: "u32 list"
  sc_touched1 :: "u32 list"
  sc_nonce_buf :: u32

text \<open>The constants of the loops.\<close>

record scan_env =
  se_pristine :: "u128 list"
  se_fill1 :: u128
  se_first_byte :: u8
  se_target :: "u32 list"
  se_high_target :: u32

text \<open>\<open>full_data\<close>: header, length prefix and solution, with the non-canonical data cleared for merged
  mining; and the nonce space that then carries the header's nonce bytes.\<close>

definition merged_mining :: "bytes \<Rightarrow> bool option" where
  "merged_mining solution = do {
     version \<leftarrow> rd solution 0;
     s5 \<leftarrow> rd solution 5;
     Some (version \<ge> 7 \<and> s5 > 0) }"

definition build_full_data :: "'f work \<Rightarrow> (bytes \<times> bytes) option" where
  "build_full_data work = do {
     hdr \<leftarrow> rdn (u32s_to_bytes (w_data work)) 0 140;
     sol \<leftarrow> rdn (w_solution work) 0 1344;
     let full = hdr @ [0xfd, 0x40, 0x05] @ sol;
     let nonceSpace = replicate 15 0;
     mm \<leftarrow> merged_mining (w_solution work);
     if mm then do {
       full \<leftarrow> wrn full 4 (replicate 96 0);
       full \<leftarrow> wrn full (4 + 32 + 32 + 32 + 4) (replicate 4 0);
       full \<leftarrow> wrn full (4 + 32 + 32 + 32 + 4 + 4) (replicate 32 0);
       full \<leftarrow> wrn full (140 + 3 + 8) (replicate 64 0);
       a \<leftarrow> rdn (u32s_to_bytes (w_data work)) (4 * (NONCE_OFT - 3)) 7;
       nonceSpace \<leftarrow> wrn nonceSpace 0 a;
       b \<leftarrow> rdn (u32s_to_bytes (w_data work)) (4 * (NONCE_OFT + 2)) 4;
       nonceSpace \<leftarrow> wrn nonceSpace 7 b;
       Some (full, nonceSpace) }
     else Some (full, nonceSpace) }"

text \<open>Everything before the loops. \<open>buf2\<close>, \<open>junk\<close>, \<open>t0\<close> and \<open>t1\<close> are uninitialised memory.\<close>

definition scan_setup ::
  "sse \<Rightarrow> bytes \<Rightarrow> u128 list \<Rightarrow> u32 list \<Rightarrow> u32 list \<Rightarrow> 'f work \<Rightarrow> (scan_env \<times> 'f scan) option" where
  "scan_setup S buf2 junk t0 t1 work = do {
     high_target \<leftarrow> rd (w_target work) 7;
     (full_data, nonceSpace) \<leftarrow> build_full_data work;
     half \<leftarrow> VerusHashHalf S buf2 full_data 1487;
     key \<leftarrow> GenNewCLKey S (load_constants S) half junk;
     ns \<leftarrow> rdn nonceSpace 0 11;
     half0 \<leftarrow> wrn half 32 ns;
     half1 \<leftarrow> wrn half 32 ns;
     first_block \<leftarrow> LOAD half0 0;
     let fill1 = vextq_u8 first_block first_block 1;
     first_byte \<leftarrow> rd half0 0;
     Some (\<lparr>se_pristine = key, se_fill1 = fill1, se_first_byte = first_byte,
            se_target = w_target work, se_high_target = high_target\<rparr>,
           \<lparr>sc_work = work, sc_full_data = full_data, sc_nonceSpace = nonceSpace,
            sc_vhash = replicate 32 0, sc_half0 = half0, sc_half1 = half1,
            sc_key0 = key, sc_key1 = key, sc_touched0 = t0, sc_touched1 = t1, sc_nonce_buf = 0\<rparr>) }"

text \<open>The lambda \<open>record_solution\<close>.\<close>

definition record_solution :: "'f fops \<Rightarrow> bool \<Rightarrow> u32 \<Rightarrow> 'f scan \<Rightarrow> 'f scan option" where
  "record_solution F opt_showdiff solution_nonce st = do {
     nonceSpace \<leftarrow> wrn (sc_nonceSpace st) 11 (to_le 4 solution_nonce);
     let work = sc_work st;
     let work = work\<lparr>w_valid_nonces := w_valid_nonces work + 1\<rparr>;
     hdr \<leftarrow> rdn (sc_full_data st) 0 140;
     data \<leftarrow> wrn (w_data work) 0 (bytes_to_u32s hdr);
     let nonce = uint (w_valid_nonces work) - 1;
     sol \<leftarrow> rdn (sc_full_data st) 140 1347;
     extra \<leftarrow> wrn (w_extra work) 0 sol;
     extra \<leftarrow> wrn extra 1332 nonceSpace;
     let work = work\<lparr>w_data := data, w_extra := extra\<rparr>;
     work \<leftarrow> bn_store_hash_target_ratio F opt_showdiff (bytes_to_u32s (sc_vhash st)) (w_target work) work nonce;
     v \<leftarrow> rd (bytes_to_u32s (sc_full_data st)) NONCE_OFT;
     nonces \<leftarrow> (if 0 \<le> nonce then wr (w_nonces work) (nat nonce) v else None);
     Some (st\<lparr>sc_nonceSpace := nonceSpace, sc_work := work\<lparr>w_nonces := nonces\<rparr>\<rparr>) }"

text \<open>One batch of two nonces: whether a lane was valid, and the nonce of the first such lane.
  \<open>cand\<close> is the uninitialised \<open>candidate_hash\<close>.\<close>

definition scan_batch :: "sse \<Rightarrow> bytes \<Rightarrow> scan_env \<Rightarrow> 'f scan \<Rightarrow> (bool \<times> u32 \<times> 'f scan) option" where
  "scan_batch S cand env st = do {
     half0 \<leftarrow> PrepareHashInput (sc_half0 st) (se_fill1 env) (se_first_byte env) (sc_nonce_buf st);
     half1 \<leftarrow> PrepareHashInput (sc_half1 st) (se_fill1 env) (se_first_byte env) (sc_nonce_buf st + 1);
     ((im0, lane0), (im1, lane1)) \<leftarrow>
       verusclhashv2_2_dual S (sc_key0 st) half0 (sc_touched0 st) (sc_key1 st) half1 (sc_touched1 st);
     (found0, cand0, half0) \<leftarrow> FinalizeHash True S cand half0 (se_target env) (se_high_target env)
        (randomsource lane0) im0;
     let vhash = (if found0 then cand0 else sc_vhash st);
     let found_nonce = (if found0 then sc_nonce_buf st else 0);
     (found1, cand1, half1) \<leftarrow> FinalizeHash True S cand half1 (se_target env) (se_high_target env)
        (randomsource lane1) im1;
     let vhash = (if found1 \<and> \<not> found0 then cand1 else vhash);
     let found_nonce = (if found1 \<and> \<not> found0 then sc_nonce_buf st + 1 else found_nonce);
     key0 \<leftarrow> RestoreKey (touched lane0) (randomsource lane0) (se_pristine env);
     key1 \<leftarrow> RestoreKey (touched lane1) (randomsource lane1) (se_pristine env);
     Some (found0 \<or> found1, found_nonce,
           st\<lparr>sc_vhash := vhash, sc_half0 := half0, sc_half1 := half1, sc_key0 := key0, sc_key1 := key1,
              sc_touched0 := touched lane0, sc_touched1 := touched lane1,
              sc_nonce_buf := sc_nonce_buf st + 2\<rparr>) }"

text \<open>The batched loop. The result says whether it jumped to \<open>out\<close>; \<open>completed\<close> counts hashes.\<close>

function scan_dual_loop ::
  "sse \<Rightarrow> 'f fops \<Rightarrow> bool \<Rightarrow> bytes \<Rightarrow> scan_env \<Rightarrow> (nat \<Rightarrow> bool) \<Rightarrow> nat \<Rightarrow> nat \<Rightarrow> 'f scan
    \<Rightarrow> (bool \<times> nat \<times> 'f scan) option" where
  "scan_dual_loop S F sd cand env stop hash_limit completed st =
     (if completed + 2 \<le> hash_limit then do {
        (found, found_nonce, st) \<leftarrow> scan_batch S cand env st;
        let completed' = completed + 2;
        if found then do {
          st \<leftarrow> record_solution F sd found_nonce st;
          Some (True, completed', st) }
        else if completed' mod 512 = 0 \<and> stop completed' then Some (True, completed', st)
        else scan_dual_loop S F sd cand env stop hash_limit (completed + 2) st }
      else Some (False, completed, st))"
  by auto
termination
  by (relation "measure (\<lambda>(S, F, sd, cand, env, stop, hash_limit, completed, st). hash_limit - completed)") auto

text \<open>The single-lane loop for what is left.\<close>

function scan_single_loop ::
  "sse \<Rightarrow> 'f fops \<Rightarrow> bool \<Rightarrow> scan_env \<Rightarrow> (nat \<Rightarrow> bool) \<Rightarrow> nat \<Rightarrow> nat \<Rightarrow> 'f scan
    \<Rightarrow> (nat \<times> 'f scan) option" where
  "scan_single_loop S F sd env stop hash_limit completed st =
     (if completed < hash_limit then do {
        half \<leftarrow> PrepareHashInput (sc_half0 st) (se_fill1 env) (se_first_byte env) (sc_nonce_buf st);
        (valid, vhash, half, key, t) \<leftarrow> Verus2hash S (sc_vhash st) half (se_target env)
           (se_high_target env) (sc_key0 st) (se_pristine env) (sc_touched0 st);
        let st = st\<lparr>sc_vhash := vhash, sc_half0 := half, sc_key0 := key, sc_touched0 := t\<rparr>;
        let completed' = completed + 1;
        if valid then do {
          st \<leftarrow> record_solution F sd (sc_nonce_buf st) st;
          Some (completed', st) }
        else do {
          let st = st\<lparr>sc_nonce_buf := sc_nonce_buf st + 1\<rparr>;
          if completed' mod 512 = 0 \<and> stop completed' then Some (completed', st)
          else scan_single_loop S F sd env stop hash_limit (completed + 1) st } }
      else Some (completed, st))"
  by auto
termination
  by (relation "measure (\<lambda>(S, F, sd, env, stop, hash_limit, completed, st). hash_limit - completed)") auto

declare scan_dual_loop.simps [simp del] scan_single_loop.simps [simp del]

text \<open>\<open>scanhash_verus\<close>: the value returned, \<open>*hashes_done\<close> and the work. \<open>malloc_ok\<close> tells whether the
  allocation of the keys succeeds.\<close>

definition scanhash_verus ::
  "sse \<Rightarrow> 'f fops \<Rightarrow> bool \<Rightarrow> bool \<Rightarrow> bytes \<Rightarrow> u128 list \<Rightarrow> u32 list \<Rightarrow> u32 list \<Rightarrow> bytes \<Rightarrow> (nat \<Rightarrow> bool)
    \<Rightarrow> 'f work \<Rightarrow> u32 \<Rightarrow> (nat \<times> nat \<times> 'f work) option" where
  "scanhash_verus S F opt_showdiff malloc_ok buf2 junk t0 t1 cand stop work max_nonce =
     (if \<not> malloc_ok then Some (0, 0, work)
      else do {
        (env, st) \<leftarrow> scan_setup S buf2 junk t0 t1 work;
        let hash_limit = (if max_nonce \<noteq> 0 then unat max_nonce else 1);
        (out, completed, st) \<leftarrow> scan_dual_loop S F opt_showdiff cand env stop hash_limit 0 st;
        (completed, st) \<leftarrow>
          (if out then Some (completed, st)
           else scan_single_loop S F opt_showdiff env stop hash_limit completed st);
        v \<leftarrow> rd (bytes_to_u32s (sc_full_data st)) NONCE_OFT;
        data \<leftarrow> wr (w_data (sc_work st)) NONCE_OFT (v + 1);
        let work = (sc_work st)\<lparr>w_data := data\<rparr>;
        Some (unat (w_valid_nonces work), completed, work) })"

text \<open>\<open>free_verushash\<close> on the array \<open>init\<close> of flags per thread.\<close>

definition free_verushash :: "bool list \<Rightarrow> nat \<Rightarrow> bool list option" where
  "free_verushash init thr_id = do {
     b \<leftarrow> rd init thr_id;
     if \<not> b then Some init else wr init thr_id False }"

section \<open>The key is restored\<close>

lemma RestoreKey_loop_restores:
  assumes "length key = length pristine" "i + n \<le> length t"
    and b: "\<And>j. i \<le> j \<Longrightarrow> j < i + n \<Longrightarrow> first_of t j < length pristine \<and> second_of t j < length pristine"
    and "\<And>k. k < length pristine \<Longrightarrow>
      (\<And>j. i \<le> j \<Longrightarrow> j < i + n \<Longrightarrow> k \<noteq> first_of t j \<and> k \<noteq> second_of t j) \<Longrightarrow> key ! k = pristine ! k"
  shows "RestoreKey_loop t pristine i n key = Some pristine"
  using assms
proof (induction n arbitrary: i key)
  case 0
  then have "key = pristine" by (intro nth_equalityI) auto
  then show ?case by simp
next
  case (Suc n)
  let ?p = "first_of t i" and ?q = "second_of t i"
  let ?key = "key[?p := pristine ! ?p, ?q := pristine ! ?q]"
  have b: "?p < length pristine" "?q < length pristine" "i < length t"
    using Suc.prems(2,3) by auto
  have "RestoreKey_loop t pristine (Suc i) n ?key = Some pristine"
  proof (rule Suc.IH)
    fix k assume k: "k < length pristine"
      and *: "\<And>j. Suc i \<le> j \<Longrightarrow> j < Suc i + n \<Longrightarrow> k \<noteq> first_of t j \<and> k \<noteq> second_of t j"
    show "?key ! k = pristine ! k"
    proof (cases "k = ?p \<or> k = ?q")
      case True
      then show ?thesis using b Suc.prems(1) by (auto simp: nth_list_update)
    next
      case False
      have "key ! k = pristine ! k"
      proof (rule Suc.prems(4) [OF k])
        fix j assume "i \<le> j" "j < i + Suc n"
        then show "k \<noteq> first_of t j \<and> k \<noteq> second_of t j" using * [of j] False by (cases "j = i") auto
      qed
      then show ?thesis using False by simp
    qed
  qed (use Suc.prems(1,2,3) in auto)
  then show ?case using b Suc.prems(1) by (simp add: mem_simps Let_def)
qed

lemma RestoreKey_restores:
  assumes "length key = 552" "length t = 32" "64 \<le> length buf"
    and h: "verusclhashv2_2 True S key buf t [] [] [] = Some (im, lane)"
  shows "RestoreKey (touched lane) (randomsource lane) key = Some key"
proof -
  obtain v l im' lane' where *: "wf_lane True l" "randomsource l = key"
    "clhash_steps True S 0 32 l = Some lane'" "wf_lane True lane'"
    "verusclhashv2_2 True S key buf t [] [] [] = Some (im', lane')"
    using verusclhash_total [of key buf True t "[]" "[]" "[]" S] assms(1-3) by (metis (full_types))
  with h have l: "lane' = lane" by simp
  have c: "log_covers 0 32 l lane" using steps_log_covers [OF *(1) _ *(3)] l by simp
  have w: "length (randomsource lane) = 552" "length (touched lane) = 32"
    using *(4) l by (simp_all add: wf_lane_def)
  show ?thesis
    unfolding RestoreKey_def
  proof (rule RestoreKey_loop_restores)
    fix j :: nat assume "0 \<le> j" "j < 0 + 32"
    with c assms(1) show "first_of (touched lane) j < length key \<and> second_of (touched lane) j < length key"
      unfolding log_covers_def by fastforce
  next
    fix k assume "k < length key"
      "\<And>j. 0 \<le> j \<Longrightarrow> j < 0 + 32 \<Longrightarrow> k \<noteq> first_of (touched lane) j \<and> k \<noteq> second_of (touched lane) j"
    with c assms(1) *(2) show "randomsource lane ! k = key ! k"
      unfolding log_covers_def by auto
  qed (use w assms(1) in auto)
qed

lemma clhash_steps_snoc:
  "clhash_steps ARM S i (Suc n) lane = do {
     l \<leftarrow> clhash_steps ARM S i n lane;
     clhash_step ARM S l (i + n) }"
proof (induction n arbitrary: i lane)
  case 0
  then show ?case by (cases "clhash_step ARM S lane i") simp_all
next
  case (Suc n)
  show ?case
  proof (cases "clhash_step ARM S lane i")
    case (Some l)
    then have "clhash_steps ARM S i (Suc (Suc n)) lane = clhash_steps ARM S (i + 1) (Suc n) l"
      by (subst clhash_steps.simps) (simp only: bind.bind_lunit)
    with Suc [of "i + 1" l] Some show ?thesis by simp
  qed simp
qed

lemma FixKey_loop_upd:
  "n \<le> i \<Longrightarrow> FixKey_loop (fr[i := a]) (fx[i := b]) (gp[i := c]) (gx[i := d]) n = FixKey_loop fr fx gp gx n"
  by (induction n) (rule ext, simp add: rd_def)+

lemma undo_step:
  assumes "rewrites_at old p q new" "p < length old" "q < length old"
  shows "new[q := old ! q, p := old ! p] = old"
  using assms by (auto simp: rewrites_at_def nth_list_update intro!: nth_equalityI)

lemma FixKey_loop_restores:
  assumes "wf_lane False lane" "n \<le> 32" "clhash_steps False S 0 n lane = Some lane'"
  shows "FixKey_loop (fixrand lane') (fixrandex lane') (g_prand lane') (g_prandex lane') n (randomsource lane')
    = Some (randomsource lane)"
  using assms(2,3)
proof (induction n arbitrary: lane')
  case 0
  then show ?case by simp
next
  case (Suc n)
  obtain l where l: "clhash_steps False S 0 n lane = Some l" "wf_lane False l"
    using steps_total [OF assms(1), of 0 n S] Suc.prems(1) by auto
  have n: "n < 32" using Suc.prems(1) by simp
  have s: "clhash_step False S l n = Some lane'"
    using Suc.prems(2) l(1) unfolding clhash_steps_snoc by simp
  obtain pi qi :: u32 where *: "unat pi < 512" "unat qi < 512"
    "rewrites_at (randomsource l) (unat pi) (unat qi) (randomsource lane')"
    "fixrand lane' = (fixrand l)[n := pi]" "fixrandex lane' = (fixrandex l)[n := qi]"
    "g_prand lane' = (g_prand l)[n := randomsource l ! unat pi]"
    "g_prandex lane' = (g_prandex l)[n := randomsource l ! unat qi]"
    using step_total [OF l(2) n, of S] s by (metis option.inject)
  have w: "length (randomsource l) = 552" "length (fixrand l) = 32" "length (fixrandex l) = 32"
    "length (g_prand l) = 32" "length (g_prandex l) = 32" "length (randomsource lane') = 552"
    using l(2) *(3) by (simp_all add: wf_lane_def rewrites_at_def)
  have "(randomsource lane')[unat qi := randomsource l ! unat qi, unat pi := randomsource l ! unat pi] =
      randomsource l"
    using undo_step [OF *(3)] * w by simp
  then show ?case
    using Suc.IH [OF _ l(1)] n w *(1,2)
    by (simp add: *(4-7) mem_simps FixKey_loop_upd)
qed

lemma FixKey_restores:
  assumes "length key = 552" "length fr = 32" "length fx = 32" "length gp = 32" "length gx = 32" "64 \<le> length buf"
    and h: "verusclhashv2_2 False S key buf fr fx gp gx = Some (im, lane)"
  shows "FixKey (fixrand lane) (fixrandex lane) (randomsource lane) (g_prand lane) (g_prandex lane) = Some key"
proof -
  obtain v l im' lane' where *: "wf_lane False l" "randomsource l = key"
    "clhash_steps False S 0 32 l = Some lane'" "verusclhashv2_2 False S key buf fr fx gp gx = Some (im', lane')"
    using verusclhash_total [of key buf False fr fx gp gx S] assms(1-6) by (metis (full_types))
  with h have "lane' = lane" by simp
  then show ?thesis using FixKey_loop_restores [OF *(1) _ *(3)] *(2) by (simp add: FixKey_def)
qed

section \<open>The verdict on a nonce\<close>

text \<open>The buffer a nonce is hashed from: only the first 43 bytes of the half hash survive in it.\<close>

lemma PrepareHashInput_eq:
  assumes "length buf = 64"
  shows "PrepareHashInput buf fill1 fb nonce = Some (take 43 buf @ to_le 4 nonce @ [fb] @ STORE fill1)"
proof -
  define a b c d where "a = take 43 buf" and "b = take 4 (drop 43 buf)" and "c = buf ! 47" and "d = drop 48 buf"
  have l: "length a = 43" "length b = 4" "length d = 16" using assms by (simp_all add: a_def b_def d_def)
  have "drop 43 buf = b @ drop 47 buf"
    using append_take_drop_id [of 4 "drop 43 buf"] by (simp add: b_def)
  moreover have "drop 47 buf = c # d" using Cons_nth_drop_Suc [of 47 buf] assms by (simp add: c_def d_def)
  ultimately have e: "buf = a @ b @ c # d" unfolding a_def by (metis append_take_drop_id)
  show ?thesis unfolding PrepareHashInput_def e
    using l by (simp add: mem_simps splice_def list_update_append)
qed

text \<open>The buffer of the final permutation, and the hash of a prepared buffer without any prefilter:
  the reference that the scanner is measured against.\<close>

definition final_buffer :: "bytes \<Rightarrow> u64 \<Rightarrow> bytes option" where
  "final_buffer buf im = do {
     let rep = of_lanes64 [im, im];
     buf \<leftarrow> wrn buf (32 + 16) (STORE (vextq_u8 rep rep 1));
     wr buf (32 + 15) (ucast im) }"

definition nonce_hash :: "sse \<Rightarrow> u128 list \<Rightarrow> bytes \<Rightarrow> bytes option" where
  "nonce_hash S key buf = do {
     (im, lane) \<leftarrow> verusclhashv2_2 True S key buf (replicate 32 0) [] [] [];
     fin \<leftarrow> final_buffer buf im;
     haraka512_keyed S fin (drop (unat (im AND 511)) (randomsource lane)) }"

lemma final_buffer_total:
  assumes "length buf = 64"
  shows "\<exists>fin. final_buffer buf im = Some fin \<and> length fin = 64 \<and> take 43 fin = take 43 buf"
  using assms by (simp add: final_buffer_def mem_simps splice_def Let_def min_def)

lemma nth_bytes_to_u32s:
  "k < length bs div 4 \<Longrightarrow> bytes_to_u32s bs ! k = of_le (take 4 (drop (4 * k) bs))"
proof (induction bs arbitrary: k rule: bytes_to_u32s.induct)
  case (1 a b c d bs)
  have "4 * Suc j = Suc (Suc (Suc (Suc (4 * j))))" for j :: nat by simp
  then have "drop (4 * Suc j) (a # b # c # d # bs) = drop (4 * j) bs" for j by (simp only: drop_Suc_Cons)
  with 1 show ?case by (cases k) auto
qed simp_all

lemma last_word:
  assumes "length h = 32"
  shows "bytes_to_u32s h ! 7 = of_le (take 4 (drop 28 h))" "length (bytes_to_u32s h) = 8"
  using assms nth_bytes_to_u32s [of 7 h] by (simp_all add: length_bytes_to_u32s)

text \<open>A hash whose last word exceeds the last word of the target exceeds the target.\<close>

lemma prefilter_sound:
  assumes "length a = 8" "length b = 8" "b ! 7 < a ! 7"
  shows "\<not> nval a \<le> nval b"
proof -
  have e: "nval c = nval (take 7 c) + 2 ^ (32 * 7) * unat (c ! 7)" if "length c = 8" for c
    using nval_take_Suc [of 7 c] that by simp
  have "nval (take 7 b) < 2 ^ (32 * 7)" using nval_less [of "take 7 b"] assms(2) by simp
  then have "nval (take 7 b) + 2 ^ (32 * 7) * unat (b ! 7) < nval (take 7 a) + 2 ^ (32 * 7) * unat (a ! 7)"
    using assms(3) by (intro word_decides) (simp_all add: word_less_nat_alt)
  then show ?thesis using e [OF assms(1)] e [OF assms(2)] by linarith
qed

lemma FinalizeHash_correct:
  assumes S: "sse_intrinsics S" and l: "length buf = 64" "length key = 552" "length hash = 32" "length target = 8"
  shows "\<exists>fin h hash'. final_buffer buf im = Some fin \<and> length fin = 64 \<and> take 43 fin = take 43 buf \<and>
    haraka512_keyed S fin (drop (unat (im AND 511)) key) = Some h \<and> length h = 32 \<and> length hash' = 32 \<and>
    FinalizeHash True S hash buf target (target ! 7) key im =
      Some (nval (bytes_to_u32s h) \<le> nval target, hash', fin) \<and>
    (nval (bytes_to_u32s h) \<le> nval target \<longrightarrow> hash' = h)"
proof -
  obtain fin where f: "final_buffer buf im = Some fin" "length fin = 64" "take 43 fin = take 43 buf"
    using final_buffer_total [OF l(1)] by blast
  have k: "40 \<le> length (drop (unat (im AND 511)) key)"
  proof -
    have "im AND 511 = take_bit 9 im" by (simp add: take_bit_eq_mask mask_eq_exp_minus_1)
    then have "unat (im AND 511) < 512" using unat_take_bit_less [of 9 im] by simp
    then show ?thesis using l(2) by simp
  qed
  obtain h where h: "haraka512_keyed S fin (drop (unat (im AND 511)) key) = Some h"
    "haraka512_keyed_highword S fin (drop (unat (im AND 511)) key) = Some (of_le (take 4 (drop 28 h)))"
    using sse_intrinsics.highword_eq [OF S k, of fin] f(2) by auto
  have lh: "length h = 32" using h(1) length_haraka512 by (simp add: haraka512_keyed_eq)
  note w = last_word [OF lh]
  have ft: "fulltest (bytes_to_u32s h) target = Some (nval (bytes_to_u32s h) \<le> nval target)"
    using fulltest_correct [of "bytes_to_u32s h" target] w(2) l(4) by simp
  have F: "FinalizeHash True S hash buf target (target ! 7) key im =
     (if bytes_to_u32s h ! 7 \<le> target ! 7 then Some (nval (bytes_to_u32s h) \<le> nval target, h, fin)
      else Some (False, hash, fin))"
    using f(1) l(3) lh h unfolding FinalizeHash_def final_buffer_def w(1)
    by (auto simp: Let_def bind_eq_Some_conv mem_simps splice_def ft)
  show ?thesis
  proof (cases "bytes_to_u32s h ! 7 \<le> target ! 7")
    case True
    then show ?thesis using F f h lh by auto
  next
    case False
    then have "\<not> nval (bytes_to_u32s h) \<le> nval target"
      using prefilter_sound [OF w(2) l(4)] by (simp add: not_le)
    then show ?thesis using False F f h lh l(3) by auto
  qed
qed

text \<open>The hash and the mutated key do not depend on what the log array held before.\<close>

lemma verusclhash_log_irrelevant:
  assumes "length key = 552" "64 \<le> length buf" "length t = 32" "length t' = 32"
    "verusclhashv2_2 True S key buf t [] [] [] = Some (im, lane)"
    "verusclhashv2_2 True S key buf t' [] [] [] = Some (im', lane')"
  shows "im' = im \<and> randomsource lane' = randomsource lane"
proof -
  obtain v l h m where a: "as_vectors buf = Some v" "init_lane True S key v 511 t [] [] [] = Some l" "wf_lane True l"
    "clhash_steps True S 0 32 l = Some m" "verusclhashv2_2 True S key buf t [] [] [] = Some (h, m)"
    "h = precompReduction64 True S (mm_xor_si128 S (acc m) (mm_cvtsi64_si128 S 0x10000))"
    using verusclhash_total [of key buf True t "[]" "[]" "[]" S] assms(1-3) by (metis (full_types))
  obtain v' l' h' m' where b: "as_vectors buf = Some v'" "init_lane True S key v' 511 t' [] [] [] = Some l'"
    "wf_lane True l'" "clhash_steps True S 0 32 l' = Some m'"
    "verusclhashv2_2 True S key buf t' [] [] [] = Some (h', m')"
    "h' = precompReduction64 True S (mm_xor_si128 S (acc m') (mm_cvtsi64_si128 S 0x10000))"
    using verusclhash_total [of key buf True t' "[]" "[]" "[]" S] assms(1,2,4) by (metis (full_types))
  obtain w where w: "wf_lane False w" "same_work l w" "same_work l' w"
  proof
    show "wf_lane False (l\<lparr>fixrand := replicate 32 0, fixrandex := replicate 32 0,
        g_prand := replicate 32 0, g_prandex := replicate 32 0\<rparr>)"
      using a(3) by (simp add: wf_lane_def)
  qed (use a(1,2) b(1,2) in \<open>auto simp: init_lane_def same_work_def bind_eq_Some_conv\<close>)
  obtain x where x: "clhash_steps False S 0 32 w = Some x" using steps_total [OF w(1), of 0 32] by auto
  have "same_work m x" "same_work m' x"
    using steps_build [OF w(2) a(3) w(1) _ a(4) x] steps_build [OF w(3) b(3) w(1) _ b(4) x] by simp_all
  then show ?thesis using a(5,6) b(5,6) assms(5,6) by (auto simp: same_work_def)
qed

text \<open>What a lane computes for a prepared buffer: the verdict on its reference hash.\<close>

definition hash_meets :: "sse \<Rightarrow> u128 list \<Rightarrow> bytes \<Rightarrow> u32 list \<Rightarrow> bool" where
  "hash_meets S key buf target =
     (case nonce_hash S key buf of None \<Rightarrow> False | Some h \<Rightarrow> nval (bytes_to_u32s h) \<le> nval target)"

lemma lane_correct:
  assumes S: "sse_intrinsics S"
    and l: "length buf = 64" "length key = 552" "length hash = 32" "length target = 8" "length t = 32"
  shows "\<exists>im lane fin h hash'. verusclhashv2_2 True S key buf t [] [] [] = Some (im, lane) \<and>
    FinalizeHash True S hash buf target (target ! 7) (randomsource lane) im =
      Some (hash_meets S key buf target, hash', fin) \<and>
    RestoreKey (touched lane) (randomsource lane) key = Some key \<and>
    length fin = 64 \<and> take 43 fin = take 43 buf \<and> length (touched lane) = 32 \<and> length hash' = 32 \<and>
    nonce_hash S key buf = Some h \<and> (hash_meets S key buf target \<longrightarrow> hash' = h)"
proof -
  obtain im lane where v: "verusclhashv2_2 True S key buf t [] [] [] = Some (im, lane)" "wf_lane True lane"
    using verusclhash_total [of key buf True t "[]" "[]" "[]" S] l(1,2,5) by (metis (full_types) order_refl)
  obtain im0 lane0 where v0: "verusclhashv2_2 True S key buf (replicate 32 0) [] [] [] = Some (im0, lane0)"
    using verusclhash_total [of key buf True "replicate 32 0" "[]" "[]" "[]" S] l(1,2)
    by (metis (full_types) length_replicate order_refl)
  have e: "im0 = im" "randomsource lane0 = randomsource lane"
    using verusclhash_log_irrelevant [OF l(2) _ l(5) _ v(1) v0] l(1) by simp_all
  have rs: "length (randomsource lane) = 552" "length (touched lane) = 32"
    using v(2) by (simp_all add: wf_lane_def)
  obtain fin h hash' where f: "final_buffer buf im = Some fin" "length fin = 64" "take 43 fin = take 43 buf"
    "haraka512_keyed S fin (drop (unat (im AND 511)) (randomsource lane)) = Some h" "length hash' = 32"
    "FinalizeHash True S hash buf target (target ! 7) (randomsource lane) im =
      Some (nval (bytes_to_u32s h) \<le> nval target, hash', fin)"
    "nval (bytes_to_u32s h) \<le> nval target \<longrightarrow> hash' = h"
    using FinalizeHash_correct [OF S l(1) rs(1) l(3,4), of im] by blast
  have n: "nonce_hash S key buf = Some h" by (simp add: nonce_hash_def v0 e f)
  then have "hash_meets S key buf target = (nval (bytes_to_u32s h) \<le> nval target)" by (simp add: hash_meets_def)
  with v(1) f n rs RestoreKey_restores [OF l(2,5) _ v(1)] l(1) show ?thesis by fastforce
qed

section \<open>The half hash is a chain of permutations\<close>

fun half_chain :: "sse \<Rightarrow> u128 list \<Rightarrow> nat \<Rightarrow> bytes \<Rightarrow> bytes \<Rightarrow> bytes option" where
  "half_chain S rc 0 h data = Some h"
| "half_chain S rc (Suc n) h data = do {
     h \<leftarrow> haraka512 S rc (h @ take 32 data);
     half_chain S rc n h (drop 32 data) }"

text \<open>From a block boundary the loop chains the whole blocks and leaves the rest of the data behind
  the last hash. Only the bytes that the chain and the rest determine are claimed.\<close>

lemma half_loop_chain:
  assumes "40 \<le> length rc" "length cur = 64" "length res = 64" "len \<le> length data"
    "pos + 32 * n + r = len" "r < 32"
  shows "\<exists>h buf. half_chain S rc n (take 32 cur) (drop pos data) = Some h \<and> length h = 32 \<and>
    VerusHashHalf_loop S rc data len cur res 0 pos = Some buf \<and> length buf = 64 \<and>
    take (32 + r) buf = h @ take r (drop (pos + 32 * n) data)"
  using assms(2,3,5)
proof (induction n arbitrary: cur res pos)
  case 0
  show ?case
  proof (cases "r = 0")
    case True
    with 0 show ?thesis by (subst VerusHashHalf_loop.simps) simp
  next
    case False
    let ?d = "take r (drop pos data)"
    have d: "rdn data pos r = Some ?d" "length ?d = r" using 0 assms(4) by (simp_all add: mem_simps)
    have s: "wrn cur 32 ?d = Some (splice cur 32 ?d)" "length (splice cur 32 ?d) = 64"
      using 0 d(2) assms(6) by (simp_all add: mem_simps len_simps)
    have "VerusHashHalf_loop S rc data len cur res 0 pos =
        VerusHashHalf_loop S rc data len (splice cur 32 ?d) res r len"
      using 0 False assms(6) d s by (subst VerusHashHalf_loop.simps) auto
    also have "\<dots> = Some (splice cur 32 ?d)" by (subst VerusHashHalf_loop.simps) simp
    finally show ?thesis using s(2) 0 d(2) by (auto simp: splice_def)
  qed
next
  case (Suc n)
  let ?d = "take 32 (drop pos data)"
  have d: "rdn data pos 32 = Some ?d" "length ?d = 32" using Suc.prems assms(4) by (simp_all add: mem_simps)
  have e: "splice cur 32 ?d = take 32 cur @ ?d" using Suc.prems(1) d(2) by (simp add: splice_def)
  have w: "wrn cur 32 ?d = Some (take 32 cur @ ?d)"
    using Suc.prems(1) d(2) e by (simp add: mem_simps)
  have "length (take 32 cur @ ?d) = 32 + 32" unfolding length_append d(2) using Suc.prems(1) by simp
  then obtain h1 where h1: "haraka512 S rc (take 32 cur @ ?d) = Some h1" "length h1 = 32"
    using haraka512_total [OF assms(1), of "take 32 cur @ ?d" S] by auto
  have w2: "wrn res 0 h1 = Some (splice res 0 h1)" "length (splice res 0 h1) = 64" "take 32 (splice res 0 h1) = h1"
    using Suc.prems(2) h1(2) by (simp_all add: mem_simps len_simps splice_def)
  have l: "VerusHashHalf_loop S rc data len cur res 0 pos =
      VerusHashHalf_loop S rc data len (splice res 0 h1) (take 32 cur @ ?d) 0 (pos + 32)"
  proof -
    have "pos < len" "32 \<le> len - pos" using Suc.prems(3) by auto
    then show ?thesis using d w h1(1) w2(1) by (subst VerusHashHalf_loop.simps) (simp add: Let_def)
  qed
  have "length (take 32 cur @ ?d) = 64" "pos + 32 + 32 * n + r = len" using Suc.prems d(2) by auto
  from Suc.IH [OF w2(2) this] obtain h buf where *: "half_chain S rc n h1 (drop (pos + 32) data) = Some h"
    "length h = 32" "VerusHashHalf_loop S rc data len (splice res 0 h1) (take 32 cur @ ?d) 0 (pos + 32) = Some buf"
    "length buf = 64" "take (32 + r) buf = h @ take r (drop (pos + 32 + 32 * n) data)"
    unfolding w2(3) by blast
  have "pos + 32 * Suc n = pos + 32 + 32 * n" by simp
  then have "take (32 + r) buf = h @ take r (drop (pos + 32 * Suc n) data)" using *(5) by (simp only:)
  moreover have "half_chain S rc (Suc n) (take 32 cur) (drop pos data) = Some h"
    using *(1) h1(1) by (simp add: add.commute)
  moreover have "VerusHashHalf_loop S rc data len cur res 0 pos = Some buf" using l *(3) by (simp only:)
  ultimately show ?case using *(2,4) by blast
qed

lemma VerusHashHalf_chain:
  assumes "1487 \<le> length data" "length buf2 = 64"
  shows "\<exists>h. half_chain S (load_constants S) 46 (replicate 32 0) data = Some h \<and> length h = 32 \<and>
    VerusHashHalf S buf2 data 1487 = Some (h @ take 15 (drop 1472 data) @ take 16 h @ take 1 h)"
proof -
  obtain h buf where *: "half_chain S (load_constants S) 46 (replicate 32 0) data = Some h" "length h = 32"
    "VerusHashHalf_loop S (load_constants S) data 1487 (replicate 64 0) buf2 0 0 = Some buf" "length buf = 64"
    "take 47 buf = h @ take 15 (drop 1472 data)"
    using half_loop_chain [of "load_constants S" "replicate 64 0" buf2 1487 data 0 46 15 S] assms
    by (auto simp: min_def)
  have l: "length (h @ take 15 (drop 1472 data)) = 47" using *(2) assms(1) by simp
  have e: "buf = (h @ take 15 (drop 1472 data)) @ drop 47 buf" "length (drop 47 buf) = 17"
    using *(4,5) append_take_drop_id [of 47 buf] by simp_all
  have t: "take 16 buf = take 16 h" "take 1 buf = take 1 h"
    using *(2) by (subst e(1), simp)+
  have "splice buf 47 (take 16 h) = (h @ take 15 (drop 1472 data)) @ take 16 h @ drop 63 buf"
    using *(2,5) by (simp add: splice_def)
  then show ?thesis
    using * l t by (simp add: VerusHashHalf_def mem_simps len_simps splice_def Let_def)
qed

section \<open>The key generation returns\<close>

lemma GenNewCLKey_loop_total:
  assumes "20 \<le> length rc" "32 \<le> length psrc"
  shows "\<exists>w p. GenNewCLKey_loop S rc n psrc = Some (w, p) \<and> length w = 32 * n"
  using assms(2)
proof (induction n arbitrary: psrc)
  case (Suc n)
  obtain out where o: "haraka256 S rc psrc = Some out" using haraka256_total [OF assms(1) Suc.prems] by blast
  then have "length out = 32" by (rule length_haraka256)
  with Suc.IH [of out] o show ?case by auto
qed simp

lemma length_bytes_to_vecs: "length (bytes_to_vecs bs) = length bs div 16"
proof (induction bs rule: bytes_to_vecs.induct)
  case (1 bs)
  then show ?case
    by (subst bytes_to_vecs.simps) (auto simp: le_div_geq)
qed

lemma GenNewCLKey_total:
  assumes "20 \<le> length rc" "32 \<le> length seed" "length junk = 552"
  shows "\<exists>key. GenNewCLKey S rc seed junk = Some key \<and> length key = 552"
proof -
  obtain w p where "GenNewCLKey_loop S rc 276 seed = Some (w, p)" "length w = 8832"
    using GenNewCLKey_loop_total [OF assms(1,2), of S 276] by auto
  then show ?thesis
    using assms(3) by (simp add: GenNewCLKey_def VERUS_KEY_SIZE_def length_bytes_to_vecs mem_simps splice_def Let_def)
qed

section \<open>The scan\<close>

text \<open>The prepared buffer of a nonce and the verdict on it.\<close>

definition prepared :: "scan_env \<Rightarrow> bytes \<Rightarrow> u32 \<Rightarrow> bytes" where
  "prepared env pre nonce = pre @ to_le 4 nonce @ [se_first_byte env] @ STORE (se_fill1 env)"

definition nonce_valid :: "sse \<Rightarrow> scan_env \<Rightarrow> bytes \<Rightarrow> nat \<Rightarrow> bool" where
  "nonce_valid S env pre n = hash_meets S (se_pristine env) (prepared env pre (of_nat n)) (se_target env)"

definition env_ok :: "scan_env \<Rightarrow> bool" where
  "env_ok env \<longleftrightarrow> length (se_pristine env) = 552 \<and> length (se_target env) = 8 \<and>
     se_high_target env = se_target env ! 7"

text \<open>The invariant of the loops: the buffers agree on the part a nonce does not overwrite, both keys
  are pristine.\<close>

definition scan_inv :: "scan_env \<Rightarrow> bytes \<Rightarrow> 'f scan \<Rightarrow> bool" where
  "scan_inv env pre st \<longleftrightarrow> length pre = 43 \<and>
     length (sc_half0 st) = 64 \<and> take 43 (sc_half0 st) = pre \<and>
     length (sc_half1 st) = 64 \<and> take 43 (sc_half1 st) = pre \<and>
     sc_key0 st = se_pristine env \<and> sc_key1 st = se_pristine env \<and>
     length (sc_touched0 st) = 32 \<and> length (sc_touched1 st) = 32 \<and> length (sc_vhash st) = 32"

definition frame :: "'f scan \<Rightarrow> 'f scan \<Rightarrow> bool" where
  "frame st st' \<longleftrightarrow> sc_work st' = sc_work st \<and> sc_full_data st' = sc_full_data st \<and>
     sc_nonceSpace st' = sc_nonceSpace st"

lemma frame_trans: "frame a b \<Longrightarrow> frame b c \<Longrightarrow> frame a c"
  by (simp add: frame_def)

lemma length_prepared: "length pre = 43 \<Longrightarrow> length (prepared env pre n) = 64"
  by (simp add: prepared_def)

lemma take_prepared: "length pre = 43 \<Longrightarrow> take 43 (prepared env pre n) = pre"
  by (simp add: prepared_def)

lemma prepare_eq:
  "length half = 64 \<Longrightarrow> take 43 half = pre \<Longrightarrow>
   PrepareHashInput half (se_fill1 env) (se_first_byte env) n = Some (prepared env pre n)"
  by (simp add: PrepareHashInput_eq prepared_def)

lemma scan_batch_correct:
  assumes S: "sse_intrinsics S" and env: "env_ok env" and inv: "scan_inv env pre st" and cand: "length cand = 32"
    and n: "sc_nonce_buf st = of_nat n"
  defines "v0 \<equiv> nonce_valid S env pre n" and "v1 \<equiv> nonce_valid S env pre (n + 1)"
  shows "\<exists>st'. scan_batch S cand env st =
      Some (v0 \<or> v1, (if v0 then of_nat n else if v1 then of_nat (n + 1) else 0), st') \<and>
    scan_inv env pre st' \<and> frame st st' \<and> sc_nonce_buf st' = of_nat (n + 2)"
proof -
  have e: "length (se_pristine env) = 552" "length (se_target env) = 8" "se_high_target env = se_target env ! 7"
    using env by (simp_all add: env_ok_def)
  have i: "length pre = 43" "length (sc_touched0 st) = 32" "length (sc_touched1 st) = 32" "length (sc_vhash st) = 32"
    "sc_key0 st = se_pristine env" "sc_key1 st = se_pristine env"
    using inv by (simp_all add: scan_inv_def)
  note lp = length_prepared [OF i(1)] take_prepared [OF i(1)]
  define m0 m1 :: u32 where "m0 = of_nat n" and "m1 = of_nat (n + 1)"
  have m: "m0 + 1 = m1" "m0 + 2 = of_nat (n + 2)" by (simp_all add: m0_def m1_def)
  have p: "PrepareHashInput (sc_half0 st) (se_fill1 env) (se_first_byte env) m0 = Some (prepared env pre m0)"
    "PrepareHashInput (sc_half1 st) (se_fill1 env) (se_first_byte env) m1 = Some (prepared env pre m1)"
    using inv by (simp_all add: scan_inv_def prepare_eq m)
  obtain im0 l0 f0 h0 c0 where A: "verusclhashv2_2 True S (se_pristine env) (prepared env pre m0) (sc_touched0 st) [] [] [] = Some (im0, l0)"
    "FinalizeHash True S cand (prepared env pre m0) (se_target env) (se_target env ! 7) (randomsource l0) im0 = Some (v0, c0, f0)"
    "RestoreKey (touched l0) (randomsource l0) (se_pristine env) = Some (se_pristine env)"
    "length f0 = 64" "take 43 f0 = pre" "length (touched l0) = 32" "length c0 = 32"
    using lane_correct [OF S lp(1) e(1) cand e(2) i(2), of _ m0] unfolding v0_def nonce_valid_def lp(2) m0_def [symmetric] by blast
  obtain im1 l1 f1 h1 c1 where B: "verusclhashv2_2 True S (se_pristine env) (prepared env pre m1) (sc_touched1 st) [] [] [] = Some (im1, l1)"
    "FinalizeHash True S cand (prepared env pre m1) (se_target env) (se_target env ! 7) (randomsource l1) im1 = Some (v1, c1, f1)"
    "RestoreKey (touched l1) (randomsource l1) (se_pristine env) = Some (se_pristine env)"
    "length f1 = 64" "take 43 f1 = pre" "length (touched l1) = 32" "length c1 = 32"
    using lane_correct [OF S lp(1) e(1) cand e(2) i(3), of _ m1] unfolding v1_def nonce_valid_def lp(2) m1_def [symmetric] by blast
  have nb: "sc_nonce_buf st = m0" by (simp add: n m0_def)
  show ?thesis
    using A B i(1,4) unfolding scan_batch_def nb m0_def [symmetric] m1_def [symmetric] m(2) [symmetric]
    by (simp add: m(1) p e(3) i(5,6) dual_split scan_inv_def frame_def nb)
qed

lemma single_correct:
  assumes S: "sse_intrinsics S" and env: "env_ok env" and inv: "scan_inv env pre st"
    and n: "sc_nonce_buf st = of_nat n"
  shows "\<exists>half vhash half' t. PrepareHashInput (sc_half0 st) (se_fill1 env) (se_first_byte env) (sc_nonce_buf st) = Some half \<and>
    Verus2hash S (sc_vhash st) half (se_target env) (se_high_target env) (sc_key0 st) (se_pristine env)
      (sc_touched0 st) = Some (nonce_valid S env pre n, vhash, half', se_pristine env, t) \<and>
    scan_inv env pre (st\<lparr>sc_vhash := vhash, sc_half0 := half', sc_key0 := se_pristine env, sc_touched0 := t\<rparr>)"
proof -
  have e: "length (se_pristine env) = 552" "length (se_target env) = 8" "se_high_target env = se_target env ! 7"
    using env by (simp_all add: env_ok_def)
  have i: "length pre = 43" "length (sc_touched0 st) = 32" "length (sc_vhash st) = 32" "sc_key0 st = se_pristine env"
    using inv by (simp_all add: scan_inv_def)
  note lp = length_prepared [OF i(1)] take_prepared [OF i(1)]
  obtain im l f c where A: "verusclhashv2_2 True S (se_pristine env) (prepared env pre (of_nat n)) (sc_touched0 st) [] [] [] = Some (im, l)"
    "FinalizeHash True S (sc_vhash st) (prepared env pre (of_nat n)) (se_target env) (se_target env ! 7) (randomsource l) im =
       Some (nonce_valid S env pre n, c, f)"
    "RestoreKey (touched l) (randomsource l) (se_pristine env) = Some (se_pristine env)"
    "length f = 64" "take 43 f = pre" "length (touched l) = 32" "length c = 32"
    using lane_correct [OF S lp(1) e(1) i(3) e(2) i(2), of _ "of_nat n"] unfolding nonce_valid_def lp(2) by blast
  have "PrepareHashInput (sc_half0 st) (se_fill1 env) (se_first_byte env) (sc_nonce_buf st) = Some (prepared env pre (of_nat n))"
    using inv n by (simp add: scan_inv_def prepare_eq)
  then show ?thesis
    using A inv by (simp add: Verus2hash_def i(4) e(3) scan_inv_def)
qed

text \<open>What a scan that starts at nonce \<open>c\<close> has established when it stops after \<open>c'\<close> hashes.\<close>

definition scan_done :: "sse \<Rightarrow> 'f fops \<Rightarrow> bool \<Rightarrow> scan_env \<Rightarrow> bytes \<Rightarrow> (nat \<Rightarrow> bool) \<Rightarrow> nat \<Rightarrow> 'f scan \<Rightarrow> nat \<Rightarrow> 'f scan \<Rightarrow> bool" where
  "scan_done S F sd env pre stop L st c' st' \<longleftrightarrow> c' \<le> L \<and>
     ((\<exists>n st1. n < c' \<and> c' \<le> n + 2 \<and> nonce_valid S env pre n \<and> (\<forall>m < n. \<not> nonce_valid S env pre m) \<and>
         frame st st1 \<and> length (sc_vhash st1) = 32 \<and> record_solution F sd (of_nat n) st1 = Some st') \<or>
      ((\<forall>m < c'. \<not> nonce_valid S env pre m) \<and> frame st st' \<and> (c' = L \<or> c' mod 512 = 0 \<and> stop c')))"

lemma scan_dual_loop_correct:
  assumes S: "sse_intrinsics S" and env: "env_ok env" and cand: "length cand = 32"
    and R: "\<And>n st1. frame st0 st1 \<Longrightarrow> length (sc_vhash st1) = 32 \<Longrightarrow> \<exists>st'. record_solution F sd n st1 = Some st'"
    and "scan_inv env pre st" "frame st0 st" "sc_nonce_buf st = of_nat c" "\<forall>m < c. \<not> nonce_valid S env pre m" "c \<le> L"
  shows "\<exists>out c' st'. scan_dual_loop S F sd cand env stop L c st = Some (out, c', st') \<and>
    (if out then scan_done S F sd env pre stop L st0 c' st'
     else c' \<le> L \<and> scan_inv env pre st' \<and> frame st0 st' \<and> sc_nonce_buf st' = of_nat c' \<and>
       (\<forall>m < c'. \<not> nonce_valid S env pre m))"
  using assms(5-9)
proof (induction "L - c" arbitrary: c st rule: less_induct)
  case less
  show ?case
  proof (cases "c + 2 \<le> L")
    case False
    then show ?thesis using less.prems by (subst scan_dual_loop.simps) auto
  next
    case True
    let ?v0 = "nonce_valid S env pre c" and ?v1 = "nonce_valid S env pre (c + 1)"
    obtain st1 where b: "scan_batch S cand env st =
        Some (?v0 \<or> ?v1, (if ?v0 then of_nat c else if ?v1 then of_nat (c + 1) else 0), st1)"
      "scan_inv env pre st1" "frame st st1" "sc_nonce_buf st1 = of_nat (c + 2)"
      using scan_batch_correct [OF S env less.prems(1) cand less.prems(3)] by blast
    have f: "frame st0 st1" using frame_trans [OF less.prems(2) b(3)] .
    have v: "length (sc_vhash st1) = 32" using b(2) by (simp add: scan_inv_def)
    show ?thesis
    proof (cases "?v0 \<or> ?v1")
      case found: True
      define k where "k = (if ?v0 then c else c + 1)"
      obtain st2 where r: "record_solution F sd (of_nat k) st1 = Some st2" using R [OF f v] by blast
      have "(if ?v0 then of_nat c else if ?v1 then of_nat (c + 1) else 0) = (of_nat k :: u32)"
        using found by (auto simp: k_def)
      then have "scan_dual_loop S F sd cand env stop L c st = Some (True, c + 2, st2)"
        using True found b(1) r by (subst scan_dual_loop.simps) simp
      moreover have "scan_done S F sd env pre stop L st0 (c + 2) st2"
        unfolding scan_done_def
      proof (intro conjI disjI1 exI [of _ k] exI [of _ st1])
        show "\<forall>m < k. \<not> nonce_valid S env pre m"
          using less.prems(4) by (auto simp: k_def less_Suc_eq split: if_splits)
      qed (use found True f v r in \<open>auto simp: k_def\<close>)
      ultimately show ?thesis by auto
    next
      case none: False
      then have no: "\<forall>m < c + 2. \<not> nonce_valid S env pre m"
        using less.prems(4) by (auto simp: less_Suc_eq)
      show ?thesis
      proof (cases "(c + 2) mod 512 = 0 \<and> stop (c + 2)")
        case stopped: True
        then have "scan_dual_loop S F sd cand env stop L c st = Some (True, c + 2, st1)"
          using True none b(1) by (subst scan_dual_loop.simps) simp
        moreover have "scan_done S F sd env pre stop L st0 (c + 2) st1"
          using no True f stopped by (simp add: scan_done_def)
        ultimately show ?thesis by auto
      next
        case going: False
        then have "scan_dual_loop S F sd cand env stop L c st = scan_dual_loop S F sd cand env stop L (c + 2) st1"
          using True none b(1) by (subst scan_dual_loop.simps) auto
        moreover have "L - (c + 2) < L - c" using True by simp
        ultimately show ?thesis using less.hyps [OF _ b(2) f b(4) no] True by simp
      qed
    qed
  qed
qed

lemma scan_single_loop_correct:
  assumes S: "sse_intrinsics S" and env: "env_ok env"
    and R: "\<And>n st1. frame st0 st1 \<Longrightarrow> length (sc_vhash st1) = 32 \<Longrightarrow> \<exists>st'. record_solution F sd n st1 = Some st'"
    and "scan_inv env pre st" "frame st0 st" "sc_nonce_buf st = of_nat c" "\<forall>m < c. \<not> nonce_valid S env pre m" "c \<le> L"
  shows "\<exists>c' st'. scan_single_loop S F sd env stop L c st = Some (c', st') \<and>
    scan_done S F sd env pre stop L st0 c' st'"
  using assms(4-8)
proof (induction "L - c" arbitrary: c st rule: less_induct)
  case less
  show ?case
  proof (cases "c < L")
    case False
    then show ?thesis using less.prems by (subst scan_single_loop.simps) (simp add: scan_done_def)
  next
    case True
    let ?v = "nonce_valid S env pre c"
    obtain half vhash half' t where b:
      "PrepareHashInput (sc_half0 st) (se_fill1 env) (se_first_byte env) (sc_nonce_buf st) = Some half"
      "Verus2hash S (sc_vhash st) half (se_target env) (se_high_target env) (sc_key0 st) (se_pristine env)
        (sc_touched0 st) = Some (?v, vhash, half', se_pristine env, t)"
      "scan_inv env pre (st\<lparr>sc_vhash := vhash, sc_half0 := half', sc_key0 := se_pristine env, sc_touched0 := t\<rparr>)"
      using single_correct [OF S env less.prems(1,3)] by blast
    let ?st1 = "st\<lparr>sc_vhash := vhash, sc_half0 := half', sc_key0 := se_pristine env, sc_touched0 := t\<rparr>"
    let ?st2 = "?st1\<lparr>sc_nonce_buf := of_nat (c + 1)\<rparr>"
    have f: "frame st0 ?st1" "frame st0 ?st2" using less.prems(2) by (simp_all add: frame_def)
    have v: "length (sc_vhash ?st1) = 32" using b(3) by (simp add: scan_inv_def)
    have i2: "scan_inv env pre ?st2" using b(3) by (simp add: scan_inv_def)
    have nb: "sc_nonce_buf st + 1 = of_nat (c + 1)" using less.prems(3) by simp
    show ?thesis
    proof (cases ?v)
      case found: True
      obtain st' where r: "record_solution F sd (of_nat c) ?st1 = Some st'" using R [OF f(1) v] by blast
      then have "scan_single_loop S F sd env stop L c st = Some (c + 1, st')"
        using True found b(1,2) less.prems(3) by (subst scan_single_loop.simps) simp
      moreover have "scan_done S F sd env pre stop L st0 (c + 1) st'"
        unfolding scan_done_def using found True f(1) v r less.prems(4)
        by (intro conjI disjI1 exI [of _ c] exI [of _ ?st1]) auto
      ultimately show ?thesis by simp
    next
      case none: False
      then have no: "\<forall>m < c + 1. \<not> nonce_valid S env pre m" using less.prems(4) by (auto simp: less_Suc_eq)
      show ?thesis
      proof (cases "(c + 1) mod 512 = 0 \<and> stop (c + 1)")
        case stopped: True
        then have "scan_single_loop S F sd env stop L c st = Some (c + 1, ?st2)"
          using True none b(1,2) nb by (subst scan_single_loop.simps) (simp add: Let_def)
        moreover have "scan_done S F sd env pre stop L st0 (c + 1) ?st2"
          using no True f(2) stopped by (simp add: scan_done_def)
        ultimately show ?thesis by blast
      next
        case going: False
        then have "scan_single_loop S F sd env stop L c st = scan_single_loop S F sd env stop L (c + 1) ?st2"
          using True none b(1,2) nb by (subst scan_single_loop.simps) (auto simp add: Let_def add.commute)
        moreover have "L - (c + 1) < L - c" "sc_nonce_buf ?st2 = of_nat (c + 1)" "c + 1 \<le> L" using True by simp_all
        ultimately show ?thesis using less.hyps [OF _ i2 f(2) _ no] by simp
      qed
    qed
  qed
qed

text \<open>Recording a solution: it cannot fail on a work whose arrays have their declared sizes and that
  has room for a nonce, and it puts the nonce space behind the solution.\<close>

lemma record_solution_total:
  assumes "wf_work (sc_work st)" "w_valid_nonces (sc_work st) = 0" "length (sc_full_data st) = 1487"
    "length (sc_nonceSpace st) = 15" "length (sc_vhash st) = 32"
  shows "\<exists>st'. record_solution F sd n st = Some st' \<and> w_valid_nonces (sc_work st') = 1 \<and>
    sc_full_data st' = sc_full_data st \<and> length (w_data (sc_work st')) = 48 \<and>
    w_target (sc_work st') = w_target (sc_work st) \<and> wf_work (sc_work st') \<and>
    w_solution (sc_work st') = w_solution (sc_work st) \<and> w_job_id (sc_work st') = w_job_id (sc_work st) \<and>
    w_pooln (sc_work st') = w_pooln (sc_work st) \<and> w_height (sc_work st') = w_height (sc_work st) \<and>
    w_xnonce2_len (sc_work st') = w_xnonce2_len (sc_work st) \<and>
    w_nonces (sc_work st') ! 0 = bytes_to_u32s (sc_full_data st) ! 30 \<and>
    take 35 (w_data (sc_work st')) = bytes_to_u32s (take 140 (sc_full_data st)) \<and>
    take 1347 (w_extra (sc_work st')) =
      take 1332 (drop 140 (sc_full_data st)) @ take 11 (sc_nonceSpace st) @ to_le 4 n"
proof -
  have w: "length (w_data (sc_work st)) = 48" "length (w_target (sc_work st)) = 8" "length (w_extra (sc_work st)) = 1388"
    "length (w_nonces (sc_work st)) = 2" "length (w_sharediff (sc_work st)) = 2" "length (w_shareratio (sc_work st)) = 2"
    "length (w_solution (sc_work st)) = 1344" "length (w_xnonce2 (sc_work st)) = 32" "length (w_noncerange (sc_work st)) = 2"
    using assms(1) by (simp_all add: wf_work_def MAX_NONCES_def)
  have b: "length (bytes_to_u32s (take 140 (sc_full_data st))) = 35" "length (bytes_to_u32s (sc_vhash st)) = 8"
    "length (bytes_to_u32s (sc_full_data st)) = 371"
    using assms(3,5) by (simp_all add: length_bytes_to_u32s)
  have "\<exists>r. bn_hash_target_ratio F True (bytes_to_u32s (sc_vhash st)) (w_target (sc_work st)) = Some r"
    using w(2) b(2) by (simp add: bn_hash_target_ratio_def mem_simps Let_def)
  then obtain r where r: "bn_hash_target_ratio F True (bytes_to_u32s (sc_vhash st)) (w_target (sc_work st)) = Some r"
    by blast
  show ?thesis
    using assms w b r
    by (cases sd) (simp_all add: record_solution_def bn_store_hash_target_ratio_def mem_simps len_simps
        splice_def NONCE_OFT_def MAX_NONCES_def Let_def min_def wf_work_def)
qed

lemma build_full_data_total:
  assumes "wf_work work"
  shows "\<exists>full ns. build_full_data work = Some (full, ns) \<and> length full = 1487 \<and> length ns = 15"
proof -
  have w: "length (w_data work) = 48" "length (w_solution work) = 1344" using assms by (simp_all add: wf_work_def)
  then obtain mm where "merged_mining (w_solution work) = Some mm" by (auto simp: merged_mining_def mem_simps)
  with w show ?thesis
    by (cases mm) (simp_all add: build_full_data_def mem_simps len_simps NONCE_OFT_def Let_def)
qed

lemma scan_setup_total:
  assumes "wf_work work" "length buf2 = 64" "length junk = 552" "length t0 = 32" "length t1 = 32"
  shows "\<exists>env st. scan_setup S buf2 junk t0 t1 work = Some (env, st) \<and> env_ok env \<and>
    scan_inv env (take 43 (sc_half0 st)) st \<and> sc_nonce_buf st = 0 \<and> sc_work st = work \<and>
    length (sc_full_data st) = 1487 \<and> length (sc_nonceSpace st) = 15 \<and> build_full_data work = Some (sc_full_data st, sc_nonceSpace st)"
proof -
  obtain full ns where f: "build_full_data work = Some (full, ns)" "length full = 1487" "length ns = 15"
    using build_full_data_total [OF assms(1)] by blast
  obtain h where h: "length h = 32"
    "VerusHashHalf S buf2 full 1487 = Some (h @ take 15 (drop 1472 full) @ take 16 h @ take 1 h)"
    using VerusHashHalf_chain [of full buf2 S] f(2) assms(2) by auto
  define half where "half = h @ take 15 (drop 1472 full) @ take 16 h @ take 1 h"
  have l: "length half = 64" using h(1) f(2) by (simp add: half_def)
  obtain key where k: "GenNewCLKey S (load_constants S) half junk = Some key" "length key = 552"
    using GenNewCLKey_total [of "load_constants S" half junk S] l assms(3) by auto
  have t: "length (w_target work) = 8" using assms(1) by (simp add: wf_work_def)
  have s: "wrn half 32 (take 11 ns) = Some (splice half 32 (take 11 ns))" "length (splice half 32 (take 11 ns)) = 64"
    using l f(3) by (simp_all add: mem_simps len_simps)
  show ?thesis
    using f h(2) k t s assms(4,5) unfolding half_def [symmetric]
    by (simp add: scan_setup_def mem_simps LOAD_Some env_ok_def scan_inv_def Let_def)
qed

lemma hash_limit_eq: "(if max_nonce \<noteq> 0 then unat max_nonce else 1) = max 1 (unat (max_nonce :: u32))"
  by (simp add: max_def Suc_le_eq unat_gt_0)

text \<open>The run as a whole: the state it starts from, the count and the state it ends in.\<close>

lemma scanhash_result:
  assumes "sse_intrinsics S" "wf_work work" "w_valid_nonces work = 0"
    "length buf2 = 64" "length junk = 552" "length t0 = 32" "length t1 = 32" "length cand = 32"
  obtains env st c st' where "scan_setup S buf2 junk t0 t1 work = Some (env, st)" "sc_work st = work"
    "length (sc_full_data st) = 1487" "length (sc_nonceSpace st) = 15"
    "scan_done S F sd env (take 43 (sc_half0 st)) stop (max 1 (unat max_nonce)) st c st'"
    "scanhash_verus S F sd True buf2 junk t0 t1 cand stop work max_nonce =
       Some (unat (w_valid_nonces (sc_work st')), c, (sc_work st')\<lparr>w_data :=
         (w_data (sc_work st'))[30 := bytes_to_u32s (sc_full_data st) ! 30 + 1]\<rparr>)"
proof -
  obtain env st where s: "scan_setup S buf2 junk t0 t1 work = Some (env, st)" "env_ok env"
    "scan_inv env (take 43 (sc_half0 st)) st" "sc_nonce_buf st = 0" "sc_work st = work"
    "length (sc_full_data st) = 1487" "length (sc_nonceSpace st) = 15"
    using scan_setup_total [OF assms(2,4-7)] by blast
  let ?pre = "take 43 (sc_half0 st)" and ?L = "max 1 (unat max_nonce)"
  have R: "\<exists>st'. record_solution F sd n st1 = Some st' \<and> sc_full_data st' = sc_full_data st \<and>
      length (w_data (sc_work st')) = 48"
    if "frame st st1" "length (sc_vhash st1) = 32" for n st1
    using that record_solution_total [of st1 F sd n] assms(2,3) s(5,6,7) by (auto simp: frame_def)
  then have R': "\<exists>st'. record_solution F sd n st1 = Some st'"
    if "frame st st1" "length (sc_vhash st1) = 32" for n st1 using that by blast
  have "\<exists>out c st1. scan_dual_loop S F sd cand env stop ?L 0 st = Some (out, c, st1) \<and>
    (if out then scan_done S F sd env ?pre stop ?L st c st1
     else c \<le> ?L \<and> scan_inv env ?pre st1 \<and> frame st st1 \<and> sc_nonce_buf st1 = of_nat c \<and>
       (\<forall>m < c. \<not> nonce_valid S env ?pre m))"
    by (rule scan_dual_loop_correct [OF assms(1) s(2) assms(8) R' s(3)]) (auto simp: frame_def s(4))
  then obtain out c st1 where d: "scan_dual_loop S F sd cand env stop ?L 0 st = Some (out, c, st1)"
    "out \<Longrightarrow> scan_done S F sd env ?pre stop ?L st c st1"
    "\<not> out \<Longrightarrow> c \<le> ?L \<and> scan_inv env ?pre st1 \<and> frame st st1 \<and> sc_nonce_buf st1 = of_nat c \<and>
       (\<forall>m < c. \<not> nonce_valid S env ?pre m)"
    by (metis (full_types))
  have "\<exists>c' st'. scan_single_loop S F sd env stop ?L c st1 = Some (c', st') \<and>
      scan_done S F sd env ?pre stop ?L st c' st'" if "\<not> out"
    using d(3) [OF that] by (intro scan_single_loop_correct [OF assms(1) s(2) R']) auto
  then obtain c' st' where e: "(if out then Some (c, st1) else scan_single_loop S F sd env stop ?L c st1) = Some (c', st')"
    "scan_done S F sd env ?pre stop ?L st c' st'"
    using d(2) by (cases out) auto
  have w: "length (w_data (sc_work st)) = 48" using assms(2) s(5) by (simp add: wf_work_def)
  from e(2) consider n st2 where "frame st st2" "length (sc_vhash st2) = 32" "record_solution F sd (of_nat n) st2 = Some st'"
    | "frame st st'" unfolding scan_done_def by blast
  then have l: "sc_full_data st' = sc_full_data st \<and> length (w_data (sc_work st')) = 48"
  proof cases
    case 1
    then show ?thesis using R [OF 1(1,2), of "of_nat n"] by simp
  qed (use w in \<open>simp add: frame_def\<close>)
  have "scanhash_verus S F sd True buf2 junk t0 t1 cand stop work max_nonce =
      Some (unat (w_valid_nonces (sc_work st')), c', (sc_work st')\<lparr>w_data :=
        (w_data (sc_work st'))[30 := bytes_to_u32s (sc_full_data st) ! 30 + 1]\<rparr>)"
    using s(1,6) d(1) e(1) l
    by (cases out) (auto simp: scanhash_verus_def hash_limit_eq mem_simps length_bytes_to_u32s NONCE_OFT_def Let_def)
  with s e(2) that show thesis by blast
qed

text \<open>The bytes of the rotated first block.\<close>

lemma rotated_block:
  assumes "length bs = 16"
  shows "STORE (vextq_u8 (of_le bs) (of_le bs) 1) = tl bs @ [hd bs]"
proof (rule nth_equalityI)
  show "length (STORE (vextq_u8 (of_le bs) (of_le bs) 1)) = length (tl bs @ [hd bs])" using assms by simp
  fix i assume "i < length (STORE (vextq_u8 (of_le bs) (of_le bs) 1))"
  then have i: "i < 16" by simp
  let ?v = "of_le bs :: u128"
  have e: "bs \<noteq> []" using assms by auto
  show "STORE (vextq_u8 (of_le bs) (of_le bs) 1) ! i = (tl bs @ [hd bs]) ! i"
  proof (rule bit_word_eqI)
    fix k assume "k < LENGTH(8)"
    then have k: "k < 8" by simp
    have l: "bit (STORE (vextq_u8 ?v ?v 1) ! i) k = (bit ?v (8 * i + (8 + k)) \<or> 120 \<le> 8 * i + k \<and> bit ?v (8 * i + k - 120))"
      using i k by (simp add: STORE_def nth_to_le vextq_u8_def bit_simps add.assoc)
    show "bit (STORE (vextq_u8 ?v ?v 1) ! i) k = bit ((tl bs @ [hd bs]) ! i) k"
    proof (cases "i = 15")
      case True
      have "8 * i + k - 120 = k" "\<not> 8 * i + (8 + k) < 128" using True by simp_all
      then show ?thesis unfolding l using True assms k e
        by (simp add: bit_of_le nth_append hd_conv_nth)
    next
      case False
      then have "i < 15" using i by simp
      then have n: "(tl bs @ [hd bs]) ! i = bs ! Suc i" using assms by (simp add: nth_append nth_tl)
      have "8 * i + (8 + k) = k + Suc i * 8" by simp
      then have d: "(8 * i + (8 + k)) div 8 = Suc i" "(8 * i + (8 + k)) mod 8 = k" using k by simp_all
      have "8 * i + (8 + k) < 128" "\<not> 120 \<le> 8 * i + k" using \<open>i < 15\<close> k by simp_all
      then show ?thesis unfolding l n using assms d by (simp add: bit_of_le)
    qed
  qed
qed

text \<open>Setting up gives the half hash of the header; what a nonce is hashed from is what the half hash
  of the header with that nonce in its last bytes is.\<close>

lemma setup_prepared:
  assumes "scan_setup S buf2 junk t0 t1 work = Some (env, st)" "length (sc_full_data st) = 1487"
    "length (sc_nonceSpace st) = 15" "length buf2 = 64" "length buf3 = 64"
  shows "VerusHashHalf S buf3 (take 1472 (sc_full_data st) @ take 11 (sc_nonceSpace st) @ to_le 4 n) 1487 =
    Some (prepared env (take 43 (sc_half0 st)) n)"
proof -
  let ?f = "sc_full_data st" and ?ns = "take 11 (sc_nonceSpace st)"
  let ?g = "take 1472 ?f @ ?ns @ to_le 4 n"
  obtain h where h: "half_chain S (load_constants S) 46 (replicate 32 0) ?f = Some h" "length h = 32"
    "VerusHashHalf S buf2 ?f 1487 = Some (h @ take 15 (drop 1472 ?f) @ take 16 h @ take 1 h)"
    using VerusHashHalf_chain [of ?f buf2 S] assms(2,4) by auto
  have chain: "half_chain S rc m x (take (32 * m) d) = half_chain S rc m x d" for rc m x d
    by (induction m arbitrary: x d) (simp_all add: drop_take min_def)
  have "half_chain S (load_constants S) 46 (replicate 32 0) ?g = Some h"
    using h(1) chain [of "load_constants S" 46 "replicate 32 0" ?f]
      chain [of "load_constants S" 46 "replicate 32 0" ?g] assms(2) by simp
  then have "VerusHashHalf S buf3 ?g 1487 = Some (h @ (?ns @ to_le 4 n) @ take 16 h @ take 1 h)"
    using VerusHashHalf_chain [of ?g buf3 S] assms(2,3,5) by (auto simp: h(2))
  moreover have "h = take 16 h @ drop 16 h" by simp
  moreover have "take 16 h @ take 1 h = [hd h] @ (tl (take 16 h) @ [hd (take 16 h)])"
    using h(2) by (cases h) auto
  moreover have "h ! 0 = hd h" using h(2) by (cases h) auto
  moreover from this have "se_fill1 env = vextq_u8 (of_le (take 16 h)) (of_le (take 16 h)) 1" "se_first_byte env = hd h"
    "take 43 (sc_half0 st) = h @ ?ns"
    using assms(1-3) h(2,3)
    by (auto simp: scan_setup_def bind_eq_Some_conv rdn_def wrn_def rd_def LOAD_def Let_def splice_def hd_conv_nth nth_append split: if_splits prod.splits)
  ultimately show ?thesis
    using rotated_block [of "take 16 h"] h(2) by (simp add: prepared_def)
qed

section \<open>The hash of a block\<close>

text \<open>The reference: the hash of a block of 1487 bytes, with nothing of the scanner in it. The chain over the first 46 pieces of
  32 bytes gives the key and the start of the buffer, the 15 bytes behind them and the chain again the rest.\<close>

definition verus_hash :: "sse \<Rightarrow> bytes \<Rightarrow> bytes option" where
  "verus_hash S block = do {
     let rc = load_constants S;
     h \<leftarrow> half_chain S rc 46 (replicate 32 0) block;
     key \<leftarrow> GenNewCLKey S rc h (replicate 552 0);
     nonce_hash S key (h @ take 15 (drop 1472 block) @ take 16 h @ take 1 h) }"

definition block_meets :: "sse \<Rightarrow> bytes \<Rightarrow> u32 list \<Rightarrow> bool" where
  "block_meets S block target =
     (case verus_hash S block of None \<Rightarrow> False | Some h \<Rightarrow> nval (bytes_to_u32s h) \<le> nval target)"

text \<open>The block of a work and a nonce.\<close>

definition scan_block :: "'f work \<Rightarrow> nat \<Rightarrow> bytes" where
  "scan_block work n = (case build_full_data work of
     None \<Rightarrow> []
   | Some (full, ns) \<Rightarrow> take 1472 full @ take 11 ns @ to_le 4 (of_nat n :: u32))"

lemma half_chain_prefix:
  "take (32 * n) d1 = take (32 * n) d2 \<Longrightarrow> half_chain S rc n h d1 = half_chain S rc n h d2"
proof (induction n arbitrary: h d1 d2)
  case (Suc n)
  have "take 32 (take (32 * Suc n) d) = take 32 d" "take (32 * n) (drop 32 d) = drop 32 (take (32 * Suc n) d)" for d :: bytes
    by (simp_all add: drop_take)
  then have "take 32 d1 = take 32 d2" "take (32 * n) (drop 32 d1) = take (32 * n) (drop 32 d2)"
    using Suc.prems by metis+
  moreover from this have "half_chain S rc n x (drop 32 d1) = half_chain S rc n x (drop 32 d2)" for x using Suc.IH by blast
  ultimately show ?case by simp
qed simp

lemma FEED2_prefix: "32 \<le> length src \<Longrightarrow> FEED2 S (take 32 src) 0 s = FEED2 S src 0 s"
  by (cases s) (simp add: FEED2.simps LOAD2_def LOAD_def rdn_def drop_take)

lemma haraka256_prefix: "32 \<le> length src \<Longrightarrow> haraka256 S rc src = haraka256 S rc (take 32 src)"
  by (simp add: haraka256_def LOAD2_def LOAD_def rdn_def drop_take FEED2_prefix)

lemma key_of_prefix:
  assumes "32 \<le> length seed" "length junk = 552"
  shows "GenNewCLKey S rc seed junk = GenNewCLKey S rc (take 32 seed) (replicate 552 0)"
proof -
  have "GenNewCLKey_loop S rc (Suc 275) seed = GenNewCLKey_loop S rc (Suc 275) (take 32 seed)"
    by (simp only: GenNewCLKey_loop.simps haraka256_prefix [OF assms(1)])
  then have e: "GenNewCLKey_loop S rc 276 seed = GenNewCLKey_loop S rc 276 (take 32 seed)" by simp
  have l: "length w = 8832" if "GenNewCLKey_loop S rc 276 (take 32 seed) = Some (w, p)" for w p
  proof -
    have "GenNewCLKey_loop S rc n s = Some (w, p) \<Longrightarrow> length w = 32 * n" for n s w p
      by (induction n arbitrary: s w p) (auto simp: bind_eq_Some_conv dest: length_haraka256)
    from this [OF that] show ?thesis by simp
  qed
  show ?thesis
    unfolding GenNewCLKey_def VERUS_KEY_SIZE_def
    using l assms(2) e
    by (cases "GenNewCLKey_loop S rc 276 (take 32 seed)") (auto simp: Let_def wrn_def splice_def length_bytes_to_vecs)
qed

lemma setup_key:
  assumes "scan_setup S buf2 junk t0 t1 work = Some (env, st)" "length (sc_full_data st) = 1487" "length buf2 = 64" "length junk = 552"
  shows "\<exists>h. half_chain S (load_constants S) 46 (replicate 32 0) (sc_full_data st) = Some h \<and> length h = 32 \<and>
    GenNewCLKey S (load_constants S) h (replicate 552 0) = Some (se_pristine env)"
proof -
  obtain h where h: "half_chain S (load_constants S) 46 (replicate 32 0) (sc_full_data st) = Some h" "length h = 32"
    "VerusHashHalf S buf2 (sc_full_data st) 1487 = Some (h @ take 15 (drop 1472 (sc_full_data st)) @ take 16 h @ take 1 h)"
    using VerusHashHalf_chain [of "sc_full_data st" buf2 S] assms(2,3) by auto
  let ?half = "h @ take 15 (drop 1472 (sc_full_data st)) @ take 16 h @ take 1 h"
  have "GenNewCLKey S (load_constants S) ?half junk = Some (se_pristine env)"
    using assms(1) h(3) by (auto simp: scan_setup_def bind_eq_Some_conv Let_def split: prod.splits)
  then show ?thesis using key_of_prefix [of ?half junk S] assms(4) h(1,2) by simp
qed

lemma nonce_valid_block:
  assumes "scan_setup S buf2 junk t0 t1 work = Some (env, st)" "length (sc_full_data st) = 1487" "length (sc_nonceSpace st) = 15"
    "length buf2 = 64" "length junk = 552"
  shows "nonce_valid S env (take 43 (sc_half0 st)) n = block_meets S (scan_block work n) (w_target work)"
    "scan_block work n = take 1472 (sc_full_data st) @ take 11 (sc_nonceSpace st) @ to_le 4 (of_nat n :: u32)"
proof -
  let ?b = "take 1472 (sc_full_data st) @ take 11 (sc_nonceSpace st) @ to_le 4 (of_nat n :: u32)"
  have f: "build_full_data work = Some (sc_full_data st, sc_nonceSpace st)" "se_target env = w_target work"
    using assms(1) by (auto simp: scan_setup_def bind_eq_Some_conv Let_def split: prod.splits)
  then show b: "scan_block work n = ?b" by (simp add: scan_block_def)
  have lb: "length ?b = 1487" using assms(2,3) by simp
  have p: "VerusHashHalf S buf2 ?b 1487 = Some (prepared env (take 43 (sc_half0 st)) (of_nat n))"
    using setup_prepared [OF assms(1-4) assms(4), of "of_nat n"] by simp
  obtain h where h: "half_chain S (load_constants S) 46 (replicate 32 0) ?b = Some h"
    "VerusHashHalf S buf2 ?b 1487 = Some (h @ take 15 (drop 1472 ?b) @ take 16 h @ take 1 h)"
    using VerusHashHalf_chain [of ?b buf2 S] lb assms(4) by auto
  have "half_chain S (load_constants S) 46 (replicate 32 0) ?b = half_chain S (load_constants S) 46 (replicate 32 0) (sc_full_data st)"
    by (rule half_chain_prefix) (use assms(2) in simp)
  then have "GenNewCLKey S (load_constants S) h (replicate 552 0) = Some (se_pristine env)"
    using setup_key [OF assms(1,2,4,5)] h(1) by auto
  then have "verus_hash S ?b = nonce_hash S (se_pristine env) (prepared env (take 43 (sc_half0 st)) (of_nat n))"
    using h p by (simp add: verus_hash_def Let_def)
  then show "nonce_valid S env (take 43 (sc_half0 st)) n = block_meets S (scan_block work n) (w_target work)"
    using b f(2) by (simp add: nonce_valid_def block_meets_def hash_meets_def)
qed

section \<open>What a scan reports\<close>

text \<open>What the scan leaves in the work for a share: the header words with the recorded nonce word put back,
  and the solution with the nonce space.\<close>

definition recorded_share :: "'f work \<Rightarrow> bytes" where
  "recorded_share w = u32s_to_bytes (take 35 ((w_data w)[30 := w_nonces w ! 0])) @ take 1347 (w_extra w)"

lemma recorded_found:
  assumes "wf_work (sc_work st)" "w_valid_nonces (sc_work st) = 0" "length (sc_full_data st) = 1487"
    "length (sc_nonceSpace st) = 15" "length (sc_vhash st) = 32" "record_solution F sd n st = Some st'"
  shows "recorded_share ((sc_work st')\<lparr>w_data := (w_data (sc_work st'))[30 := x]\<rparr>) =
    take 1472 (sc_full_data st) @ take 11 (sc_nonceSpace st) @ to_le 4 n"
proof -
  have r: "take 35 (w_data (sc_work st')) = bytes_to_u32s (take 140 (sc_full_data st))"
    "w_nonces (sc_work st') ! 0 = bytes_to_u32s (sc_full_data st) ! 30"
    "take 1347 (w_extra (sc_work st')) = take 1332 (drop 140 (sc_full_data st)) @ take 11 (sc_nonceSpace st) @ to_le 4 n"
    using record_solution_total [OF assms(1-5), of F sd n] assms(6) by auto
  let ?b = "bytes_to_u32s (take 140 (sc_full_data st))"
  have l: "length ?b = 35" using assms(3) by (simp add: length_bytes_to_u32s)
  have "bytes_to_u32s (sc_full_data st) ! 30 = ?b ! 30"
    using assms(3) by (simp add: nth_bytes_to_u32s drop_take)
  then have "take 35 ((w_data (sc_work st'))[30 := x, 30 := w_nonces (sc_work st') ! 0]) = ?b"
    using r(1,2) l by (simp add: take_update_swap)
  moreover have "u32s_to_bytes ?b = take 140 (sc_full_data st)"
    using assms(3) by (intro u32s_to_bytes_to_u32s) simp
  moreover have "take 140 (sc_full_data st) @ take 1332 (drop 140 (sc_full_data st)) = take 1472 (sc_full_data st)"
    using take_add [of 140 1332 "sc_full_data st"] by simp
  ultimately show ?thesis using r(3) by (simp add: recorded_share_def)
qed

text \<open>The parts of the work that a scan leaves alone.\<close>

definition scan_kept :: "'f work \<Rightarrow> 'f work \<Rightarrow> bool" where
  "scan_kept w w' \<longleftrightarrow> wf_work w' \<and> w_target w' = w_target w \<and> w_solution w' = w_solution w \<and> w_job_id w' = w_job_id w \<and>
     w_pooln w' = w_pooln w \<and> w_height w' = w_height w \<and> w_xnonce2_len w' = w_xnonce2_len w"

lemma scan_outcome:
  assumes "sse_intrinsics S" "wf_work work" "w_valid_nonces work = 0"
    "length buf2 = 64" "length junk = 552" "length t0 = 32" "length t1 = 32" "length cand = 32"
  shows "\<exists>ret done work'. scanhash_verus S F sd True buf2 junk t0 t1 cand stop work max_nonce = Some (ret, done, work') \<and>
    done \<le> max 1 (unat max_nonce) \<and> scan_kept work work' \<and>
    (ret = 1 \<and> (\<exists>n < done. done \<le> n + 2 \<and> block_meets S (scan_block work n) (w_target work) \<and>
        (\<forall>m < n. \<not> block_meets S (scan_block work m) (w_target work)) \<and> recorded_share work' = scan_block work n) \<or>
     ret = 0 \<and> (\<forall>m < done. \<not> block_meets S (scan_block work m) (w_target work)) \<and>
        (done = max 1 (unat max_nonce) \<or> done mod 512 = 0 \<and> stop done))"
proof -
  let ?L = "max 1 (unat max_nonce)"
  obtain env st c st' where s: "scan_setup S buf2 junk t0 t1 work = Some (env, st)" "sc_work st = work"
    "length (sc_full_data st) = 1487" "length (sc_nonceSpace st) = 15"
    "scan_done S F sd env (take 43 (sc_half0 st)) stop ?L st c st'"
    "scanhash_verus S F sd True buf2 junk t0 t1 cand stop work max_nonce =
       Some (unat (w_valid_nonces (sc_work st')), c, (sc_work st')\<lparr>w_data :=
         (w_data (sc_work st'))[30 := bytes_to_u32s (sc_full_data st) ! 30 + 1]\<rparr>)"
    using scanhash_result [OF assms, of F sd stop max_nonce] by blast
  let ?w = "(sc_work st')\<lparr>w_data := (w_data (sc_work st'))[30 := bytes_to_u32s (sc_full_data st) ! 30 + 1]\<rparr>"
  note block = nonce_valid_block [OF s(1,3,4) assms(4,5)]
  from s(5) consider
    (found) n st2 where "n < c" "c \<le> n + 2" "block_meets S (scan_block work n) (w_target work)"
      "\<forall>m < n. \<not> block_meets S (scan_block work m) (w_target work)"
      "frame st st2" "length (sc_vhash st2) = 32" "record_solution F sd (of_nat n) st2 = Some st'" "c \<le> ?L"
  | (none) "\<forall>m < c. \<not> block_meets S (scan_block work m) (w_target work)" "frame st st'" "c = ?L \<or> c mod 512 = 0 \<and> stop c" "c \<le> ?L"
    unfolding scan_done_def block(1) by blast
  then show ?thesis
  proof cases
    case found
    have "recorded_share ?w = scan_block work n"
      using recorded_found [OF _ _ _ _ found(6,7)] found(5) s(2-4) assms(2,3) block(2) [of n] by (simp add: frame_def)
    moreover have "scan_kept work ?w" "w_valid_nonces (sc_work st') = 1"
      using record_solution_total [of st2 F sd "of_nat n"] found(5-7) assms(2,3) s(2-4)
      by (auto simp: frame_def scan_kept_def wf_work_def)
    ultimately show ?thesis using s(6) found(1-4,8)
      by (intro exI [of _ 1] exI [of _ c] exI [of _ ?w]) auto
  next
    case none
    then have "w_valid_nonces (sc_work st') = 0" "scan_kept work ?w"
      using assms(2,3) s(2) by (simp_all add: frame_def scan_kept_def wf_work_def)
    then show ?thesis using s(6) none(1,3,4)
      by (intro exI [of _ 0] exI [of _ c] exI [of _ ?w]) simp
  qed
qed

section \<open>Properties\<close>

text \<open>C2: the scan is a sequential search for a block. For documented vector operations, a well-formed work with
  no nonce recorded yet and whatever uninitialised memory holds, \<open>scanhash_verus\<close> returns; it has
  tried no more than the limit. Either it reports one nonce: the least one for which the hash of the block of the
  work with that nonce meets the target; what it has recorded in the work is that block, and it has computed at most one
  hash more than needed. Or it reports none, and then no nonce below \<open>hashes_done\<close> gives a block that meets
  the target and it stopped at the limit or because a restart was asked for at a multiple of 512 hashes.\<close>

theorem scanhash_finds_least:
  assumes "sse_intrinsics S" "wf_work work" "w_valid_nonces work = 0"
    "length buf2 = 64" "length junk = 552" "length t0 = 32" "length t1 = 32" "length cand = 32"
  shows "\<exists>ret done work'. scanhash_verus S F sd True buf2 junk t0 t1 cand stop work max_nonce = Some (ret, done, work') \<and>
    done \<le> max 1 (unat max_nonce) \<and>
    (ret = 1 \<and> (\<exists>n < done. done \<le> n + 2 \<and> block_meets S (scan_block work n) (w_target work) \<and>
        (\<forall>m < n. \<not> block_meets S (scan_block work m) (w_target work)) \<and> recorded_share work' = scan_block work n) \<or>
     ret = 0 \<and> (\<forall>m < done. \<not> block_meets S (scan_block work m) (w_target work)) \<and>
        (done = max 1 (unat max_nonce) \<or> done mod 512 = 0 \<and> stop done))"
  using scan_outcome [OF assms, of F sd stop max_nonce] by (elim ex_forward) simp

theorem scanhash_finds_least_witness:
  "\<exists>ret done work'.
    scanhash_verus sse_doc int_fops True True (replicate 64 1) (replicate 552 2) (replicate 32 3)
      (replicate 32 4) (replicate 32 5) (\<lambda>_. False) (zero_work (0 :: int)) 1000 = Some (ret, done, work') \<and>
    done \<le> max 1 (unat (1000 :: u32)) \<and>
    (ret = 1 \<and> (\<exists>n < done. done \<le> n + 2 \<and> block_meets sse_doc (scan_block (zero_work (0 :: int)) n) (w_target (zero_work (0 :: int))) \<and>
        (\<forall>m < n. \<not> block_meets sse_doc (scan_block (zero_work (0 :: int)) m) (w_target (zero_work (0 :: int)))) \<and>
        recorded_share work' = scan_block (zero_work (0 :: int)) n) \<or>
     ret = 0 \<and> (\<forall>m < done. \<not> block_meets sse_doc (scan_block (zero_work (0 :: int)) m) (w_target (zero_work (0 :: int)))) \<and>
        (done = max 1 (unat (1000 :: u32)) \<or> done mod 512 = 0 \<and> False))"
  using scanhash_finds_least [OF doc.sse_intrinsics_axioms, of "zero_work (0 :: int)" "replicate 64 1" "replicate 552 2"
      "replicate 32 3" "replicate 32 4" "replicate 32 5" int_fops True "\<lambda>_. False" 1000]
  by (simp add: zero_work_nonces)

text \<open>C7: \<open>Verus2hash\<close> decides exactly and leaves no trace. Its verdict is that of the hash computed
  without the prefilter, and the key it worked on is the pristine key again.\<close>

theorem verus2hash_exact:
  assumes "sse_intrinsics S" "length buf = 64" "length key = 552" "length hash = 32" "length target = 8" "length t = 32"
  shows "\<exists>h hash' buf' t'. nonce_hash S key buf = Some h \<and>
    Verus2hash S hash buf target (target ! 7) key key t =
      Some (nval (bytes_to_u32s h) \<le> nval target, hash', buf', key, t')"
proof -
  obtain im lane fin h hash' where *: "verusclhashv2_2 True S key buf t [] [] [] = Some (im, lane)"
    "FinalizeHash True S hash buf target (target ! 7) (randomsource lane) im =
      Some (hash_meets S key buf target, hash', fin)"
    "RestoreKey (touched lane) (randomsource lane) key = Some key" "nonce_hash S key buf = Some h"
    using lane_correct [OF assms] by blast
  then show ?thesis by (simp add: Verus2hash_def hash_meets_def)
qed

theorem verus2hash_exact_witness:
  "\<exists>h hash' buf' t'. nonce_hash sse_doc (replicate 552 8) (replicate 64 9) = Some h \<and>
    Verus2hash sse_doc (replicate 32 0) (replicate 64 9) (replicate 8 7) (replicate 8 7 ! 7) (replicate 552 8)
      (replicate 552 8) (replicate 32 0) =
      Some (nval (bytes_to_u32s h) \<le> nval (replicate 8 7), hash', buf', replicate 552 8, t')"
  by (rule verus2hash_exact) (simp_all add: doc.sse_intrinsics_axioms)

text \<open>C37: \<open>FixKey\<close>, which replays the undo log of the other build backwards, gives the key from before
  the hash, also when steps touched the same entries.\<close>

theorem fixkey_undoes:
  assumes "length key = 552" "length fr = 32" "length fx = 32" "length gp = 32" "length gx = 32" "64 \<le> length buf"
  shows "\<exists>im lane. verusclhashv2_2 False S key buf fr fx gp gx = Some (im, lane) \<and>
    FixKey (fixrand lane) (fixrandex lane) (randomsource lane) (g_prand lane) (g_prandex lane) = Some key"
proof -
  obtain im lane where "verusclhashv2_2 False S key buf fr fx gp gx = Some (im, lane)"
    using verusclhash_total [of key buf False fr fx gp gx S] assms by (metis (full_types))
  then show ?thesis using FixKey_restores [OF assms] by blast
qed

theorem fixkey_undoes_witness:
  "\<exists>im lane. verusclhashv2_2 False sse_doc (replicate 552 1) (replicate 64 2) (replicate 32 0) (replicate 32 0)
      (replicate 32 0) (replicate 32 0) = Some (im, lane) \<and>
    FixKey (fixrand lane) (fixrandex lane) (randomsource lane) (g_prand lane) (g_prandex lane) =
      Some (replicate 552 1)"
  by (rule fixkey_undoes) simp_all

text \<open>The half hash of a 1487-byte header is the Haraka chain over its 46 whole blocks, followed by
  the 15 remaining bytes and the first 17 bytes of the chain value again; what the uninitialised
  second buffer held does not matter.\<close>

lemma half_hash_is_chain:
  assumes "length data = 1487" "length buf2 = 64"
  shows "\<exists>h. half_chain S (load_constants S) 46 (replicate 32 0) data = Some h \<and> length h = 32 \<and>
    VerusHashHalf S buf2 data 1487 = Some (h @ drop 1472 data @ take 16 h @ take 1 h)"
  using VerusHashHalf_chain [of data buf2 S] assms by simp

end
