(* ===== verification/Mining.thy ===== *)
theory Mining
  imports Getwork Verusscan
begin

text \<open>The mining thread of \<open>ccminer.cpp\<close>: \<open>wanna_mine\<close> and one round of the loop of \<open>miner_thread\<close>, from fetching a job over
  the limits and the size of the batch to the scan and the submission of what it found. The local variables of the thread
  are a record; the pieces of the loop body are functions of them and the globals, and a piece may end the round or the
  thread.\<close>

section \<open>State of a thread\<close>

record 'f mthread =
  mt_id :: nat
  mt_switchn :: int
  mt_work :: "'f work"
  mt_loopcnt :: u64
  mt_start_nonce :: u32
  mt_max_nonce :: u32
  mt_end_nonce :: u32
  mt_max64 :: u64
  mt_scan_time :: u32
  mt_work_done :: bool
  mt_extrajob :: bool
  mt_rc :: nat
  mt_hashes_done :: nat

text \<open>What a round meets: results of library calls and of the calls that wait (\<open>rn_A\<close>), the values of \<open>time\<close>, of the steady
  clock and of \<open>rand\<close> in the order of the calls, what other threads do to the globals where this one holds no lock, and
  for the scan the vector operations, uninitialised memory and the reads of the restart flag.\<close>

record ('j, 'f) round =
  rn_A :: "('j, 'f) answers"
  rn_sha :: "bytes \<Rightarrow> bytes"
  rn_rand :: "nat \<Rightarrow> u32"
  rn_time :: "nat \<Rightarrow> int"
  rn_clock :: "nat \<Rightarrow> 'f"
  rn_other :: "nat \<Rightarrow> 'f miner \<Rightarrow> 'f miner"
  rn_to_u32 :: "'f \<Rightarrow> u32"
  rn_ceil :: "'f \<Rightarrow> 'f"
  rn_llround :: "'f \<Rightarrow> u64"
  rn_tv_start :: timeval
  rn_tv_end :: timeval
  rn_S :: sse
  rn_malloc :: bool
  rn_buf2 :: bytes
  rn_junk :: "u128 list"
  rn_t0 :: "u32 list"
  rn_t1 :: "u32 list"
  rn_cand :: bytes
  rn_stop :: "nat \<Rightarrow> bool"

abbreviation rn_F :: "('j, 'f) round \<Rightarrow> 'f fops" where
  "rn_F e \<equiv> sv_F (an_E (rn_A e))"

datatype 'f flow =
    Next "'f mthread" "'f miner"     \<comment> \<open>to the next statement\<close>
  | Again "'f mthread" "'f miner"    \<comment> \<open>\<open>continue\<close>\<close>
  | Leave "'f mthread" "'f miner"    \<comment> \<open>\<open>break\<close>, \<open>goto out\<close>\<close>

definition and_then :: "'f flow option \<Rightarrow> ('f mthread \<Rightarrow> 'f miner \<Rightarrow> 'f flow option) \<Rightarrow> 'f flow option" where
  "and_then x f = do { r \<leftarrow> x; case r of Next t m \<Rightarrow> f t m | _ \<Rightarrow> Some r }"

definition LP_SCANTIME :: int where "LP_SCANTIME = 60"
definition VERUS_NONCE_OFFSET :: nat where "VERUS_NONCE_OFFSET = 30"
definition UINT32_MAX :: u32 where "UINT32_MAX = 0xffffffff"

text \<open>\<open>UINT32_MAX / opt_n_threads\<close>; the divisor is converted to unsigned.\<close>

definition nonce_share :: "int \<Rightarrow> u32 option" where
  "nonce_share n = (if (word_of_int n :: u32) = 0 then None else Some (UINT32_MAX div word_of_int n))"

text \<open>The local variables before the loop.\<close>

definition miner_thread_start :: "'f \<Rightarrow> nat \<Rightarrow> 'f miner \<Rightarrow> 'f mthread option" where
  "miner_thread_start zero thr_id m = do {
     q \<leftarrow> nonce_share (opt_n_threads m);
     Some \<lparr>mt_id = thr_id, mt_switchn = pool_switch_count m, mt_work = zero_work zero, mt_loopcnt = 0, mt_start_nonce = 0,
       mt_max_nonce = 0, mt_end_nonce = q * of_nat (thr_id + 1) - of_nat (thr_id + 1), mt_max64 = 0, mt_scan_time = 0,
       mt_work_done = False, mt_extrajob = False, mt_rc = 0, mt_hashes_done = 0\<rparr> }"

text \<open>\<open>wcmpoft\<close> in words, \<open>wcmplen\<close> in bytes, and the index of \<open>nonceptr\<close>.\<close>

definition mine_layout :: "int \<Rightarrow> nat \<times> nat \<times> nat" where
  "mine_layout algo =
     (if algo = ALGO_EQUIHASH then (0, 4 + 32 + 32, VERUS_NONCE_OFFSET)
      else if algo = ALGO_LBRY then (0, 108, 27)
      else if algo = ALGO_SIA then (12, 32, 8)
      else if algo = ALGO_DECRED then (0, 140, 35)
      else (0, 76, 19))"

definition upd_work :: "('f work \<Rightarrow> 'f work) \<Rightarrow> 'f mthread \<Rightarrow> 'f mthread" where
  "upd_work g t = t\<lparr>mt_work := g (mt_work t)\<rparr>"

definition get_nonce :: "nat \<Rightarrow> 'f mthread \<Rightarrow> u32 option" where
  "get_nonce k t = rd (w_data (mt_work t)) k"

definition set_nonce :: "nat \<Rightarrow> u32 \<Rightarrow> 'f mthread \<Rightarrow> 'f mthread option" where
  "set_nonce k v t = do { d \<leftarrow> wr (w_data (mt_work t)) k v; Some (upd_work (w_data_update (\<lambda>_. d)) t) }"

text \<open>\<open>pools[cur_pooln].wait_time += n\<close>, by the first thread only.\<close>

definition wait_time :: "u32 \<Rightarrow> 'f mthread \<Rightarrow> 'f miner \<Rightarrow> 'f miner option" where
  "wait_time n t m = (if mt_id t = 0 then upd_pool (cur_pooln m) (\<lambda>p. p\<lparr>pool_wait_time := pool_wait_time p + n\<rparr>) m else Some m)"

section \<open>Fetching a job\<close>

text \<open>The loop that waits for a new job: it ends after six sleeps at most.\<close>

function wait_job :: "('j, 'f) round \<Rightarrow> nat \<Rightarrow> 'f miner \<Rightarrow> bool \<times> 'f miner" where
  "wait_job e sleeptime m =
     (if rn_time e sleeptime \<ge> g_work_time m + opt_scantime m then
        let m = rn_other e sleeptime m
        in if sleeptime > 4 then (True, m) else wait_job e (sleeptime + 1) m
      else (False, m))"
  by auto
termination
  by (relation "measure (\<lambda>(e, sleeptime, m). 5 - sleeptime)") auto

declare wait_job.simps [simp del]

text \<open>\<open>stratum_gen_work(&stratum, &g_work)\<close> with the globals it reads and writes.\<close>

definition gen_g_work :: "('j, 'f) round \<Rightarrow> 'f miner \<Rightarrow> (bool \<times> 'f miner) option" where
  "gen_g_work e m = do {
     let F = rn_F e;
     let G = \<lparr>g_algo = opt_algo m, g_vote = opt_vote m, g_calc_diff = (opt_showdiff m \<or> f_lt F (f_lit F 0 0) (opt_max_diff m)),
       g_sha = rn_sha e, g_rand = rn_rand e\<rparr>;
     (ok, D, c, w) \<leftarrow> stratum_gen_work (an_E (rn_A e)) G
       \<lparr>d_net_diff = net_diff m, d_stratum_diff = stratum_diff m, d_opt_difficulty = opt_difficulty m\<rparr> (stratum m) (g_work m);
     Some (ok, m\<lparr>net_diff := d_net_diff D, stratum_diff := d_stratum_diff D, opt_difficulty := d_opt_difficulty D,
       stratum := c, g_work := w\<rparr>) }"

definition fetch_stratum :: "('j, 'f) round \<Rightarrow> nat \<Rightarrow> 'f mthread \<Rightarrow> 'f miner \<Rightarrow> 'f flow option" where
  "fetch_stratum e np t m = do {
     let algo = opt_algo m;
     let done = mt_work_done t \<or> algo = ALGO_DECRED \<or> algo = ALGO_WILDKECCAK;
     let (late, m) = (if done then (False, m) else wait_job e 0 m);
     let extrajob = mt_extrajob t \<or> late \<or> done;
     n0 \<leftarrow> get_nonce np t;
     regen \<leftarrow> (if opt_algo m = ALGO_SIA then do { n1 \<leftarrow> get_nonce (np + 1) t; Some (n1 AND 0xFF00 \<ge> 0xF000) }
              else Some (n0 \<ge> mt_end_nonce t));
     if regen \<or> extrajob then do {
       let t = t\<lparr>mt_work_done := False, mt_extrajob := False\<rparr>;
       (ok, m) \<leftarrow> gen_g_work e m;
       let m = (if ok then m\<lparr>g_work_time := rn_time e 6\<rparr> else m);
       t \<leftarrow> (if opt_algo m = ALGO_CRYPTONIGHT \<or> opt_algo m = ALGO_CRYPTOLIGHT then set_nonce np (n0 + 0x100000) t else Some t);
       Some (Next t m) }
     else Some (Next (t\<lparr>mt_work_done := done, mt_extrajob := extrajob\<rparr>) m) }"

definition fetch_getwork :: "('j, 'f) round \<Rightarrow> nat \<Rightarrow> 'f mthread \<Rightarrow> 'f miner \<Rightarrow> 'f flow option" where
  "fetch_getwork e np t m = do {
     let secs = (word_of_int (rn_time e 7 - g_work_time m) :: u32);
     n0 \<leftarrow> get_nonce np t;
     if secs \<ge> mt_scan_time t \<or> n0 \<ge> mt_end_nonce t - 0x100 then do {
       (ok, w, m) \<leftarrow> get_work (rn_A e) (int (mt_id t)) (g_work m) m;
       let m = m\<lparr>g_work := w\<rparr>;
       if \<not> ok then
         if mt_switchn t \<noteq> pool_switch_count m then Some (Again (t\<lparr>mt_switchn := pool_switch_count m\<rparr>) m)
         else Some (Leave t m)
       else Some (Next t (m\<lparr>g_work_time := rn_time e 8\<rparr>)) }
     else Some (Next t m) }"

text \<open>Taking over the current job, still under the lock.\<close>

definition adopt_target :: "'f mthread \<Rightarrow> 'f miner \<Rightarrow> 'f mthread" where
  "adopt_target t m =
     (let w = mt_work t; g = g_work m
      in if \<not> opt_benchmark m \<and> (w_height g \<noteq> w_height w \<or> w_target w \<noteq> w_target g)
         then t\<lparr>mt_work := w\<lparr>w_target := w_target g, w_targetdiff := w_targetdiff g, w_height := w_height g\<rparr>\<rparr> else t)"

definition adopt_data :: "nat \<times> nat \<times> nat \<Rightarrow> 'f mthread \<Rightarrow> 'f miner \<Rightarrow> 'f mthread option" where
  "adopt_data = (\<lambda>(oft, len, np) t m. do {
     a \<leftarrow> rdn (u32s_to_bytes (w_data (mt_work t))) (4 * oft) len;
     b \<leftarrow> rdn (u32s_to_bytes (w_data (g_work m))) (4 * oft) len;
     if a \<noteq> b then do {
       q \<leftarrow> nonce_share (opt_n_threads m);
       set_nonce np (q * of_nat (mt_id t)) (t\<lparr>mt_work := g_work m\<rparr>) }
     else do { n0 \<leftarrow> get_nonce np t; set_nonce np (n0 + 1) t } })"

definition adopt_work :: "('j, 'f) round \<Rightarrow> nat \<times> nat \<times> nat \<Rightarrow> 'f mthread \<Rightarrow> 'f miner \<Rightarrow> 'f flow option" where
  "adopt_work e lay t m = do {
     let m = (if w_job_id (mt_work t) \<noteq> w_job_id (g_work m)
       then m\<lparr>stratum := upd_job (\<lambda>j. j\<lparr>job_shares_count := 0\<rparr>) (stratum m)\<rparr> else m);
     t \<leftarrow> adopt_data lay (adopt_target t m) m;
     t \<leftarrow> (if opt_algo m = ALGO_EQUIHASH
       then set_nonce (snd (snd lay) + 2) (push_bit 24 (rn_rand e 0) OR push_bit 8 (rn_rand e 1) OR of_nat (mt_id t)) t
       else Some t);
     Some (Next t m) }"

text \<open>From the head of the loop to the end of the locked part, and the check that there is a job at all.\<close>

definition fetch_work :: "('j, 'f) round \<Rightarrow> 'f mthread \<Rightarrow> 'f miner \<Rightarrow> 'f flow option" where
  "fetch_work e t m =
     (let t = t\<lparr>mt_scan_time := word_of_int (if have_longpoll m then LP_SCANTIME else opt_scantime m)\<rparr>;
          lay = mine_layout (opt_algo m);
          np = snd (snd lay)
      in and_then (if have_stratum m then fetch_stratum e np t m else fetch_getwork e np t m) (\<lambda>t m.
         and_then (adopt_work e lay t m) (\<lambda>t m. do {
           let m = rn_other e 6 m;
           let t = t\<lparr>mt_loopcnt := mt_loopcnt t + 1\<rparr>;
           d0 \<leftarrow> get_nonce 0 t;
           if have_stratum m \<and> d0 = 0 \<and> \<not> opt_benchmark m
           then do { m \<leftarrow> wait_time 1 t m; Some (Again t m) }
           else Some (Next t m) })))"

section \<open>Whether to mine\<close>

text \<open>\<open>wanna_mine\<close>; the check of the temperature is not part of this build.\<close>

definition too_high :: "'f fops \<Rightarrow> ('f pool_infos \<Rightarrow> 'f) \<Rightarrow> bool \<Rightarrow> bool \<Rightarrow> 'f \<Rightarrow> 'f miner \<Rightarrow> 'f miner option" where
  "too_high F limit several allow resume m = do {
     next \<leftarrow> pool_get_first_valid (cur_pooln m + 1) m;
     p \<leftarrow> rd_int (pools m) next;
     c \<leftarrow> rd_int (pools m) (cur_pooln m);
     Some (if several \<and> \<not> f_eq F (limit p) (limit c) \<and> (f_lt F resume (f_lit F 0 0) \<or> f_eq F resume (f_lit F 0 0))
           then m\<lparr>conditional_pool_rotate := allow\<rparr> else m) }"

definition wanna_mine :: "'f fops \<Rightarrow> nat \<Rightarrow> 'f miner \<Rightarrow> (bool \<times> 'f miner) option" where
  "wanna_mine F thr_id m = do {
     let zero = f_lit F 0 0;
     let allow = (thr_id = 0 \<and> num_pools m > 1 \<and> \<not> pool_is_switching m);
     let rate = f_of_int F (uint (net_hashrate m));
     waiting \<leftarrow> rd (conditional_state m) thr_id;
     let high_diff = (f_lt F zero (opt_max_diff m) \<and> f_lt F (opt_max_diff m) (net_diff m));
     let hold_diff = (f_lt F zero (opt_max_diff m) \<and> f_lt F zero (opt_resume_diff m) \<and> waiting \<and> f_lt F (opt_resume_diff m) (net_diff m));
     m \<leftarrow> (if high_diff then too_high F pool_max_diff (num_pools m > 1) allow (opt_resume_diff m) m else Some m);
     let high_rate = (f_lt F zero (opt_max_rate m) \<and> f_lt F (opt_max_rate m) rate);
     let hold_rate = (f_lt F zero (opt_max_rate m) \<and> f_lt F zero (opt_resume_rate m) \<and> waiting \<and> f_lt F (opt_resume_rate m) rate);
     m \<leftarrow> (if high_rate then too_high F pool_max_rate True allow (opt_resume_rate m) m else Some m);
     let state = (\<not> high_diff \<and> \<not> hold_diff \<and> \<not> high_rate \<and> \<not> hold_rate);
     cs \<leftarrow> wr (conditional_state m) thr_id (\<not> state);
     Some (state, m\<lparr>conditional_state := cs\<rparr>) }"

definition switch_timed_out :: "'f mthread \<Rightarrow> 'f miner \<Rightarrow> 'f miner option" where
  "switch_timed_out t m = do { m \<leftarrow> wait_time 1 t m; Some (m\<lparr>pool_is_switching := False\<rparr>) }"

text \<open>Rotating to another pool, unless a switch is under way; one that takes long is given up.\<close>

definition rotate_pool :: "('j, 'f) round \<Rightarrow> bool \<Rightarrow> 'f mthread \<Rightarrow> 'f miner \<Rightarrow> 'f flow option" where
  "rotate_pool e late t m = do {
     m \<leftarrow> (if \<not> pool_is_switching m then do { (_, m) \<leftarrow> pool_switch_next (rn_A e) m; Some m }
          else if late then switch_timed_out t m
          else Some m);
     Some (Again t m) }"

definition conditional_mining :: "('j, 'f) round \<Rightarrow> 'f mthread \<Rightarrow> 'f miner \<Rightarrow> 'f flow option" where
  "conditional_mining e t m = do {
     (wanna, m) \<leftarrow> wanna_mine (rn_F e) (mt_id t) m;
     if wanna then Some (Next t (m\<lparr>pool_on_hold := False\<rparr>))
     else if num_pools m > 1 \<and> conditional_pool_rotate m then rotate_pool e (rn_time e 9 - firstwork_time m > 35) t m
     else do {
       m \<leftarrow> wait_time 5 t (m\<lparr>pool_on_hold := True, global_hashrate := 0\<rparr>);
       Some (Again t m) } }"

section \<open>Limits\<close>

text \<open>The start of a benchmark: the last thread to arrive starts the clock, the others wait until it is started.\<close>

definition benchmark_arrive :: "('j, 'f) round \<Rightarrow> 'f mthread \<Rightarrow> 'f miner \<Rightarrow> 'f miner option" where
  "benchmark_arrive e t m = do {
     here \<leftarrow> rd (benchmark_arrived (benchmark m)) (mt_id t);
     if \<not> opt_benchmark m \<or> here then Some m
     else do {
       let b = benchmark m;
       arr \<leftarrow> wr (benchmark_arrived b) (mt_id t) True;
       let b = b\<lparr>benchmark_arrived := arr, benchmark_ready := benchmark_ready b + 1\<rparr>;
       let b = (if benchmark_ready b = word_of_int (opt_n_threads m)
         then b\<lparr>benchmark_started_at := rn_clock e 0, benchmark_go := True\<rparr> else b);
       let m = m\<lparr>benchmark := b\<rparr>;
       Some (if benchmark_go b then m
             else let m = rn_other e 7 m in m\<lparr>benchmark := (benchmark m)\<lparr>benchmark_go := True\<rparr>\<rparr>) } }"

definition f_le0 :: "'f fops \<Rightarrow> 'f \<Rightarrow> bool" where
  "f_le0 F x \<longleftrightarrow> f_lt F x (f_lit F 0 0) \<or> f_eq F x (f_lit F 0 0)"

definition benchmark_limit :: "('j, 'f) round \<Rightarrow> 'f mthread \<Rightarrow> 'f miner \<Rightarrow> 'f flow option" where
  "benchmark_limit e t m = do {
     let F = rn_F e;
     if opt_benchmark m \<and> opt_time_limit m > 0 \<and> benchmark_go (benchmark m) then do {
       let elapsed = f_sub F (rn_clock e 1) (benchmark_started_at (benchmark m));
       let remain = f_sub F (f_of_int F (opt_time_limit m)) elapsed;
       if f_le0 F remain then
         if \<not> benchmark_stopping (benchmark m) then do {
           m \<leftarrow> restart_threads (m\<lparr>benchmark := (benchmark m)\<lparr>benchmark_stopping := True\<rparr>, app_exit_code := 0, abort_flag := True\<rparr>);
           Some (Leave t (workio_abort (an_alloc (rn_A e)) (an_push (rn_A e)) m)) }
         else Some (Leave t m)
       else let r = f_to_u64 F (rn_ceil e remain)
         in Some (Next (if r < mt_max64 t then t\<lparr>mt_max64 := r\<rparr> else t) m) }
     else Some (Next t m) }"

definition time_limit :: "('j, 'f) round \<Rightarrow> 'f mthread \<Rightarrow> 'f miner \<Rightarrow> 'f flow option" where
  "time_limit e t m =
     (if \<not> opt_benchmark m \<and> opt_time_limit m > 0 \<and> firstwork_time m \<noteq> 0 then
        let passed = int32 (rn_time e 11 - firstwork_time m);
            remain = opt_time_limit m - passed
        in if remain < 0 then
             if mt_id t \<noteq> 0 then Some (if abort_flag m then Leave t m else Again t m)
             else do {
               p \<leftarrow> rd_int (pools m) (cur_pooln m);
               if num_pools m > 1 \<and> pool_time_limit p > 0 then rotate_pool e (passed > 35) t m
               else Some (Leave t (workio_abort (an_alloc (rn_A e)) (an_push (rn_A e)) (m\<lparr>app_exit_code := 0, abort_flag := True\<rparr>))) }
           else Some (Next (if remain < uint (mt_max64 t) then t\<lparr>mt_max64 := word_of_int remain\<rparr> else t) m)
      else Some (Next t m))"

definition shares_limit :: "('j, 'f) round \<Rightarrow> 'f mthread \<Rightarrow> 'f miner \<Rightarrow> 'f flow option" where
  "shares_limit e t m =
     (if opt_shares_limit m > 0 \<and> firstwork_time m \<noteq> 0 then do {
        p \<leftarrow> rd_int (pools m) (cur_pooln m);
        if uint (pool_accepted_count p + pool_rejected_count p) \<ge> opt_shares_limit m then
          let passed = int32 (rn_time e 12 - firstwork_time m)
          in if mt_id t \<noteq> 0 then Some (Again t m)
             else if num_pools m > 1 \<and> pool_shares_limit p > 0 then rotate_pool e (passed > 35) t m
             else Some (Leave t (workio_abort (an_alloc (rn_A e)) (an_push (rn_A e)) (m\<lparr>abort_flag := True, app_exit_code := 0\<rparr>)))
        else Some (Next t m) }
      else Some (Next t m))"

text \<open>The flag that asks for a restart is cleared before the time of the batch is known.\<close>

definition clear_restart :: "('j, 'f) round \<Rightarrow> 'f mthread \<Rightarrow> 'f miner \<Rightarrow> 'f flow option" where
  "clear_restart e t m = do {
     m \<leftarrow> benchmark_arrive e t m;
     r \<leftarrow> work_restart m;
     r \<leftarrow> wr r (mt_id t) False;
     let max64 = (if have_stratum m then LP_SCANTIME else max 1 (uint (mt_scan_time t) + g_work_time m - rn_time e 10));
     Some (Next (t\<lparr>mt_max64 := word_of_int max64\<rparr>) (m\<lparr>work_restart := Some r\<rparr>)) }"

definition limits :: "('j, 'f) round \<Rightarrow> 'f mthread \<Rightarrow> 'f miner \<Rightarrow> 'f flow option" where
  "limits e t m =
     and_then (clear_restart e t m) (\<lambda>t m.
     and_then (benchmark_limit e t m) (\<lambda>t m.
     and_then (time_limit e t m) (shares_limit e)))"

section \<open>The size of the batch\<close>

definition minmax_of :: "int \<Rightarrow> u64" where
  "minmax_of algo =
     (if algo = ALGO_EQUIHASH then 0x10000
      else if algo \<in> {ALGO_BLAKECOIN, ALGO_BLAKE2S, ALGO_VANILLA} then 0x80000000
      else if algo \<in> {ALGO_BLAKE, ALGO_BMW, ALGO_DECRED, ALGO_SHA256D, ALGO_SHA256T} then 0x40000000
      else if algo \<in> {ALGO_KECCAK, ALGO_KECCAKC, ALGO_LBRY, ALGO_LUFFA, ALGO_SIA, ALGO_SKEIN, ALGO_SKEIN2, ALGO_TRIBUS} then 0x1000000
      else if algo \<in> {ALGO_ALLIUM, ALGO_C11, ALGO_DEEP, ALGO_HEAVY, ALGO_JACKPOT, ALGO_JHA, ALGO_HSR, ALGO_LYRA2v2, ALGO_PHI,
        ALGO_PHI2, ALGO_POLYTIMOS, ALGO_S3, ALGO_SKUNK, ALGO_TIMETRAVEL, ALGO_BITCORE, ALGO_X11EVO, ALGO_X11, ALGO_X12, ALGO_X13,
        ALGO_WHIRLCOIN, ALGO_WHIRLPOOL} then 0x400000
      else if algo \<in> {ALGO_X14, ALGO_X15} then 0x300000
      else if algo \<in> {ALGO_LYRA2, ALGO_LYRA2Z, ALGO_NEOSCRYPT, ALGO_SIB, ALGO_SCRYPT, ALGO_SONOA, ALGO_VELTOR} then 0x80000
      else if algo \<in> {ALGO_CRYPTOLIGHT, ALGO_CRYPTONIGHT, ALGO_SCRYPT_JANE} then 0x1000
      else 0x100000)"

definition batch_size :: "('j, 'f) round \<Rightarrow> 'f \<Rightarrow> u64 \<Rightarrow> 'f miner \<Rightarrow> u64" where
  "batch_size e rate max64 m =
     (let F = rn_F e;
          max64 = max64 * ucast (rn_to_u32 e rate);
          max64 = (if max64 < 0x100000 then max (minmax_of (opt_algo m) - 1) max64 else max64);
          max64 = (if opt_benchmark m \<and> opt_algo m = ALGO_EQUIHASH \<and> f_lt F (f_lit F 0 0) rate
            then min max64 (max 0x10000 (f_to_u64 F (f_div F rate (f_lit F 20 0)))) else max64)
      in min (ucast UINT32_MAX) max64)"

definition plan_batch :: "('j, 'f) round \<Rightarrow> nat \<Rightarrow> 'f mthread \<Rightarrow> 'f miner \<Rightarrow> 'f flow option" where
  "plan_batch e np t m = do {
     rate \<leftarrow> rd (thr_hashrates m) (mt_id t);
     let max64 = batch_size e rate (mt_max64 t) m;
     start_nonce \<leftarrow> get_nonce np t;
     let end_nonce = (if mt_end_nonce t \<ge> UINT32_MAX - 256 then UINT32_MAX else mt_end_nonce t);
     let max_nonce = (if max64 + ucast start_nonce \<ge> ucast end_nonce then end_nonce else ucast (max64 + ucast start_nonce));
     let (max_nonce, end_nonce) = (if start_nonce > max_nonce then (UINT32_MAX, UINT32_MAX) else (max_nonce, end_nonce));
     Some (Next (t\<lparr>mt_max64 := max64, mt_start_nonce := start_nonce, mt_max_nonce := max_nonce, mt_end_nonce := end_nonce,
       mt_work := (mt_work t)\<lparr>w_scanned_from := start_nonce, w_valid_nonces := 0\<rparr>\<rparr>) m) }"

section \<open>The scan and its result\<close>

text \<open>Only Verus is scanned in this program. The restart and abort flags are looked at when the scan has returned.\<close>

definition scan_nonces :: "('j, 'f) round \<Rightarrow> 'f mthread \<Rightarrow> 'f miner \<Rightarrow> 'f flow option" where
  "scan_nonces e t m =
     (if opt_algo m \<noteq> ALGO_EQUIHASH then Some (Leave t m)
      else do {
        (rc, hashes, w) \<leftarrow> scanhash_verus (rn_S e) (rn_F e) (opt_showdiff m) (rn_malloc e) (rn_buf2 e) (rn_junk e) (rn_t0 e) (rn_t1 e)
          (rn_cand e) (rn_stop e) (mt_work t) (mt_max_nonce t - mt_start_nonce t);
        let t = t\<lparr>mt_rc := rc, mt_hashes_done := hashes, mt_work := w\<rparr>;
        let m = rn_other e 8 m;
        m \<leftarrow> (if opt_benchmark m then do {
            let b = benchmark m;
            h \<leftarrow> rd (benchmark_hashes b) (mt_id t);
            hs \<leftarrow> wr (benchmark_hashes b) (mt_id t) (h + of_nat hashes);
            es \<leftarrow> wr (benchmark_ended_at b) (mt_id t) (rn_clock e 2);
            Some (m\<lparr>benchmark := b\<lparr>benchmark_hashes := hs, benchmark_ended_at := es\<rparr>\<rparr>) }
          else Some m);
        if abort_flag m then Some (Leave t m)
        else do {
          r \<leftarrow> work_restart m;
          again \<leftarrow> rd r (mt_id t);
          Some (if again then Again t m else Next t m) } })"

text \<open>The speed of the thread; the first two rounds are not remembered.\<close>

definition store_speed :: "('j, 'f) round \<Rightarrow> 'f mthread \<Rightarrow> 'f miner \<Rightarrow> 'f miner option" where
  "store_speed e t m = do {
     let F = rn_F e;
     let (diff, _, _) = timeval_subtract (rn_tv_end e) (rn_tv_start e);
     let dtime = f_add F (f_of_int F (tv_sec diff)) (f_mul F (f_lit F 1 (- 6)) (f_of_int F (tv_usec diff)));
     if (tv_usec diff \<noteq> 0 \<or> tv_sec diff \<noteq> 0) \<and> f_lt F (f_lit F 0 0) dtime then do {
       let rate = f_mul F (f_div F (f_of_int F (int (mt_hashes_done t))) dtime) (f_lit F 1 0);
       rates \<leftarrow> wr (thr_hashrates m) (mt_id t) rate;
       let m = m\<lparr>thr_hashrates := rates\<rparr>;
       if mt_loopcnt t > 2 then do {
         sc \<leftarrow> stats_remember_speed F
           \<lparr>se_device_map = device_map m, se_now = word_of_int (rn_time e 16), se_cur_pooln = nat (cur_pooln m), se_pools = pools m,
            se_net_diff = net_diff m, se_stratum_diff = stratum_diff m, se_global_hashrate = global_hashrate m,
            se_opt_n_threads = opt_n_threads m\<rparr>
           (int (mt_id t)) (of_nat (mt_hashes_done t)) rate (of_nat (mt_rc t)) (w_height (mt_work t)) (scans m);
         Some (m\<lparr>scans := sc\<rparr>) }
       else Some m }
     else Some m }"

definition scanned_range :: "nat \<Rightarrow> 'f mthread \<Rightarrow> 'f mthread option" where
  "scanned_range np t = do {
     n0 \<leftarrow> rd (w_nonces (mt_work t)) 0;
     n1 \<leftarrow> rd (w_nonces (mt_work t)) 1;
     if mt_rc t > 1 then Some (upd_work (\<lambda>w. w\<lparr>w_scanned_to := max n0 n1\<rparr>) t)
     else do {
       let t = upd_work (\<lambda>w. w\<lparr>w_scanned_to := mt_max_nonce t\<rparr>) t;
       c \<leftarrow> get_nonce np t;
       if c > UINT32_MAX - 64 then set_nonce np UINT32_MAX t else Some t } }"

text \<open>The total, up to the first thread that has no speed yet.\<close>

fun total_speed :: "'f fops \<Rightarrow> 'f miner \<Rightarrow> nat \<Rightarrow> nat \<Rightarrow> 'f \<Rightarrow> 'f option" where
  "total_speed F m i 0 hashrate = Some hashrate"
| "total_speed F m i (Suc n) hashrate = do {
     h \<leftarrow> rd (thr_hashrates m) i;
     if f_eq F h (f_lit F 0 0) then Some hashrate
     else total_speed F m (i + 1) n (f_add F hashrate (stats_get_speed F (opt_statsavg m) (opt_n_threads m) (int i) h (scans m))) }"

definition account_round :: "('j, 'f) round \<Rightarrow> nat \<Rightarrow> 'f mthread \<Rightarrow> 'f miner \<Rightarrow> 'f flow option" where
  "account_round e np t m = do {
     let F = rn_F e;
     m \<leftarrow> store_speed e t m;
     t \<leftarrow> scanned_range np t;
     let m = (if opt_debug m \<and> check_dups m \<and> opt_algo m \<notin> {ALGO_DECRED, ALGO_EQUIHASH, ALGO_SIA}
       then m\<lparr>shares := hashlog_remember_scan_range F (word_of_int (rn_time e 13)) (mt_work t) (shares m)\<rparr> else m);
     m \<leftarrow> (if firstwork_time m \<noteq> 0 \<and> int (mt_id t) = opt_n_threads m - 1 then do {
         h \<leftarrow> total_speed F m 0 (nat (opt_n_threads m)) (f_lit F 0 0);
         m \<leftarrow> upd_pool (cur_pooln m) (\<lambda>p. p\<lparr>pool_work_time := word_of_int (rn_time e 14 - firstwork_time m)\<rparr>) m;
         Some (m\<lparr>global_hashrate := rn_llround e h\<rparr>) }
       else Some m);
     let m = (if firstwork_time m = 0 then m\<lparr>firstwork_time := rn_time e 15\<rparr> else m);
     acc \<leftarrow> rd (cgpu_accepted m) (mt_id t);
     accs \<leftarrow> wr (cgpu_accepted m) (mt_id t) (acc + ucast (w_valid_nonces (mt_work t)));
     Some (Next t (m\<lparr>cgpu_accepted := accs\<rparr>)) }"

section \<open>Submission\<close>

definition submit_second :: "('j, 'f) round \<Rightarrow> nat \<Rightarrow> u32 \<Rightarrow> 'f mthread \<Rightarrow> 'f miner \<Rightarrow> 'f flow option" where
  "submit_second e np curnonce t m = do {
     n1 \<leftarrow> rd (w_nonces (mt_work t)) 1;
     if mt_rc t > 1 \<and> n1 \<noteq> 0 then do {
       t \<leftarrow> set_nonce np n1 (upd_work (\<lambda>w. w\<lparr>w_submit_nonce_id := 1\<rparr>) t);
       t \<leftarrow> (if opt_algo m = ALGO_ZR5 then do { d \<leftarrow> get_nonce 22 t; t \<leftarrow> set_nonce 0 d t; set_nonce 22 0 t } else Some t);
       let (ok, m) = submit_work (an_alloc (rn_A e)) (an_push (rn_A e)) (int (mt_id t)) (mt_work t) m;
       if \<not> ok then Some (Leave t m)
       else do {
         t \<leftarrow> set_nonce np curnonce t;
         ns \<leftarrow> wr (w_nonces (mt_work t)) 1 0;
         Some (Again (upd_work (\<lambda>w. w\<lparr>w_nonces := ns\<rparr>) t) m) } }
     else Some (Again t m) }"

definition submit_found :: "('j, 'f) round \<Rightarrow> nat \<Rightarrow> 'f mthread \<Rightarrow> 'f miner \<Rightarrow> 'f flow option" where
  "submit_found e np t m =
     (if mt_rc t > 0 \<and> \<not> opt_benchmark m then do {
        curnonce \<leftarrow> get_nonce np t;
        n0 \<leftarrow> rd (w_nonces (mt_work t)) 0;
        t \<leftarrow> set_nonce np n0 (upd_work (\<lambda>w. w\<lparr>w_submit_nonce_id := 0\<rparr>) t);
        let (ok, m) = submit_work (an_alloc (rn_A e)) (an_push (rn_A e)) (int (mt_id t)) (mt_work t) m;
        if \<not> ok then Some (Leave t m)
        else do {
          t \<leftarrow> set_nonce np curnonce t;
          if \<not> have_stratum m \<and> \<not> have_longpoll m then Some (Again t (m\<lparr>g_work_time := 0\<rparr>))
          else submit_second e np curnonce t m } }
      else Some (Again t m))"

section \<open>The thread\<close>

text \<open>One round of the loop, its condition included, up to the scan and from there.\<close>

definition prepare_scan :: "('j, 'f) round \<Rightarrow> nat \<Rightarrow> 'f mthread \<Rightarrow> 'f miner \<Rightarrow> 'f flow option" where
  "prepare_scan e np t m =
     and_then (fetch_work e t m) (\<lambda>t m.
     and_then (conditional_mining e t m) (\<lambda>t m.
     and_then (limits e t m) (\<lambda>t m.
     plan_batch e np t m)))"

definition mine_round :: "('j, 'f) round \<Rightarrow> 'f mthread \<Rightarrow> 'f miner \<Rightarrow> 'f flow option" where
  "mine_round e t m =
     (if abort_flag m then Some (Leave t m)
      else let np = snd (snd (mine_layout (opt_algo m)))
        in and_then (prepare_scan e np t m) (\<lambda>t m.
           and_then (scan_nonces e t m) (\<lambda>t m.
           and_then (account_round e np t m) (submit_found e np))))"

text \<open>A number of rounds; the flag tells whether the thread has left its loop, after which it freezes its queue.\<close>

fun miner_thread :: "('j, 'f) round list \<Rightarrow> 'f mthread \<Rightarrow> 'f miner \<Rightarrow> (bool \<times> 'f mthread \<times> 'f miner) option" where
  "miner_thread [] t m = Some (False, t, m)"
| "miner_thread (e # es) t m = do {
     r \<leftarrow> mine_round e t m;
     case r of Leave t m \<Rightarrow> Some (True, t, m) | Again t m \<Rightarrow> miner_thread es t m | Next t m \<Rightarrow> miner_thread es t m }"

section \<open>Flows\<close>

text \<open>What holds where the next statement is reached.\<close>

definition at_next :: "('f mthread \<Rightarrow> 'f miner \<Rightarrow> bool) \<Rightarrow> 'f flow \<Rightarrow> bool" where
  "at_next P r = (case r of Next t m \<Rightarrow> P t m | _ \<Rightarrow> True)"

lemma at_next_simps [simp]: "at_next P (Next t m) = P t m" "at_next P (Again t m)" "at_next P (Leave t m)"
  by (simp_all add: at_next_def)

lemma and_then_simps [simp]:
  "and_then (Some (Next t m)) f = f t m" "and_then (Some (Again t m)) f = Some (Again t m)"
  "and_then (Some (Leave t m)) f = Some (Leave t m)" "and_then None f = None"
  by (simp_all add: and_then_def)

lemma ensures_next [ens]: "ensures x (at_next (\<lambda>t m. ensures (f t m) (at_next P))) \<Longrightarrow> ensures (and_then x f) (at_next P)"
  by (cases x) (auto simp: ensures_def and_then_def at_next_def split: flow.splits)

lemma ensures_then:
  "ensures x (at_next Q) \<Longrightarrow> (\<And>t m. Q t m \<Longrightarrow> ensures (f t m) (at_next P)) \<Longrightarrow> ensures (and_then x f) (at_next P)"
  by (cases x; cases "the x") (auto simp: ensures_def at_next_def)

lemma ensures_mono: "ensures x P \<Longrightarrow> (\<And>r. P r \<Longrightarrow> Q r) \<Longrightarrow> ensures x Q"
  by (simp add: ensures_def)

section \<open>Different threads scan different blocks\<close>

text \<open>The thread's number in the word that is part of every block it scans.\<close>

definition marked :: "'f mthread \<Rightarrow> nat \<Rightarrow> bool" where
  "marked t i \<longleftrightarrow> ucast (w_data (mt_work t) ! 32) = (of_nat i :: u8)"

lemma set_nonce_work: "set_nonce k v t = Some t' \<Longrightarrow> k < length (w_data (mt_work t)) \<and> w_data (mt_work t') = (w_data (mt_work t))[k := v] \<and> mt_id t' = mt_id t"
  by (auto simp: set_nonce_def upd_work_def wr_eq_Some bind_eq_Some_conv)

lemma low_byte: "ucast (push_bit 24 (a :: u32) OR push_bit 8 b OR of_nat i) = (of_nat i :: u8)"
  by (rule bit_word_eqI) (auto simp: bit_simps)

lemma ensures_set_nonce [ens]:
  "(\<And>u. k < length (w_data (mt_work t)) \<Longrightarrow> u = upd_work (\<lambda>w. w\<lparr>w_data := (w_data w)[k := v]\<rparr>) t \<Longrightarrow> P u) \<Longrightarrow> ensures (set_nonce k v t) P"
  by (auto simp: ensures_def set_nonce_def upd_work_def wr_eq_Some bind_eq_Some_conv)

lemma adopt_target_id [simp]: "mt_id (adopt_target t m) = mt_id t"
  by (simp add: adopt_target_def Let_def)

lemma ensures_adopt_data [ens]: "(\<And>u. mt_id u = mt_id t \<Longrightarrow> P u) \<Longrightarrow> ensures (adopt_data lay t m) P"
  unfolding adopt_data_def split_beta by (intro ens ensures_var) (simp_all add: upd_work_def)

lemma adopt_marks:
  "opt_algo m = ALGO_EQUIHASH \<Longrightarrow> ensures (adopt_work e (mine_layout ALGO_EQUIHASH) t m)
     (at_next (\<lambda>t' m'. mt_id t' = mt_id t \<and> marked t' (mt_id t) \<and> opt_algo m' = ALGO_EQUIHASH))"
  unfolding adopt_work_def mine_layout_def VERUS_NONCE_OFFSET_def
  by (intro ens) (simp_all add: marked_def low_byte upd_work_def if_distrib [of opt_algo] split: if_splits)

lemma wait_job_keeps: "(\<And>k m. opt_algo (rn_other e k m) = opt_algo m) \<Longrightarrow> opt_algo (snd (wait_job e k m)) = opt_algo m"
  by (induction e k m rule: wait_job.induct) (subst wait_job.simps, simp add: Let_def)

definition same_algo :: "('j, 'f) round \<Rightarrow> bool" where
  "same_algo e \<longleftrightarrow> (\<forall>k m. opt_algo (rn_other e k m) = opt_algo m)"

lemma ensures_upd_pool [ens]: "(\<And>ps. P (m\<lparr>pools := ps\<rparr>)) \<Longrightarrow> ensures (upd_pool i h m) P"
  by (auto simp: ensures_def upd_pool_def bind_eq_Some_conv)

lemma ensures_gen_g_work [ens]: "(\<And>ok u. opt_algo u = opt_algo m \<Longrightarrow> P (ok, u)) \<Longrightarrow> ensures (gen_g_work e m) P"
  by (auto simp: ensures_def gen_g_work_def bind_eq_Some_conv Let_def)

lemma ensures_get_work_algo: "(\<And>ok w u. opt_algo u = opt_algo m \<Longrightarrow> P (ok, w, u)) \<Longrightarrow> ensures (get_work A t w m) P"
  unfolding get_work_def by (intro ens ensures_var) simp_all

lemma fetch_stratum_keeps:
  assumes "same_algo e"
  shows "ensures (fetch_stratum e np t m) (at_next (\<lambda>t' m'. mt_id t' = mt_id t \<and> opt_algo m' = opt_algo m))"
proof -
  obtain late m1 where w: "(if mt_work_done t \<or> opt_algo m = ALGO_DECRED \<or> opt_algo m = ALGO_WILDKECCAK then (False, m) else wait_job e 0 m) = (late, m1)"
    by fastforce
  have a: "opt_algo m1 = opt_algo m"
    using w assms wait_job_keeps [of e 0 m] by (auto simp: same_algo_def split: if_splits)
  show ?thesis
    unfolding fetch_stratum_def get_nonce_def Let_def w prod.case
    by (intro ens ensures_var) (simp_all add: a upd_work_def if_distrib [of opt_algo])
qed

lemma fetch_getwork_keeps:
  "ensures (fetch_getwork e np t m) (at_next (\<lambda>t' m'. mt_id t' = mt_id t \<and> opt_algo m' = opt_algo m))"
  unfolding fetch_getwork_def get_nonce_def Let_def
  by (intro ens ensures_get_work_algo) simp_all

lemma fetch_marks:
  assumes "same_algo e" "opt_algo m = ALGO_EQUIHASH"
  shows "ensures (fetch_work e t m) (at_next (\<lambda>t' m'. mt_id t' = mt_id t \<and> marked t' (mt_id t)))"
  unfolding fetch_work_def Let_def assms(2)
proof (intro ensures_then)
  let ?t = "t\<lparr>mt_scan_time := word_of_int (if have_longpoll m then LP_SCANTIME else opt_scantime m)\<rparr>"
    and ?np = "snd (snd (mine_layout ALGO_EQUIHASH))"
  show "ensures (if have_stratum m then fetch_stratum e ?np ?t m else fetch_getwork e ?np ?t m)
    (at_next (\<lambda>t' m'. mt_id t' = mt_id t \<and> opt_algo m' = ALGO_EQUIHASH))"
    using fetch_stratum_keeps [OF assms(1), of ?np ?t m] fetch_getwork_keeps [of e ?np ?t m] assms(2) by simp
qed (use adopt_marks in \<open>fastforce simp: ensures_def\<close>, unfold get_nonce_def wait_time_def, intro ens, simp_all add: marked_def)

text \<open>The steps between do not touch the work.\<close>

definition keeps_work :: "'f mthread \<Rightarrow> 'f flow \<Rightarrow> bool" where
  "keeps_work t = at_next (\<lambda>t' m'. mt_id t' = mt_id t \<and> w_data (mt_work t') = w_data (mt_work t))"

lemma keeps_work_simps [simp]:
  "keeps_work t (Next t' m) \<longleftrightarrow> mt_id t' = mt_id t \<and> w_data (mt_work t') = w_data (mt_work t)"
  "keeps_work t (Again t' m)" "keeps_work t (Leave t' m)"
  by (simp_all add: keeps_work_def)

lemma rotate_keeps [ens]: "ensures (rotate_pool e late t m) (keeps_work u)"
  unfolding rotate_pool_def by (intro ens ensures_var) simp

lemma conditional_keeps: "ensures (conditional_mining e t m) (keeps_work t)"
  unfolding conditional_mining_def by (intro ens ensures_var) simp_all

lemma clear_keeps: "ensures (clear_restart e t m) (keeps_work t)"
  unfolding clear_restart_def Let_def by (intro ens ensures_var) simp_all

lemma benchmark_keeps: "ensures (benchmark_limit e t m) (keeps_work t)"
  unfolding benchmark_limit_def Let_def by (intro ens ensures_var) simp_all

lemma time_keeps: "ensures (time_limit e t m) (keeps_work t)"
  unfolding time_limit_def Let_def by (intro ens ensures_var) simp_all

lemma shares_keeps: "ensures (shares_limit e t m) (keeps_work t)"
  unfolding shares_limit_def Let_def by (intro ens ensures_var) simp_all

lemma plan_keeps: "ensures (plan_batch e np t m) (keeps_work t)"
  unfolding plan_batch_def Let_def by (intro ens ensures_var) simp_all

lemma keeps_then:
  "ensures x (keeps_work t) \<Longrightarrow> (\<And>u m. ensures (f u m) (keeps_work u)) \<Longrightarrow> ensures (and_then x f) (keeps_work t)"
  unfolding keeps_work_def by (erule ensures_then, erule meta_allE, erule meta_allE, erule ensures_mono)
    (auto simp: at_next_def split: flow.splits)

lemma limits_keeps: "ensures (limits e t m) (keeps_work t)"
  unfolding limits_def by (intro keeps_then clear_keeps benchmark_keeps time_keeps shares_keeps)

lemma prepare_marks:
  assumes "same_algo e" "opt_algo m = ALGO_EQUIHASH"
  shows "ensures (prepare_scan e np t m) (at_next (\<lambda>t' m'. marked t' (mt_id t)))"
  unfolding prepare_scan_def
proof (rule ensures_then [OF fetch_marks [OF assms]])
  fix t1 :: "'b mthread" and m1 assume "mt_id t1 = mt_id t \<and> marked t1 (mt_id t)"
  moreover have "ensures (and_then (conditional_mining e t1 m1) (\<lambda>t m. and_then (limits e t m) (plan_batch e np))) (keeps_work t1)"
    by (intro keeps_then conditional_keeps limits_keeps plan_keeps)
  ultimately show "ensures (and_then (conditional_mining e t1 m1) (\<lambda>t m. and_then (limits e t m) (plan_batch e np)))
      (at_next (\<lambda>t' m'. marked t' (mt_id t)))"
    by (auto simp: ensures_def keeps_work_def at_next_def marked_def split: flow.splits)
qed

text \<open>The byte of the block that holds the number: in the nonce space for merged mining, else in the header.\<close>

lemma header_byte: "i < length ws \<Longrightarrow> u32s_to_bytes ws ! (4 * i) = ucast (ws ! i)"
proof -
  assume i: "i < length ws"
  have "drop (4 * i) (u32s_to_bytes ws) = to_le 4 (ws ! i) @ u32s_to_bytes (drop (Suc i) ws)"
    unfolding drop_u32s_to_bytes Cons_nth_drop_Suc [OF i, symmetric] by (simp add: u32s_to_bytes_def)
  then have "drop (4 * i) (u32s_to_bytes ws) ! 0 = ucast (ws ! i)" by (simp add: nth_append nth_to_le)
  then show ?thesis using i by simp
qed

lemma block_marked:
  assumes "wf_work (mt_work t)" "marked t i"
  shows "(let b = scan_block (mt_work t) n in if b ! 143 \<ge> 7 \<and> b ! 148 > 0 then b ! 1479 else b ! 128) = of_nat i"
proof -
  let ?w = "mt_work t"
  let ?d = "u32s_to_bytes (w_data ?w)"
  have l: "length (w_data ?w) = 48" "length (w_solution ?w) = 1344" using assms(1) by (simp_all add: wf_work_def)
  define hdr where "hdr = take 140 ?d"
  define full where "full = hdr @ [0xfd, 0x40, 0x05] @ w_solution ?w"
  have h: "length hdr = 140" using l by (simp add: hdr_def)
  then have f: "length full = 1487" "full ! 143 = w_solution ?w ! 0" "full ! 148 = w_solution ?w ! 5" "full ! 128 = hdr ! 128"
    using l by (simp_all add: full_def nth_append nth_Cons')
  have m: "hdr ! 128 = of_nat i" "?d ! 128 = of_nat i"
    using header_byte [of 32 "w_data ?w"] l assms(2) by (simp_all add: hdr_def marked_def)
  define full' where "full' = splice (splice (splice (splice full 4 (replicate 96 0)) 104 (replicate 4 0)) 108 (replicate 32 0)) 151 (replicate 64 0)"
  have f': "length full' = 1487" "full' ! 143 = full ! 143" "full' ! 148 = full ! 148"
    using f(1) by (simp_all add: full'_def len_simps nth_splice)
  define ns where "ns = splice (splice (replicate 15 0) 0 (take 7 (drop 108 ?d))) 7 (take 4 (drop 128 ?d))"
  have ns: "length ns = 15" "ns ! 7 = ?d ! 128" using l by (simp_all add: ns_def len_simps nth_splice)
  have "build_full_data ?w = Some (if w_solution ?w ! 0 \<ge> 7 \<and> w_solution ?w ! 5 > 0 then (full', ns) else (full, replicate 15 0))"
    using l h f(1) by (simp add: build_full_data_def merged_mining_def mem_simps Let_def NONCE_OFT_def len_simps flip: hdr_def full_def)
      (simp add: full'_def full_def ns_def)
  then show ?thesis
    using f f' ns m by (auto simp: scan_block_def Let_def nth_append split: if_splits)
qed

section \<open>Properties\<close>

text \<open>C6: threads that mine Verus never hash the same block, whatever jobs they work on and whatever their position is: where two
  threads with different numbers reach their scans, every block the one tries is different from every block the
  other tries, for all nonces. The random word is drawn at every round and may repeat; what separates the threads is the
  number in its low byte, which the block contains in both of its layouts.\<close>

theorem threads_scan_different_blocks:
  assumes "same_algo e1" "opt_algo m1 = ALGO_EQUIHASH" "prepare_scan e1 np1 t1 m1 = Some (Next u1 m1')"
    and "same_algo e2" "opt_algo m2 = ALGO_EQUIHASH" "prepare_scan e2 np2 t2 m2 = Some (Next u2 m2')"
    and "wf_work (mt_work u1)" "wf_work (mt_work u2)" "mt_id t1 \<noteq> mt_id t2" "mt_id t1 < 256" "mt_id t2 < 256"
  shows "scan_block (mt_work u1) n1 \<noteq> scan_block (mt_work u2) n2"
proof
  assume e: "scan_block (mt_work u1) n1 = scan_block (mt_work u2) n2"
  have "marked u1 (mt_id t1)" "marked u2 (mt_id t2)"
    using ensuresD [OF prepare_marks assms(3)] ensuresD [OF prepare_marks assms(6)] assms(1,2,4,5) by simp_all
  then have "(of_nat (mt_id t1) :: u8) = of_nat (mt_id t2)"
    using block_marked [OF assms(7), of "mt_id t1" n1] block_marked [OF assms(8), of "mt_id t2" n2] e by (simp add: Let_def split: if_splits)
  then show False using assms(9-11) by (simp add: of_nat_eq_iff word_of_nat_eq_iff take_bit_eq_mod)
qed

definition small_round :: "(jval, int) round" where
  "small_round = \<lparr>rn_A = small_answers, rn_sha = (\<lambda>_. replicate 32 0), rn_rand = (\<lambda>_. 5), rn_time = (\<lambda>_. 0), rn_clock = (\<lambda>_. 0),
     rn_other = (\<lambda>_ m. m), rn_to_u32 = word_of_int, rn_ceil = id, rn_llround = word_of_int, rn_tv_start = \<lparr>tv_sec = 0, tv_usec = 0\<rparr>,
     rn_tv_end = \<lparr>tv_sec = 1, tv_usec = 0\<rparr>, rn_S = sse_doc, rn_malloc = True, rn_buf2 = replicate 64 0, rn_junk = replicate 552 0,
     rn_t0 = replicate 32 0, rn_t1 = replicate 32 0, rn_cand = replicate 32 0, rn_stop = (\<lambda>_. False)\<rparr>"

definition small_thread :: "nat \<Rightarrow> int mthread" where
  "small_thread i = \<lparr>mt_id = i, mt_switchn = 0, mt_work = zero_work 0, mt_loopcnt = 0, mt_start_nonce = 0,
     mt_max_nonce = 0, mt_end_nonce = 0xfffffffe, mt_max64 = 0, mt_scan_time = 0,
     mt_work_done = False, mt_extrajob = False, mt_rc = 0, mt_hashes_done = 0\<rparr>"

definition small_globals :: "int miner" where
  "small_globals = two_pools\<lparr>have_stratum := False\<rparr>"

lemma small_fetched:
  "\<exists>u. fetch_work small_round (small_thread i) small_globals = Some (Next u small_globals) \<and> wf_work (mt_work u) \<and> mt_id u = i"
  by (simp add: fetch_work_def Let_def mine_layout_def ALGO_EQUIHASH_def VERUS_NONCE_OFFSET_def small_globals_def two_pools_def
      fetch_getwork_def small_thread_def small_round_def get_nonce_def zero_work_def mem_simps adopt_work_def adopt_data_def
      adopt_target_def set_nonce_def upd_work_def wf_work_def MAX_NONCES_def)

lemma small_prepared:
  assumes "i < 2"
  shows "\<exists>u m'. prepare_scan small_round 30 (small_thread i) small_globals = Some (Next u m') \<and> wf_work (mt_work u)"
proof -
  obtain u where u: "fetch_work small_round (small_thread i) small_globals = Some (Next u small_globals)" "wf_work (mt_work u)" "mt_id u = i"
    using small_fetched by blast
  show ?thesis
    unfolding prepare_scan_def u(1) and_then_simps
    using assms u(2,3)
    by (simp add: conditional_mining_def wanna_mine_def Let_def small_round_def small_answers_def small_senv_def
        int_fops_def small_globals_def two_pools_def mem_simps)
      (simp add: limits_def clear_restart_def benchmark_arrive_def benchmark_limit_def time_limit_def shares_limit_def mem_simps
        plan_batch_def get_nonce_def wf_work_def Let_def split: prod.splits)
qed

theorem threads_scan_different_blocks_witness:
  "\<exists>u0 m0 u1 m1. prepare_scan small_round 30 (small_thread 0) small_globals = Some (Next u0 m0) \<and>
     prepare_scan small_round 30 (small_thread 1) small_globals = Some (Next u1 m1) \<and> scan_block (mt_work u0) 7 \<noteq> scan_block (mt_work u1) 9"
proof -
  obtain u0 m0 u1 m1 where u: "prepare_scan small_round 30 (small_thread 0) small_globals = Some (Next u0 m0)" "wf_work (mt_work u0)"
    "prepare_scan small_round 30 (small_thread 1) small_globals = Some (Next u1 m1)" "wf_work (mt_work u1)"
    using small_prepared [of 0] small_prepared [of 1] by auto
  have "same_algo small_round" "opt_algo small_globals = ALGO_EQUIHASH"
    by (simp_all add: same_algo_def small_round_def small_globals_def two_pools_def ALGO_EQUIHASH_def)
  then have "scan_block (mt_work u0) 7 \<noteq> scan_block (mt_work u1) 9"
    using threads_scan_different_blocks [OF _ _ u(1) _ _ u(3) u(2,4), of 7 9] by (simp add: small_thread_def)
  with u(1,3) show ?thesis by blast
qed

end
