(* ===== verification/Minesound.thy ===== *)
theory Minesound
  imports Mining
begin

text \<open>Soundness of the mining thread of \<open>Mining\<close>: a round never reads or writes outside an object and never follows a null
  pointer, keeps the invariant of the globals on which this rests, and queues only shares that meet their target. The
  invariant is shared with the other threads: what they do where this thread holds no lock is assumed to keep it.\<close>

section \<open>The invariant\<close>

text \<open>A context between two steps of the stratum thread: an open connection is subscribed, and a job, if there is one, came over an
  open connection and has the coinbase that work is generated from.\<close>

definition job_ready :: "'f stratum_ctx \<Rightarrow> bool" where
  "job_ready c \<longleftrightarrow> (\<exists>x rr x1 x2. ctx_xnonce1 c = Some x \<and> length x < 32 \<and>
     job_coinbase (ctx_job c) = Some (rr @ x1 @ x2) \<and> length rr = 64 \<and> job_xnonce2 (ctx_job c) = 64 + length x1 \<and>
     length x2 = ctx_xnonce2_size c \<and> ctx_xnonce2_size c \<le> 32)"

definition gen_ready :: "'f stratum_ctx \<Rightarrow> bool" where
  "gen_ready c \<longleftrightarrow> wf_ctx c \<and> \<not> ctx_rpc2 c \<and>
     (ctx_curl c \<longrightarrow> (\<exists>x. ctx_xnonce1 c = Some x \<and> length x < 32 \<and> ctx_xnonce2_size c \<le> 32)) \<and>
     (job_job_id (ctx_job c) \<noteq> None \<longrightarrow> ctx_curl c \<and> job_ready c)"

text \<open>Every share in the queue of the workio thread meets the target of its work.\<close>

definition share_ok :: "sse \<Rightarrow> 'f workio_cmd \<Rightarrow> bool" where
  "share_ok S c = (case c of WC_SUBMIT_WORK t w p \<Rightarrow> block_meets S (recorded_share w) (w_target w) | _ \<Rightarrow> True)"

definition pools_ok :: "'f miner \<Rightarrow> bool" where
  "pools_ok m \<longleftrightarrow> (\<forall>k < nat (num_pools m). pool_algo (pools m ! k) = ALGO_EQUIHASH \<and> gen_ready (pool_stratum (pools m ! k)))"

definition mine_ok :: "sse \<Rightarrow> nat \<Rightarrow> 'f miner \<Rightarrow> bool" where
  "mine_ok S i m \<longleftrightarrow> wf_miner m \<and> work_restart m \<noteq> None \<and> int i < opt_n_threads m \<and> wf_work (g_work m) \<and>
     opt_algo m = ALGO_EQUIHASH \<and> gen_ready (stratum m) \<and> pools_ok m \<and>
     length (benchmark_arrived (benchmark m)) = MAX_GPUS \<and> length (benchmark_hashes (benchmark m)) = MAX_GPUS \<and>
     length (benchmark_ended_at (benchmark m)) = MAX_GPUS \<and> length (device_map m) = MAX_GPUS \<and>
     nat (opt_n_threads m) \<le> length (cgpu_accepted m) \<and> list_all (share_ok S) (workio_q m)"

definition thread_ok :: "nat \<Rightarrow> 'f mthread \<Rightarrow> bool" where
  "thread_ok i t \<longleftrightarrow> mt_id t = i \<and> wf_work (mt_work t)"

text \<open>What a round may meet.\<close>

definition round_ok :: "sse \<Rightarrow> nat \<Rightarrow> ('j, 'f) round \<Rightarrow> bool" where
  "round_ok S i e \<longleftrightarrow> sse_intrinsics S \<and> rn_S e = S \<and> length (rn_buf2 e) = 64 \<and> length (rn_junk e) = 552 \<and> length (rn_t0 e) = 32 \<and>
     length (rn_t1 e) = 32 \<and> length (rn_cand e) = 32 \<and> (\<forall>w. an_work (rn_A e) = Some w \<longrightarrow> wf_work w) \<and>
     (\<forall>k m. mine_ok S i m \<longrightarrow> mine_ok S i (rn_other e k m))"

text \<open>However a step ends, the invariant holds; where it goes on, \<open>Q\<close> holds too.\<close>

definition sound :: "sse \<Rightarrow> nat \<Rightarrow> ('f mthread \<Rightarrow> 'f miner \<Rightarrow> bool) \<Rightarrow> 'f flow \<Rightarrow> bool" where
  "sound S i Q r = (case r of
     Next t m \<Rightarrow> thread_ok i t \<and> mine_ok S i m \<and> Q t m
   | Again t m \<Rightarrow> thread_ok i t \<and> mine_ok S i m
   | Leave t m \<Rightarrow> thread_ok i t \<and> mine_ok S i m)"

lemma sound_simps [simp]:
  "sound S i Q (Next t m) \<longleftrightarrow> thread_ok i t \<and> mine_ok S i m \<and> Q t m"
  "sound S i Q (Again t m) \<longleftrightarrow> thread_ok i t \<and> mine_ok S i m"
  "sound S i Q (Leave t m) \<longleftrightarrow> thread_ok i t \<and> mine_ok S i m"
  by (simp_all add: sound_def)

abbreviation always :: "'f mthread \<Rightarrow> 'f miner \<Rightarrow> bool" where
  "always \<equiv> \<lambda>t m. True"

lemma sound_then:
  assumes "returns x (sound S i Q)" "\<And>t m. thread_ok i t \<Longrightarrow> mine_ok S i m \<Longrightarrow> Q t m \<Longrightarrow> returns (f t m) (sound S i R)"
  shows "returns (and_then x f) (sound S i R)"
proof -
  obtain r where "x = Some r" "sound S i Q r" using assms(1) by (rule returnsE)
  then show ?thesis using assms(2) by (cases r) (auto simp: returns_def)
qed

text \<open>Updates of globals that the invariant does not speak about.\<close>

lemma mine_ok_updates [simp]:
  "mine_ok S i (m\<lparr>g_work_time := a\<rparr>) = mine_ok S i m"
  "mine_ok S i (m\<lparr>pool_on_hold := b\<rparr>) = mine_ok S i m"
  "mine_ok S i (m\<lparr>pool_is_switching := b\<rparr>) = mine_ok S i m"
  "mine_ok S i (m\<lparr>conditional_pool_rotate := b\<rparr>) = mine_ok S i m"
  "mine_ok S i (m\<lparr>global_hashrate := h\<rparr>) = mine_ok S i m"
  "mine_ok S i (m\<lparr>firstwork_time := a\<rparr>) = mine_ok S i m"
  "mine_ok S i (m\<lparr>app_exit_code := a\<rparr>) = mine_ok S i m"
  "mine_ok S i (m\<lparr>abort_flag := b\<rparr>) = mine_ok S i m"
  "mine_ok S i (m\<lparr>scans := sc\<rparr>) = mine_ok S i m"
  "mine_ok S i (m\<lparr>shares := sh\<rparr>) = mine_ok S i m"
  "mine_ok S i (m\<lparr>net_diff := d\<rparr>) = mine_ok S i m"
  "mine_ok S i (m\<lparr>stratum_diff := d\<rparr>) = mine_ok S i m"
  "mine_ok S i (m\<lparr>opt_difficulty := d\<rparr>) = mine_ok S i m"
  by (simp_all add: mine_ok_def wf_miner_def pools_ok_def)

lemma mine_ok_g_work [simp]: "mine_ok S i m \<Longrightarrow> wf_work w \<Longrightarrow> mine_ok S i (m\<lparr>g_work := w\<rparr>)"
  by (simp add: mine_ok_def wf_miner_def pools_ok_def wf_work_def)

lemma mine_ok_stratum [simp]: "mine_ok S i m \<Longrightarrow> gen_ready c \<Longrightarrow> mine_ok S i (m\<lparr>stratum := c\<rparr>)"
  by (simp add: mine_ok_def wf_miner_def pools_ok_def)

lemma mine_ok_queue [simp]: "mine_ok S i (m\<lparr>workio_q := workio_q m @ [c]\<rparr>) \<longleftrightarrow> mine_ok S i m \<and> share_ok S c"
  by (auto simp: mine_ok_def wf_miner_def pools_ok_def)

lemma mine_ok_rates [simp]: "mine_ok S i m \<Longrightarrow> length r = MAX_GPUS \<Longrightarrow> mine_ok S i (m\<lparr>thr_hashrates := r\<rparr>)"
  by (simp add: mine_ok_def wf_miner_def pools_ok_def)

lemma mine_ok_conditional [simp]: "mine_ok S i m \<Longrightarrow> length r = MAX_GPUS \<Longrightarrow> mine_ok S i (m\<lparr>conditional_state := r\<rparr>)"
  by (simp add: mine_ok_def wf_miner_def pools_ok_def)

lemma mine_ok_restart [simp]:
  "mine_ok S i m \<Longrightarrow> length r = nat (opt_n_threads m) \<Longrightarrow> mine_ok S i (m\<lparr>work_restart := Some r\<rparr>)"
  by (simp add: mine_ok_def wf_miner_def pools_ok_def)

lemma mine_ok_accepted [simp]: "mine_ok S i m \<Longrightarrow> length r = length (cgpu_accepted m) \<Longrightarrow> mine_ok S i (m\<lparr>cgpu_accepted := r\<rparr>)"
  by (simp add: mine_ok_def wf_miner_def pools_ok_def)

lemma mine_ok_benchmark [simp]:
  "mine_ok S i m \<Longrightarrow> length (benchmark_arrived b) = MAX_GPUS \<Longrightarrow> length (benchmark_hashes b) = MAX_GPUS \<Longrightarrow>
   length (benchmark_ended_at b) = MAX_GPUS \<Longrightarrow> mine_ok S i (m\<lparr>benchmark := b\<rparr>)"
  by (simp add: mine_ok_def wf_miner_def pools_ok_def)

lemma mine_ok_pool [simp]:
  "mine_ok S i m \<Longrightarrow> k < length (pools m) \<Longrightarrow> pool_algo p = pool_algo (pools m ! k) \<Longrightarrow> pool_stratum p = pool_stratum (pools m ! k) \<Longrightarrow>
   mine_ok S i (m\<lparr>pools := (pools m)[k := p]\<rparr>)"
  by (auto simp: mine_ok_def wf_miner_def pools_ok_def nth_list_update)

text \<open>What the invariant gives where an object is accessed.\<close>

lemma mine_okD:
  assumes "mine_ok S i m"
  shows "wf_miner m" "int i < opt_n_threads m" "opt_n_threads m \<le> int MAX_GPUS" "wf_work (g_work m)" "opt_algo m = ALGO_EQUIHASH"
    "gen_ready (stratum m)" "length (thr_hashrates m) = MAX_GPUS" "length (conditional_state m) = MAX_GPUS" "i < MAX_GPUS"
    "length (benchmark_arrived (benchmark m)) = MAX_GPUS" "length (benchmark_hashes (benchmark m)) = MAX_GPUS"
    "length (benchmark_ended_at (benchmark m)) = MAX_GPUS" "length (device_map m) = MAX_GPUS" "i < length (cgpu_accepted m)"
    "0 \<le> cur_pooln m" "nat (cur_pooln m) < length (pools m)" "0 < num_pools m" "num_pools m \<le> int (length (pools m))"
    "\<exists>r. work_restart m = Some r \<and> length r = nat (opt_n_threads m)" "i < nat (opt_n_threads m)"
  using assms by (auto simp: mine_ok_def wf_miner_def)

lemma other_ok: "round_ok S i e \<Longrightarrow> mine_ok S i m \<Longrightarrow> mine_ok S i (rn_other e k m)"
  by (simp add: round_ok_def)

section \<open>Fetching a job\<close>

lemma gen_work_returns:
  assumes "gen_ready c" "wf_work w" "g_algo G = ALGO_EQUIHASH"
  shows "returns (stratum_gen_work E G D c w) (\<lambda>(ok, D, c, w). gen_ready c \<and> wf_work w)"
proof (cases "job_job_id (ctx_job c)")
  case None
  then show ?thesis using assms by (simp add: stratum_gen_work_def returns_def)
next
  case (Some jid)
  then obtain x rr x1 x2 where x: "ctx_xnonce1 c = Some x" "length x < 32" "job_coinbase (ctx_job c) = Some (rr @ x1 @ x2)"
    "length rr = 64" "job_xnonce2 (ctx_job c) = 64 + length x1" "length x2 = ctx_xnonce2_size c" "ctx_xnonce2_size c \<le> 32"
    using assms(1) unfolding gen_ready_def job_ready_def by blast
  let ?c = "upd_job (job_coinbase_update (\<lambda>_. Some (rr @ x1 @ incr x2))) c"
  have wf: "wf_ctx c" using assms(1) by (simp add: gen_ready_def)
  have "wf_ctx ?c" using wf x(3) by (simp add: wf_ctx_def wf_job_def upd_job_def)
  moreover have "job_ready ?c"
    unfolding job_ready_def
    using x by (intro exI [where x = x] exI [where x = rr] exI [where x = x1] exI [where x = "incr x2"]) (simp add: upd_job_def)
  ultimately have "gen_ready ?c" using assms(1) Some by (simp add: gen_ready_def upd_job_def)
  moreover obtain D' w' where "stratum_gen_work E G D c w = Some (True, D', ?c, w')" "wf_work w'"
    using gen_work_verus [OF wf assms(2,3) Some x, of E D] by blast
  ultimately show ?thesis by (simp add: returns_def)
qed

lemma returns_gen_g_work [rets]:
  assumes "mine_ok S i m" "\<And>ok u. mine_ok S i u \<Longrightarrow> P (ok, u)"
  shows "returns (gen_g_work e m) P"
proof -
  have "returns (gen_g_work e m) (\<lambda>(ok, u). mine_ok S i u)"
    unfolding gen_g_work_def Let_def
  proof (rule returns_bind, rule returns_weaken [OF gen_work_returns])
    show "gen_ready (stratum m)" "wf_work (g_work m)" using mine_okD [OF assms(1)] by blast+
  qed (use assms(1) mine_okD(5) [OF assms(1)] in \<open>auto simp: returns_def\<close>)
  then show ?thesis by (rule returns_weaken) (use assms(2) in auto)
qed

lemma benchmark_work_wf: "wf_work w \<Longrightarrow> returns (benchmark_work a w) wf_work"
  unfolding benchmark_work_def by (intro rets) (simp_all add: wf_work_def len_simps)

lemma returns_get_work [rets]:
  assumes "mine_ok S i m" "wf_work w" "\<forall>w. an_work A = Some w \<longrightarrow> wf_work w"
    "\<And>ok v u. wf_work v \<Longrightarrow> mine_ok S i u \<Longrightarrow> P (ok, v, u)"
  shows "returns (get_work A t w m) P"
proof -
  obtain v where v: "benchmark_work (opt_algo m) w = Some v" "wf_work v"
    using benchmark_work_wf [OF assms(2)] by (rule returnsE)
  show ?thesis
    unfolding get_work_def v(1) Let_def
    by (intro rets assms(4)) (use v(2) assms(1-3) in \<open>simp_all add: share_ok_def\<close>)
qed

lemma returns_get_nonce [rets]: "k < length (w_data (mt_work t)) \<Longrightarrow> P (w_data (mt_work t) ! k) \<Longrightarrow> returns (get_nonce k t) P"
  by (simp add: get_nonce_def returns_def mem_simps)

lemma returns_set_nonce [rets]:
  "k < length (w_data (mt_work t)) \<Longrightarrow> P (upd_work (\<lambda>w. w\<lparr>w_data := (w_data w)[k := v]\<rparr>) t) \<Longrightarrow> returns (set_nonce k v t) P"
  by (simp add: set_nonce_def returns_def mem_simps upd_work_def)

lemma thread_okD: "thread_ok i t \<Longrightarrow> mt_id t = i \<and> length (w_data (mt_work t)) = 48 \<and> wf_work (mt_work t)"
  by (simp add: thread_ok_def wf_work_def)

lemma thread_ok_data [simp]: "thread_ok i t \<Longrightarrow> thread_ok i (upd_work (\<lambda>w. w\<lparr>w_data := (w_data w)[k := v]\<rparr>) t)"
  by (simp add: thread_ok_def upd_work_def wf_work_def)

lemma thread_ok_updates [simp]:
  "thread_ok i (t\<lparr>mt_work_done := b\<rparr>) = thread_ok i t" "thread_ok i (t\<lparr>mt_extrajob := b\<rparr>) = thread_ok i t"
  "thread_ok i (t\<lparr>mt_switchn := n\<rparr>) = thread_ok i t" "thread_ok i (t\<lparr>mt_scan_time := st\<rparr>) = thread_ok i t"
  "thread_ok i (t\<lparr>mt_loopcnt := c\<rparr>) = thread_ok i t" "thread_ok i (t\<lparr>mt_max64 := x\<rparr>) = thread_ok i t"
  by (simp_all add: thread_ok_def)

lemma wait_job_ok: "round_ok S i e \<Longrightarrow> mine_ok S i m \<Longrightarrow> mine_ok S i (snd (wait_job e k m))"
  by (induction e k m rule: wait_job.induct) (subst wait_job.simps, simp add: Let_def other_ok)

lemma np_verus [simp]: "mine_layout ALGO_EQUIHASH = (0, 68, 30)"
  by (simp add: mine_layout_def VERUS_NONCE_OFFSET_def)

lemma fetch_stratum_ok:
  assumes "round_ok S i e" "thread_ok i t" "mine_ok S i m"
  shows "returns (fetch_stratum e 30 t m) (sound S i always)"
proof -
  obtain late m1 where w: "(if mt_work_done t \<or> opt_algo m = ALGO_DECRED \<or> opt_algo m = ALGO_WILDKECCAK then (False, m) else wait_job e 0 m) = (late, m1)"
    by fastforce
  have m1: "mine_ok S i m1" using wait_job_ok [OF assms(1,3), of 0] w assms(3) by (auto split: if_splits)
  show ?thesis
    unfolding fetch_stratum_def Let_def w prod.case
    by (intro rets returns_gen_g_work [OF m1]) (use thread_okD [OF assms(2)] mine_okD(5) [OF m1] assms(2) m1 in simp_all)
qed

lemma fetch_getwork_ok:
  assumes "round_ok S i e" "thread_ok i t" "mine_ok S i m"
  shows "returns (fetch_getwork e 30 t m) (sound S i always)"
  unfolding fetch_getwork_def Let_def
  by (intro rets returns_get_work [OF assms(3)])
    (use thread_okD [OF assms(2)] mine_okD(4) [OF assms(3)] assms in \<open>auto simp: round_ok_def\<close>)

lemma returns_nonce_share [rets]:
  "0 < n \<Longrightarrow> n \<le> int MAX_GPUS \<Longrightarrow> (\<And>q. P q) \<Longrightarrow> returns (nonce_share n) P"
  by (simp add: nonce_share_def returns_def word_of_int_eq_0_iff MAX_GPUS_def zdvd_not_zless)

lemma adopt_target_ok: "thread_ok i t \<Longrightarrow> mine_ok S i m \<Longrightarrow> thread_ok i (adopt_target t m)"
  using mine_okD(4) [of S i m] by (simp add: thread_ok_def adopt_target_def Let_def wf_work_def)

lemma adopt_data_ok:
  assumes "thread_ok i t" "mine_ok S i m"
  shows "returns (adopt_data (0, 68, 30) t m) (thread_ok i)"
  unfolding adopt_data_def prod.case
  by (intro rets)
    (use thread_okD [OF assms(1)] mine_okD(2-4) [OF assms(2)] assms(1) in \<open>simp_all add: wf_work_def thread_ok_def upd_work_def\<close>)

lemma gen_ready_shares: "gen_ready c \<Longrightarrow> gen_ready (upd_job (\<lambda>j. j\<lparr>job_shares_count := n\<rparr>) c)"
  by (simp add: gen_ready_def job_ready_def wf_ctx_def wf_job_def upd_job_def)

lemma adopt_work_ok:
  assumes "thread_ok i t" "mine_ok S i m"
  shows "returns (adopt_work e (0, 68, 30) t m) (sound S i always)"
proof -
  define m1 where "m1 = (if w_job_id (mt_work t) \<noteq> w_job_id (g_work m)
       then m\<lparr>stratum := upd_job (\<lambda>j. j\<lparr>job_shares_count := 0\<rparr>) (stratum m)\<rparr> else m)"
  have m1: "mine_ok S i m1" using assms(2) mine_okD(6) [OF assms(2)] by (simp add: m1_def gen_ready_shares)
  show ?thesis
    unfolding adopt_work_def Let_def m1_def [symmetric]
    by (rule returns_bind, rule returns_weaken [OF adopt_data_ok [OF adopt_target_ok [OF assms(1) m1] m1]], intro rets)
      (use m1 in \<open>auto dest: thread_okD\<close>)
qed

lemma returns_wait_time [rets]:
  assumes "mine_ok S i m" "\<And>u. mine_ok S i u \<Longrightarrow> P u"
  shows "returns (wait_time n t m) P"
  unfolding wait_time_def upd_pool_def
  by (intro rets assms(2)) (use mine_okD [OF assms(1)] assms(1) in simp_all)

lemma fetch_work_ok:
  fixes m :: "'f miner"
  assumes "round_ok S i e" "thread_ok i t" "mine_ok S i m"
  shows "returns (fetch_work e t m) (sound S i always)"
proof -
  let ?t = "t\<lparr>mt_scan_time := word_of_int (if have_longpoll m then LP_SCANTIME else opt_scantime m)\<rparr>"
  have t: "thread_ok i ?t" using assms(2) by simp
  show ?thesis
    unfolding fetch_work_def Let_def mine_okD(5) [OF assms(3)] np_verus snd_conv
  proof (intro sound_then)
    show "returns (if have_stratum m then fetch_stratum e 30 ?t m else fetch_getwork e 30 ?t m) (sound S i always)"
      using fetch_stratum_ok [OF assms(1) t assms(3)] fetch_getwork_ok [OF assms(1) t assms(3)] by simp
    fix u :: "'f mthread" and n :: "'f miner" assume "thread_ok i u" "mine_ok S i n"
    then show "returns (adopt_work e (0, 68, 30) u n) (sound S i always)" by (rule adopt_work_ok)
  next
    fix u :: "'f mthread" and n :: "'f miner" assume u: "thread_ok i u" and n: "mine_ok S i n"
    show "returns (do { d0 \<leftarrow> get_nonce 0 (u\<lparr>mt_loopcnt := mt_loopcnt u + 1\<rparr>);
        if have_stratum (rn_other e 6 n) \<and> d0 = 0 \<and> \<not> opt_benchmark (rn_other e 6 n)
        then do { m \<leftarrow> wait_time 1 (u\<lparr>mt_loopcnt := mt_loopcnt u + 1\<rparr>) (rn_other e 6 n); Some (Again (u\<lparr>mt_loopcnt := mt_loopcnt u + 1\<rparr>) m) }
        else Some (Next (u\<lparr>mt_loopcnt := mt_loopcnt u + 1\<rparr>) (rn_other e 6 n)) }) (sound S i always)"
      by (intro rets returns_wait_time [OF other_ok [OF assms(1) n]]) (use u other_ok [OF assms(1) n] thread_okD [OF u] in simp_all)
  qed
qed

section \<open>Switching pools\<close>

lemma returns_fill [rets]: "j + n \<le> length xs \<Longrightarrow> (\<And>ys. length ys = length xs \<Longrightarrow> P ys) \<Longrightarrow> returns (fill j n v xs) P"
  using fill_total [of j n xs v] by (auto simp: returns_def)

lemma returns_restart_threads [rets]:
  assumes "mine_ok S i m" "\<And>u. mine_ok S i u \<Longrightarrow> P u"
  shows "returns (restart_threads m) P"
proof -
  obtain r where "work_restart m = Some r" "length r = nat (opt_n_threads m)" using mine_okD(19) [OF assms(1)] by blast
  then show ?thesis unfolding restart_threads_def by (simp, intro rets assms(2)) (use assms(1) in simp_all)
qed

lemma gen_ready_saved: "gen_ready c \<Longrightarrow> gen_ready (stratum_free_job E c)"
  by (simp add: gen_ready_def stratum_free_job_def wf_ctx_def) (simp add: zero_job_def)

lemma gen_ready_pool [simp]: "gen_ready (c\<lparr>ctx_pooln := n\<rparr>) = gen_ready c" "gen_ready c \<Longrightarrow> gen_ready (c\<lparr>ctx_rpc2 := False\<rparr>)"
  by (simp_all add: gen_ready_def job_ready_def wf_ctx_def)

lemma verus_not_rpc2 [simp]: "\<not> rpc2_algo ALGO_EQUIHASH"
  by (simp add: rpc2_algo_def ALGO_EQUIHASH_def ALGO_WILDKECCAK_def ALGO_CRYPTONIGHT_def ALGO_CRYPTOLIGHT_def)

lemma mine_ok_switching [simp]:
  "mine_ok S i (m\<lparr>pool_switch_count := n\<rparr>) = mine_ok S i m" "mine_ok S i (m\<lparr>stratum_need_reset := b\<rparr>) = mine_ok S i m"
  "mine_ok S i (m\<lparr>allow_gbt := b\<rparr>) = mine_ok S i m" "mine_ok S i (m\<lparr>allow_mininginfo := b\<rparr>) = mine_ok S i m"
  "mine_ok S i (m\<lparr>check_dups := b\<rparr>) = mine_ok S i m" "mine_ok S i (m\<lparr>stratum_q := q\<rparr>) = mine_ok S i m"
  "mine_ok S i (m\<lparr>want_longpoll := b\<rparr>) = mine_ok S i m" "mine_ok S i (m\<lparr>have_longpoll := b\<rparr>) = mine_ok S i m"
  "mine_ok S i (load_pool p m) = mine_ok S i m"
  by (simp_all add: mine_ok_def wf_miner_def pools_ok_def load_pool_def)

lemma returns_change_pool:
  fixes m :: "'f miner"
  assumes "mine_ok S i m" "gen_ready (pool_stratum p)" "\<forall>w. an_work A = Some w \<longrightarrow> wf_work w" "pool_algo p = ALGO_EQUIHASH"
  shows "returns (change_pool A p m) (mine_ok S i)"
proof -
  note ok = mine_okD [OF assms(1)]
  let ?g = "(g_work m)\<lparr>w_data := (w_data (g_work m))[0 := 0]\<rparr>"
  have g: "wf_work ?g" "0 < length (w_data (g_work m))" using ok(4) by (simp_all add: wf_work_def)
  let ?m = "m\<lparr>pool_switch_count := pool_switch_count m + 1, net_diff := f_lit (an_F A) 0 0, g_work_time := 0,
    g_work := ?g, pool_is_switching := True, stratum_need_reset := True, firstwork_time := an_now A\<rparr>"
  have m: "mine_ok S i ?m" using assms(1) g(1) by simp
  show ?thesis
    unfolding change_pool_def Let_def
  proof (intro returns_bind returns_wr g(2) returns_restart_threads [OF m] returns_fill)
    fix u :: "'f miner" and cs :: "bool list" assume u: "mine_ok S i u" and cs: "length cs = length (conditional_state u)"
    let ?u = "u\<lparr>conditional_state := cs, allow_gbt := pool_allow_gbt p \<noteq> 0, allow_mininginfo := pool_allow_mininginfo p \<noteq> 0,
      check_dups := pool_check_dups p \<noteq> 0\<rparr>"
    let ?v = "if want_stratum ?u
       then ?u\<lparr>stratum := (pool_stratum p)\<lparr>ctx_pooln := cur_pooln ?u, ctx_rpc2 := rpc2_algo (pool_algo p)\<rparr>,
              stratum_q := (if an_push A then stratum_q ?u @ [rpc_url ?u] else stratum_q ?u)\<rparr>
       else ?u"
    let ?w = "?v\<lparr>want_longpoll := pool_type p AND POOL_LONGPOLL \<noteq> 0 \<or> \<not> is_stratum p\<rparr>"
    have u': "mine_ok S i ?u" using u cs mine_okD(8) [OF u] by simp
    have "mine_ok S i ?v" using u' assms(2,4) by (cases "want_stratum ?u") simp_all
    then have w: "mine_ok S i ?w" "mine_ok S i (?w\<lparr>have_longpoll := False\<rparr>)" by simp_all
    show "returns (if want_longpoll ?w then do { (_, w, m) \<leftarrow> get_work A 0 (g_work ?w) (?w\<lparr>have_longpoll := False\<rparr>); Some (m\<lparr>g_work := w\<rparr>) }
      else Some ?w) (mine_ok S i)"
      by (intro rets returns_get_work [OF w(2)]) (use w(1) mine_okD(4) [OF w(1)] assms(3) in auto)
  qed (simp_all add: mine_ok_def wf_miner_def)
qed

lemma saved_pool_ok:
  assumes "mine_ok S i m"
  shows "pool_algo (saved_pool A m) = ALGO_EQUIHASH" "gen_ready (pool_stratum (saved_pool A m))"
proof -
  have "nat (cur_pooln m) < nat (num_pools m)" using assms by (auto simp: mine_ok_def wf_miner_def)
  then have "pool_algo (pools m ! nat (cur_pooln m)) = ALGO_EQUIHASH" "gen_ready (pool_stratum (pools m ! nat (cur_pooln m)))"
    using assms by (simp_all add: mine_ok_def pools_ok_def)
  then show "pool_algo (saved_pool A m) = ALGO_EQUIHASH" "gen_ready (pool_stratum (saved_pool A m))"
    using mine_okD(6) [OF assms] by (simp_all add: saved_pool_def Let_def gen_ready_saved)
qed

lemma leave_pool_ok:
  assumes "mine_ok S i m" "0 \<le> n" "n < num_pools m"
  shows "mine_ok S i (leave_pool A n m)" "pool_algo (left_pools A m ! nat n) = ALGO_EQUIHASH" "gen_ready (pool_stratum (left_pools A m ! nat n))"
proof -
  have p: "pool_algo (left_pools A m ! k) = ALGO_EQUIHASH \<and> gen_ready (pool_stratum (left_pools A m ! k))" if "k < nat (num_pools m)" for k
    using that assms(1) saved_pool_ok [OF assms(1), of A]
    by (auto simp: left_pools_def nth_list_update mine_ok_def pools_ok_def wf_miner_def)
  then show "pool_algo (left_pools A m ! nat n) = ALGO_EQUIHASH" "gen_ready (pool_stratum (left_pools A m ! nat n))"
    using assms(2,3) by simp_all
  show "mine_ok S i (leave_pool A n m)"
    using assms p gen_ready_saved by (auto simp: leave_pool_def mine_ok_def pools_ok_def wf_miner_def left_pools_def)
qed

lemma returns_pool_switch:
  assumes "mine_ok S i m" "0 \<le> n" "n < num_pools m" "\<forall>w. an_work A = Some w \<longrightarrow> wf_work w"
  shows "returns (pool_switch A n m) (\<lambda>(b, u). mine_ok S i u)"
proof -
  let ?p = "left_pools A m ! nat n" and ?m = "load_pool (left_pools A m ! nat n) (leave_pool A n m)"
  note l = leave_pool_ok [OF assms(1-3), of A]
  have m: "mine_ok S i ?m" using l(1) by simp
  then have "switch_algo A ?p ?m = Some ?m" using l(2) mine_okD(5) [OF m] by (simp add: switch_algo_def)
  moreover have "returns (if cur_pooln m \<noteq> n then change_pool A ?p ?m else Some ?m) (mine_ok S i)"
    using returns_change_pool [OF m l(3) assms(4) l(2)] m by (simp add: returns_def)
  moreover from this obtain u where u: "(if cur_pooln m \<noteq> n then change_pool A ?p ?m else Some ?m) = Some u" "mine_ok S i u"
    by (rule returnsE)
  moreover have "mine_ok S i (u\<lparr>stratum := (stratum u)\<lparr>ctx_rpc2 := rpc2_algo (pool_algo ?p)\<rparr>\<rparr>)"
    using u(2) mine_okD(6) [OF u(2)] l(2) by simp
  ultimately show ?thesis
    unfolding pool_switch_steps [OF mine_okD(1) [OF assms(1)] assms(2,3)] Let_def by (simp only: returns_def) simp
qed

lemma returns_first_valid [rets]:
  assumes "mine_ok S i m" "\<And>k. 0 \<le> k \<Longrightarrow> k < num_pools m \<Longrightarrow> P k"
  shows "returns (pool_get_first_valid (cur_pooln m + 1) m) P"
proof -
  have n: "0 < num_pools m" "0 \<le> cur_pooln m + 1" using mine_okD [OF assms(1)] by simp_all
  obtain k where "pool_get_first_valid (cur_pooln m + 1) m = Some k" "k = 0 \<or> (\<exists>j. k = (cur_pooln m + 1 + int j) mod num_pools m)"
    using valid_loop_spec [OF mine_okD(1) [OF assms(1)] n(2), of 0 "nat (num_pools m)"]
    by (simp add: pool_get_first_valid_def split: if_splits) blast
  then show ?thesis using n(1) assms(2) by (auto simp: returns_def)
qed

section \<open>Whether to mine\<close>

lemma returns_too_high [rets]:
  assumes "mine_ok S i m" "\<And>u. mine_ok S i u \<Longrightarrow> P u"
  shows "returns (too_high F limit several allow resume m) P"
  unfolding too_high_def
  by (intro rets returns_first_valid [OF assms(1)] assms(2)) (use mine_okD [OF assms(1)] assms(1) in simp_all)

lemma returns_if_too_high:
  assumes "mine_ok S i m" "\<And>u. mine_ok S i u \<Longrightarrow> P u"
  shows "returns (if b then too_high F limit several allow resume m else Some m) P"
  by (intro rets returns_too_high [OF assms(1)] assms)

lemma wanna_mine_ok:
  assumes "mine_ok S i m"
  shows "returns (wanna_mine F i m) (\<lambda>(b, u). mine_ok S i u)"
  unfolding wanna_mine_def Let_def
  by (intro returns_bind returns_rd returns_wr returns_Some returns_if_too_high [where S = S and i = i])
    (use assms in \<open>auto simp: mine_okD(8,9)\<close>)

lemma returns_switch_next:
  assumes "mine_ok S i m" "\<forall>w. an_work A = Some w \<longrightarrow> wf_work w"
  shows "returns (pool_switch_next A m) (\<lambda>(b, u). mine_ok S i u)"
proof -
  have "returns (pool_switch A k m) (\<lambda>(b, u). mine_ok S i u)" if "0 \<le> k" "k < num_pools m" for k
    using returns_pool_switch [OF assms(1) that assms(2)] .
  then show ?thesis
    unfolding pool_switch_next_def by (intro rets returns_first_valid [OF assms(1)]) (use assms(1) in simp_all)
qed

lemma rotate_pool_ok:
  assumes "round_ok S i e" "thread_ok i t" "mine_ok S i m"
  shows "returns (rotate_pool e late t m) (sound S i Q)"
proof -
  obtain b u where u: "pool_switch_next (rn_A e) m = Some (b, u)" "mine_ok S i u"
    using returns_switch_next [OF assms(3), of "rn_A e"] assms(1) unfolding round_ok_def returns_def by auto
  show ?thesis
    unfolding rotate_pool_def u(1) switch_timed_out_def
    by (intro rets returns_wait_time [OF assms(3)]) (use u(2) assms(2,3) in simp_all)
qed

lemma conditional_ok:
  assumes "round_ok S i e" "thread_ok i t" "mine_ok S i m"
  shows "returns (conditional_mining e t m) (sound S i always)"
proof -
  have id: "mt_id t = i" using thread_okD [OF assms(2)] by simp
  obtain b u where u: "wanna_mine (rn_F e) i m = Some (b, u)" "mine_ok S i u"
    using wanna_mine_ok [OF assms(3), of "rn_F e"] unfolding returns_def by auto
  then have h: "mine_ok S i (u\<lparr>pool_on_hold := True, global_hashrate := 0\<rparr>)" by simp
  show ?thesis
    unfolding conditional_mining_def id u(1)
    by (intro rets returns_wait_time [OF h]) (use u(2) assms(2) rotate_pool_ok [OF assms(1,2) u(2)] in simp_all)
qed

section \<open>Limits and the batch\<close>

lemma mine_ok_abort [simp]: "mine_ok S i (workio_abort a b m) = mine_ok S i m"
  by (simp add: workio_abort_def share_ok_def)

lemma returns_benchmark_arrive [rets]:
  assumes "round_ok S i e" "thread_ok i t" "mine_ok S i m" "\<And>u. mine_ok S i u \<Longrightarrow> P u"
  shows "returns (benchmark_arrive e t m) P"
proof -
  note ok = mine_okD [OF assms(3)] and id = thread_okD [OF assms(2)]
  have "mine_ok S i (let m = rn_other e 7 u in m\<lparr>benchmark := (benchmark m)\<lparr>benchmark_go := True\<rparr>\<rparr>)" if "mine_ok S i u" for u
    using other_ok [OF assms(1) that, of 7] mine_okD(10-12) [of S i "rn_other e 7 u"] by (simp add: Let_def)
  then show ?thesis
    unfolding benchmark_arrive_def Let_def by (intro rets assms(4)) (use ok id assms(3) in simp_all)
qed

lemma clear_restart_ok:
  assumes "round_ok S i e" "thread_ok i t" "mine_ok S i m"
  shows "returns (clear_restart e t m) (sound S i always)"
proof -
  obtain u where u: "benchmark_arrive e t m = Some u" "mine_ok S i u"
    using returns_benchmark_arrive [OF assms, of "mine_ok S i"] by (auto simp: returns_def)
  then obtain r where r: "work_restart u = Some r" "length r = nat (opt_n_threads u)" using mine_okD(19) [OF u(2)] by blast
  show ?thesis
    unfolding clear_restart_def u(1) bind.bind_lunit r(1) Let_def by (intro rets)
      (use u(2) assms(2) thread_okD [OF assms(2)] mine_okD(20) [OF u(2)] r in simp_all)
qed

lemma benchmark_limit_ok:
  assumes "thread_ok i t" "mine_ok S i m"
  shows "returns (benchmark_limit e t m) (sound S i always)"
proof -
  have m: "mine_ok S i (m\<lparr>benchmark := (benchmark m)\<lparr>benchmark_stopping := True\<rparr>, app_exit_code := 0, abort_flag := True\<rparr>)"
    using assms(2) mine_okD(10-12) [OF assms(2)] by simp
  show ?thesis
    unfolding benchmark_limit_def Let_def by (intro rets returns_restart_threads [OF m]) (use assms in simp_all)
qed

lemma time_limit_ok:
  assumes "round_ok S i e" "thread_ok i t" "mine_ok S i m"
  shows "returns (time_limit e t m) (sound S i always)"
  unfolding time_limit_def Let_def
  by (intro rets) (use mine_okD [OF assms(3)] assms(2,3) rotate_pool_ok [OF assms] in simp_all)

lemma shares_limit_ok:
  assumes "round_ok S i e" "thread_ok i t" "mine_ok S i m"
  shows "returns (shares_limit e t m) (sound S i always)"
  unfolding shares_limit_def Let_def
  by (intro rets) (use mine_okD [OF assms(3)] assms(2,3) rotate_pool_ok [OF assms] in simp_all)

lemma limits_ok:
  assumes "round_ok S i e" "thread_ok i t" "mine_ok S i m"
  shows "returns (limits e t m) (sound S i always)"
  unfolding limits_def
  by (intro sound_then [OF clear_restart_ok [OF assms]] sound_then [OF benchmark_limit_ok] sound_then [OF time_limit_ok [OF assms(1)]]
      shares_limit_ok [OF assms(1)])

lemma plan_batch_ok:
  assumes "thread_ok i t" "mine_ok S i m"
  shows "returns (plan_batch e 30 t m) (sound S i (\<lambda>t m. w_valid_nonces (mt_work t) = 0))"
  unfolding plan_batch_def Let_def
  by (intro rets) (use thread_okD [OF assms(1)] mine_okD [OF assms(2)] assms in \<open>simp_all add: thread_ok_def wf_work_def\<close>)

lemma prepare_ok:
  assumes "round_ok S i e" "thread_ok i t" "mine_ok S i m"
  shows "returns (prepare_scan e 30 t m) (sound S i (\<lambda>t m. w_valid_nonces (mt_work t) = 0))"
  unfolding prepare_scan_def
  by (intro sound_then [OF fetch_work_ok [OF assms]] sound_then [OF conditional_ok [OF assms(1)]] sound_then [OF limits_ok [OF assms(1)]]
      plan_batch_ok)

section \<open>The scan and what follows\<close>

text \<open>What the thread has found, where it goes on after the scan.\<close>

definition found_ok :: "sse \<Rightarrow> 'f mthread \<Rightarrow> bool" where
  "found_ok S t \<longleftrightarrow> mt_rc t = 0 \<or> mt_rc t = 1 \<and> block_meets S (recorded_share (mt_work t)) (w_target (mt_work t))"

lemma scan_ok:
  assumes "round_ok S i e" "wf_work w" "w_valid_nonces w = 0"
  shows "returns (scanhash_verus (rn_S e) F sd ok (rn_buf2 e) (rn_junk e) (rn_t0 e) (rn_t1 e) (rn_cand e) (rn_stop e) w n)
    (\<lambda>(rc, hashes, w'). wf_work w' \<and> (rc = 0 \<or> rc = 1 \<and> block_meets S (recorded_share w') (w_target w')))"
proof (cases ok)
  case True
  then show ?thesis
    using scan_outcome [of S w "rn_buf2 e" "rn_junk e" "rn_t0 e" "rn_t1 e" "rn_cand e" F sd "rn_stop e" n] assms
    unfolding round_ok_def returns_def scan_kept_def by auto
next
  case False
  then show ?thesis using assms(2) by (simp add: scanhash_verus_def returns_def)
qed

lemma scan_nonces_ok:
  assumes "round_ok S i e" "thread_ok i t" "mine_ok S i m" "w_valid_nonces (mt_work t) = 0"
  shows "returns (scan_nonces e t m) (sound S i (\<lambda>t m. found_ok S t))"
proof -
  note id = thread_okD [OF assms(2)] and o = other_ok [OF assms(1,3), of 8]
  obtain rc h w where w: "scanhash_verus (rn_S e) (rn_F e) (opt_showdiff m) (rn_malloc e) (rn_buf2 e) (rn_junk e) (rn_t0 e) (rn_t1 e)
      (rn_cand e) (rn_stop e) (mt_work t) (mt_max_nonce t - mt_start_nonce t) = Some (rc, h, w)" "wf_work w"
    "rc = 0 \<or> rc = 1 \<and> block_meets S (recorded_share w) (w_target w)"
    using scan_ok [OF assms(1) _ assms(4), of "rn_F e" "opt_showdiff m" "rn_malloc e" "mt_max_nonce t - mt_start_nonce t"] id
    unfolding returns_def by auto
  define t' where "t' = t\<lparr>mt_rc := rc, mt_hashes_done := h, mt_work := w\<rparr>"
  have t': "thread_ok i t'" "found_ok S t'" "mt_id t' = i" using w(2,3) id by (auto simp: thread_ok_def found_ok_def t'_def)
  have b: "returns (do { r \<leftarrow> work_restart u; again \<leftarrow> rd r (mt_id t'); Some (if again then Again t' u else Next t' u) })
      (sound S i (\<lambda>t m. found_ok S t))" if u: "mine_ok S i u" for u
  proof -
    obtain r where "work_restart u = Some r" "i < length r" using mine_okD(19,20) [OF u] by auto
    then show ?thesis using t' u by (simp add: returns_def mem_simps)
  qed
  let ?m = "rn_other e 8 m"
  have c: "returns (if opt_benchmark ?m then do {
        hs \<leftarrow> rd (benchmark_hashes (benchmark ?m)) (mt_id t');
        hs \<leftarrow> wr (benchmark_hashes (benchmark ?m)) (mt_id t') (hs + of_nat h);
        es \<leftarrow> wr (benchmark_ended_at (benchmark ?m)) (mt_id t') (rn_clock e 2);
        Some (?m\<lparr>benchmark := (benchmark ?m)\<lparr>benchmark_hashes := hs, benchmark_ended_at := es\<rparr>\<rparr>) } else Some ?m) (mine_ok S i)"
    by (intro rets) (use mine_okD [OF o] o t'(3) in simp_all)
  show ?thesis
    unfolding scan_nonces_def w(1) bind.bind_lunit prod.case Let_def t'_def [symmetric] mine_okD(5) [OF assms(3)]
    by (rule returns_if, simp, rule returns_bind, rule returns_weaken [OF c]) (use t' b in \<open>auto intro: returns_Some\<close>)
qed

lemma returns_remember_speed [rets]:
  "0 \<le> thr \<Longrightarrow> nat thr < length (se_device_map env) \<Longrightarrow> se_cur_pooln env < length (se_pools env) \<Longrightarrow> (\<And>s. P s) \<Longrightarrow>
   returns (stats_remember_speed F env thr hc rate found h st) P"
  unfolding stats_remember_speed_def Let_def by (intro rets) simp_all

lemma store_speed_ok:
  assumes "thread_ok i t" "mine_ok S i m"
  shows "returns (store_speed e t m) (mine_ok S i)"
proof -
  obtain diff a b where d: "timeval_subtract (rn_tv_end e) (rn_tv_start e) = (diff, a, b)" by (cases "timeval_subtract (rn_tv_end e) (rn_tv_start e)")
  show ?thesis
    unfolding store_speed_def Let_def d prod.case
    by (intro rets) (use mine_okD [OF assms(2)] thread_okD [OF assms(1)] assms(2) in simp_all)
qed

lemma total_speed_returns [rets]:
  assumes "k + n \<le> length (thr_hashrates m)" "\<And>h. P h"
  shows "returns (total_speed F m k n h0) P"
  using assms
proof (induction n arbitrary: k h0)
  case (Suc n)
  have r: "returns (total_speed F m (k + 1) n h1) P" for h1 using Suc.prems by (intro Suc.IH) simp_all
  show ?case using Suc.prems(1) by (simp only: total_speed.simps) (intro returns_bind returns_rd returns_if returns_Some Suc.prems(2) r, simp)
qed (simp add: returns_def)

lemma scanned_range_ok:
  assumes "thread_ok i t" "found_ok S t"
  shows "returns (scanned_range 30 t) (\<lambda>u. thread_ok i u \<and> found_ok S u)"
  unfolding scanned_range_def Let_def
  by (intro rets) (use assms in \<open>auto simp: thread_ok_def found_ok_def upd_work_def wf_work_def MAX_NONCES_def recorded_share_def\<close>)

lemma account_round_ok:
  assumes "thread_ok i t" "mine_ok S i m" "found_ok S t"
  shows "returns (account_round e 30 t m) (sound S i (\<lambda>t m. found_ok S t))"
proof -
  obtain m1 where m1: "store_speed e t m = Some m1" "mine_ok S i m1" using store_speed_ok [OF assms(1,2)] by (rule returnsE)
  obtain t1 where t1: "scanned_range 30 t = Some t1" "thread_ok i t1" "found_ok S t1"
    using scanned_range_ok [OF assms(1,3)] by (auto simp: returns_def)
  note id = thread_okD [OF t1(2)]
  have r: "returns (if firstwork_time u \<noteq> 0 \<and> int (mt_id t1) = opt_n_threads u - 1 then do {
         h \<leftarrow> total_speed (rn_F e) u 0 (nat (opt_n_threads u)) (f_lit (rn_F e) 0 0);
         u \<leftarrow> upd_pool (cur_pooln u) (\<lambda>p. p\<lparr>pool_work_time := word_of_int (rn_time e 14 - firstwork_time u)\<rparr>) u;
         Some (u\<lparr>global_hashrate := rn_llround e h\<rparr>) }
       else Some u) (mine_ok S i)" if u: "mine_ok S i u" for u
    unfolding upd_pool_def by (intro rets) (use mine_okD [OF u] u in simp_all)
  have o: "mine_ok S i (if opt_debug m1 \<and> check_dups m1 \<and> opt_algo m1 \<notin> {ALGO_DECRED, ALGO_EQUIHASH, ALGO_SIA}
      then m1\<lparr>shares := hashlog_remember_scan_range (rn_F e) (word_of_int (rn_time e 13)) (mt_work t1) (shares m1)\<rparr> else m1)"
    using m1(2) by simp
  show ?thesis
    unfolding account_round_def m1(1) t1(1) bind.bind_lunit Let_def
    by (rule returns_bind, rule returns_weaken [OF r [OF o]], intro rets) (use t1(2,3) id in \<open>auto dest: mine_okD(14)\<close>)
qed

lemma submit_work_ok:
  assumes "mine_ok S i m" "block_meets S (recorded_share w) (w_target w)" "submit_work a b t w m = (ok, u)"
  shows "mine_ok S i u"
  using assms by (auto simp: submit_work_def share_ok_def split: if_splits)

lemma submit_found_ok:
  assumes "thread_ok i t" "mine_ok S i m" "found_ok S t"
  shows "returns (submit_found e 30 t m) (sound S i always)"
proof -
  note id = thread_okD [OF assms(1)]
  have n: "0 < length (w_nonces (mt_work t))" "Suc 0 < length (w_nonces (mt_work t))" using id by (simp_all add: wf_work_def MAX_NONCES_def)
  define t1 where "t1 = upd_work (\<lambda>w. w\<lparr>w_data := (w_data w)[30 := w_nonces (mt_work t) ! 0]\<rparr>) (upd_work (\<lambda>w. w\<lparr>w_submit_nonce_id := 0\<rparr>) t)"
  have t1: "thread_ok i t1" "recorded_share (mt_work t1) = recorded_share (mt_work t)" "w_target (mt_work t1) = w_target (mt_work t)"
    "w_nonces (mt_work t1) = w_nonces (mt_work t)" "mt_rc t1 = mt_rc t"
    using id by (simp_all add: t1_def thread_ok_def upd_work_def wf_work_def recorded_share_def)
  obtain ok u where u: "submit_work (an_alloc (rn_A e)) (an_push (rn_A e)) (int (mt_id t1)) (mt_work t1) m = (ok, u)"
    by fastforce
  have uo: "mine_ok S i u" if "0 < mt_rc t" using submit_work_ok [OF assms(2) _ u] assms(3) that t1(2,3) by (simp add: found_ok_def)
  let ?t2 = "upd_work (\<lambda>w. w\<lparr>w_data := (w_data w)[30 := w_data (mt_work t) ! 30]\<rparr>) t1"
  have steps: "get_nonce 30 t = Some (w_data (mt_work t) ! 30)" "set_nonce 30 (w_data (mt_work t) ! 30) t1 = Some ?t2"
    "set_nonce 30 (w_nonces (mt_work t) ! 0) (upd_work (\<lambda>w. w\<lparr>w_submit_nonce_id := 0\<rparr>) t) = Some t1"
    using id by (simp_all add: get_nonce_def set_nonce_def mem_simps t1_def upd_work_def)
  have "mt_rc t = 1 \<Longrightarrow> submit_second e 30 c ?t2 u = Some (Again ?t2 u)" for c
    using n(2) t1(4,5) by (simp add: submit_second_def mem_simps upd_work_def)
  then show ?thesis
    unfolding submit_found_def steps(1) bind.bind_lunit rd_Some [OF n(1)] steps(3) Let_def u prod.case steps(2)
    by (intro returns_if returns_Some) (use assms uo t1(1) in \<open>auto simp: found_ok_def intro: returns_Some\<close>)
qed

text \<open>A round, and any number of them.\<close>

lemma mine_round_ok:
  assumes "round_ok S i e" "thread_ok i t" "mine_ok S i m"
  shows "returns (mine_round e t m) (sound S i always)"
  unfolding mine_round_def Let_def mine_okD(5) [OF assms(3)] np_verus snd_conv
proof (rule returns_if)
  show "returns (and_then (prepare_scan e 30 t m) (\<lambda>t m. and_then (scan_nonces e t m) (\<lambda>t m. and_then (account_round e 30 t m) (submit_found e 30))))
    (sound S i always)"
    by (intro sound_then [OF prepare_ok [OF assms]] sound_then [OF scan_nonces_ok [OF assms(1)]] sound_then [OF account_round_ok]
        submit_found_ok)
qed (use assms in \<open>simp add: returns_def\<close>)

lemma miner_thread_ok:
  assumes "list_all (round_ok S i) es" "thread_ok i t" "mine_ok S i m"
  shows "\<exists>left t' m'. miner_thread es t m = Some (left, t', m') \<and> thread_ok i t' \<and> mine_ok S i m'"
  using assms
proof (induction es arbitrary: t m)
  case (Cons e es)
  obtain r where r: "mine_round e t m = Some r" "sound S i always r"
    using mine_round_ok [of S i e t m] Cons.prems by (auto elim: returnsE)
  then show ?case using Cons.IH Cons.prems(1) by (cases r) auto
qed (rule exI [of _ False], simp)

section \<open>Properties\<close>

text \<open>C5: a mining thread is type-safe. From globals whose arrays have their declared sizes, whose indices are in range and whose
  jobs have a coinbase, and with other threads that keep it so, the thread starts and any number of its rounds
  return: no round reads or writes outside an array, divides by zero or follows a null pointer, whichever job arrives, whichever pool
  is switched to, whichever limit is reached and whatever is found. Afterwards the work of the thread is well formed again and the
  globals have the same invariant.\<close>

theorem mining_thread_sound:
  assumes "mine_ok S i m" "list_all (round_ok S i) es"
  shows "\<exists>t left t' m'. miner_thread_start zero i m = Some t \<and> miner_thread es t m = Some (left, t', m') \<and>
    mt_id t' = i \<and> wf_work (mt_work t') \<and> mine_ok S i m'"
proof -
  have "returns (miner_thread_start zero i m) (thread_ok i)"
    unfolding miner_thread_start_def by (intro rets) (use mine_okD(2,3) [OF assms(1)] in \<open>simp_all add: thread_ok_def\<close>)
  then obtain t where t: "miner_thread_start zero i m = Some t" "thread_ok i t" by (rule returnsE)
  then show ?thesis using miner_thread_ok [OF assms(2) t(2) assms(1)] by (auto simp: thread_ok_def)
qed

lemma small_sound: "mine_ok sse_doc 0 two_pools" "round_ok sse_doc 0 small_round" "thread_ok 0 (small_thread 0)"
proof -
  have g: "gen_ready small_ctx" by (simp add: gen_ready_def small_ctx_def wf_ctx_def) (simp add: zero_job_def)
  have "pools_ok two_pools"
    unfolding pools_ok_def using g
    by (auto simp: two_pools_def less_Suc_eq numeral_2_eq_2 ALGO_EQUIHASH_def pool_a_def pool_b_def zero_pool_def)
  then show "mine_ok sse_doc 0 two_pools"
    using small_facts(1) g by (simp add: mine_ok_def) (simp add: two_pools_def MAX_GPUS_def ALGO_EQUIHASH_def)
  show "round_ok sse_doc 0 small_round"
    using doc.sse_intrinsics_axioms by (simp add: round_ok_def small_round_def small_answers_def)
  show "thread_ok 0 (small_thread 0)" by (simp add: thread_ok_def small_thread_def)
qed

theorem mining_thread_sound_witness:
  "\<exists>t left t' m'. miner_thread_start 0 0 two_pools = Some t \<and> miner_thread [small_round, small_round, small_round] t two_pools = Some (left, t', m') \<and>
    mt_id t' = 0 \<and> wf_work (mt_work t') \<and> mine_ok sse_doc 0 m'"
  by (rule mining_thread_sound) (simp_all add: small_sound)

text \<open>The mining thread queues only valid shares. As long as the other threads do the same, after any number of rounds
  of the thread every share in the queue of the workio thread carries, in the header, the solution and the nonce it has recorded, a
  block whose hash meets the target that is submitted with it.\<close>

lemma mined_shares_meet_target:
  assumes "mine_ok S i m" "thread_ok i t" "list_all (round_ok S i) es"
  shows "\<exists>left t' m'. miner_thread es t m = Some (left, t', m') \<and>
    (\<forall>thr w p. WC_SUBMIT_WORK thr w p \<in> set (workio_q m') \<longrightarrow> block_meets S (recorded_share w) (w_target w))"
proof -
  obtain left t' m' where r: "miner_thread es t m = Some (left, t', m')" "mine_ok S i m'"
    using miner_thread_ok [OF assms(3,2,1)] by blast
  have "block_meets S (recorded_share w) (w_target w)" if "WC_SUBMIT_WORK thr w p \<in> set (workio_q m')" for thr w p
  proof -
    have "share_ok S (WC_SUBMIT_WORK thr w p)" using r(2) that by (simp add: mine_ok_def list_all_iff)
    then show ?thesis by (simp add: share_ok_def)
  qed
  with r(1) show ?thesis by blast
qed

end
