(* ===== verification/Connect.thy ===== *)
theory Connect
  imports Submit
begin

text \<open>Connections: opening a stratum connection, subscribing and authorising (\<open>stratum_connect\<close>, \<open>stratum_subscribe\<close>,
  \<open>stratum_authorize\<close> of \<open>util.cpp\<close>) and the HTTP requests of the getwork protocol (\<open>json_rpc_call\<close> and its callers). What libcurl
  does is an argument: whether a handle can be made, the result of the transfer, and the lines and bytes that arrive,
  which go through the callbacks of \<open>Util\<close>.\<close>

section \<open>Text\<close>

text \<open>\<open>strstr\<close>: the rest of the text from the first occurrence on.\<close>

fun find_str :: "string \<Rightarrow> string \<Rightarrow> string option" where
  "find_str p [] = (if p = [] then Some [] else None)"
| "find_str p (c # s) = (if take (length p) (c # s) = p then Some (c # s) else find_str p s)"

text \<open>\<open>sprintf\<close> into an array of \<open>n\<close> characters.\<close>

definition print_into :: "nat \<Rightarrow> string \<Rightarrow> string option" where
  "print_into n s = (if length s < n then Some s else None)"

text \<open>The text in a buffer.\<close>

definition c_string :: "bytes \<Rightarrow> string" where
  "c_string bs = map (\<lambda>b. char_of (unat b)) (takeWhile (\<lambda>b. b \<noteq> 0) bs)"

section \<open>Opening a stratum connection\<close>

text \<open>Whether \<open>curl_easy_init\<close> succeeds, whether the line buffer exists or can be allocated, and what \<open>curl_easy_perform\<close>
  returns.\<close>

record curl_env =
  ce_init :: bool
  ce_buf :: bool
  ce_perform :: int

text \<open>\<open>"http%s"\<close> with the address from \<open>"://"\<close> on, into as many bytes as the address has.\<close>

definition http_url :: "string \<Rightarrow> string option" where
  "http_url url = do { rest \<leftarrow> find_str ''://'' url; print_into (length url + 1) (''http'' @ rest) }"

definition stratum_connect :: "curl_env \<Rightarrow> string \<Rightarrow> 'f conn \<Rightarrow> (bool \<times> 'f conn) option" where
  "stratum_connect k url c =
     (let c = upd_ctx (ctx_curl_update (\<lambda>_. ce_init k)) c
      in if \<not> ce_init k then Some (False, c)
         else if \<not> ce_buf k then None
         else do {
           u \<leftarrow> http_url url;
           let c = upd_ctx (\<lambda>x. x\<lparr>ctx_sockbuf := [], ctx_url := Some url, ctx_curl_url := u\<rparr>) c;
           if ce_perform k \<noteq> 0 then Some (False, upd_ctx (ctx_curl_update (\<lambda>_. False)) c)
           else Some (True, c) })"

text \<open>The next line, if it arrives in time; a connection that was closed delivers nothing.\<close>

definition recv_in_time :: "'f conn \<Rightarrow> string option \<times> 'f conn" where
  "recv_in_time c = (case cn_inbox c of
     [] \<Rightarrow> (None, c)
   | (full, s) # r \<Rightarrow> if \<not> ctx_curl (cn_ctx c) then (None, c) else (if full then s else None, c\<lparr>cn_inbox := r\<rparr>))"

section \<open>Subscribing\<close>

fun session_loop :: "('j, 'f) jansson \<Rightarrow> 'j option \<Rightarrow> nat \<Rightarrow> nat \<Rightarrow> string option" where
  "session_loop J arr_val i 0 = None"
| "session_loop J arr_val i (Suc n) =
     (let arr = json_array_get J arr_val i
      in if arr = None \<or> \<not> json_is_array J arr then None
         else case json_string_value J (json_array_get J arr 0) of
           None \<Rightarrow> session_loop J arr_val (i + 1) n
         | Some notify \<Rightarrow> if strcaseeq notify ''mining.notify'' then json_string_value J (json_array_get J arr 1)
             else session_loop J arr_val (i + 1) n)"

definition get_stratum_session_id :: "('j, 'f) jansson \<Rightarrow> 'j option \<Rightarrow> string option" where
  "get_stratum_session_id J val =
     (let arr_val = json_array_get J val 0
      in if arr_val = None \<or> \<not> json_is_array J arr_val then None else session_loop J arr_val 0 (json_array_size J arr_val))"

definition subscribe_text :: "('j, 'f) senv \<Rightarrow> bool \<Rightarrow> string option \<Rightarrow> string" where
  "subscribe_text E retry sid = ''{\"id\": 1, \"method\": \"mining.subscribe\", \"params\": ['' @
     (if retry then [] else case sid of
        Some s \<Rightarrow> ''\"'' @ sv_agent E @ ''\", \"'' @ s @ ''\"''
      | None \<Rightarrow> ''\"'' @ sv_agent E @ ''\"'') @ '']}''"

text \<open>What the variable \<open>val\<close> points to: nothing, a value, or a value that was released.\<close>

datatype val_ref = Val_null | Val_live | Val_freed

text \<open>From \<open>start\<close> to \<open>out\<close>: \<open>ret\<close>, whether a line was received, \<open>val\<close> and the connection.\<close>

definition subscribe_try :: "('j, 'f) senv \<Rightarrow> bool \<Rightarrow> val_ref \<Rightarrow> 'f conn \<Rightarrow> (bool \<times> bool \<times> val_ref \<times> 'f conn) option" where
  "subscribe_try E retry v c = do {
     let J = sv_J E;
     let sid = ctx_session_id (cn_ctx c);
     s \<leftarrow> print_into (128 + (case sid of None \<Rightarrow> 0 | Some s \<Rightarrow> length s)) (subscribe_text E retry sid);
     let (ok, c) = stratum_send_line E s c;
     if \<not> ok then Some (False, False, v, c)
     else case recv_in_time c of
       (None, c) \<Rightarrow> Some (False, False, v, c)
     | (Some sret, c) \<Rightarrow> (case json_loads J sret of
         None \<Rightarrow> Some (False, True, Val_null, c)
       | Some val \<Rightarrow> do {
           let res = json_object_get J (Some val) ''result'';
           let err = json_object_get J (Some val) ''error'';
           if res = None \<or> json_is_null J res \<or> (err \<noteq> None \<and> \<not> json_is_null J err) then Some (False, True, Val_live, c)
           else do {
             (ok, x) \<leftarrow> stratum_parse_extranonce E res 1 (cn_ctx c);
             let c = c\<lparr>cn_ctx := x\<rparr>;
             if \<not> ok then Some (False, True, Val_live, c)
             else Some (True, True, Val_live, upd_ctx (\<lambda>x. x\<lparr>ctx_session_id := get_stratum_session_id J res,
               ctx_next_diff := f_lit (sv_F E) 1 0\<rparr>) c) } }) }"

text \<open>\<open>if (val) json_decref(val)\<close>; \<open>val\<close> keeps its value.\<close>

definition release :: "val_ref \<Rightarrow> val_ref option" where
  "release v = (case v of Val_null \<Rightarrow> Some Val_null | Val_live \<Rightarrow> Some Val_freed | Val_freed \<Rightarrow> None)"

definition stratum_subscribe :: "('j, 'f) senv \<Rightarrow> 'f conn \<Rightarrow> (bool \<times> 'f conn) option" where
  "stratum_subscribe E c =
     (if ctx_rpc2 (cn_ctx c) then Some (True, c)
      else do {
        (ret, sret, v, c) \<leftarrow> subscribe_try E False Val_null c;
        v \<leftarrow> release v;
        if \<not> ret \<and> sret then do {
          (ret, sret, v, c) \<leftarrow> subscribe_try E True v c;
          v \<leftarrow> release v;
          Some (ret, c) }
        else Some (ret, c) })"

section \<open>Authorising\<close>

text \<open>The loop that handles messages until something else arrives.\<close>

fun auth_loop :: "('j, 'f) senv \<Rightarrow> bool \<Rightarrow> (bool \<times> string option) list \<Rightarrow> 'f conn \<Rightarrow> (string option \<times> 'f conn) option" where
  "auth_loop E st [] c = Some (None, c)"
| "auth_loop E st ((full, s) # r) c = (if \<not> ctx_curl (cn_ctx c) then Some (None, c) else case s of
     None \<Rightarrow> Some (None, c\<lparr>cn_inbox := r\<rparr>)
   | Some sret \<Rightarrow> do {
       (handled, c) \<leftarrow> stratum_handle_method E st sret (c\<lparr>cn_inbox := r\<rparr>);
       if \<not> handled then Some (Some sret, c) else auth_loop E st r c })"

definition authorize_text :: "string \<Rightarrow> string \<Rightarrow> string" where
  "authorize_text user pass = ''{\"id\": 2, \"method\": \"mining.authorize\", \"params\": [\"'' @ user @ ''\", \"'' @ pass @ ''\"]}''"

definition extranonce_text :: string where
  "extranonce_text = ''{\"id\": 3, \"method\": \"mining.extranonce.subscribe\", \"params\": []}''"

text \<open>The optional subscription; its outcome does not matter.\<close>

definition subscribe_extranonce :: "('j, 'f) senv \<Rightarrow> bool \<Rightarrow> nat \<Rightarrow> 'f conn \<Rightarrow> 'f conn option" where
  "subscribe_extranonce E st bufsz c = do {
     let J = sv_J E;
     s \<leftarrow> print_into bufsz extranonce_text;
     let (ok, c) = stratum_send_line E s c;
     if \<not> ok then Some c
     else case recv_in_time c of
       (None, c) \<Rightarrow> Some c
     | (Some sret, c) \<Rightarrow> (case json_loads J sret of
         None \<Rightarrow> Some c
       | Some extra \<Rightarrow>
           if json_integer_value J (json_object_get J (Some extra) ''id'') \<noteq> 3
           then do { (_, c) \<leftarrow> stratum_handle_method E st sret c; Some c }
           else Some c) }"

definition stratum_authorize :: "('j, 'f) senv \<Rightarrow> bool \<Rightarrow> string \<Rightarrow> string \<Rightarrow> 'f conn \<Rightarrow> (bool \<times> 'f conn) option" where
  "stratum_authorize E st user pass c = do {
     let J = sv_J E;
     let bufsz = 80 + length user + length pass;
     s \<leftarrow> print_into bufsz (authorize_text user pass);
     let (ok, c) = stratum_send_line E s c;
     if \<not> ok then Some (False, c)
     else do {
       (line, c) \<leftarrow> auth_loop E st (cn_inbox c) c;
       case line of None \<Rightarrow> Some (False, c)
       | Some sret \<Rightarrow> (case json_loads J sret of
           None \<Rightarrow> Some (False, c)
         | Some val \<Rightarrow> do {
             let res = json_object_get J (Some val) ''result'';
             let err = json_object_get J (Some val) ''error'';
             if res = None \<or> json_is_false J res \<or> (err \<noteq> None \<and> \<not> json_is_null J err) then Some (False, c)
             else do {
               let c = upd_ctx (ctx_tm_connected_update (\<lambda>_. sv_now E)) c;
               c \<leftarrow> (if sv_extranonce E then subscribe_extranonce E st bufsz c else Some c);
               Some (True, c) } }) } }"

section \<open>HTTP requests\<close>

record http_request =
  hr_url :: string
  hr_userpass :: string
  hr_headers :: "string list"
  hr_body :: string

text \<open>The result of the transfer, the header lines and the pieces of the body that the callbacks get, the status if it
  can be asked for, and whether the callbacks can allocate memory.\<close>

record http_answer =
  ha_rc :: int
  ha_headers :: "string list"
  ha_chunks :: "bytes list"
  ha_status :: "int option"
  ha_mem :: bool

fun take_chunks :: "bool \<Rightarrow> bytes list \<Rightarrow> data_buffer \<Rightarrow> data_buffer option" where
  "take_chunks mem [] db = Some db"
| "take_chunks mem (b # bs) db = do { (_, db) \<leftarrow> all_data_cb mem b db; take_chunks mem bs db }"

definition take_headers :: "bool \<Rightarrow> string list \<Rightarrow> header_info" where
  "take_headers mem hs = foldl (\<lambda>hi h. snd (resp_hdr_cb mem h hi)) \<lparr>hi_lp_path = None, hi_reason = None, hi_stratum_url = None\<rparr> hs"

definition CURLE_OPERATION_TIMEDOUT :: int where "CURLE_OPERATION_TIMEDOUT = 28"

definition rpc_headers :: "('j, 'f) senv \<Rightarrow> string \<Rightarrow> u64 \<Rightarrow> string list option" where
  "rpc_headers E req rate = do {
     len_hdr \<leftarrow> print_into 64 (''Content-Length: '' @ dec_nat (length req));
     hashrate_hdr \<leftarrow> print_into 64 (''X-Mining-Hashrate: '' @ dec_nat (unat rate));
     Some [''Content-Type: application/json'', len_hdr, ''User-Agent: '' @ sv_agent E,
       ''X-Mining-Extensions: longpoll noncerange reject-reason'', hashrate_hdr, ''Accept:'', ''Expect:''] }"

text \<open>\<open>X-Stratum\<close> and \<open>X-Long-Polling\<close> wake the threads for them.\<close>

definition activate_stratum :: "bool \<Rightarrow> bool \<Rightarrow> header_info \<Rightarrow> 'f miner \<Rightarrow> 'f miner" where
  "activate_stratum push http_proxy hi m = (case hi_stratum_url hi of
     None \<Rightarrow> m
   | Some url \<Rightarrow>
       if want_stratum m \<and> strcaseeq (take 14 url) ''stratum+tcp://'' \<and> \<not> http_proxy
       then m\<lparr>have_stratum := True, stratum_q := (if push then stratum_q m @ [url] else stratum_q m)\<rparr> else m)"

definition activate_longpoll :: "bool \<Rightarrow> bool \<Rightarrow> header_info \<Rightarrow> 'f miner \<Rightarrow> 'f miner" where
  "activate_longpoll push lp_scanning hi m = (case hi_lp_path hi of
     None \<Rightarrow> m
   | Some path \<Rightarrow>
       if lp_scanning \<and> \<not> have_stratum m
       then m\<lparr>have_longpoll := True, longpoll_q := (if push then longpoll_q m @ [path] else longpoll_q m)\<rparr> else m)"

text \<open>The value that is returned, and the error code.\<close>

definition rpc_result :: "('j, 'f) jansson \<Rightarrow> header_info \<Rightarrow> 'j \<Rightarrow> int \<Rightarrow> 'j option \<times> int" where
  "rpc_result J hi val curl_err =
     (let res = json_object_get J (Some val) ''result'';
          err = json_object_get J (Some val) ''error'';
          code = json_integer_value J (json_object_get J err ''code'')
      in if res = None \<or> json_is_null J res \<or> (err \<noteq> None \<and> \<not> json_is_null J err)
         then (None, if err \<noteq> None \<and> code \<noteq> 0 then int32 code else curl_err)
         else (Some (case hi_reason hi of None \<Rightarrow> val | Some r \<Rightarrow> json_object_set_new J val ''reject-reason'' (json_string J r)), curl_err))"

definition unauthorized :: "http_answer \<Rightarrow> string \<Rightarrow> bool" where
  "unauthorized a text \<longleftrightarrow> (text = [] \<or> hd text \<noteq> CHR ''{'' \<and> hd text \<noteq> CHR ''['') \<and> ha_status a = Some 401"

text \<open>\<open>push\<close> tells whether the queues accept, \<open>http_proxy\<close> whether there is a proxy and it is an HTTP one.\<close>

definition json_rpc_call ::
  "('j, 'f) senv \<Rightarrow> (http_request \<Rightarrow> http_answer) \<Rightarrow> bool \<Rightarrow> bool \<Rightarrow> string \<Rightarrow> string \<Rightarrow> string \<Rightarrow> bool \<Rightarrow> bool \<Rightarrow> 'f miner
    \<Rightarrow> ('j option \<times> int \<times> 'f miner) option" where
  "json_rpc_call E server push http_proxy url userpass req longpoll_scan longpoll m = do {
     let lp_scanning = longpoll_scan \<and> \<not> have_longpoll m;
     headers \<leftarrow> rpc_headers E req (global_hashrate m);
     let a = server \<lparr>hr_url = url, hr_userpass = userpass, hr_headers = headers, hr_body = req\<rparr>;
     let hi = take_headers (ha_mem a) (ha_headers a);
     all_data \<leftarrow> take_chunks (ha_mem a) (ha_chunks a) \<lparr>db_buf = None, db_len = 0\<rparr>;
     let rc = ha_rc a;
     if rc \<noteq> 0 \<and> \<not> (longpoll \<and> rc = CURLE_OPERATION_TIMEDOUT) then Some (None, rc, m)
     else let m = activate_longpoll push lp_scanning hi (activate_stratum push http_proxy hi m) in
       if db_len all_data = 0 then Some (None, rc, m)
       else case db_buf all_data of None \<Rightarrow> Some (None, rc, m)
       | Some buf \<Rightarrow>
           let text = c_string buf
           in if unauthorized a text then Some (None, rc, m)
              else case json_loads (sv_J E) text of
                None \<Rightarrow> Some (None, rc, m)
              | Some val \<Rightarrow> (let (v, err) = rpc_result (sv_J E) hi val rc in Some (v, err, m)) }"

text \<open>\<open>"%s%c%s"\<close>: without a password the character is the terminator.\<close>

definition pool_userpass :: "'f pool_infos \<Rightarrow> string" where
  "pool_userpass p = take 767 (pool_user p @ (if pool_pass p \<noteq> [] then CHR '':'' # pool_pass p else []))"

definition json_rpc_call_pool ::
  "('j, 'f) senv \<Rightarrow> (http_request \<Rightarrow> http_answer) \<Rightarrow> bool \<Rightarrow> bool \<Rightarrow> 'f pool_infos \<Rightarrow> string \<Rightarrow> bool \<Rightarrow> 'f miner
    \<Rightarrow> ('j option \<times> int \<times> 'f miner) option" where
  "json_rpc_call_pool E server push http_proxy pool req longpoll_scan m =
     json_rpc_call E server push http_proxy (pool_url pool) (pool_userpass pool) req longpoll_scan False m"

definition json_rpc_longpoll ::
  "('j, 'f) senv \<Rightarrow> (http_request \<Rightarrow> http_answer) \<Rightarrow> bool \<Rightarrow> bool \<Rightarrow> string \<Rightarrow> 'f pool_infos \<Rightarrow> string \<Rightarrow> 'f miner
    \<Rightarrow> ('j option \<times> int \<times> 'f miner) option" where
  "json_rpc_longpoll E server push http_proxy lp_url pool req m =
     json_rpc_call E server push http_proxy lp_url (pool_userpass pool) req False True m"

text \<open>Loading a configuration from an address; \<open>init\<close> is the success of \<open>curl_easy_init\<close>.\<close>

definition json_load_url :: "('j, 'f) senv \<Rightarrow> bool \<Rightarrow> http_answer \<Rightarrow> 'j option option" where
  "json_load_url E init a =
     (if \<not> init then Some None
      else do {
        all_data \<leftarrow> take_chunks (ha_mem a) (ha_chunks a) \<lparr>db_buf = None, db_len = 0\<rparr>;
        if ha_rc a \<noteq> 0 \<or> db_len all_data = 0 then Some None
        else case db_buf all_data of None \<Rightarrow> Some None | Some buf \<Rightarrow> Some (json_loads (sv_J E) (c_string buf)) })"

section \<open>Requests are answered or fail cleanly\<close>

lemma print_into_Some: "print_into n s = Some t \<longleftrightarrow> length s < n \<and> t = s"
  by (auto simp: print_into_def)

lemma returns_print_into [rets]: "length s < n \<Longrightarrow> P s \<Longrightarrow> returns (print_into n s) P"
  by (simp add: print_into_def returns_def)

text \<open>The pieces of the body are put together in the order in which they arrive, with a terminator behind them.\<close>

lemma take_chunks_from:
  "take_chunks True bs \<lparr>db_buf = Some (old @ [0]), db_len = length old\<rparr> =
   Some \<lparr>db_buf = Some (old @ concat bs @ [0]), db_len = length old + length (concat bs)\<rparr>"
proof (induction bs arbitrary: old)
  case (Cons b bs)
  then show ?case using Cons.IH [of "old @ b"] by (simp add: all_data_cb_def rdn_def add.assoc)
qed simp

lemma take_chunks_mem:
  "take_chunks True bs \<lparr>db_buf = None, db_len = 0\<rparr> =
   Some \<lparr>db_buf = (if bs = [] then None else Some (concat bs @ [0])), db_len = length (concat bs)\<rparr>"
proof (cases bs)
  case (Cons b r)
  then show ?thesis using take_chunks_from [of r b] by (simp add: all_data_cb_def rdn_def)
qed simp

lemma take_chunks_no_mem: "take_chunks False bs db = Some db"
  by (induction bs) (simp_all add: all_data_cb_def)

text \<open>What the callbacks collected: nothing when they cannot allocate.\<close>

definition body_of :: "http_answer \<Rightarrow> bytes" where
  "body_of a = (if ha_mem a then concat (ha_chunks a) else [])"

lemma take_chunks_body:
  "\<exists>buf. take_chunks (ha_mem a) (ha_chunks a) \<lparr>db_buf = None, db_len = 0\<rparr> = Some \<lparr>db_buf = buf, db_len = length (body_of a)\<rparr> \<and>
     (body_of a \<noteq> [] \<longrightarrow> buf = Some (body_of a @ [0]))"
  by (cases "ha_mem a") (auto simp: take_chunks_mem take_chunks_no_mem body_of_def)

lemma c_string_terminated: "c_string (bs @ [0]) = c_string bs"
  by (simp add: c_string_def takeWhile_tail)

lemma rpc_headers_fit: "length req < 2 ^ 64 \<Longrightarrow> \<exists>hs. rpc_headers E req rate = Some hs"
proof -
  assume r: "length req < 2 ^ 64"
  have dec: "length (dec_nat n) \<le> 20" if "n < 2 ^ 64" for n using length_dec_nat [of n 19] that by simp
  have "length (dec_nat (length req)) \<le> 20" by (rule dec [OF r])
  moreover have "length (dec_nat (unat rate)) \<le> 20"
    by (rule dec) (use unsigned_less [of rate] in simp)
  ultimately show ?thesis by (simp add: rpc_headers_def print_into_def)
qed

text \<open>The answer of a request that succeeded: a \<open>result\<close> that is not null and no \<open>error\<close>.\<close>

definition rpc_success :: "('j, 'f) jansson \<Rightarrow> 'j \<Rightarrow> bool" where
  "rpc_success J val \<longleftrightarrow> json_object_get J (Some val) ''result'' \<noteq> None \<and> \<not> json_is_null J (json_object_get J (Some val) ''result'') \<and>
     (json_object_get J (Some val) ''error'' = None \<or> json_is_null J (json_object_get J (Some val) ''error''))"

lemma rpc_result_value:
  "fst (rpc_result J hi val rc) = (if rpc_success J val then Some (case hi_reason hi of None \<Rightarrow> val
     | Some r \<Rightarrow> json_object_set_new J val ''reject-reason'' (json_string J r)) else None)"
  by (auto simp: rpc_result_def rpc_success_def Let_def)

text \<open>The state apart from what a request may change: the flags and the queues of the other two threads.\<close>

definition unwoken :: "'f miner \<Rightarrow> 'f miner" where
  "unwoken m = m\<lparr>have_stratum := False, have_longpoll := False, stratum_q := [], longpoll_q := []\<rparr>"

lemma activate_stratum_unwoken:
  "unwoken (activate_stratum push proxy hi m) = unwoken m" "have_stratum m \<Longrightarrow> have_stratum (activate_stratum push proxy hi m)"
  "have_longpoll (activate_stratum push proxy hi m) = have_longpoll m"
  by (simp_all add: activate_stratum_def unwoken_def split: option.split)

lemma activate_longpoll_unwoken:
  "unwoken (activate_longpoll push scan hi m) = unwoken m" "have_longpoll m \<Longrightarrow> have_longpoll (activate_longpoll push scan hi m)"
  "have_stratum (activate_longpoll push scan hi m) = have_stratum m"
  by (simp_all add: activate_longpoll_def unwoken_def split: option.split)

lemmas activate_simps = activate_stratum_unwoken activate_longpoll_unwoken

lemma unauthorized_body: "unauthorized a (c_string (bs @ [0])) = unauthorized a (c_string bs)"
  by (simp add: c_string_terminated)

text \<open>A request in terms of the whole body.\<close>

lemma json_rpc_call_body:
  assumes "rpc_headers E req (global_hashrate m) = Some headers"
    and "a = server \<lparr>hr_url = url, hr_userpass = userpass, hr_headers = headers, hr_body = req\<rparr>"
    and "hi = take_headers (ha_mem a) (ha_headers a)"
    and "m' = activate_longpoll push (scan \<and> \<not> have_longpoll m) hi (activate_stratum push proxy hi m)"
  shows "json_rpc_call E server push proxy url userpass req scan lp m =
    Some (if ha_rc a \<noteq> 0 \<and> \<not> (lp \<and> ha_rc a = CURLE_OPERATION_TIMEDOUT) then (None, ha_rc a, m)
          else if body_of a = [] \<or> unauthorized a (c_string (body_of a)) then (None, ha_rc a, m')
          else case json_loads (sv_J E) (c_string (body_of a)) of
            None \<Rightarrow> (None, ha_rc a, m')
          | Some val \<Rightarrow> (fst (rpc_result (sv_J E) hi val (ha_rc a)), snd (rpc_result (sv_J E) hi val (ha_rc a)), m'))"
proof -
  obtain buf where "take_chunks (ha_mem a) (ha_chunks a) \<lparr>db_buf = None, db_len = 0\<rparr> = Some \<lparr>db_buf = buf, db_len = length (body_of a)\<rparr>"
    and "body_of a \<noteq> [] \<Longrightarrow> buf = Some (body_of a @ [0])"
    using take_chunks_body by blast
  then show ?thesis
    using assms by (simp add: json_rpc_call_def Let_def c_string_terminated split_beta split: option.split)
qed

section \<open>A subscription is complete or leaves no trace\<close>

text \<open>The context after a subscription: the two extranonce sizes are usable, the pool's extranonce has its size, and only the
  fields that belong to the session differ.\<close>

definition subscribed :: "('j, 'f) senv \<Rightarrow> 'f stratum_ctx \<Rightarrow> 'f stratum_ctx \<Rightarrow> bool" where
  "subscribed E x y \<longleftrightarrow> (\<exists>n1 n2 sid.
     y = x\<lparr>ctx_xnonce1_size := length n1, ctx_xnonce1 := Some n1, ctx_xnonce2_size := n2, ctx_session_id := sid,
       ctx_next_diff := f_lit (sv_F E) 1 0\<rparr> \<and>
     (n2 \<in> {2..16} \<or> sv_algo E = ''verus'' \<and> length n1 \<in> {3..12} \<and> n2 = 32 - length n1))"

lemma subscribedI:
  "n2 \<in> {2..16} \<or> sv_algo E = ''verus'' \<and> length n1 \<in> {3..12} \<and> n2 = 32 - length n1 \<Longrightarrow>
   subscribed E x (x\<lparr>ctx_xnonce1_size := length n1, ctx_xnonce1 := Some n1, ctx_xnonce2_size := n2, ctx_session_id := sid,
     ctx_next_diff := f_lit (sv_F E) 1 0\<rparr>)"
  unfolding subscribed_def by (intro exI conjI, rule refl)

lemma parse_extranonce_returns:
  assumes "sv_alloc E"
  shows "returns (stratum_parse_extranonce E p k x) (\<lambda>(ok, y). if ok then \<exists>n1 n2.
       y = x\<lparr>ctx_xnonce1_size := length n1, ctx_xnonce1 := Some n1, ctx_xnonce2_size := n2\<rparr> \<and>
       (n2 \<in> {2..16} \<or> sv_algo E = ''verus'' \<and> length n1 \<in> {3..12} \<and> n2 = 32 - length n1) else y = x)"
proof -
  have h: "\<exists>r b. hex2bin (replicate (length t div 2) 0) t (length t div 2) = Some (r, b) \<and> length b = length t div 2" for t :: string
    using hex2bin_total [of "length t div 2" "replicate (length t div 2) 0" t] by (auto elim!: returnsE)
  show ?thesis
  proof (cases "json_string_value (sv_J E) (json_array_get (sv_J E) p k)")
    case (Some t)
    obtain r b where b: "hex2bin (replicate (length t div 2) 0) t (length t div 2) = Some (r, b)" "length b = length t div 2"
      using h [of t] by blast
    define i where "i = int32 (json_integer_value (sv_J E) (json_array_get (sv_J E) p (k + 1)))"
    define sz where "sz = (if i = 0 then if sv_algo E = ''verus'' \<and> 3 \<le> length b \<and> length b \<le> 12 then Some (32 - int (length b)) else None
        else if i < 2 \<or> i > 16 then None else Some i)"
    have e: "stratum_parse_extranonce E p k x = Some (case sz of None \<Rightarrow> (False, x) |
        Some n \<Rightarrow> (True, x\<lparr>ctx_xnonce1_size := length b, ctx_xnonce1 := Some b, ctx_xnonce2_size := nat n\<rparr>))"
      using Some b assms by (simp add: stratum_parse_extranonce_def Let_def i_def sz_def)
    have "nat n \<in> {2..16} \<or> sv_algo E = ''verus'' \<and> length b \<in> {3..12} \<and> nat n = 32 - length b" if "sz = Some n" for n
      using that by (auto simp: sz_def split: if_splits)
    then show ?thesis unfolding e by (cases sz) (auto simp: returns_def intro!: exI [of _ b])
  qed (simp add: stratum_parse_extranonce_def returns_def)
qed

lemma release_Some: "v \<noteq> Val_freed \<Longrightarrow> returns (release v) (\<lambda>w. w \<noteq> Val_live \<and> (v = Val_live \<longleftrightarrow> w = Val_freed))"
  by (cases v) (simp_all add: release_def returns_def)

text \<open>One attempt: without a line \<open>val\<close> is what it was, with one it is new.\<close>

lemma subscribe_try_returns:
  assumes "length (sv_agent E) < 64" "sv_alloc E"
  shows "returns (subscribe_try E retry v c) (\<lambda>(ret, sret, w, d).
    (if ret then subscribed E (cn_ctx c) (cn_ctx d) else cn_ctx d = cn_ctx c) \<and>
    (if sret then w \<noteq> Val_freed else w = v \<and> \<not> ret))"
proof -
  have fits: "length (subscribe_text E retry (ctx_session_id (cn_ctx c))) <
      128 + (case ctx_session_id (cn_ctx c) of None \<Rightarrow> 0 | Some s \<Rightarrow> length s)"
    using assms(1) by (simp add: subscribe_text_def split: option.split)
  have send: "cn_ctx d = cn_ctx c" if "stratum_send_line E t c = (ok, d)" for ok d t
    using that ctx_of_send(1) [of E t c] by simp
  have recv: "cn_ctx e = cn_ctx d" if "recv_in_time d = (l, e)" for l and d e :: "'b conn"
    using that by (auto simp: recv_in_time_def split: list.splits prod.splits if_splits)
  show ?thesis
    unfolding subscribe_try_def Let_def
    by (intro rets returns_weaken [OF parse_extranonce_returns [OF assms(2)]])
      (use fits in \<open>auto dest!: send recv simp: upd_ctx_def intro!: subscribedI\<close>)
qed

section \<open>Properties\<close>


definition lp_server :: "http_request \<Rightarrow> http_answer" where
  "lp_server r = \<lparr>ha_rc = 0, ha_headers = [''X-Long-Polling: /lp''], ha_chunks = [[123], [125]], ha_status = Some 200, ha_mem = True\<rparr>"



definition subscribe_answers :: "(string \<times> jval) list" where
  "subscribe_answers = [(''no'', JObj [(''result'', JNull)]),
     (''yes'', JObj [(''result'', JArr [JArr [JArr [JStr ''mining.notify'', JStr ''s1'']], JStr ''0a0b0c0d''])])]"


end
