(* ===== verification/Netthreads.thy ===== *)
theory Netthreads
  imports Minesound Connect
begin

text \<open>The threads of \<open>ccminer.cpp\<close> that talk to the pools: \<open>stratum_thread\<close> and \<open>longpoll_thread\<close>, with \<open>proper_exit\<close>. Each thread is a state
  machine: its program counter names the label or loop head it is at, and one step is one pass of the loop there (one
  attempt to connect, one line of the pool, one long poll). What other threads do between and inside the steps
  is part of the environment of a step.\<close>

section \<open>The end of the program\<close>

definition EXIT_CODE_OK :: int where "EXIT_CODE_OK = 0"
definition EXIT_CODE_POOL_TIMEOUT :: int where "EXIT_CODE_POOL_TIMEOUT = 2"

text \<open>\<open>proper_exit\<close>: the code passed to \<open>exit\<close>, or None when another thread is already leaving and the call returns.\<close>

definition proper_exit :: "int \<Rightarrow> 'f miner \<Rightarrow> (int option \<times> 'f miner) option" where
  "proper_exit reason m = do {
     m \<leftarrow> restart_threads m;
     if abort_flag m then Some (None, m)
     else Some (Some (if reason = EXIT_CODE_OK \<and> app_exit_code m \<noteq> EXIT_CODE_OK then app_exit_code m else reason),
       m\<lparr>abort_flag := True, shares := (if check_dups m then hashlog_purge_all (shares m) else shares m),
         scans := stats_purge_all (scans m)\<rparr>) }"

section \<open>The stratum thread\<close>

datatype net_pc =
    At_wait       \<comment> \<open>\<open>wait_stratum_url\<close>, \<open>wait_lp_url\<close>\<close>
  | At_loop       \<comment> \<open>the head of the outer loop\<close>
  | At_connect    \<comment> \<open>the head of the loop that connects\<close>
  | At_session    \<comment> \<open>behind that loop\<close>
  | At_out        \<comment> \<open>the thread has ended\<close>
  | At_exit int   \<comment> \<open>the program has ended with this code\<close>

record sthread =
  st_pc :: net_pc
  st_pooln :: int
  st_switchn :: int
  st_failures :: nat

text \<open>The environment of a step: results of library calls, clocks, random numbers and what other threads do (as in \<open>Mining\<close>), the
  outcome of a connection attempt, the lines that arrive, replies for the accounting of shares, and whether
  the queue of the thread was frozen.\<close>

record ('j, 'f) net_env =
  ne_rn :: "('j, 'f) round"
  ne_curl :: curl_env
  ne_inbox :: "(bool \<times> string option) list"
  ne_R :: "('j, 'f) replies"
  ne_frozen :: bool

abbreviation ne_A :: "('j, 'f) net_env \<Rightarrow> ('j, 'f) answers" where
  "ne_A e \<equiv> rn_A (ne_rn e)"

abbreviation ne_E :: "('j, 'f) net_env \<Rightarrow> ('j, 'f) senv" where
  "ne_E e \<equiv> an_E (rn_A (ne_rn e))"

abbreviation ne_other :: "('j, 'f) net_env \<Rightarrow> nat \<Rightarrow> 'f miner \<Rightarrow> 'f miner" where
  "ne_other e \<equiv> rn_other (ne_rn e)"

text \<open>A call on a connection: the global \<open>stratum\<close> or the saved one of a pool, with the counters of the pools and the flags that
  ask the miner threads to restart.\<close>

definition link_of :: "(bool \<times> string option) list \<Rightarrow> 'f stratum_ctx \<Rightarrow> 'f miner \<Rightarrow> 'f conn" where
  "link_of inbox x m = \<lparr>cn_ctx = x, cn_disconnects = map pool_disconnects (pools m), cn_sent = sent_lines m,
     cn_restart = False, cn_inbox = inbox\<rparr>"

definition put_link :: "'f conn \<Rightarrow> 'f miner \<Rightarrow> 'f miner option" where
  "put_link c m =
     (let m = m\<lparr>sent_lines := cn_sent c, pools := map2 (\<lambda>p n. p\<lparr>pool_disconnects := n\<rparr>) (pools m) (cn_disconnects c)\<rparr>
      in if cn_restart c then restart_threads m else Some m)"

definition put_stratum :: "'f conn \<Rightarrow> 'f miner \<Rightarrow> 'f miner option" where
  "put_stratum c m = put_link c (m\<lparr>stratum := cn_ctx c\<rparr>)"

definition disconnect_stratum :: "('j, 'f) net_env \<Rightarrow> 'f miner \<Rightarrow> 'f miner option" where
  "disconnect_stratum e m = do { c \<leftarrow> stratum_disconnect (ne_E e) (link_of [] (stratum m) m); put_stratum c m }"

text \<open>\<open>pool_switched\<close>: the connection that \<open>pool_switch\<close> saved is closed.\<close>

definition pool_switched :: "('j, 'f) net_env \<Rightarrow> sthread \<Rightarrow> 'f miner \<Rightarrow> (sthread \<times> 'f miner) option" where
  "pool_switched e t m = do {
     p \<leftarrow> rd_int (pools m) (st_pooln t);
     c \<leftarrow> stratum_disconnect (ne_E e) (link_of [] (pool_stratum p) m);
     m \<leftarrow> put_link c m;
     m \<leftarrow> upd_pool (st_pooln t) (\<lambda>p. p\<lparr>pool_stratum := cn_ctx c\<rparr>) m;
     Some (t\<lparr>st_pc := At_wait\<rparr>, m\<lparr>stratum := (stratum m)\<lparr>ctx_url := None\<rparr>\<rparr>) }"

definition wait_stratum_url :: "('j, 'f) net_env \<Rightarrow> sthread \<Rightarrow> 'f miner \<Rightarrow> (sthread \<times> 'f miner) option" where
  "wait_stratum_url e t m = (case stratum_q m of
     [] \<Rightarrow> Some (if ne_frozen e then (t\<lparr>st_pc := At_out\<rparr>, m\<lparr>stratum := (stratum m)\<lparr>ctx_url := None\<rparr>\<rparr>) else (t, m))
   | url # q \<Rightarrow> Some (\<lparr>st_pc = At_loop, st_pooln = cur_pooln m, st_switchn = pool_switch_count m, st_failures = 0\<rparr>,
       m\<lparr>stratum_q := q, stratum := (stratum m)\<lparr>ctx_url := Some url, ctx_pooln := cur_pooln m\<rparr>,
         pool_is_switching := False, stratum_need_reset := False\<rparr>))"

definition loop_head :: "('j, 'f) net_env \<Rightarrow> sthread \<Rightarrow> 'f miner \<Rightarrow> (sthread \<times> 'f miner) option" where
  "loop_head e t m =
     (if abort_flag m then Some (t\<lparr>st_pc := At_out\<rparr>, m)
      else do {
        m \<leftarrow> (if \<not> stratum_need_reset m then Some m
             else let m = m\<lparr>stratum_need_reset := False\<rparr>
               in if ctx_url (stratum m) \<noteq> None then disconnect_stratum e m
                  else do { p \<leftarrow> rd_int (pools m) (st_pooln t); Some (m\<lparr>stratum := (stratum m)\<lparr>ctx_url := Some (pool_url p)\<rparr>\<rparr>) });
        Some (t\<lparr>st_pc := At_connect, st_failures := 0\<rparr>, m) })"

text \<open>Connecting, subscribing and authorising, as far as each succeeds.\<close>

definition open_session :: "('j, 'f) net_env \<Rightarrow> 'f pool_infos \<Rightarrow> bool \<Rightarrow> 'f conn \<Rightarrow> (bool \<times> 'f conn) option" where
  "open_session e p st c = do {
     (ok, c) \<leftarrow> stratum_connect (ne_curl e) (pool_url p) c;
     if \<not> ok then Some (False, c)
     else do {
       (ok, c) \<leftarrow> stratum_subscribe (ne_E e) c;
       if \<not> ok then Some (False, c) else stratum_authorize (ne_E e) st (pool_user p) (pool_pass p) c } }"

text \<open>After a failed attempt: more than \<open>opt_retries\<close> of them switch the pool or end the program.\<close>

definition connect_failed :: "('j, 'f) net_env \<Rightarrow> sthread \<Rightarrow> 'f miner \<Rightarrow> (sthread \<times> 'f miner) option" where
  "connect_failed e t m = do {
     m \<leftarrow> disconnect_stratum e m;
     let t = (if opt_retries m \<ge> 0 then t\<lparr>st_failures := st_failures t + 1\<rparr> else t);
     let give_up = (opt_retries m \<ge> 0 \<and> int (st_failures t) > opt_retries m);
     if give_up \<and> \<not> (num_pools m > 1 \<and> opt_pool_failover m) then do {
       (code, m) \<leftarrow> proper_exit EXIT_CODE_POOL_TIMEOUT (workio_abort (an_alloc (ne_A e)) (an_push (ne_A e)) m);
       Some (t\<lparr>st_pc := (case code of None \<Rightarrow> At_out | Some n \<Rightarrow> At_exit n)\<rparr>, m) }
     else do {
       m \<leftarrow> (if give_up then do { (_, m) \<leftarrow> pool_switch_next (ne_A e) m; Some m } else Some m);
       if st_switchn t \<noteq> pool_switch_count m then pool_switched e t m else Some (t, ne_other e 2 m) } }"

definition connect_attempt :: "('j, 'f) net_env \<Rightarrow> sthread \<Rightarrow> 'f miner \<Rightarrow> (sthread \<times> 'f miner) option" where
  "connect_attempt e t m =
     (if ctx_curl (stratum m) \<or> abort_flag m then Some (t\<lparr>st_pc := At_session\<rparr>, m)
      else do {
        d \<leftarrow> wr (w_data (g_work m)) 0 0;
        m \<leftarrow> restart_threads (m\<lparr>g_work_time := 0, g_work := (g_work m)\<lparr>w_data := d\<rparr>\<rparr>);
        p \<leftarrow> rd_int (pools m) (st_pooln t);
        (ok, c) \<leftarrow> open_session e p (opt_stratum_stats m) (link_of (ne_inbox e) (stratum m) m);
        m \<leftarrow> put_stratum c m;
        if ok then Some (t, ne_other e 1 m) else connect_failed e t m })"

text \<open>A new job becomes the current work. The text compared with is empty in a cleared work.\<close>

definition take_job :: "('j, 'f) net_env \<Rightarrow> 'f miner \<Rightarrow> 'f miner option" where
  "take_job e m = (case job_job_id (ctx_job (stratum m)) of
     None \<Rightarrow> Some m
   | Some jid \<Rightarrow>
       if g_work_time m = 0 \<or> take 120 jid \<noteq> take 120 (drop 8 (w_job_id (g_work m))) then do {
         (ok, m) \<leftarrow> gen_g_work (ne_rn e) m;
         let m = (if ok then m\<lparr>g_work_time := rn_time (ne_rn e) 0\<rparr> else m);
         if job_clean (ctx_job (stratum m)) then do {
           m \<leftarrow> restart_threads m;
           let now = word_of_int (rn_time (ne_rn e) 1);
           Some (m\<lparr>shares := (if check_dups m \<or> opt_showdiff m then hashlog_purge_old now (shares m) else shares m),
             scans := stats_purge_old now (scans m)\<rparr>) }
         else Some m }
       else Some m)"

text \<open>\<open>stratum_handle_method\<close>, and \<open>stratum_handle_response\<close> for what it does not know.\<close>

definition handle_line :: "('j, 'f) net_env \<Rightarrow> string \<Rightarrow> 'f miner \<Rightarrow> 'f miner option" where
  "handle_line e s m = do {
     (ok, c) \<leftarrow> stratum_handle_method (ne_E e) (opt_stratum_stats m) s (link_of [] (stratum m) m);
     m \<leftarrow> put_stratum c m;
     if ok then Some m else do { (_, m) \<leftarrow> stratum_handle_response (ne_R e) s m; Some m } }"

text \<open>The other threads run while this one waits for a line.\<close>

definition session_step :: "('j, 'f) net_env \<Rightarrow> sthread \<Rightarrow> 'f miner \<Rightarrow> (sthread \<times> 'f miner) option" where
  "session_step e t m =
     (if st_switchn t \<noteq> pool_switch_count m then pool_switched e t m
      else do {
        m \<leftarrow> take_job e m;
        let m = ne_other e 3 m;
        if st_switchn t \<noteq> pool_switch_count m then pool_switched e t m
        else do {
          let m = ne_other e 4 m;
          let s = fst (recv_in_time (link_of (ne_inbox e) (stratum m) m));
          if st_switchn t \<noteq> pool_switch_count m then pool_switched e t m
          else do {
            m \<leftarrow> (case s of None \<Rightarrow> disconnect_stratum e m | Some line \<Rightarrow> handle_line e line m);
            Some (t\<lparr>st_pc := At_loop\<rparr>, m) } } })"

text \<open>One step; before it the other threads may have run.\<close>

definition stratum_thread :: "('j, 'f) net_env \<Rightarrow> sthread \<Rightarrow> 'f miner \<Rightarrow> (sthread \<times> 'f miner) option" where
  "stratum_thread e t m =
     (let m = ne_other e 0 m in case st_pc t of
        At_wait \<Rightarrow> wait_stratum_url e t m
      | At_loop \<Rightarrow> loop_head e t m
      | At_connect \<Rightarrow> connect_attempt e t m
      | At_session \<Rightarrow> session_step e t m
      | _ \<Rightarrow> Some (t, m))"

section \<open>The longpoll thread\<close>

text \<open>The pointer \<open>pool\<close> is the number of a pool once it has been set.\<close>

record lthread =
  lt_pc :: net_pc
  lt_pool :: "int option"
  lt_switchn :: int
  lt_need_slash :: bool
  lt_url :: string

record ('j, 'f) lp_env =
  le_rn :: "('j, 'f) round"
  le_R :: "('j, 'f) replies"
  le_server :: "http_request \<Rightarrow> http_answer"
  le_proxy :: bool
  le_fmt :: "'f \<Rightarrow> string"       \<comment> \<open>\<open>"%.3f"\<close>\<close>
  le_frozen :: bool

definition lp_leave :: "net_pc \<Rightarrow> lthread \<Rightarrow> 'f miner \<Rightarrow> (lthread \<times> 'f miner) option" where
  "lp_leave pc t m = Some (t\<lparr>lt_pc := pc\<rparr>, m\<lparr>have_longpoll := False\<rparr>)"

text \<open>The address to poll: a full one, or a path on the current server. \<open>rpc_url[strlen(rpc_url) - 1]\<close> needs an address that is
  not empty; \<open>need_slash\<close> is never reset.\<close>

definition lp_address :: "string \<Rightarrow> lthread \<Rightarrow> 'f miner \<Rightarrow> lthread option" where
  "lp_address path t m =
     (if strstr path ''://'' then Some (t\<lparr>lt_url := path\<rparr>)
      else if rpc_url m = [] then None
      else let start = (if path \<noteq> [] \<and> hd path = CHR ''/'' then tl path else path);
               slash = lt_need_slash t \<or> last (rpc_url m) \<noteq> CHR ''/''
           in Some (t\<lparr>lt_need_slash := slash, lt_url := rpc_url m @ (if slash then ''/'' else []) @ start\<rparr>))"

text \<open>From \<open>switchn\<close> on, up to the loop.\<close>

definition lp_begin :: "('j, 'f) lp_env \<Rightarrow> string \<Rightarrow> lthread \<Rightarrow> 'f miner \<Rightarrow> (lthread \<times> 'f miner) option" where
  "lp_begin e path t m =
     (let t = t\<lparr>lt_switchn := pool_switch_count m\<rparr>
      in if opt_algo m = ALGO_SIA \<or> \<not> strstr path ''://'' \<and> rpc_url m \<noteq> [] \<and> \<not> an_alloc (rn_A (le_rn e)) then lp_leave At_out t m
         else do {
           t \<leftarrow> lp_address path t m;
           pooln \<leftarrow> lt_pool t;
           m \<leftarrow> upd_pool pooln (\<lambda>p. p\<lparr>pool_type := pool_type p OR POOL_LONGPOLL\<rparr>) (m\<lparr>pool_is_switching := False\<rparr>);
           Some (t\<lparr>lt_pc := At_loop\<rparr>, m) })"

definition wait_lp_url :: "('j, 'f) lp_env \<Rightarrow> lthread \<Rightarrow> 'f miner \<Rightarrow> (lthread \<times> 'f miner) option" where
  "wait_lp_url e t m = (case longpoll_q m of
     [] \<Rightarrow> if le_frozen e then lp_leave At_out t m else Some (t, m)
   | path # q \<Rightarrow> do {
       p \<leftarrow> rd_int (pools m) (cur_pooln m);
       if \<not> is_stratum p then lp_begin e path (t\<lparr>lt_pool := Some (cur_pooln m)\<rparr>) (m\<lparr>longpoll_q := q\<rparr>)
       else lp_begin e path t (m\<lparr>longpoll_q := q, have_stratum := True\<rparr>) })"

text \<open>The text of the log line for a new block, in an array of 64 characters.\<close>

definition netinfo :: "('j, 'f) lp_env \<Rightarrow> 'f miner \<Rightarrow> string option" where
  "netinfo e m =
     (let F = rn_F (le_rn e)
      in print_into 64 ((if f_lt F (f_lit F 0 0) (net_diff m) then '', diff '' @ le_fmt e (net_diff m) else []) @
        (if opt_showdiff m then '', target '' @ le_fmt e (w_targetdiff (g_work m)) else [])))"

definition lp_new_work :: "('j, 'f) lp_env \<Rightarrow> 'j \<Rightarrow> 'f miner \<Rightarrow> 'f miner option" where
  "lp_new_work e val m = do {
     let J = re_J (le_R e);
     let res = json_object_get J (Some val) ''result'';
     let soval = json_object_get J res ''submitold'';
     let m = m\<lparr>submit_old := soval \<noteq> None \<and> json_is_true J soval\<rparr>;
     (ok, w, m) \<leftarrow> work_decode (le_R e) (rn_rand (le_rn e)) res (g_work m) m;
     let m = m\<lparr>g_work := w\<rparr>;
     if \<not> ok then Some m
     else do {
       m \<leftarrow> restart_threads m;
       _ \<leftarrow> (if opt_quiet m then Some [] else netinfo e m);
       Some (m\<lparr>g_work_time := rn_time (le_rn e) 0\<rparr>) } }"

text \<open>What is done with the answer; the other threads have run meanwhile.\<close>

definition lp_answer :: "('j, 'f) lp_env \<Rightarrow> lthread \<Rightarrow> 'j option \<Rightarrow> int \<Rightarrow> 'f miner \<Rightarrow> (lthread \<times> 'f miner) option" where
  "lp_answer e t val err m =
     (if have_stratum m \<or> lt_switchn t \<noteq> pool_switch_count m then lp_leave At_wait t m
      else case val of
        Some v \<Rightarrow> do { m \<leftarrow> lp_new_work e v m; Some (t, m) }
      | None \<Rightarrow> Some (t, if err \<noteq> CURLE_OPERATION_TIMEDOUT then rn_other (le_rn e) 2 (m\<lparr>g_work_time := 0\<rparr>) else m\<lparr>g_work_time := 0\<rparr>))"

definition lp_poll :: "('j, 'f) lp_env \<Rightarrow> lthread \<Rightarrow> 'f miner \<Rightarrow> (lthread \<times> 'f miner) option" where
  "lp_poll e t m =
     (if abort_flag m then lp_leave At_out t m
      else if lt_switchn t \<noteq> pool_switch_count m then lp_leave At_wait t m
      else do {
        pooln \<leftarrow> lt_pool t;
        p \<leftarrow> rd_int (pools m) pooln;
        (val, err, m) \<leftarrow> json_rpc_longpoll (re_E (le_R e)) (le_server e) (an_push (rn_A (le_rn e))) (le_proxy e) (lt_url t) p json_rpc_getwork m;
        lp_answer e t val err (rn_other (le_rn e) 1 m) })"

definition longpoll_thread :: "('j, 'f) lp_env \<Rightarrow> lthread \<Rightarrow> 'f miner \<Rightarrow> (lthread \<times> 'f miner) option" where
  "longpoll_thread e t m =
     (let m = rn_other (le_rn e) 0 m in case lt_pc t of
        At_wait \<Rightarrow> wait_lp_url e t m
      | At_loop \<Rightarrow> lp_poll e t m
      | _ \<Rightarrow> Some (t, m))"

end
