(* ===== verification/Options.thy ===== *)
theory Options
  imports Netthreads
begin

text \<open>The options of the program and its start: \<open>parse_arg\<close>, \<open>parse_config\<close>, \<open>parse_cmdline\<close> and the part of \<open>main\<close> before the
  threads run (\<open>ccminer.cpp\<close>), and the functions of \<open>pools.cpp\<close> that use the parser (\<open>parse_pool_array\<close>,
  \<open>pool_switch_url\<close>). What \<open>getopt_long\<close> returns is a list of keys with their arguments; an option without argument
  has the empty text, which the code treats like a null pointer. Memory for copies of texts is available.\<close>

section \<open>State\<close>

text \<open>The globals that only options set, beside those of \<open>miner\<close>.\<close>

record ('j, 'f) opts =
  o_m :: "'f miner"
  opt_nfactor :: int
  jane_params :: string
  cryptonight_fork :: int
  opt_api_bind :: string
  opt_api_port :: int
  opt_api_allow :: "string option"
  opt_api_groups :: "string option"
  opt_api_mcast :: bool
  opt_api_mcast_addr :: string
  opt_api_mcast_code :: string
  opt_api_mcast_des :: string
  opt_api_mcast_port :: int
  opt_background :: bool
  opt_config :: "'j option"
  opt_protocol :: bool
  opt_fail_pause :: int
  opt_timeout :: int
  opt_trust_pool :: bool
  opt_proxy :: "string option"
  opt_proxy_type :: int
  opt_cert :: "string option"
  use_colors :: bool
  opt_autotune :: bool
  device_config :: "string option list"
  device_lookup_gap :: "int list"
  device_interactive :: "int list"
  device_texturecache :: "int list"
  device_bfactor :: "int list"
  opt_keep_clocks :: bool
  opt_extranonce :: bool
  use_syslog :: bool
  opt_syslog_pfx :: string
  opt_maxlograte :: int
  opt_affinity :: u64
  opt_priority :: int
  opt_cudaschedule :: int
  opt_max_temp :: 'f
  opt_resume_temp :: 'f
  gpu_threads :: int
  num_cpus :: int
  active_gpus :: int

text \<open>What the parser gets from outside: configuration files by name or address, \<open>"%f"\<close>, the file that
  \<open>get_defconfig_path\<close> finds (empty if there is none), and whether curl, the allocator and the creation of threads succeed.\<close>

record ('j, 'f) opt_env =
  oe_A :: "('j, 'f) answers"
  oe_load_file :: "string \<Rightarrow> 'j option"
  oe_load_url :: "string \<Rightarrow> 'j option"
  oe_fmt :: "'f \<Rightarrow> string"
  oe_defconfig :: string
  oe_start :: bool

abbreviation oe_J :: "('j, 'f) opt_env \<Rightarrow> ('j, 'f) jansson" where
  "oe_J e \<equiv> sv_J (an_E (oe_A e))"

abbreviation oe_F :: "('j, 'f) opt_env \<Rightarrow> 'f fops" where
  "oe_F e \<equiv> an_F (oe_A e)"

text \<open>A call returns or ends the program.\<close>

datatype 'a parsed = Parsed 'a | Exits int

definition and_parse :: "'a parsed option \<Rightarrow> ('a \<Rightarrow> 'b parsed option) \<Rightarrow> 'b parsed option" where
  "and_parse x f = do { r \<leftarrow> x; case r of Parsed a \<Rightarrow> f a | Exits n \<Rightarrow> Some (Exits n) }"

definition EXIT_CODE_USAGE :: int where "EXIT_CODE_USAGE = 1"
definition EXIT_CODE_SW_INIT_ERROR :: int where "EXIT_CODE_SW_INIT_ERROR = 3"
definition EXIT_CODE_CUDA_NODEVICE :: int where "EXIT_CODE_CUDA_NODEVICE = 4"

text \<open>\<open>proper_exit\<close> while no other thread is leaving, and \<open>show_usage_and_exit\<close>.\<close>

definition leave :: "int \<Rightarrow> ('j, 'f) opts \<Rightarrow> 'a parsed option" where
  "leave reason ops = Some (Exits (if reason = EXIT_CODE_OK \<and> app_exit_code (o_m ops) \<noteq> EXIT_CODE_OK then app_exit_code (o_m ops) else reason))"

definition show_usage_and_exit :: "int \<Rightarrow> ('j, 'f) opts \<Rightarrow> 'a parsed option" where
  "show_usage_and_exit status ops = leave status ops"

section \<open>Texts\<close>

text \<open>The text before the rest that \<open>find_str\<close> returns.\<close>

definition before_rest :: "string \<Rightarrow> string \<Rightarrow> string" where
  "before_rest s rest = take (length s - length rest) s"

text \<open>\<open>strchr\<close>: the texts around the first such character. \<open>strrchr\<close>: around the last one.\<close>

fun split_first :: "char \<Rightarrow> string \<Rightarrow> (string \<times> string) option" where
  "split_first d [] = None"
| "split_first d (c # s) = (if c = d then Some ([], s) else map_option (\<lambda>(a, b). (c # a, b)) (split_first d s))"

fun split_last :: "char \<Rightarrow> string \<Rightarrow> (string \<times> string) option" where
  "split_last d [] = None"
| "split_last d (c # s) = (case split_last d s of
     Some (a, b) \<Rightarrow> Some (c # a, b)
   | None \<Rightarrow> if c = d then Some ([], s) else None)"

text \<open>All tokens of \<open>strtok\<close>.\<close>

function strtok :: "char \<Rightarrow> string \<Rightarrow> string list" where
  "strtok d s = (case dropWhile ((=) d) s of
     [] \<Rightarrow> []
   | c # r \<Rightarrow> (c # takeWhile ((\<noteq>) d) r) # strtok d (dropWhile ((\<noteq>) d) r))"
  by pat_completeness auto
termination
proof (relation "measure (\<lambda>(d, s). length s)")
  fix d s c r assume "dropWhile ((=) d) s = c # r"
  then have "length r < length s" using length_dropWhile_le [of "(=) d" s] by simp
  then show "((d, dropWhile ((\<noteq>) d) r), d, s) \<in> measure (\<lambda>(d, s). length s)"
    using length_dropWhile_le [of "(\<noteq>) d" r] by (simp add: le_less_trans)
qed simp

declare strtok.simps [simp del]

text \<open>\<open>atol\<close>.\<close>

definition atol :: "string \<Rightarrow> int" where
  "atol s =
     (let t = dropWhile isspace s;
          neg = (t \<noteq> [] \<and> hd t = CHR ''-'');
          u = (if t \<noteq> [] \<and> (hd t = CHR ''-'' \<or> hd t = CHR ''+'') then tl t else t);
          v = (if neg then - int (dec_val u) else int (dec_val u))
      in max (- (2 ^ 63)) (min (2 ^ 63 - 1) v))"

section \<open>Groups of options\<close>

text \<open>A number that must be in a range.\<close>

definition ranged :: "int \<Rightarrow> int \<Rightarrow> string \<Rightarrow> (int \<Rightarrow> ('j, 'f) opts) \<Rightarrow> ('j, 'f) opts \<Rightarrow> ('j, 'f) opts parsed option" where
  "ranged lo hi arg k ops = (let v = atoi arg in if v < lo \<or> v > hi then show_usage_and_exit 1 ops else Some (Parsed (k v)))"

text \<open>The name of the algorithm with an optional factor; some names are variants of Cryptonight.\<close>

definition algo_factor :: "string option \<Rightarrow> int \<Rightarrow> ('j, 'f) opts \<Rightarrow> ('j, 'f) opts" where
  "algo_factor p i ops =
     (let ops = (case p of None \<Rightarrow> ops
            | Some rest \<Rightarrow> ops\<lparr>opt_nfactor := atoi (tl rest), jane_params := (if i = ALGO_SCRYPT_JANE then tl rest else jane_params ops)\<rparr>)
      in if opt_nfactor ops = 0
         then ops\<lparr>opt_nfactor := (if i = ALGO_SCRYPT then 9 else if i = ALGO_SCRYPT_JANE then 14 else 0)\<rparr> else ops)"

definition algo_variant :: "int \<Rightarrow> ('j, 'f) opts \<Rightarrow> ('j, 'f) opts" where
  "algo_variant i ops =
     (let variant = (\<lambda>fork. ops\<lparr>o_m := (o_m ops)\<lparr>opt_algo := ALGO_CRYPTONIGHT\<rparr>, cryptonight_fork := fork\<rparr>)
      in if i = ALGO_MONERO then variant 7
         else if i = ALGO_GRAFT then variant 8
         else if i = ALGO_STELLITE then variant 3
         else if i = ALGO_CRYPTONIGHT then variant 1
         else ops)"

definition set_algo :: "string \<Rightarrow> ('j, 'f) opts \<Rightarrow> ('j, 'f) opts parsed option" where
  "set_algo arg ops =
     (let p = find_str '':'' arg;
          i = algo_to_int (case p of None \<Rightarrow> arg | Some rest \<Rightarrow> before_rest arg rest)
      in if i < 0 then show_usage_and_exit 1 ops
         else Some (Parsed (algo_variant i (algo_factor p i (ops\<lparr>o_m := (o_m ops)\<lparr>opt_algo := i\<rparr>\<rparr>)))))"

definition set_api_bind :: "string \<Rightarrow> ('j, 'f) opts \<Rightarrow> ('j, 'f) opts" where
  "set_api_bind arg ops = (case find_str '':'' arg of
     Some rest \<Rightarrow> ops\<lparr>opt_api_bind := (if before_rest arg rest \<noteq> [] then before_rest arg rest else opt_api_bind ops), opt_api_port := atoi (tl rest)\<rparr>
   | None \<Rightarrow> if strstr arg ''.'' then ops\<lparr>opt_api_bind := arg\<rparr> else ops\<lparr>opt_api_port := atoi arg\<rparr>)"

text \<open>The options of the API; \<open>1034\<close> falls through to \<open>1035\<close>.\<close>

definition set_api :: "int \<Rightarrow> string \<Rightarrow> ('j, 'f) opts \<Rightarrow> ('j, 'f) opts parsed option" where
  "set_api key arg ops =
     (if key = 1030 then Some (Parsed (ops\<lparr>opt_api_allow := Some ''0/0''\<rparr>))
      else if key = 1031 then
        let ops = (if arg = ''0/0'' \<and> opt_api_bind ops = ''127.0.0.1'' then set_api_bind ''0.0.0.0'' ops else ops)
        in Some (Parsed (ops\<lparr>opt_api_allow := Some arg\<rparr>))
      else if key = 1032 then Some (Parsed (ops\<lparr>opt_api_groups := Some arg\<rparr>))
      else if key = 1033 then Some (Parsed (ops\<lparr>opt_api_mcast := True\<rparr>))
      else if key = 1034 then Some (Parsed (ops\<lparr>opt_api_mcast_addr := arg, opt_api_mcast_code := arg\<rparr>))
      else if key = 1035 then Some (Parsed (ops\<lparr>opt_api_mcast_code := arg\<rparr>))
      else if key = 1036 then Some (Parsed (ops\<lparr>opt_api_mcast_des := arg\<rparr>))
      else ranged 1 65535 arg (\<lambda>v. ops\<lparr>opt_api_mcast_port := v\<rparr>) ops)"

definition set_config :: "('j, 'f) opt_env \<Rightarrow> string \<Rightarrow> ('j, 'f) opts \<Rightarrow> ('j, 'f) opts parsed option" where
  "set_config e arg ops =
     (let c = (if strstr arg ''://'' then oe_load_url e arg else oe_load_file e arg)
      in if \<not> json_is_object (oe_J e) c then leave EXIT_CODE_USAGE ops else Some (Parsed (ops\<lparr>opt_config := c\<rparr>)))"

text \<open>A change of the globals followed by \<open>pool_set_creds(cur_pooln)\<close>.\<close>

definition with_creds :: "('j, 'f) opt_env \<Rightarrow> 'f miner \<Rightarrow> ('j, 'f) opts \<Rightarrow> ('j, 'f) opts parsed option" where
  "with_creds e m ops = do { m \<leftarrow> pool_set_creds (oe_A e) (cur_pooln m) m; Some (Parsed (ops\<lparr>o_m := m\<rparr>)) }"

text \<open>\<open>--url\<close>: the next pool when the current one is in use, \<close>

definition next_pool :: "('j, 'f) opts \<Rightarrow> ('j, 'f) opts option" where
  "next_pool ops = do {
     let m = o_m ops;
     p \<leftarrow> rd_int (pools m) (cur_pooln m);
     if pool_type p = POOL_UNUSED then Some ops
     else
       let c = (cur_pooln m + 1) smod int MAX_POOLS
       in Some (ops\<lparr>o_m := m\<lparr>cur_pooln := c, num_pools := max (c + 1) (num_pools m), opt_retries := (if opt_retries m = - 1 then 1 else opt_retries m)\<rparr>,
            opt_fail_pause := (if opt_fail_pause ops = 30 then 5 else opt_fail_pause ops),
            opt_timeout := (if opt_timeout ops = 300 then 60 else opt_timeout ops)\<rparr>) }"

text \<open>the address and the part of it behind the protocol, \<close>

definition full_url :: "string \<Rightarrow> (string \<times> string) option" where
  "full_url arg = (case find_str ''://'' arg of
     Some rest \<Rightarrow>
       if \<not> strcaseeq (take 7 arg) ''http://'' \<and> \<not> strcaseeq (take 8 arg) ''https://'' \<and> \<not> strcaseeq (take 14 arg) ''stratum+tcp://''
       then None else Some (arg, drop 3 rest)
   | None \<Rightarrow> if arg = [] \<or> hd arg = CHR ''/'' then None else Some (''http://'' @ arg, arg))"

text \<open>and the credentials in it: up to the last \<open>@\<close>, divided at the first colon. They are cut out of the address.\<close>

definition take_credentials :: "'f miner \<Rightarrow> 'f miner option" where
  "take_credentials m = (case split_last (CHR ''@'') (rpc_url m) of
     None \<Rightarrow> Some m
   | Some (front, host) \<Rightarrow> do {
       rest \<leftarrow> find_str ''://'' front;
       let ap = drop 3 rest;
       let m = (case split_first (CHR '':'') ap of
           Some (user, pass) \<Rightarrow> m\<lparr>rpc_user := user, rpc_pass := pass\<rparr>
         | None \<Rightarrow> m\<lparr>rpc_user := ap\<rparr>);
       Some (m\<lparr>rpc_url := before_rest front ap @ host, short_url := host\<rparr>) })"

definition set_url :: "('j, 'f) opt_env \<Rightarrow> string \<Rightarrow> ('j, 'f) opts \<Rightarrow> ('j, 'f) opts parsed option" where
  "set_url e arg ops = do {
     ops \<leftarrow> next_pool ops;
     case full_url arg of
       None \<Rightarrow> show_usage_and_exit 1 ops
     | Some (url, short) \<Rightarrow> do {
         m \<leftarrow> take_credentials ((o_m ops)\<lparr>rpc_url := url, short_url := short\<rparr>);
         with_creds e (m\<lparr>have_stratum := \<not> opt_benchmark m \<and> strcaseeq (take 7 (rpc_url m)) ''stratum''\<rparr>) ops } }"

definition set_userpass :: "('j, 'f) opt_env \<Rightarrow> string \<Rightarrow> ('j, 'f) opts \<Rightarrow> ('j, 'f) opts parsed option" where
  "set_userpass e arg ops = (case split_first (CHR '':'') arg of
     None \<Rightarrow> show_usage_and_exit 1 ops
   | Some (user, pass) \<Rightarrow> with_creds e ((o_m ops)\<lparr>rpc_user := user, rpc_pass := pass\<rparr>) ops)"

text \<open>The constants of libcurl for proxies.\<close>

definition proxy_type :: "string \<Rightarrow> int" where
  "proxy_type arg =
     (if strcaseeq (take 9 arg) ''socks4://'' then 4
      else if strcaseeq (take 9 arg) ''socks5://'' then 5
      else if strcaseeq (take 10 arg) ''socks4a://'' then 6
      else if strcaseeq (take 10 arg) ''socks5h://'' then 7
      else 0)"

text \<open>A value per device from a list with commas; the last one is for the remaining devices.\<close>

fun set_devices :: "nat \<Rightarrow> 'a \<Rightarrow> 'a list \<Rightarrow> 'a list \<Rightarrow> 'a list option" where
  "set_devices n v [] xs = fill n (MAX_GPUS - n) v xs"
| "set_devices n u (v # vs) xs = do { xs \<leftarrow> wr xs n v; set_devices (n + 1) v vs xs }"

definition device_numbers :: "(int \<Rightarrow> int) \<Rightarrow> string \<Rightarrow> int list \<Rightarrow> int list option" where
  "device_numbers h arg = set_devices 0 (atoi arg) (map (\<lambda>t. h (atoi t)) (strtok (CHR '','') arg))"

text \<open>\<open>--devices\<close>: there is one device, number 0; then the threads of each device are counted.\<close>

fun read_devices :: "nat \<Rightarrow> string list \<Rightarrow> int list \<Rightarrow> (nat \<times> int list) parsed option" where
  "read_devices n [] dm = Some (Parsed (n, dm))"
| "read_devices n (t # ts) dm =
     (if n \<ge> MAX_GPUS then Some (Parsed (n, dm))
      else let device = (if t \<noteq> [] \<and> c_isdigit (hd t) \<and> length t \<le> 2 then atoi t else 1)
        in if device < 1 then do { dm \<leftarrow> wr dm n device; read_devices (n + 1) ts dm } else Some (Exits EXIT_CODE_CUDA_NODEVICE))"

fun count_devices :: "nat \<Rightarrow> nat \<Rightarrow> int list \<Rightarrow> int list \<Rightarrow> int list option" where
  "count_devices i 0 dm thr = Some thr"
| "count_devices i (Suc n) dm thr = do {
     device \<leftarrow> rd dm i;
     k \<leftarrow> rd_int thr device;
     thr \<leftarrow> wr thr (nat device) (k + 1);
     count_devices (i + 1) n dm thr }"

definition set_device_map :: "string \<Rightarrow> ('j, 'f) opts \<Rightarrow> ('j, 'f) opts parsed option" where
  "set_device_map arg ops = and_parse (read_devices 0 (strtok (CHR '','') arg) (device_map (o_m ops))) (\<lambda>(n, dm). do {
     thr \<leftarrow> count_devices 0 n dm (replicate MAX_GPUS 0);
     k \<leftarrow> rd thr 0;
     Some (Parsed (ops\<lparr>o_m := (o_m ops)\<lparr>opt_n_threads := int n, device_map := dm\<rparr>, gpu_threads := max (gpu_threads ops) k\<rparr>)) })"

text \<open>A rate with the units \<open>K\<close>, \<open>M\<close> and \<open>G\<close>.\<close>

definition rate_of :: "('j, 'f) opt_env \<Rightarrow> string \<Rightarrow> 'f" where
  "rate_of e arg =
     (let F = oe_F e;
          d = an_atof (oe_A e) arg;
          d = (if strstr arg ''K'' then f_mul F d (f_lit F 1 3) else d);
          d = (if strstr arg ''M'' then f_mul F d (f_lit F 1 6) else d)
      in if strstr arg ''G'' then f_mul F d (f_lit F 1 9) else d)"

text \<open>\<open>1UL << num_cpus\<close> is undefined from 64 on.\<close>

definition set_affinity :: "string \<Rightarrow> ('j, 'f) opts \<Rightarrow> ('j, 'f) opts parsed option" where
  "set_affinity arg ops =
     (let ul = (case find_str ''0x'' arg of Some p \<Rightarrow> hextouint p | None \<Rightarrow> word_of_int (atol arg))
      in if num_cpus ops < 0 \<or> num_cpus ops \<ge> 64 then None
         else Some (Parsed (ops\<lparr>opt_affinity := (if ul > push_bit (nat (num_cpus ops)) 1 - 1 then - 1 else ul)\<rparr>)))"

definition set_difficulty_factor :: "('j, 'f) opt_env \<Rightarrow> bool \<Rightarrow> string \<Rightarrow> ('j, 'f) opts \<Rightarrow> ('j, 'f) opts parsed option" where
  "set_difficulty_factor e mult arg ops =
     (let F = oe_F e; d = an_atof (oe_A e) arg
      in if f_le0 F d then show_usage_and_exit 1 ops
         else Some (Parsed (ops\<lparr>o_m := (o_m ops)\<lparr>opt_difficulty := (if mult then f_div F (f_lit F 1 0) d else d)\<rparr>\<rparr>)))"

section \<open>One option\<close>

text \<open>Keys of the table of options: letters, and numbers for those without one.\<close>

datatype opt_key = Letter char | Number int

definition parse_letter :: "('j, 'f) opt_env \<Rightarrow> char \<Rightarrow> string \<Rightarrow> ('j, 'f) opts \<Rightarrow> ('j, 'f) opts parsed option" where
  "parse_letter e c arg ops =
     (let m = o_m ops in
      if c = CHR ''a'' then set_algo arg ops
      else if c = CHR ''b'' then Some (Parsed (set_api_bind arg ops))
      else if c = CHR ''B'' then Some (Parsed (ops\<lparr>opt_background := True\<rparr>))
      else if c = CHR ''c'' then set_config e arg ops
      else if c = CHR ''k'' then Some (Parsed ops)
      else if c = CHR ''D'' then Some (Parsed (ops\<lparr>o_m := m\<lparr>opt_debug := True\<rparr>\<rparr>))
      else if c = CHR ''N'' then Some (Parsed (ops\<lparr>o_m := m\<lparr>opt_statsavg := atoi arg\<rparr>\<rparr>))
      else if c = CHR ''n'' then leave EXIT_CODE_OK ops
      else if c = CHR ''q'' then Some (Parsed (ops\<lparr>o_m := m\<lparr>opt_quiet := True\<rparr>\<rparr>))
      else if c = CHR ''p'' then with_creds e (m\<lparr>rpc_pass := arg\<rparr>) ops
      else if c = CHR ''P'' then Some (Parsed (ops\<lparr>opt_protocol := True\<rparr>))
      else if c = CHR ''r'' then ranged (- 1) 9999 arg (\<lambda>v. ops\<lparr>o_m := m\<lparr>opt_retries := v\<rparr>\<rparr>) ops
      else if c = CHR ''R'' then ranged 1 9999 arg (\<lambda>v. ops\<lparr>opt_fail_pause := v\<rparr>) ops
      else if c = CHR ''s'' then ranged 1 9999 arg (\<lambda>v. ops\<lparr>o_m := m\<lparr>opt_scantime := v\<rparr>\<rparr>) ops
      else if c = CHR ''T'' then ranged 1 99999 arg (\<lambda>v. ops\<lparr>opt_timeout := v\<rparr>) ops
      else if c = CHR ''t'' then ranged 0 9999 arg (\<lambda>v. ops\<lparr>o_m := m\<lparr>opt_n_threads := v\<rparr>\<rparr>) ops
      else if c = CHR ''u'' then with_creds e (m\<lparr>rpc_user := arg\<rparr>) ops
      else if c = CHR ''o'' then set_url e arg ops
      else if c = CHR ''O'' then set_userpass e arg ops
      else if c = CHR ''x'' then with_creds e m (ops\<lparr>opt_proxy_type := proxy_type arg, opt_proxy := Some arg\<rparr>)
      else if c = CHR ''l'' then do {
        ds \<leftarrow> set_devices 0 None (map Some (strtok (CHR '','') arg)) (device_config ops);
        Some (Parsed (ops\<lparr>device_config := ds\<rparr>)) }
      else if c = CHR ''L'' then do {
        ds \<leftarrow> device_numbers id arg (device_lookup_gap ops); Some (Parsed (ops\<lparr>device_lookup_gap := ds\<rparr>)) }
      else if c = CHR ''S'' then Some (Parsed (ops\<lparr>use_syslog := True, opt_syslog_pfx := (if arg \<noteq> [] then arg else opt_syslog_pfx ops)\<rparr>))
      else if c = CHR ''d'' then set_device_map arg ops
      else if c = CHR ''f'' then set_difficulty_factor e False arg ops
      else if c = CHR ''m'' then set_difficulty_factor e True arg ops
      else if c = CHR ''V'' then leave EXIT_CODE_OK ops
      else if c = CHR ''h'' then show_usage_and_exit 0 ops
      else show_usage_and_exit 1 ops)"

text \<open>Options that set a flag.\<close>

definition set_flag :: "int \<Rightarrow> ('j, 'f) opts \<Rightarrow> ('j, 'f) opts option" where
  "set_flag n ops =
     (let m = o_m ops in
      if n = 1023 then Some (ops\<lparr>opt_trust_pool := True\<rparr>)
      else if n = 1002 then Some (ops\<lparr>use_colors := False\<rparr>)
      else if n = 1004 then Some (ops\<lparr>opt_autotune := False\<rparr>)
      else if n = 1074 then Some (ops\<lparr>opt_keep_clocks := True\<rparr>)
      else if n = 1005 then Some (ops\<lparr>o_m := m\<lparr>opt_benchmark := True, want_longpoll := False, want_stratum := False, have_stratum := False\<rparr>\<rparr>)
      else if n = 1003 then Some (ops\<lparr>o_m := m\<lparr>want_longpoll := False\<rparr>\<rparr>)
      else if n = 1007 then Some (ops\<lparr>o_m := m\<lparr>want_stratum := False\<rparr>, opt_extranonce := False\<rparr>)
      else if n = 1011 then Some (ops\<lparr>o_m := m\<lparr>allow_gbt := False\<rparr>\<rparr>)
      else if n = 1012 then Some (ops\<lparr>opt_extranonce := False\<rparr>)
      else if n = 1013 then Some (ops\<lparr>o_m := m\<lparr>opt_showdiff := True\<rparr>\<rparr>)
      else if n = 1014 then Some (ops\<lparr>o_m := m\<lparr>opt_showdiff := False\<rparr>\<rparr>)
      else if n = 1015 then Some (ops\<lparr>o_m := m\<lparr>opt_submit_stale := True\<rparr>\<rparr>)
      else None)"

text \<open>Options that set an attribute of the current pool.\<close>

definition pool_attrs :: "(int \<times> string) list" where
  "pool_attrs = [(1100, ''name''), (1101, ''algo''), (1102, ''scantime''), (1108, ''time-limit''), (1109, ''shares-limit''),
     (1161, ''max-diff''), (1162, ''max-rate''), (1199, ''disabled'')]"

text \<open>Options that set a number for each device or a limit.\<close>

definition set_value :: "('j, 'f) opt_env \<Rightarrow> int \<Rightarrow> string \<Rightarrow> ('j, 'f) opts \<Rightarrow> ('j, 'f) opts parsed option" where
  "set_value e n arg ops =
     (let m = o_m ops; d = an_atof (oe_A e) arg in
      if n = 1022 then ranged 0 8192 arg (\<lambda>v. ops\<lparr>o_m := m\<lparr>opt_vote := word_of_int v\<rparr>\<rparr>) ops
      else if n = 1001 then Some (Parsed (ops\<lparr>opt_cert := Some arg\<rparr>))
      else if n = 1050 then do {
        ds \<leftarrow> device_numbers id arg (device_interactive ops); Some (Parsed (ops\<lparr>device_interactive := ds\<rparr>)) }
      else if n = 1051 then do {
        ds \<leftarrow> device_numbers id arg (device_texturecache ops); Some (Parsed (ops\<lparr>device_texturecache := ds\<rparr>)) }
      else if n = 1055 then do {
        ds \<leftarrow> device_numbers (min 15) arg (device_bfactor ops); Some (Parsed (ops\<lparr>device_bfactor := ds\<rparr>)) }
      else if n = 1006 then leave EXIT_CODE_OK ops
      else if n = 1008 then Some (Parsed (ops\<lparr>o_m := m\<lparr>opt_time_limit := atoi arg\<rparr>\<rparr>))
      else if n = 1009 then Some (Parsed (ops\<lparr>o_m := m\<lparr>opt_shares_limit := atoi arg\<rparr>\<rparr>))
      else if n = 1018 then Some (Parsed (ops\<lparr>use_syslog := True, opt_syslog_pfx := (if arg \<noteq> [] then arg else opt_syslog_pfx ops)\<rparr>))
      else if n = 1019 then Some (Parsed (ops\<lparr>opt_maxlograte := atoi arg\<rparr>))
      else if n = 1020 then set_affinity arg ops
      else if n = 1021 then ranged 0 5 arg (\<lambda>v. ops\<lparr>opt_priority := v\<rparr>) ops
      else if n = 1025 then Some (Parsed (ops\<lparr>opt_cudaschedule := atoi arg\<rparr>))
      else if n = 1060 then Some (Parsed (ops\<lparr>opt_max_temp := d\<rparr>))
      else if n = 1061 then Some (Parsed (ops\<lparr>o_m := m\<lparr>opt_max_diff := d\<rparr>\<rparr>))
      else if n = 1062 then Some (Parsed (ops\<lparr>o_m := m\<lparr>opt_max_rate := rate_of e arg\<rparr>\<rparr>))
      else if n = 1063 then Some (Parsed (ops\<lparr>o_m := m\<lparr>opt_resume_diff := d\<rparr>\<rparr>))
      else if n = 1064 then Some (Parsed (ops\<lparr>o_m := m\<lparr>opt_resume_rate := rate_of e arg\<rparr>\<rparr>))
      else if n = 1065 then Some (Parsed (ops\<lparr>opt_resume_temp := d\<rparr>))
      else show_usage_and_exit 1 ops)"

definition parse_number :: "('j, 'f) opt_env \<Rightarrow> int \<Rightarrow> string \<Rightarrow> ('j, 'f) opts \<Rightarrow> ('j, 'f) opts parsed option" where
  "parse_number e n arg ops =
     (if n \<in> set [1030..1037] then set_api n arg ops
      else case set_flag n ops of Some ops \<Rightarrow> Some (Parsed ops)
      | None \<Rightarrow> (case map_of pool_attrs n of
          Some attr \<Rightarrow> do { m \<leftarrow> pool_set_attr (oe_A e) (cur_pooln (o_m ops)) attr arg (o_m ops); Some (Parsed (ops\<lparr>o_m := m\<rparr>)) }
        | None \<Rightarrow> set_value e n arg ops))"

definition parse_arg :: "('j, 'f) opt_env \<Rightarrow> opt_key \<Rightarrow> string \<Rightarrow> ('j, 'f) opts \<Rightarrow> ('j, 'f) opts parsed option" where
  "parse_arg e key arg ops = and_parse (case key of Letter c \<Rightarrow> parse_letter e c arg ops | Number n \<Rightarrow> parse_number e n arg ops)
     (\<lambda>ops. Some (Parsed (if use_syslog ops then ops\<lparr>use_colors := False\<rparr> else ops)))"

section \<open>The table of options and configuration files\<close>

text \<open>Name, whether an argument follows, key.\<close>

definition options :: "(string \<times> bool \<times> opt_key) list" where
  "options = [
     (''algo'', True, Letter (CHR ''a'')), (''api-bind'', True, Letter (CHR ''b'')), (''api-remote'', False, Number 1030),
     (''api-allow'', True, Number 1031), (''api-groups'', True, Number 1032), (''api-mcast'', False, Number 1033),
     (''api-mcast-addr'', True, Number 1034), (''api-mcast-code'', True, Number 1035), (''api-mcast-port'', True, Number 1036),
     (''api-mcast-des'', True, Number 1037), (''background'', False, Letter (CHR ''B'')), (''benchmark'', False, Number 1005),
     (''cert'', True, Number 1001), (''config'', True, Letter (CHR ''c'')), (''cputest'', False, Number 1006),
     (''cpu-affinity'', True, Number 1020), (''cpu-priority'', True, Number 1021), (''cuda-schedule'', True, Number 1025),
     (''debug'', False, Letter (CHR ''D'')), (''help'', False, Letter (CHR ''h'')), (''intensity'', True, Letter (CHR ''i'')),
     (''ndevs'', False, Letter (CHR ''n'')), (''no-color'', False, Number 1002), (''no-extranonce'', False, Number 1012),
     (''no-gbt'', False, Number 1011), (''no-longpoll'', False, Number 1003), (''no-stratum'', False, Number 1007),
     (''no-autotune'', False, Number 1004), (''interactive'', True, Number 1050), (''lookup-gap'', True, Letter (CHR ''L'')),
     (''texture-cache'', True, Number 1051), (''launch-config'', True, Letter (CHR ''l'')), (''scratchpad'', True, Letter (CHR ''k'')),
     (''bfactor'', True, Number 1055), (''max-temp'', True, Number 1060), (''max-diff'', True, Number 1061),
     (''max-rate'', True, Number 1062), (''resume-diff'', True, Number 1063), (''resume-rate'', True, Number 1064),
     (''resume-temp'', True, Number 1065), (''pass'', True, Letter (CHR ''p'')), (''pool-name'', True, Number 1100),
     (''pool-algo'', True, Number 1101), (''pool-scantime'', True, Number 1102), (''pool-shares-limit'', True, Number 1109),
     (''pool-time-limit'', True, Number 1108), (''pool-max-diff'', True, Number 1161), (''pool-max-rate'', True, Number 1162),
     (''pool-disabled'', True, Number 1199), (''protocol-dump'', False, Letter (CHR ''P'')), (''proxy'', True, Letter (CHR ''x'')),
     (''quiet'', False, Letter (CHR ''q'')), (''retries'', True, Letter (CHR ''r'')), (''retry-pause'', True, Letter (CHR ''R'')),
     (''scantime'', True, Letter (CHR ''s'')), (''show-diff'', False, Number 1013), (''submit-stale'', False, Number 1015),
     (''hide-diff'', False, Number 1014), (''statsavg'', True, Letter (CHR ''N'')), (''gpu-clock'', True, Number 1070),
     (''mem-clock'', True, Number 1071), (''pstate'', True, Number 1072), (''plimit'', True, Number 1073),
     (''keep-clocks'', False, Number 1074), (''tlimit'', True, Number 1075), (''led'', True, Number 1080),
     (''max-log-rate'', True, Number 1019), (''syslog'', False, Letter (CHR ''S'')), (''syslog-prefix'', True, Number 1018),
     (''shares-limit'', True, Number 1009), (''time-limit'', True, Number 1008), (''threads'', True, Letter (CHR ''t'')),
     (''vote'', True, Number 1022), (''trust-pool'', False, Number 1023), (''timeout'', True, Letter (CHR ''T'')),
     (''url'', True, Letter (CHR ''o'')), (''user'', True, Letter (CHR ''u'')), (''userpass'', True, Letter (CHR ''O'')),
     (''version'', False, Letter (CHR ''V'')), (''devices'', True, Letter (CHR ''d'')),
     (''diff-multiplier'', True, Letter (CHR ''m'')), (''diff-factor'', True, Letter (CHR ''f'')), (''diff'', True, Letter (CHR ''f''))]"

text \<open>A member of the configuration that has the name of an option.\<close>

definition config_option :: "('j, 'f) opt_env \<Rightarrow> 'j option \<Rightarrow> string \<times> bool \<times> opt_key \<Rightarrow> ('j, 'f) opts \<Rightarrow> ('j, 'f) opts parsed option" where
  "config_option e obj opt ops =
     (let J = oe_J e; (name, has_arg, key) = opt; val = json_object_get J obj name in
      if strcaseeq name ''config'' \<or> val = None then Some (Parsed ops)
      else case json_string_value J val of
        Some s \<Rightarrow> if has_arg then parse_arg e key s ops else Some (Parsed ops)
      | None \<Rightarrow>
          if has_arg \<and> json_is_integer J val then do { buf \<leftarrow> print_into 16 (dec_int (int32 (json_integer_value J val))); parse_arg e key buf ops }
          else if has_arg \<and> json_is_real J val then do { buf \<leftarrow> print_into 16 (oe_fmt e (json_real_value J val)); parse_arg e key buf ops }
          else if \<not> has_arg \<and> json_is_true J val then parse_arg e key [] ops
          else Some (Parsed ops))"

fun config_loop :: "('j, 'f) opt_env \<Rightarrow> 'j option \<Rightarrow> (string \<times> bool \<times> opt_key) list \<Rightarrow> ('j, 'f) opts \<Rightarrow> ('j, 'f) opts parsed option" where
  "config_loop e obj [] ops = Some (Parsed ops)"
| "config_loop e obj (x # xs) ops = and_parse (config_option e obj x ops) (config_loop e obj xs)"

text \<open>The keys of a pool in the array \<open>pools\<close>, with the names of the options they stand for.\<close>

definition cfg_array_keys :: "(string \<times> string option) list" where
  "cfg_array_keys = [(''url'', None), (''user'', None), (''pass'', None), (''userpass'', None), (''name'', Some ''pool-name''),
     (''algo'', Some ''pool-algo''), (''scantime'', Some ''pool-scantime''), (''max-diff'', Some ''pool-max-diff''),
     (''max-rate'', Some ''pool-max-rate''), (''disabled'', Some ''pool-disabled''), (''time-limit'', Some ''pool-time-limit'')]"

definition pool_option :: "('j, 'f) opt_env \<Rightarrow> 'j option \<Rightarrow> string \<times> string option \<Rightarrow> ('j, 'f) opts \<Rightarrow> ('j, 'f) opts parsed option" where
  "pool_option e p key ops =
     (let J = oe_J e; F = oe_F e; val = json_object_get J p (fst key);
          wanted = (case snd key of Some alias \<Rightarrow> alias | None \<Rightarrow> fst key)
      in if val = None then Some (Parsed ops)
         else case find (\<lambda>(name, _). strcaseeq name wanted) options of
           None \<Rightarrow> Some (Parsed ops)
         | Some (_, _, k) \<Rightarrow> (case json_string_value J val of
             Some s \<Rightarrow> parse_arg e k s ops
           | None \<Rightarrow>
               let d = (if json_is_true J val then f_lit F 1 0
                  else if json_is_integer J val then f_mul F (f_lit F 1 0) (f_of_int F (json_integer_value J val))
                  else if json_is_real J val then json_real_value J val
                  else f_lit F 0 0)
               in parse_arg e k (fit 31 (oe_fmt e d)) ops))"

fun pool_options :: "('j, 'f) opt_env \<Rightarrow> 'j option \<Rightarrow> (string \<times> string option) list \<Rightarrow> ('j, 'f) opts \<Rightarrow> ('j, 'f) opts parsed option" where
  "pool_options e p [] ops = Some (Parsed ops)"
| "pool_options e p (x # xs) ops = and_parse (pool_option e p x ops) (pool_options e p xs)"

fun pool_array :: "('j, 'f) opt_env \<Rightarrow> 'j option \<Rightarrow> nat \<Rightarrow> nat \<Rightarrow> ('j, 'f) opts \<Rightarrow> ('j, 'f) opts parsed option" where
  "pool_array e obj i 0 ops = Some (Parsed ops)"
| "pool_array e obj i (Suc n) ops =
     (let p = json_array_get (oe_J e) obj i
      in and_parse (if json_is_object (oe_J e) p then pool_options e p cfg_array_keys ops else Some (Parsed ops)) (pool_array e obj (i + 1) n))"

definition parse_pool_array :: "('j, 'f) opt_env \<Rightarrow> 'j option \<Rightarrow> ('j, 'f) opts \<Rightarrow> ('j, 'f) opts parsed option" where
  "parse_pool_array e obj ops =
     (if \<not> json_is_array (oe_J e) obj then Some (Parsed ops) else pool_array e obj 0 (json_array_size (oe_J e) obj) ops)"

definition parse_config :: "('j, 'f) opt_env \<Rightarrow> 'j option \<Rightarrow> ('j, 'f) opts \<Rightarrow> ('j, 'f) opts parsed option" where
  "parse_config e obj ops =
     (if \<not> json_is_object (oe_J e) obj then Some (Parsed ops)
      else and_parse (config_loop e obj options ops) (\<lambda>ops.
        let val = json_object_get (oe_J e) obj ''pools''
        in if val \<noteq> None \<and> json_is_array (oe_J e) val then parse_pool_array e val ops else Some (Parsed ops)))"

section \<open>The command line and the start\<close>

fun parse_args :: "('j, 'f) opt_env \<Rightarrow> (opt_key \<times> string) list \<Rightarrow> ('j, 'f) opts \<Rightarrow> ('j, 'f) opts parsed option" where
  "parse_args e [] ops = Some (Parsed ops)"
| "parse_args e ((key, arg) # args) ops = and_parse (parse_arg e key arg ops) (parse_args e args)"

definition parse_cmdline :: "('j, 'f) opt_env \<Rightarrow> (opt_key \<times> string) list \<Rightarrow> ('j, 'f) opts \<Rightarrow> ('j, 'f) opts parsed option" where
  "parse_cmdline e args ops =
     and_parse (parse_args e args ops) (\<lambda>ops.
     and_parse (parse_config e (opt_config ops) ops) (\<lambda>ops.
       let m = o_m ops in
       if opt_algo m = ALGO_HEAVY \<and> opt_vote m = 9999 \<and> \<not> opt_benchmark m then show_usage_and_exit 1 ops
       else Some (Parsed (if opt_vote m = 9999 then ops\<lparr>o_m := m\<lparr>opt_vote := 0\<rparr>\<rparr> else ops))))"

text \<open>The command line, else the default configuration file; a second pass over the command line finds no options
  left. A pool is set up even without an address, for the benchmark.\<close>

definition find_pools :: "('j, 'f) opt_env \<Rightarrow> (opt_key \<times> string) list \<Rightarrow> ('j, 'f) opts \<Rightarrow> ('j, 'f) opts parsed option" where
  "find_pools e args ops =
     and_parse (parse_cmdline e args ops) (\<lambda>ops.
     and_parse (if \<not> opt_benchmark (o_m ops) \<and> rpc_url (o_m ops) = [] \<and> oe_defconfig e \<noteq> []
                then and_parse (parse_arg e (Letter (CHR ''c'')) (oe_defconfig e) ops) (parse_cmdline e [])
                else Some (Parsed ops)) (\<lambda>ops.
       if rpc_url (o_m ops) \<noteq> [] then Some (Parsed ops)
       else if \<not> opt_benchmark (o_m ops) then show_usage_and_exit 1 ops
       else do { m \<leftarrow> pool_set_creds (oe_A e) 0 (o_m ops); Some (Parsed (ops\<lparr>o_m := m\<rparr>)) }))"

text \<open>\<open>memset(&stratum.url, 0, sizeof(stratum))\<close>\<close>

definition zero_ctx :: "'f fops \<Rightarrow> 'f stratum_ctx" where
  "zero_ctx F = (let z = f_lit F 0 0 in
     \<lparr>ctx_url = None, ctx_curl = False, ctx_curl_url = [], ctx_sockbuf = [], ctx_next_diff = z, ctx_sharediff = z, ctx_session_id = None,
      ctx_xnonce1_size = 0, ctx_xnonce1 = None, ctx_xnonce2_size = 0, ctx_job = zero_job F, ctx_tv_submit = (0, 0), ctx_answer_msec = 0,
      ctx_pooln = 0, ctx_tm_connected = 0, ctx_rpc2 = False, ctx_is_equihash = False, ctx_srvtime_diff = 0\<rparr>)"

text \<open>The first usable pool becomes the current one.\<close>

definition choose_pool :: "('j, 'f) opt_env \<Rightarrow> ('j, 'f) opts \<Rightarrow> ('j, 'f) opts option" where
  "choose_pool e ops = do {
     m \<leftarrow> pool_init_defaults (oe_A e) ((o_m ops)\<lparr>stratum := zero_ctx (oe_F e)\<rparr>);
     c \<leftarrow> pool_get_first_valid 0 m;
     (_, m) \<leftarrow> pool_switch (oe_A e) c (m\<lparr>cur_pooln := c\<rparr>);
     let m = (if opt_algo m = ALGO_DECRED \<or> opt_algo m = ALGO_SIA then m\<lparr>allow_gbt := False, allow_mininginfo := False\<rparr> else m);
     Some (ops\<lparr>o_m := m, opt_extranonce := opt_extranonce ops \<and> opt_algo m \<noteq> ALGO_EQUIHASH\<rparr>) }"

text \<open>The number of threads, what is allocated for them, and the address for the stratum thread.\<close>

definition start_threads :: "('j, 'f) opt_env \<Rightarrow> ('j, 'f) opts \<Rightarrow> ('j, 'f) opts parsed option" where
  "start_threads e ops =
     (let m = o_m ops;
          n = (if opt_n_threads m = 0 then active_gpus ops else opt_n_threads m);
          g = (if opt_n_threads m \<noteq> 0 \<and> active_gpus ops > opt_n_threads m then opt_n_threads m else active_gpus ops)
      in if \<not> oe_start e then Some (Exits EXIT_CODE_SW_INIT_ERROR)
         else if active_gpus ops = 0 then Some (Exits 1)
         else Some (Parsed (ops\<lparr>active_gpus := g, gpu_threads := max (gpu_threads ops) (n sdiv g),
           o_m := m\<lparr>opt_n_threads := n, work_restart := Some (replicate (nat n) False), cgpu_accepted := replicate (nat n + 5) 0,
             stratum_q := (if want_stratum m \<and> have_stratum m then stratum_q m @ [rpc_url m] else stratum_q m)\<rparr>\<rparr>)))"

definition start :: "('j, 'f) opt_env \<Rightarrow> (opt_key \<times> string) list \<Rightarrow> ('j, 'f) opts \<Rightarrow> ('j, 'f) opts parsed option" where
  "start e args ops = and_parse (find_pools e args ops) (\<lambda>ops. do { ops \<leftarrow> choose_pool e ops; start_threads e ops })"

text \<open>The pool of the deprecated API command.\<close>

definition pool_switch_url :: "('j, 'f) opt_env \<Rightarrow> string \<Rightarrow> ('j, 'f) opts \<Rightarrow> (bool \<times> ('j, 'f) opts) parsed option" where
  "pool_switch_url e params ops =
     (let prevn = cur_pooln (o_m ops) in
      and_parse (parse_arg e (Letter (CHR ''o'')) params ops) (\<lambda>ops.
        let nextn = cur_pooln (o_m ops); m = (o_m ops)\<lparr>cur_pooln := prevn\<rparr>
        in if nextn = prevn then Some (Parsed (False, ops\<lparr>o_m := m\<rparr>))
           else do { (ok, m) \<leftarrow> pool_switch (oe_A e) nextn m; Some (Parsed (ok, ops\<lparr>o_m := m\<rparr>)) }))"

section \<open>The initial state\<close>

text \<open>The initialisers of the globals and what \<open>main\<close> sets before it reads the options, on a machine with \<open>cpus\<close> processors.
  Where \<open>short_url\<close> is still null, \<open>"%s"\<close> prints \<open>(null)\<close>.\<close>

definition unused_pool :: "'f fops \<Rightarrow> 'f pool_infos" where
  "unused_pool F = (let z = f_lit F 0 0 in
     \<lparr>pool_id = 0, pool_type = POOL_UNUSED, pool_status = 0, pool_algo = 0, pool_name = [], pool_url = [], pool_short_url = [],
      pool_user = [], pool_pass = [], pool_max_diff = z, pool_max_rate = z, pool_shares_limit = 0, pool_time_limit = 0,
      pool_scantime = 0, pool_stratum = zero_ctx F, pool_allow_gbt = 0, pool_allow_mininginfo = 0, pool_check_dups = 0,
      pool_retries = 0, pool_fail_pause = 0, pool_timeout = 0, pool_work_time = 0, pool_wait_time = 0, pool_accepted_count = 0,
      pool_rejected_count = 0, pool_solved_count = 0, pool_stales_count = 0, pool_last_share_time = 0, pool_best_share = z,
      pool_disconnects = 0\<rparr>)"

definition boot_globals :: "'f fops \<Rightarrow> 'f miner" where
  "boot_globals F = (let z = f_lit F 0 0; unset = f_lit F (- 1) 0 in
     \<lparr>pools = replicate MAX_POOLS (unused_pool F), num_pools = 1, cur_pooln = 0, allow_gbt = True, allow_mininginfo = True,
      check_dups = False, rpc_url = [], rpc_user = [], rpc_pass = [], short_url = ''(null)'', opt_algo = ALGO_AUTO,
      opt_max_diff = unset, opt_max_rate = unset, opt_scantime = 10, opt_shares_limit = - 1, opt_time_limit = - 1,
      want_stratum = True, have_stratum = False, want_longpoll = False, have_longpoll = False, opt_stratum_stats = False,
      opt_benchmark = False, opt_n_threads = 0, thr_hashrates = replicate MAX_GPUS z, conditional_state = replicate MAX_GPUS False,
      work_restart = None, scans = \<lparr>tlastscans = [], st_uid = 0\<rparr>, shares = [], stratum = zero_ctx F, stratum_q = [], longpoll_q = [],
      workio_q = [], pool_switch_count = 0, pool_is_switching = False, stratum_need_reset = False, net_diff = z,
      g_work = zero_work z, g_work_time = 0, firstwork_time = 0, opt_quiet = False, opt_showdiff = True, opt_submit_stale = False,
      submit_old = False, check_stratum_jobs = False, use_roots = False, opt_vote = 9999, opt_statsavg = 30, opt_retries = - 1,
      global_hashrate = 0, sent_lines = [], opt_resume_diff = z, opt_resume_rate = unset, opt_difficulty = f_lit F 1 0,
      stratum_diff = z, net_hashrate = 0, net_blocks = 0, use_pok = False, opt_debug = False, opt_pool_failover = True,
      conditional_pool_rotate = False, pool_on_hold = False, abort_flag = False, app_exit_code = EXIT_CODE_OK,
      device_map = replicate MAX_GPUS 0, cgpu_accepted = [], thr_q = [],
      benchmark = \<lparr>benchmark_ready = 0, benchmark_go = False, benchmark_stopping = False, benchmark_arrived = replicate MAX_GPUS False,
        benchmark_started_at = z, benchmark_ended_at = replicate MAX_GPUS z, benchmark_hashes = replicate MAX_GPUS 0\<rparr>\<rparr>)"

definition boot :: "'f fops \<Rightarrow> int \<Rightarrow> ('j, 'f) opts" where
  "boot F cpus = (let z = f_lit F 0 0 in
     \<lparr>o_m = boot_globals F, opt_nfactor = 0, jane_params = [], cryptonight_fork = 1, opt_api_bind = ''127.0.0.1'', opt_api_port = 4068,
      opt_api_allow = None, opt_api_groups = None, opt_api_mcast = False, opt_api_mcast_addr = ''224.0.0.75'',
      opt_api_mcast_code = ''FTW'', opt_api_mcast_des = [], opt_api_mcast_port = 4068, opt_background = False, opt_config = None,
      opt_protocol = False, opt_fail_pause = 30, opt_timeout = 300, opt_trust_pool = False, opt_proxy = None, opt_proxy_type = 0,
      opt_cert = None, use_colors = True, opt_autotune = True, device_config = replicate MAX_GPUS None,
      device_lookup_gap = replicate MAX_GPUS 1, device_interactive = replicate MAX_GPUS (- 1),
      device_texturecache = replicate MAX_GPUS (- 1), device_bfactor = replicate MAX_GPUS 0, opt_keep_clocks = False,
      opt_extranonce = True, use_syslog = False, opt_syslog_pfx = ''ccminer'', opt_maxlograte = 3, opt_affinity = - 1,
      opt_priority = 0, opt_cudaschedule = - 1, opt_max_temp = z, opt_resume_temp = z, gpu_threads = 1,
      num_cpus = (if cpus < 1 then 1 else cpus), active_gpus = 1\<rparr>)"

end
