(* ===== verification/Netsound.thy ===== *)
theory Netsound
  imports Netthreads
begin

text \<open>The network threads of \<open>Netthreads\<close> keep the invariant on which the mining threads of \<open>Minesound\<close> rest, as long as the pool follows
  the protocol; \<open>Apisafe\<close> puts the two together.\<close>

section \<open>Messages of a Verus pool\<close>

text \<open>What is asked of the pool: its jobs have the format of Verus (the fifth parameter is not a Merkle branch), it does not
  change the extranonce of a session, and the extranonce it assigns is shorter than the 32 bytes of the nonce. The other conditions are on
  the program: the algorithm, its own name, and memory.\<close>

definition verus_pool :: "('j, 'f) senv \<Rightarrow> bool" where
  "verus_pool E \<longleftrightarrow> sv_algo E = ''verus'' \<and> length (sv_agent E) < 64 \<and> sv_alloc E \<and>
     (\<forall>s val. json_loads (sv_J E) s = Some val \<longrightarrow>
        (\<forall>mth. json_string_value (sv_J E) (json_object_get (sv_J E) (Some val) ''method'') = Some mth \<longrightarrow>
           \<not> strcaseeq mth ''mining.set_extranonce'' \<and>
           (strcaseeq mth ''mining.notify'' \<longrightarrow>
              \<not> json_is_array (sv_J E) (json_array_get (sv_J E) (json_object_get (sv_J E) (Some val) ''params'') 4))) \<and>
        (\<forall>t. json_string_value (sv_J E) (json_array_get (sv_J E) (json_object_get (sv_J E) (Some val) ''result'') 1) = Some t \<longrightarrow> length t < 64))"

text \<open>The fields of a context that \<open>gen_ready\<close> looks at beside the job.\<close>

definition same_link :: "'f stratum_ctx \<Rightarrow> 'f stratum_ctx \<Rightarrow> bool" where
  "same_link c d \<longleftrightarrow> ctx_curl d = ctx_curl c \<and> ctx_rpc2 d = ctx_rpc2 c \<and> ctx_xnonce1 d = ctx_xnonce1 c \<and>
     ctx_xnonce1_size d = ctx_xnonce1_size c \<and> ctx_xnonce2_size d = ctx_xnonce2_size c"

definition same_coinbase :: "'f stratum_ctx \<Rightarrow> 'f stratum_ctx \<Rightarrow> bool" where
  "same_coinbase c d \<longleftrightarrow> job_job_id (ctx_job d) = job_job_id (ctx_job c) \<and> job_coinbase (ctx_job d) = job_coinbase (ctx_job c) \<and>
     job_xnonce2 (ctx_job d) = job_xnonce2 (ctx_job c)"

lemma gen_ready_same: "gen_ready c \<Longrightarrow> same_link c d \<Longrightarrow> same_coinbase c d \<Longrightarrow> wf_ctx d \<Longrightarrow> gen_ready d"
  by (simp add: gen_ready_def job_ready_def same_link_def same_coinbase_def)

lemma gen_ready_wf: "gen_ready c \<Longrightarrow> wf_ctx c"
  by (simp add: gen_ready_def)

lemma ensures_both: "ensures x P \<Longrightarrow> ensures x Q \<Longrightarrow> ensures x (\<lambda>r. P r \<and> Q r)"
  by (simp add: ensures_def)

lemma link_store_srvtime [simp]: "ctx_curl (store_srvtime t c) = ctx_curl c" "ctx_rpc2 (store_srvtime t c) = ctx_rpc2 c"
  by (simp_all add: store_srvtime_def)

lemma verus_notify_fields:
  "ensures (verus_stratum_notify E p c) (\<lambda>(r, d). same_link c d \<and> (if r
     then job_coinbase_size (ctx_job d) = 64 + ctx_xnonce1_size c + ctx_xnonce2_size c \<and> job_xnonce2 (ctx_job d) = 64 + ctx_xnonce1_size c
     else d = c))"
  unfolding verus_stratum_notify_def
  by (intro ens ensures_var; simp add: same_link_def upd_job_def)

lemma verus_notify_ready:
  assumes "gen_ready c" "ctx_curl c"
  shows "ensures (verus_stratum_notify E p c) (\<lambda>(r, d). gen_ready d)"
proof (rule ensures_var)
  fix rd assume n: "verus_stratum_notify E p c = Some rd"
  obtain r d where rd: "rd = (r, d)" by fastforce
  have wf: "wf_ctx d" using ensuresD [OF verus_notify_wf [OF gen_ready_wf [OF assms(1)]] n] rd by simp
  have f: "same_link c d" "r \<Longrightarrow> job_coinbase_size (ctx_job d) = 64 + ctx_xnonce1_size c + ctx_xnonce2_size c"
    "r \<Longrightarrow> job_xnonce2 (ctx_job d) = 64 + ctx_xnonce1_size c" "\<not> r \<Longrightarrow> d = c"
    using ensuresD [OF verus_notify_fields n] rd by simp_all
  obtain x where x: "ctx_xnonce1 c = Some x" "length x < 32" "ctx_xnonce2_size c \<le> 32"
    using assms by (auto simp: gen_ready_def)
  have "job_ready d" if r: r and j: "job_job_id (ctx_job d) \<noteq> None"
  proof -
    obtain cb where cb: "job_coinbase (ctx_job d) = Some cb" "length cb = 64 + ctx_xnonce1_size c + ctx_xnonce2_size c"
      using wf j f(2) [OF r] by (auto simp: wf_ctx_def wf_job_def)
    have "cb = take 64 cb @ take (ctx_xnonce1_size c) (drop 64 cb) @ drop (64 + ctx_xnonce1_size c) cb"
      by (metis append_take_drop_id drop_drop add.commute)
    with cb(1) have "job_coinbase (ctx_job d) = Some (take 64 cb @ take (ctx_xnonce1_size c) (drop 64 cb) @ drop (64 + ctx_xnonce1_size c) cb)"
      by metis
    moreover have "ctx_xnonce1 d = Some x" "ctx_xnonce2_size d = ctx_xnonce2_size c" using x(1) f(1) by (simp_all add: same_link_def)
    moreover have "length (take 64 cb) = 64" "job_xnonce2 (ctx_job d) = 64 + length (take (ctx_xnonce1_size c) (drop 64 cb))"
      "length (drop (64 + ctx_xnonce1_size c) cb) = ctx_xnonce2_size d"
      using cb(2) f(1) f(3) [OF r] by (simp_all add: same_link_def)
    ultimately show ?thesis unfolding job_ready_def using x(2,3) by (metis (no_types))
  qed
  then show "case rd of (r, d) \<Rightarrow> gen_ready d"
    using assms wf f rd by (cases r) (simp_all add: gen_ready_def same_link_def)
qed

lemma notify_ready:
  assumes "gen_ready c" "ctx_curl c" "sv_algo E = ''verus''" "\<not> json_is_array (sv_J E) (json_array_get (sv_J E) p 4)"
  shows "ensures (stratum_notify E p c) (\<lambda>(r, d). gen_ready d)"
proof (cases "ctx_is_equihash c")
  case True
  then show ?thesis using verus_notify_ready [OF assms(1,2)] by (simp add: stratum_notify_def)
next
  case False
  then show ?thesis using assms(1,3,4) by (simp add: stratum_notify_def Let_def ensures_def)
qed

lemma set_target_ready:
  assumes "gen_ready c"
  shows "ensures (verus_stratum_set_target E p (c\<lparr>ctx_is_equihash := b\<rparr>)) (\<lambda>(r, d). gen_ready d)"
proof -
  have "ensures (verus_stratum_set_target E p (c\<lparr>ctx_is_equihash := b\<rparr>)) (\<lambda>(r, d). same_link c d \<and> same_coinbase c d)"
    unfolding verus_stratum_set_target_def
    by (intro ens ensures_var; simp add: same_link_def same_coinbase_def upd_job_def)
  moreover have "ensures (verus_stratum_set_target E p (c\<lparr>ctx_is_equihash := b\<rparr>)) (\<lambda>(r, d). wf_ctx d)"
    by (rule set_target_wf) (simp add: gen_ready_wf [OF assms])
  ultimately show ?thesis using gen_ready_same [OF assms] by (fastforce simp: ensures_def)
qed

lemma set_difficulty_ready: "gen_ready c \<Longrightarrow> gen_ready (snd (stratum_set_difficulty E p c))"
  by (simp add: stratum_set_difficulty_def Let_def gen_ready_def job_ready_def wf_ctx_def)

text \<open>Closing a connection makes every context ready that is well formed, however far the session had come.\<close>

lemma disconnect_ready:
  assumes "wf_ctx (cn_ctx c)" "\<not> ctx_rpc2 (cn_ctx c)"
  shows "ensures (stratum_disconnect E c) (\<lambda>d. gen_ready (cn_ctx d) \<and> length (cn_disconnects d) = length (cn_disconnects c))"
proof -
  have "ensures (stratum_disconnect E c) (\<lambda>d. \<not> ctx_rpc2 (cn_ctx d) \<and> \<not> ctx_curl (cn_ctx d) \<and> job_job_id (ctx_job (cn_ctx d)) = None \<and>
      length (cn_disconnects d) = length (cn_disconnects c))"
    unfolding stratum_disconnect_def
    by (intro ens ensures_var) (use assms in \<open>auto simp: upd_ctx_def stratum_free_job_def zero_job_def bind_eq_Some_conv split: if_splits\<close>)
  then show ?thesis using disconnect_wf [OF assms(1), of E] by (auto simp: ensures_def gen_ready_def)
qed

text \<open>A connection whose context is ready, with as many counters as there are pools.\<close>

definition link_ok :: "nat \<Rightarrow> 'f conn \<Rightarrow> bool" where
  "link_ok n c \<longleftrightarrow> gen_ready (cn_ctx c) \<and> length (cn_disconnects c) = n"

lemma link_ok_sent:
  "cn_disconnects (snd (stratum_send_line E s c)) = cn_disconnects c" "cn_disconnects (snd (reply E kvs c)) = cn_disconnects c"
  "cn_disconnects (snd (ack E mid c)) = cn_disconnects c" "cn_disconnects (snd (stratum_pong E mid c)) = cn_disconnects c"
  "cn_disconnects (snd (stratum_get_algo E mid c)) = cn_disconnects c" "cn_disconnects (snd (stratum_get_version E mid c)) = cn_disconnects c"
  "cn_disconnects (snd (stratum_unknown_method E mid c)) = cn_disconnects c"
  by (simp_all add: stratum_send_line_def reply_def ack_def stratum_pong_def stratum_get_algo_def stratum_get_version_def
      stratum_unknown_method_def split: option.splits)

lemma on_ctx_ready:
  "link_ok n c \<Longrightarrow> ensures (h (cn_ctx c)) (\<lambda>(r, d). gen_ready d) \<Longrightarrow> ensures (on_ctx h c) (\<lambda>(r, d). link_ok n d)"
  unfolding on_ctx_def by (auto simp: ensures_def bind_eq_Some_conv link_ok_def)

lemma reconnect_ready: "link_ok n c \<Longrightarrow> ensures (stratum_reconnect E p c) (\<lambda>(r, d). link_ok n d)"
proof -
  assume c: "link_ok n c"
  have "ensures (stratum_disconnect E (upd_ctx (ctx_url_update (\<lambda>_. u)) c)) (link_ok n)" for u
  proof -
    let ?c = "upd_ctx (ctx_url_update (\<lambda>_. u)) c"
    have "wf_ctx (cn_ctx ?c)" "\<not> ctx_rpc2 (cn_ctx ?c)" "length (cn_disconnects ?c) = n"
      using c by (simp_all add: link_ok_def gen_ready_def upd_ctx_def wf_ctx_def)
    then show ?thesis by (intro ensures_mono [OF disconnect_ready]) (simp_all add: link_ok_def)
  qed
  then show ?thesis
    unfolding stratum_reconnect_def Let_def
    by (intro ensures_bind ensures_var) (use c in \<open>auto simp: ensures_def bind_eq_Some_conv split: option.splits if_splits\<close>)
qed

lemma show_message_ready: "link_ok n c \<Longrightarrow> ensures (stratum_show_message E mid p c) (\<lambda>(r, d). link_ok n d)"
proof -
  assume c: "link_ok n c"
  have a: "link_ok n d \<Longrightarrow> link_ok n (snd (ack E mid d))" for d by (simp add: link_ok_def link_ok_sent)
  have h: "link_ok n (upd_ctx (upd_job (job_height_update (\<lambda>_. k))) c)" for k
    using c by (simp add: link_ok_def upd_ctx_def upd_job_def gen_ready_def job_ready_def wf_ctx_def wf_job_def)
  show ?thesis
    unfolding stratum_show_message_def verus_stratum_show_message_def
    by (intro ens ensures_var) (use c a h in \<open>auto simp: split_beta\<close>)
qed

lemma handle_method_ready:
  assumes "verus_pool E" "link_ok n c" "ctx_curl (cn_ctx c)"
  shows "ensures (stratum_handle_method E st s c) (\<lambda>(r, d). link_ok n d)"
proof (cases "json_loads (sv_J E) s")
  case (Some val)
  let ?p = "json_object_get (sv_J E) (Some val) ''params''"
  have plain: "ensures (Some p) (\<lambda>(r, d). link_ok n d)" if "cn_ctx (snd p) = cn_ctx c" "cn_disconnects (snd p) = cn_disconnects c" for p
    using that assms(2) by (cases p) (simp add: ensures_def link_ok_def)
  have ready: "gen_ready (cn_ctx c)" using assms(2) by (simp add: link_ok_def)
  have mth: "\<not> strcaseeq mth ''mining.set_extranonce''"
      "strcaseeq mth ''mining.notify'' \<Longrightarrow> \<not> json_is_array (sv_J E) (json_array_get (sv_J E) ?p 4)"
    if "json_string_value (sv_J E) (json_object_get (sv_J E) (Some val) ''method'') = Some mth" for mth
    using assms(1) Some that by (auto simp: verus_pool_def)
  have "ensures (do { (r, c) \<leftarrow> on_ctx (stratum_notify E ?p) c; Some (r, c\<lparr>cn_restart := True\<rparr>) }) (\<lambda>(r, d). link_ok n d)"
    if "\<not> json_is_array (sv_J E) (json_array_get (sv_J E) ?p 4)"
    using on_ctx_ready [where h = "stratum_notify E ?p", OF assms(2)] notify_ready [OF ready assms(3) _ that] assms(1)
    by (fastforce simp: verus_pool_def ensures_def bind_eq_Some_conv link_ok_def)
  moreover have "ensures (Some (stratum_set_difficulty E ?p (cn_ctx c))) (\<lambda>(r, d). gen_ready d)"
    using set_difficulty_ready [OF ready] by (auto simp: ensures_def split_beta)
  moreover have "ensures (stratum_get_stats E st mid c) (\<lambda>(r, d). link_ok n d)" for mid
    unfolding stratum_get_stats_def by (intro ensures_if ensures_None plain) (simp_all add: link_ok_sent)
  ultimately show ?thesis
    unfolding stratum_handle_method_def Let_def Some option.case
    by (intro ensures_case_option ensures_if plain on_ctx_ready [OF assms(2)] set_target_ready [OF ready]
        reconnect_ready show_message_ready assms) (simp_all add: mth link_ok_sent)
qed (use assms(2) in \<open>simp add: stratum_handle_method_def ensures_def\<close>)

section \<open>Opening a session\<close>

lemma connect_link:
  "ensures (stratum_connect k url c) (\<lambda>(ok, d). cn_disconnects d = cn_disconnects c \<and> ctx_job (cn_ctx d) = ctx_job (cn_ctx c) \<and>
     ctx_rpc2 (cn_ctx d) = ctx_rpc2 (cn_ctx c) \<and> ctx_xnonce1 (cn_ctx d) = ctx_xnonce1 (cn_ctx c) \<and>
     ctx_xnonce1_size (cn_ctx d) = ctx_xnonce1_size (cn_ctx c) \<and> (ok \<longrightarrow> ctx_curl (cn_ctx d)))"
  unfolding stratum_connect_def Let_def
  by (auto simp: ensures_def bind_eq_Some_conv upd_ctx_def split: if_splits)

lemma parse_extranonce_size:
  "ensures (stratum_parse_extranonce E p k x) (\<lambda>(ok, y). ok \<longrightarrow>
     (\<exists>t. json_string_value (sv_J E) (json_array_get (sv_J E) p k) = Some t \<and> ctx_xnonce1_size y = length t div 2))"
  unfolding stratum_parse_extranonce_def Let_def
  by (auto simp: ensures_def bind_eq_Some_conv split: option.splits if_splits)

lemma subscribe_try_size:
  assumes "verus_pool E"
  shows "ensures (subscribe_try E retry v c) (\<lambda>(ret, sret, w, d). cn_disconnects d = cn_disconnects c \<and> (ret \<longrightarrow> ctx_xnonce1_size (cn_ctx d) < 32))"
proof -
  have send: "cn_disconnects d = cn_disconnects c" if "stratum_send_line E t c = (ok, d)" for ok d t
    using that link_ok_sent(1) [of E t c] by simp
  have recv: "cn_disconnects e = cn_disconnects d" if "recv_in_time d = (l, e)" for l and d e :: "'b conn"
    using that by (auto simp: recv_in_time_def split: list.splits prod.splits if_splits)
  have "length t div 2 < 32" if "json_loads (sv_J E) l = Some val"
      "json_string_value (sv_J E) (json_array_get (sv_J E) (json_object_get (sv_J E) (Some val) ''result'') 1) = Some t" for l val t
  proof -
    have "length t < 64" using assms that unfolding verus_pool_def by blast
    then show ?thesis by simp
  qed
  then show ?thesis
    unfolding subscribe_try_def Let_def
    by (intro ensures_bind ensures_var)
      (auto simp: print_into_Some bind_eq_Some_conv upd_ctx_def ensures_def split: prod.splits option.splits if_splits
        dest!: send recv ensuresD [OF parse_extranonce_size])
qed

lemma subscribe_ready:
  assumes "verus_pool E" "wf_ctx (cn_ctx c)" "\<not> ctx_rpc2 (cn_ctx c)" "job_job_id (ctx_job (cn_ctx c)) = None"
  shows "ensures (stratum_subscribe E c) (\<lambda>(ret, d). cn_disconnects d = cn_disconnects c \<and> ctx_curl (cn_ctx d) = ctx_curl (cn_ctx c) \<and>
    (if ret then gen_ready (cn_ctx d) else cn_ctx d = cn_ctx c))"
proof -
  have E: "length (sv_agent E) < 64" "sv_alloc E" using assms(1) by (simp_all add: verus_pool_def)
  have attempt: "ensures (subscribe_try E retry v d) (\<lambda>(ret, sret, w, e). cn_disconnects e = cn_disconnects c \<and>
      (if ret then gen_ready (cn_ctx e) \<and> ctx_curl (cn_ctx e) = ctx_curl (cn_ctx c) else cn_ctx e = cn_ctx c))"
    if d: "cn_ctx d = cn_ctx c" "cn_disconnects d = cn_disconnects c" for retry v d
  proof (rule ensures_var)
    fix r assume r: "subscribe_try E retry v d = Some r"
    obtain ret sret w e where q: "r = (ret, sret, w, e)" by (cases r)
    have s: "if ret then subscribed E (cn_ctx c) (cn_ctx e) else cn_ctx e = cn_ctx c"
      using subscribe_try_returns [OF E, of retry v d] r q d(1) by (auto simp: returns_def split: if_splits)
    have z: "cn_disconnects e = cn_disconnects c" "ret \<Longrightarrow> ctx_xnonce1_size (cn_ctx e) < 32"
      using ensuresD [OF subscribe_try_size [OF assms(1)] r] q d(2) by simp_all
    have "gen_ready (cn_ctx e) \<and> ctx_curl (cn_ctx e) = ctx_curl (cn_ctx c)" if ret: ret
    proof -
      obtain n1 n2 sid where y: "cn_ctx e = (cn_ctx c)\<lparr>ctx_xnonce1_size := length n1, ctx_xnonce1 := Some n1, ctx_xnonce2_size := n2,
          ctx_session_id := sid, ctx_next_diff := f_lit (sv_F E) 1 0\<rparr>" "n2 \<le> 32"
        using s ret by (auto simp: subscribed_def)
      then show ?thesis using assms(2-4) z(2) [OF ret] by (simp add: gen_ready_def wf_ctx_def)
    qed
    then show "case r of (ret, sret, w, e) \<Rightarrow> cn_disconnects e = cn_disconnects c \<and>
      (if ret then gen_ready (cn_ctx e) \<and> ctx_curl (cn_ctx e) = ctx_curl (cn_ctx c) else cn_ctx e = cn_ctx c)"
      using s z(1) q by simp
  qed
  show ?thesis
    using assms(3) unfolding stratum_subscribe_def
    by (auto simp: ensures_def bind_eq_Some_conv split: if_splits dest!: ensuresD [OF attempt, rotated 2])
qed

lemma auth_loop_ready:
  assumes "verus_pool E" "link_ok n c"
  shows "ensures (auth_loop E st ls c) (\<lambda>(l, d). link_ok n d)"
  using assms(2)
proof (induction ls arbitrary: c)
  case (Cons l ls)
  obtain full s where l: "l = (full, s)" by fastforce
  have c: "link_ok n (c\<lparr>cn_inbox := ls\<rparr>)" using Cons.prems by (simp add: link_ok_def)
  have "ensures (stratum_handle_method E st t (c\<lparr>cn_inbox := ls\<rparr>)) (\<lambda>(r, d). link_ok n d)" if "ctx_curl (cn_ctx c)" for t
    using handle_method_ready [OF assms(1) c] that by simp
  then show ?case
    using Cons.IH Cons.prems c unfolding l
    by (fastforce simp: ensures_def bind_eq_Some_conv split: option.splits if_splits)
qed (simp add: ensures_def)

lemma link_ok_send: "stratum_send_line E s c = (ok, d) \<Longrightarrow> link_ok n d = link_ok n c \<and> ctx_curl (cn_ctx d) = ctx_curl (cn_ctx c)"
  using ctx_of_send(1) [of E s c] link_ok_sent(1) [of E s c] by (simp add: link_ok_def)

lemma recv_in_time_link:
  "recv_in_time c = (l, d) \<Longrightarrow> link_ok n d = link_ok n c \<and> (l \<noteq> None \<longrightarrow> ctx_curl (cn_ctx d))"
  by (auto simp: recv_in_time_def link_ok_def split: list.splits prod.splits if_splits)

lemma ensures_print_into: "(length s < n \<Longrightarrow> P s) \<Longrightarrow> ensures (print_into n s) P"
  by (auto simp: ensures_def print_into_Some)

lemma subscribe_extranonce_ready:
  assumes "verus_pool E" "link_ok n c"
  shows "ensures (subscribe_extranonce E st sz c) (link_ok n)"
  unfolding subscribe_extranonce_def Let_def
  by (intro ensures_bind ensures_print_into ensures_case_prod ensures_if ensures_case_option ensures_Some
      ensures_mono [OF handle_method_ready [where n = n, OF assms(1)]])
    (use assms(2) in \<open>auto dest!: link_ok_send [where n = n] recv_in_time_link [where n = n]\<close>)

lemma link_ok_connected [simp]: "link_ok n (upd_ctx (ctx_tm_connected_update f) c) = link_ok n c"
  by (simp add: link_ok_def upd_ctx_def gen_ready_def job_ready_def wf_ctx_def)

lemma authorize_ready:
  assumes "verus_pool E" "link_ok n c"
  shows "ensures (stratum_authorize E st user pass c) (\<lambda>(ok, d). link_ok n d)"
  unfolding stratum_authorize_def Let_def
  by (intro ensures_bind ensures_print_into ensures_case_prod ensures_if ensures_case_option ensures_Some
      ensures_mono [OF auth_loop_ready [where n = n, OF assms(1)]] ensures_mono [OF subscribe_extranonce_ready [where n = n, OF assms(1)]])
    (use assms(2) in \<open>auto dest!: link_ok_send [where n = n]\<close>)

lemma open_session_ready:
  assumes "verus_pool (ne_E e)" "link_ok n c" "\<not> ctx_curl (cn_ctx c)"
  shows "ensures (open_session e p st c) (\<lambda>(ok, d). wf_ctx (cn_ctx d) \<and> \<not> ctx_rpc2 (cn_ctx d) \<and> length (cn_disconnects d) = n \<and>
    (ok \<longrightarrow> gen_ready (cn_ctx d)))"
proof (rule ensures_var)
  fix r assume r: "open_session e p st c = Some r"
  obtain ok d where k: "stratum_connect (ne_curl e) (pool_url p) c = Some (ok, d)" using r by (auto simp: open_session_def bind_eq_Some_conv)
  have c: "wf_ctx (cn_ctx c)" "\<not> ctx_rpc2 (cn_ctx c)" "job_job_id (ctx_job (cn_ctx c)) = None" "length (cn_disconnects c) = n"
    using assms(2,3) by (auto simp: link_ok_def gen_ready_def)
  have d: "wf_ctx (cn_ctx d)" "\<not> ctx_rpc2 (cn_ctx d)" "job_job_id (ctx_job (cn_ctx d)) = None" "length (cn_disconnects d) = n"
    using ensuresD [OF connect_link k] c by (simp_all add: wf_ctx_def)
  show "case r of (ok, d) \<Rightarrow> wf_ctx (cn_ctx d) \<and> \<not> ctx_rpc2 (cn_ctx d) \<and> length (cn_disconnects d) = n \<and> (ok \<longrightarrow> gen_ready (cn_ctx d))"
  proof (cases ok)
    case False
    then show ?thesis using r k d by (auto simp: open_session_def)
  next
    case True
    then obtain ret f where f: "stratum_subscribe (ne_E e) d = Some (ret, f)" using r k by (auto simp: open_session_def bind_eq_Some_conv)
    have g: "cn_disconnects f = cn_disconnects d" "if ret then gen_ready (cn_ctx f) else cn_ctx f = cn_ctx d"
      using ensuresD [OF subscribe_ready [OF assms(1) d(1-3)] f] by simp_all
    show ?thesis
    proof (cases ret)
      case False
      then show ?thesis using r k f g d True by (auto simp: open_session_def)
    next
      case ret: True
      have "link_ok n f" using ret g d(4) by (simp add: link_ok_def)
      then have "case r of (ok, d) \<Rightarrow> link_ok n d"
        using ensuresD [OF authorize_ready [OF assms(1)]] r k f True ret by (simp add: open_session_def)
      then show ?thesis by (auto simp: link_ok_def gen_ready_def)
    qed
  qed
qed

section \<open>Steps of the stratum thread\<close>

text \<open>What a step may meet: a pool that follows the protocol, and other threads that keep the invariant.\<close>

definition net_ok :: "sse \<Rightarrow> nat \<Rightarrow> ('j, 'f) net_env \<Rightarrow> bool" where
  "net_ok S i e \<longleftrightarrow> verus_pool (ne_E e) \<and> (\<forall>w. an_work (ne_A e) = Some w \<longrightarrow> wf_work w) \<and>
     (\<forall>k m. mine_ok S i m \<longrightarrow> mine_ok S i (ne_other e k m))"

lemma net_okD: "net_ok S i e \<Longrightarrow> verus_pool (ne_E e)" "net_ok S i e \<Longrightarrow> \<forall>w. an_work (ne_A e) = Some w \<longrightarrow> wf_work w"
  "net_ok S i e \<Longrightarrow> mine_ok S i m \<Longrightarrow> mine_ok S i (ne_other e k m)"
  by (simp_all add: net_ok_def)

lemma returns_ensures: "returns x P \<Longrightarrow> ensures x P"
  by (auto simp: returns_def ensures_def)

lemma mine_ok_net [simp]: "mine_ok S i (m\<lparr>sent_lines := l\<rparr>) = mine_ok S i m" "mine_ok S i (m\<lparr>submit_old := b\<rparr>) = mine_ok S i m"
  "mine_ok S i (m\<lparr>longpoll_q := q\<rparr>) = mine_ok S i m" "mine_ok S i (m\<lparr>have_stratum := b\<rparr>) = mine_ok S i m"
  by (simp_all add: mine_ok_def wf_miner_def pools_ok_def)

lemma mine_ok_pools:
  assumes "mine_ok S i m" "list_all2 (\<lambda>p q. pool_algo q = pool_algo p \<and> (gen_ready (pool_stratum p) \<longrightarrow> gen_ready (pool_stratum q))) (pools m) ps"
  shows "mine_ok S i (m\<lparr>pools := ps\<rparr>)"
proof -
  have l: "length ps = length (pools m)" using assms(2) by (simp add: list_all2_lengthD)
  have "k < length (pools m)" if "k < nat (num_pools m)" for k using that mine_okD(18) [OF assms(1)] by simp
  then have "pools_ok (m\<lparr>pools := ps\<rparr>)"
    using assms by (auto simp: mine_ok_def pools_ok_def list_all2_conv_all_nth)
  then show ?thesis using assms(1) l by (simp add: mine_ok_def wf_miner_def)
qed

lemma link_ok_link_of [simp]: "link_ok n (link_of ib x m) \<longleftrightarrow> gen_ready x \<and> length (pools m) = n"
  by (simp add: link_ok_def link_of_def)

lemma link_of_ctx [simp]: "cn_ctx (link_of ib x m) = x" "length (cn_disconnects (link_of ib x m)) = length (pools m)"
  by (simp_all add: link_of_def)

lemma put_link_ok:
  assumes "mine_ok S i m" "length (cn_disconnects c) = length (pools m)"
  shows "ensures (put_link c m) (mine_ok S i)"
proof -
  let ?m = "m\<lparr>sent_lines := cn_sent c, pools := map2 (\<lambda>p n. p\<lparr>pool_disconnects := n\<rparr>) (pools m) (cn_disconnects c)\<rparr>"
  have "mine_ok S i ((m\<lparr>sent_lines := cn_sent c\<rparr>)\<lparr>pools := map2 (\<lambda>p n. p\<lparr>pool_disconnects := n\<rparr>) (pools m) (cn_disconnects c)\<rparr>)"
    by (rule mine_ok_pools) (use assms in \<open>simp_all add: list_all2_conv_all_nth\<close>)
  then have m: "mine_ok S i ?m" by simp
  then show ?thesis
    unfolding put_link_def Let_def
    by (intro ensures_if ensures_Some returns_ensures [OF returns_restart_threads [OF m]]) simp_all
qed

lemma put_stratum_ok:
  assumes "mine_ok S i m" "link_ok (length (pools m)) c"
  shows "ensures (put_stratum c m) (mine_ok S i)"
  unfolding put_stratum_def
  by (rule put_link_ok) (use assms in \<open>simp_all add: link_ok_def\<close>)

text \<open>Putting back a context that is not ready yet and closing it at once.\<close>

definition half_open :: "sse \<Rightarrow> nat \<Rightarrow> 'f miner \<Rightarrow> bool" where
  "half_open S i m \<longleftrightarrow> wf_ctx (stratum m) \<and> \<not> ctx_rpc2 (stratum m) \<and> (\<forall>c. gen_ready c \<longrightarrow> mine_ok S i (m\<lparr>stratum := c\<rparr>))"

lemma mine_ok_half_open: "mine_ok S i m \<Longrightarrow> half_open S i m"
  using mine_okD(6) [of S i m] by (simp add: half_open_def gen_ready_def)

lemma disconnect_stratum_ok: "half_open S i m \<Longrightarrow> ensures (disconnect_stratum e m) (mine_ok S i)"
  unfolding disconnect_stratum_def put_stratum_def
  by (intro ensures_bind ensures_mono [OF disconnect_ready] put_link_ok) (simp_all add: half_open_def)

lemma put_stratum_half_open:
  assumes "mine_ok S i m" "wf_ctx (cn_ctx c)" "\<not> ctx_rpc2 (cn_ctx c)" "length (cn_disconnects c) = length (pools m)"
  shows "ensures (put_stratum c m) (half_open S i)"
proof (rule ensures_var)
  fix u assume u: "put_stratum c m = Some u"
  have "put_link c (m\<lparr>stratum := d\<rparr>) = Some (u\<lparr>stratum := d\<rparr>)" for d
    using u by (auto simp: put_stratum_def put_link_def restart_threads_def Let_def bind_eq_Some_conv split: if_splits option.splits)
  moreover have "ensures (put_link c (m\<lparr>stratum := d\<rparr>)) (mine_ok S i)" if "gen_ready d" for d
    by (rule put_link_ok) (use assms that in simp_all)
  moreover have "stratum u = cn_ctx c"
    using u by (auto simp: put_stratum_def put_link_def restart_threads_def Let_def bind_eq_Some_conv split: if_splits option.splits)
  ultimately show "half_open S i u" using assms(2,3) by (auto simp: half_open_def ensures_def)
qed

lemma mine_ok_upd_pool:
  assumes "mine_ok S i m" "\<And>p. pool_algo (h p) = pool_algo p" "\<And>p. gen_ready (pool_stratum p) \<Longrightarrow> gen_ready (pool_stratum (h p))"
  shows "ensures (upd_pool k h m) (mine_ok S i)"
  unfolding upd_pool_def
proof (rule ensures_bind, rule ensures_var, rule ensures_Some)
  fix p assume "rd_int (pools m) k = Some p"
  then have "p = pools m ! nat k" "nat k < length (pools m)" by (auto simp: rd_int_def rd_eq_Some split: if_splits)
  then show "mine_ok S i (m\<lparr>pools := (pools m)[nat k := h p]\<rparr>)"
    using assms by (intro mine_ok_pools) (auto simp: list_all2_conv_all_nth nth_list_update)
qed

lemma count_share_same [simp]: "pool_algo (count_share R b d p) = pool_algo p" "pool_stratum (count_share R b d p) = pool_stratum p"
  by (simp_all add: count_share_def Let_def)

lemma share_result_ok: "mine_ok S i m \<Longrightarrow> ensures (share_result R res k d reason m) (mine_ok S i)"
  unfolding share_result_def Let_def
  by (intro ensures_bind ensures_if ensures_None ensures_Some ensures_mono [OF mine_ok_upd_pool [where S = S and i = i]] ensures_var
      ensures_mono [OF ensures_if, where P = "mine_ok S i"])
    (auto split: option.split)

lemma handle_response_ok: "mine_ok S i m \<Longrightarrow> ensures (stratum_handle_response R s m) (\<lambda>(r, u). mine_ok S i u)"
proof -
  assume m: "mine_ok S i m"
  have "mine_ok S i (m\<lparr>stratum := (stratum m)\<lparr>ctx_answer_msec := a\<rparr>\<rparr>)" for a
    using m mine_okD(6) [OF m] by (simp add: gen_ready_def job_ready_def wf_ctx_def)
  then show ?thesis
    unfolding stratum_handle_response_def Let_def
    by (intro ensures_bind ensures_if ensures_Some ensures_case_option ensures_case_prod ensures_mono [OF share_result_ok [where S = S and i = i]])
      (use m in auto)
qed

lemma handle_line_ok:
  assumes "net_ok S i e" "mine_ok S i m" "ctx_curl (stratum m)"
  shows "ensures (handle_line e s m) (mine_ok S i)"
  unfolding handle_line_def
  by (intro ensures_bind ensures_case_prod ensures_if ensures_Some ensures_mono [OF handle_method_ready [where n = "length (pools m)"]]
      ensures_mono [OF put_stratum_ok [OF assms(2)]] ensures_mono [OF handle_response_ok [where S = S and i = i]])
    (use assms mine_okD(6) [OF assms(2)] net_okD(1) [OF assms(1)] in auto)

lemma take_job_ok:
  assumes "mine_ok S i m"
  shows "ensures (take_job e m) (mine_ok S i)"
  unfolding take_job_def Let_def
  by (intro ensures_case_option ensures_if ensures_bind ensures_case_prod ensures_Some returns_ensures
      returns_gen_g_work [OF assms] ensures_mono [OF returns_ensures [OF returns_restart_threads [where S = S and i = i]]])
    (use assms in auto)

lemma proper_exit_ok: "mine_ok S i m \<Longrightarrow> ensures (proper_exit r m) (\<lambda>(c, u). mine_ok S i u)"
  unfolding proper_exit_def
  by (intro ensures_bind ensures_mono [OF returns_ensures [OF returns_restart_threads [where S = S and i = i]]]) (auto intro!: ensures_if ensures_Some)

lemma mine_ok_set_pool:
  assumes "mine_ok S i m" "pool_algo p = pool_algo (pools m ! k)" "k < nat (num_pools m) \<Longrightarrow> gen_ready (pool_stratum p)"
  shows "mine_ok S i (m\<lparr>pools := (pools m)[k := p]\<rparr>)"
proof -
  have "(pools m)[k := p] ! j = (if j = k then p else pools m ! j)" if "j < nat (num_pools m)" for j
    using that mine_okD(18) [OF assms(1)] by (simp add: nth_list_update)
  then have "pools_ok (m\<lparr>pools := (pools m)[k := p]\<rparr>)" using assms by (auto simp: mine_ok_def pools_ok_def)
  then show ?thesis using assms(1) by (simp add: mine_ok_def wf_miner_def)
qed

lemma put_link_same:
  "put_link c m = Some u \<Longrightarrow> length (cn_disconnects c) = length (pools m) \<Longrightarrow> num_pools u = num_pools m \<and> length (pools u) = length (pools m) \<and>
     (\<forall>k < length (pools m). pool_algo (pools u ! k) = pool_algo (pools m ! k))"
  by (auto simp: put_link_def restart_threads_def Let_def bind_eq_Some_conv split: if_splits option.splits)

lemma pool_switched_ok:
  assumes "mine_ok S i m"
  shows "ensures (pool_switched e t m) (\<lambda>(t, u). mine_ok S i u)"
proof (rule ensures_var)
  fix r assume "pool_switched e t m = Some r"
  then obtain p c m1 q where p: "rd_int (pools m) (st_pooln t) = Some p" "stratum_disconnect (ne_E e) (link_of [] (pool_stratum p) m) = Some c"
    "put_link c m = Some m1" "rd_int (pools m1) (st_pooln t) = Some q"
    "r = (t\<lparr>st_pc := At_wait\<rparr>, (m1\<lparr>pools := (pools m1)[nat (st_pooln t) := q\<lparr>pool_stratum := cn_ctx c\<rparr>]\<rparr>)\<lparr>stratum := (stratum m1)\<lparr>ctx_url := None\<rparr>\<rparr>)"
    by (auto simp: pool_switched_def upd_pool_def bind_eq_Some_conv)
  let ?k = "nat (st_pooln t)"
  have k: "p = pools m ! ?k" "?k < length (pools m)" "q = pools m1 ! ?k" using p(1,4) by (auto simp: rd_int_def rd_eq_Some split: if_splits)
  have l: "length (cn_disconnects c) = length (pools m)"
    using p(2) by (auto simp: stratum_disconnect_def link_of_def upd_ctx_def bind_eq_Some_conv split: if_splits)
  have m1: "mine_ok S i m1" "num_pools m1 = num_pools m" using put_link_ok [OF assms l] p(3) put_link_same [OF p(3) l] by (auto simp: ensures_def)
  have "gen_ready (cn_ctx c)" if "?k < nat (num_pools m1)"
  proof -
    have "gen_ready (pool_stratum p)" using assms that m1(2) k(1) by (simp add: mine_ok_def pools_ok_def)
    then show ?thesis using ensuresD [OF disconnect_ready p(2)] by (simp add: gen_ready_def)
  qed
  then have "mine_ok S i (m1\<lparr>pools := (pools m1)[?k := q\<lparr>pool_stratum := cn_ctx c\<rparr>]\<rparr>)"
    by (intro mine_ok_set_pool m1(1)) (simp_all add: k(3))
  moreover have "gen_ready ((stratum m1)\<lparr>ctx_url := None\<rparr>)" using mine_okD(6) [OF m1(1)] by (simp add: gen_ready_def job_ready_def wf_ctx_def)
  ultimately show "case r of (t, u) \<Rightarrow> mine_ok S i u" using p(5) mine_ok_stratum by simp
qed

lemma gen_ready_url [simp]: "gen_ready (c\<lparr>ctx_url := u\<rparr>) = gen_ready c"
  by (simp add: gen_ready_def job_ready_def wf_ctx_def)

lemma wait_stratum_url_ok: "mine_ok S i m \<Longrightarrow> ensures (wait_stratum_url e t m) (\<lambda>(t, u). mine_ok S i u)"
  using mine_okD(6) [of S i m] by (simp add: wait_stratum_url_def ensures_def split: list.split)

lemma loop_head_ok: "mine_ok S i m \<Longrightarrow> ensures (loop_head e t m) (\<lambda>(t, u). mine_ok S i u)"
proof -
  assume m: "mine_ok S i m"
  then have "ensures (disconnect_stratum e (m\<lparr>stratum_need_reset := False\<rparr>)) (mine_ok S i)"
    by (intro disconnect_stratum_ok mine_ok_half_open) simp
  then show ?thesis
    using m mine_okD(6) [OF m] by (auto simp: loop_head_def Let_def ensures_def bind_eq_Some_conv split: if_splits)
qed

lemma connect_failed_ok:
  assumes "net_ok S i e" "half_open S i m"
  shows "ensures (connect_failed e t m) (\<lambda>(t, u). mine_ok S i u)"
proof (rule ensures_var)
  fix r assume r: "connect_failed e t m = Some r"
  then obtain u where u: "disconnect_stratum e m = Some u" by (auto simp: connect_failed_def bind_eq_Some_conv)
  have ok: "mine_ok S i u" using ensuresD [OF disconnect_stratum_ok [OF assms(2)] u] .
  have exit: "mine_ok S i v" if "proper_exit k (workio_abort a b u) = Some (c, v)" for k a b c v
    using ensuresD [OF proper_exit_ok that] ok by simp
  have further: "mine_ok S i v" if "pool_switch_next (ne_A e) u = Some (b, v)" for b v
    using ensuresD [OF returns_ensures [OF returns_switch_next [OF ok net_okD(2) [OF assms(1)]]] that] by simp
  have left: "mine_ok S i w" if "pool_switched e t' v = Some (t'', w)" "mine_ok S i v" for t' v t'' w
    using ensuresD [OF pool_switched_ok [OF that(2)] that(1)] by simp
  have other: "mine_ok S i (ne_other e k v)" if "mine_ok S i v" for k v using net_okD(3) [OF assms(1) that] .
  from r u ok show "case r of (t, u) \<Rightarrow> mine_ok S i u"
    by (cases r) (auto simp: connect_failed_def Let_def bind_eq_Some_conv split: if_splits intro: exit further left other)
qed

lemma connect_attempt_ok:
  assumes "net_ok S i e" "mine_ok S i m"
  shows "ensures (connect_attempt e t m) (\<lambda>(t, u). mine_ok S i u)"
proof (cases "ctx_curl (stratum m) \<or> abort_flag m")
  case True
  then show ?thesis using assms(2) by (simp add: connect_attempt_def ensures_def)
next
  case False
  have w: "wf_work ((g_work m)\<lparr>w_data := (w_data (g_work m))[0 := 0]\<rparr>)" "0 < length (w_data (g_work m))"
    using mine_okD(4) [OF assms(2)] by (simp_all add: wf_work_def)
  let ?m = "m\<lparr>g_work_time := 0, g_work := (g_work m)\<lparr>w_data := (w_data (g_work m))[0 := 0]\<rparr>\<rparr>"
  have m: "mine_ok S i ?m" using assms(2) w(1) by simp
  have s: "stratum u = stratum m" if "restart_threads ?m = Some u" for u
    using that by (auto simp: restart_threads_def bind_eq_Some_conv split: option.splits)
  show ?thesis
  proof (rule ensures_var)
    fix r assume "connect_attempt e t m = Some r"
    then obtain u p ok c v where u: "restart_threads ?m = Some u" "open_session e p (opt_stratum_stats u) (link_of (ne_inbox e) (stratum u) u) = Some (ok, c)"
      "put_stratum c u = Some v" "(if ok then Some (t, ne_other e 1 v) else connect_failed e t v) = Some r"
      using False w(2) by (auto simp: connect_attempt_def mem_simps bind_eq_Some_conv)
    have um: "mine_ok S i u" using ensuresD [OF returns_ensures [OF returns_restart_threads [OF m]] u(1), of "mine_ok S i"] by simp
    have c: "wf_ctx (cn_ctx c)" "\<not> ctx_rpc2 (cn_ctx c)" "length (cn_disconnects c) = length (pools u)" "ok \<Longrightarrow> gen_ready (cn_ctx c)"
      using ensuresD [OF open_session_ready [OF net_okD(1) [OF assms(1)], of "length (pools u)"] u(2)] mine_okD(6) [OF um] s [OF u(1)] False by simp_all
    show "case r of (t, u) \<Rightarrow> mine_ok S i u"
    proof (cases ok)
      case True
      then have "mine_ok S i v" using ensuresD [OF put_stratum_ok [OF um] u(3)] c by (simp add: link_ok_def)
      then show ?thesis using u(4) True net_okD(3) [OF assms(1)] by auto
    next
      case False
      then have "half_open S i v" using ensuresD [OF put_stratum_half_open [OF um c(1-3)] u(3)] by simp
      then show ?thesis using ensuresD [OF connect_failed_ok [OF assms(1)]] u(4) False by auto
    qed
  qed
qed

lemma session_step_ok:
  assumes "net_ok S i e" "mine_ok S i m"
  shows "ensures (session_step e t m) (\<lambda>(t, u). mine_ok S i u)"
proof -
  have line: "ensures (case fst (recv_in_time (link_of ib (stratum v) v)) of None \<Rightarrow> disconnect_stratum e v | Some l \<Rightarrow> handle_line e l v) (mine_ok S i)"
    if "mine_ok S i v" for ib v
  proof (rule ensures_case_option)
    show "ensures (disconnect_stratum e v) (mine_ok S i)" by (rule disconnect_stratum_ok [OF mine_ok_half_open [OF that]])
    fix l assume "fst (recv_in_time (link_of ib (stratum v) v)) = Some l"
    then have "ctx_curl (stratum v)" by (auto simp: recv_in_time_def link_of_def split: list.splits prod.splits if_splits)
    then show "ensures (handle_line e l v) (mine_ok S i)" by (rule handle_line_ok [OF assms(1) that])
  qed
  show ?thesis
    unfolding session_step_def Let_def
    by (intro ensures_if ensures_bind pool_switched_ok ensures_mono [OF take_job_ok [OF assms(2)]] ensures_mono [OF line] ensures_Some)
      (use assms net_okD(3) [OF assms(1)] in auto)
qed

lemma stratum_thread_ok:
  assumes "net_ok S i e" "mine_ok S i m"
  shows "ensures (stratum_thread e t m) (\<lambda>(t, u). mine_ok S i u)"
proof -
  note m = net_okD(3) [OF assms, of 0]
  show ?thesis
    using m wait_stratum_url_ok [OF m, of e t] loop_head_ok [OF m, of e t] connect_attempt_ok [OF assms(1) m, of t] session_step_ok [OF assms(1) m, of t]
    by (cases "st_pc t") (simp_all add: stratum_thread_def Let_def ensures_def)
qed

section \<open>Steps of the longpoll thread\<close>

definition lp_ok :: "sse \<Rightarrow> nat \<Rightarrow> ('j, 'f) lp_env \<Rightarrow> bool" where
  "lp_ok S i e \<longleftrightarrow> (\<forall>val. text_fields (re_J (le_R e)) (json_object_get (re_J (le_R e)) (Some val) ''result'')) \<and>
     (\<forall>k m. mine_ok S i m \<longrightarrow> mine_ok S i (rn_other (le_rn e) k m))"

lemma mine_ok_unwoken: "unwoken u = unwoken m \<Longrightarrow> mine_ok S i u = mine_ok S i m"
proof -
  have "mine_ok S i (unwoken v) = mine_ok S i v" for v :: "'a miner" by (simp add: unwoken_def)
  then show "unwoken u = unwoken m \<Longrightarrow> mine_ok S i u = mine_ok S i m" by metis
qed

lemma rpc_call_unwoken:
  "ensures (json_rpc_call E server push proxy url up req scan lp m) (\<lambda>(v, err, u). unwoken u = unwoken m)"
proof (cases "rpc_headers E req (global_hashrate m)")
  case (Some h)
  show ?thesis
    unfolding json_rpc_call_body [where server = server and url = url and userpass = up, OF Some refl refl refl]
    by (auto simp: ensures_def activate_simps split: option.split)
qed (simp add: json_rpc_call_def Let_def ensures_def)

lemma same_session_ok: "mine_ok S i m \<Longrightarrow> same_session m u \<Longrightarrow> wf_work w \<Longrightarrow> mine_ok S i (u\<lparr>g_work := w\<rparr>)"
  by (simp add: mine_ok_def wf_miner_def pools_ok_def same_session_def wf_work_def)

lemma lp_new_work_ok:
  assumes "lp_ok S i e" "mine_ok S i m"
  shows "ensures (lp_new_work e val m) (mine_ok S i)"
proof -
  define m1 where "m1 = m\<lparr>submit_old := json_object_get (re_J (le_R e)) (json_object_get (re_J (le_R e)) (Some val) ''result'') ''submitold'' \<noteq> None \<and>
    json_is_true (re_J (le_R e)) (json_object_get (re_J (le_R e)) (json_object_get (re_J (le_R e)) (Some val) ''result'') ''submitold'')\<rparr>"
  have m1: "mine_ok S i m1" "wf_work (g_work m1)" using assms(2) mine_okD(4) [OF assms(2)] by (simp_all add: m1_def)
  have dec: "returns (work_decode (le_R e) (rn_rand (le_rn e)) (json_object_get (re_J (le_R e)) (Some val) ''result'') (g_work m1) m1)
      (\<lambda>(ok, w, u). mine_ok S i (u\<lparr>g_work := w\<rparr>))"
    by (rule returns_work_decode) (use assms(1) m1 same_session_ok [OF m1(1)] in \<open>auto simp: lp_ok_def\<close>)
  have store: "ensures (do { m \<leftarrow> restart_threads u; _ \<leftarrow> (if opt_quiet m then Some [] else netinfo e m); Some (m\<lparr>g_work_time := a\<rparr>) }) (mine_ok S i)"
    if "mine_ok S i u" for u a
    by (rule ensures_bind, rule ensures_mono [OF returns_ensures [OF returns_restart_threads [OF that, of "mine_ok S i"]]])
      (simp_all add: ensures_def bind_eq_Some_conv)
  show ?thesis
    unfolding lp_new_work_def Let_def m1_def [symmetric]
    by (rule ensures_bind, rule ensures_mono [OF returns_ensures [OF dec]]) (auto intro!: ensures_if ensures_Some store)
qed

lemma lp_begin_ok:
  assumes "mine_ok S i m"
  shows "ensures (lp_begin e path t m) (\<lambda>(t, u). mine_ok S i u)"
proof -
  have "mine_ok S i (m\<lparr>pool_is_switching := False\<rparr>)" using assms by simp
  then have "ensures (upd_pool k (\<lambda>p. p\<lparr>pool_type := pool_type p OR POOL_LONGPOLL\<rparr>) (m\<lparr>pool_is_switching := False\<rparr>)) (mine_ok S i)" for k
    by (rule mine_ok_upd_pool) simp_all
  then show ?thesis using assms by (auto simp: lp_begin_def lp_leave_def Let_def ensures_def bind_eq_Some_conv split: if_splits)
qed

lemma wait_lp_url_ok:
  assumes "mine_ok S i m"
  shows "ensures (wait_lp_url e t m) (\<lambda>(t, u). mine_ok S i u)"
proof -
  have b: "ensures (lp_begin e p u (m\<lparr>longpoll_q := q\<rparr>)) (\<lambda>(t, u). mine_ok S i u)"
    "ensures (lp_begin e p u (m\<lparr>longpoll_q := q, have_stratum := True\<rparr>)) (\<lambda>(t, u). mine_ok S i u)" for p u q
    by (rule lp_begin_ok, use assms in simp)+
  then show ?thesis using assms by (auto simp: wait_lp_url_def lp_leave_def ensures_def bind_eq_Some_conv split: list.split)
qed

lemma lp_answer_ok:
  fixes m :: "'f miner"
  assumes "lp_ok S i e" "mine_ok S i m"
  shows "ensures (lp_answer e t val err m) (\<lambda>(t, u). mine_ok S i u)"
proof -
  have "mine_ok S i (rn_other (le_rn e) 2 (m\<lparr>g_work_time := 0\<rparr>))" using assms by (simp add: lp_ok_def)
  then show ?thesis
    using assms(2) lp_new_work_ok [OF assms] by (auto simp: lp_answer_def lp_leave_def ensures_def bind_eq_Some_conv split: option.split)
qed

lemma lp_poll_ok:
  fixes m :: "'f miner"
  assumes "lp_ok S i e" "mine_ok S i m"
  shows "ensures (lp_poll e t m) (\<lambda>(t, u). mine_ok S i u)"
proof -
  have "mine_ok S i (rn_other (le_rn e) 1 u)"
    if "json_rpc_longpoll E server push proxy url p req m = Some (v, err, u)" for E :: "('j, 'f) senv" and server push proxy url p req v err u
  proof -
    have "unwoken u = unwoken m" using ensuresD [OF rpc_call_unwoken that [unfolded json_rpc_longpoll_def]] by simp
    then have "mine_ok S i u" using mine_ok_unwoken assms(2) by blast
    then show ?thesis using assms(1) by (simp add: lp_ok_def)
  qed
  then have "mine_ok S i w" if "json_rpc_longpoll E server push proxy url p req m = Some (v, err, u)"
      "lp_answer e t val k (rn_other (le_rn e) 1 u) = Some (t', w)"
    for E :: "('j, 'f) senv" and server push proxy url p req v err u t val k t' w
    using ensuresD [OF lp_answer_ok [OF assms(1)] that(2)] that(1) by blast
  then show ?thesis
    using assms(2) unfolding lp_poll_def lp_leave_def ensures_def by (fastforce simp: bind_eq_Some_conv split: if_splits)
qed

lemma longpoll_thread_ok:
  assumes "lp_ok S i e" "mine_ok S i m"
  shows "ensures (longpoll_thread e t m) (\<lambda>(t, u). mine_ok S i u)"
proof -
  have m: "mine_ok S i (rn_other (le_rn e) 0 m)" using assms by (simp add: lp_ok_def)
  show ?thesis
    using m wait_lp_url_ok [OF m, of e t] lp_poll_ok [OF assms(1) m, of t]
    by (cases "lt_pc t") (simp_all add: longpoll_thread_def Let_def ensures_def)
qed

section \<open>All threads together\<close>

text \<open>What the network threads can do to the globals, in any number of steps: \<open>NE\<close> and \<open>LE\<close> are the environments that steps
  of the stratum and of the longpoll thread may meet.\<close>

inductive net_moves :: "('j, 'f) net_env set \<Rightarrow> ('j, 'f) lp_env set \<Rightarrow> 'f miner \<Rightarrow> 'f miner \<Rightarrow> bool"
  for NE :: "('j, 'f) net_env set" and LE :: "('j, 'f) lp_env set" and m :: "'f miner" where
  stay: "net_moves NE LE m m"
| stratum_step: "net_moves NE LE m u \<Longrightarrow> e \<in> NE \<Longrightarrow> stratum_thread e t u = Some (t', v) \<Longrightarrow> net_moves NE LE m v"
| longpoll_step: "net_moves NE LE m u \<Longrightarrow> e \<in> LE \<Longrightarrow> longpoll_thread e t u = Some (t', v) \<Longrightarrow> net_moves NE LE m v"

lemma net_moves_ok:
  assumes "net_moves NE LE m u" "mine_ok S i m" "\<forall>e \<in> NE. net_ok S i e" "\<forall>e \<in> LE. lp_ok S i e"
  shows "mine_ok S i u"
  using assms(1)
proof (induction rule: net_moves.induct)
  case (stratum_step u e t t' v)
  then show ?case using ensuresD [OF stratum_thread_ok [of S i e u t]] assms(3) by auto
next
  case (longpoll_step u e t t' v)
  then show ?case using ensuresD [OF longpoll_thread_ok [of S i e u t]] assms(4) by auto
qed (rule assms(2))

section \<open>Properties\<close>


definition small_net :: "(jval, int) net_env" where
  "small_net = \<lparr>ne_rn = small_round, ne_curl = \<lparr>ce_init = True, ce_buf = True, ce_perform = 0\<rparr>, ne_inbox = [(True, Some ''x'')],
     ne_R = small_replies, ne_frozen = False\<rparr>"

definition small_session :: sthread where
  "small_session = \<lparr>st_pc = At_session, st_pooln = 0, st_switchn = 0, st_failures = 0\<rparr>"

lemma small_net_ok: "net_ok sse_doc 0 small_net"
  by (simp add: net_ok_def small_net_def small_round_def small_answers_def verus_pool_def small_senv_def small_json_def)

definition beside :: "int miner \<Rightarrow> int miner" where
  "beside m = (case stratum_thread small_net small_session m of None \<Rightarrow> m | Some (t, u) \<Rightarrow> u)"

lemma beside_moves: "net_moves {small_net} {} m (beside m)"
  unfolding beside_def
  by (auto split: option.split intro: stay stratum_step [OF stay])


end
