(* ===== verification/Access.thy ===== *)
theory Access
  imports Startup
begin

text \<open>Who may use the API of \<open>api.cpp\<close>: the groups of commands (\<open>setup_groups\<close>), the list of allowed addresses (\<open>setup_ipaccess\<close>)
  and the test of a client (\<open>check_connect\<close>). Addresses are 32-bit words in the order of the host, the first of the four numbers
  in the highest byte. Memory for copies of texts is available.\<close>

section \<open>Commands and groups\<close>

text \<open>The table \<open>cmds\<close>: names, and whether a command changes the miner.\<close>

definition cmds :: "(string \<times> bool) list" where
  "cmds = [(''summary'', False), (''threads'', False), (''pool'', False), (''histo'', False), (''hwinfo'', False), (''meminfo'', False),
     (''scanlog'', False), (''seturl'', True), (''switchpool'', True), (''quit'', True), (''help'', False)]"

definition c_toupper :: "char \<Rightarrow> char" where
  "c_toupper c = (if 97 \<le> c_code c \<and> c_code c \<le> 122 then char_of (c_code c - 32) else c)"

definition PRIVGROUP :: char where "PRIVGROUP = CHR ''W''"
definition NOPRIVGROUP :: char where "NOPRIVGROUP = CHR ''R''"

definition VALIDGROUP :: "char \<Rightarrow> bool" where
  "VALIDGROUP g \<longleftrightarrow> 65 \<le> c_code (c_toupper g) \<and> c_code (c_toupper g) \<le> 90"

text \<open>\<open>apigroups\<close>: the commands of each group as a text \<open>|cmd1|cmd2|\<close>.\<close>

type_synonym apigroups = "char \<Rightarrow> string option"

definition DEFINEDGROUP :: "apigroups \<Rightarrow> char \<Rightarrow> bool" where
  "DEFINEDGROUP G g \<longleftrightarrow> c_toupper g = PRIVGROUP \<or> G (c_toupper g) \<noteq> None"

text \<open>The text up to a separator, and what follows it (nothing when there is none).\<close>

definition cut_at :: "char \<Rightarrow> string \<Rightarrow> string \<times> string" where
  "cut_at d s = (case split_first d s of None \<Rightarrow> (s, []) | Some p \<Rightarrow> p)"

lemma length_cut_at: "cut_at d s = (a, b) \<Longrightarrow> s \<noteq> [] \<Longrightarrow> length b < length s"
  unfolding cut_at_def by (induction s arbitrary: a b) (fastforce split: option.splits if_splits)+

text \<open>A command is added to the text unless it is there; the text has 512 characters.\<close>

definition add_command :: "string \<Rightarrow> string \<Rightarrow> string option" where
  "add_command name commands =
     (if strstr commands (''|'' @ name @ ''|'') then Some commands else print_into 512 (commands @ name @ ''|''))"

fun add_commands :: "string list \<Rightarrow> string \<Rightarrow> string option" where
  "add_commands [] commands = Some commands"
| "add_commands (name # names) commands = do { commands \<leftarrow> add_command name commands; add_commands names commands }"

definition readers :: "string list" where
  "readers = map fst (filter (\<lambda>(name, w). \<not> w) (butlast cmds))"

function group_commands :: "string \<Rightarrow> string \<Rightarrow> bool \<Rightarrow> (string \<times> bool) parsed option" where
  "group_commands s commands star =
     (if s = [] then Some (Parsed (commands, star))
      else let item = fst (cut_at (CHR '':'') s); rest = snd (cut_at (CHR '':'') s) in
        if item = ''*'' then group_commands rest commands True
        else case find (\<lambda>(name, w). strcaseeq item name) (butlast cmds) of
          None \<Rightarrow> Some (Exits 1)
        | Some (name, w) \<Rightarrow> do { commands \<leftarrow> add_command name commands; group_commands rest commands star })"
  by pat_completeness auto

termination by (relation "measure (\<lambda>(s, commands, star). length s)") (use length_cut_at in \<open>auto simp: prod_eq_iff\<close>)

declare group_commands.simps [simp del]

function groups_loop :: "string \<Rightarrow> apigroups \<Rightarrow> apigroups parsed option" where
  "groups_loop s G =
     (if s = [] then Some (Parsed G)
      else let seg = fst (cut_at (CHR '','') s); rest = snd (cut_at (CHR '','') s) in
        if length seg < 2 \<or> seg ! 1 \<noteq> CHR '':'' then Some (Exits 1)
        else let g = c_toupper (hd seg) in
          if \<not> VALIDGROUP g \<or> g = PRIVGROUP \<or> g = NOPRIVGROUP \<or> G g \<noteq> None then Some (Exits 1)
          else do {
            r \<leftarrow> group_commands (drop 2 seg) ''|'' False;
            case r of
              Exits n \<Rightarrow> Some (Exits n)
            | Parsed (commands, star) \<Rightarrow> do {
                commands \<leftarrow> (if star then add_commands readers commands else Some commands);
                groups_loop rest (G(g \<mapsto> commands)) } })"
  by pat_completeness auto

termination by (relation "measure (\<lambda>(s, G). length s)") (use length_cut_at in \<open>auto simp: prod_eq_iff\<close>)

declare groups_loop.simps [simp del]

definition setup_groups :: "string option \<Rightarrow> apigroups parsed option" where
  "setup_groups opt_groups =
     and_parse (groups_loop (case opt_groups of None \<Rightarrow> [] | Some s \<Rightarrow> s) (\<lambda>g. None))
       (\<lambda>G. Some (Parsed (G(NOPRIVGROUP \<mapsto> ''|'' @ concat (map (\<lambda>name. name @ ''|'') readers)))))"

section \<open>Addresses\<close>

record ip4access =
  ip_ip :: u32
  ip_mask :: u32
  ip_group :: char

text \<open>\<open>x << k\<close>: undefined for a negative \<open>k\<close> and from the width on.\<close>

definition shl :: "u32 \<Rightarrow> int \<Rightarrow> u32 option" where
  "shl x k = (if 0 \<le> k \<and> k < 32 then Some (push_bit (nat k) x) else None)"

function mask_loop :: "int \<Rightarrow> u32 \<Rightarrow> u32 option" where
  "mask_loop k m =
     (if k \<ge> 0 then do {
        let k = k - 1;
        octet \<leftarrow> shl 1 (k smod 8);
        bits \<leftarrow> shl octet (24 - 8 * (k div 8));
        mask_loop k (m OR bits) }
      else Some m)"
  by pat_completeness auto

termination by (relation "measure (\<lambda>(k, m). nat (k + 1))") auto

declare mask_loop.simps [simp del]

text \<open>The four numbers: None when one of them is not a byte, and the entry is skipped.\<close>

fun octets :: "nat \<Rightarrow> nat \<Rightarrow> string option \<Rightarrow> u32 \<Rightarrow> u32 option" where
  "octets i 0 ptr ip = Some ip"
| "octets i (Suc n) None ip = Some ip"
| "octets i (Suc n) (Some s) ip =
     (let octet = atoi (fst (cut_at (CHR ''.'') s))
      in if octet < 0 \<or> octet > 0xff then None
         else octets (i + 1) n (map_option snd (split_first (CHR ''.'') s)) (ip OR push_bit (24 - i * 8) (word_of_int octet)))"

definition c_isalpha :: "char \<Rightarrow> bool" where
  "c_isalpha c \<longleftrightarrow> 65 \<le> c_code c \<and> c_code c \<le> 90 \<or> 97 \<le> c_code c \<and> c_code c \<le> 122"

text \<open>One entry: its group, and the address with its mask; the inner None skips the entry.\<close>

definition entry_group :: "apigroups \<Rightarrow> string \<Rightarrow> char \<times> string" where
  "entry_group G item =
     (if 1 < length item \<and> c_isalpha (hd item) \<and> item ! 1 = CHR '':''
      then (if DEFINEDGROUP G (hd item) then c_toupper (hd item) else NOPRIVGROUP, drop 2 item)
      else (NOPRIVGROUP, item))"

definition entry_address :: "string \<Rightarrow> (u32 \<times> u32) option option" where
  "entry_address ptr =
     (if ptr = ''0/0'' \<or> ptr = ''0.0.0.0'' then Some (Some (0, 0))
      else let addr = fst (cut_at (CHR ''/'') ptr); masked = (\<lambda>am. map_option (\<lambda>ip. (ip AND am, am)) (octets 0 4 (Some addr) 0))
        in case split_first (CHR ''/'') ptr of
             None \<Rightarrow> Some (masked 0xffffffff)
           | Some (_, slash) \<Rightarrow>
               if atoi slash < 1 \<or> atoi slash > 32 then Some None
               else do { am \<leftarrow> mask_loop (atoi slash) 0; Some (masked am) })"

lemma ip_loop_shorter:
  assumes "s \<noteq> []" "\<not> (dropWhile P s \<noteq> [] \<and> hd (dropWhile P s) = d)"
  shows "length (snd (cut_at d (dropWhile P s))) < length s"
proof (cases "dropWhile P s = []")
  case True
  then show ?thesis using assms(1) by (simp add: cut_at_def del: dropWhile_eq_Nil_conv)
next
  case False
  then have "length (snd (cut_at d (dropWhile P s))) < length (dropWhile P s)"
    using length_cut_at [of d "dropWhile P s"] by (metis prod.collapse)
  then show ?thesis using length_dropWhile_le [of P s] by linarith
qed

text \<open>The entries fit into the array, which is as long as the list has commas, and one more.\<close>

function ip_loop :: "apigroups \<Rightarrow> nat \<Rightarrow> string \<Rightarrow> ip4access list \<Rightarrow> ip4access list option" where
  "ip_loop G ipcount s ips =
     (if s = [] then Some ips
      else let s1 = dropWhile (\<lambda>c. c = CHR '' '' \<or> c = CHR 0x09) s in
        if s1 \<noteq> [] \<and> hd s1 = CHR '','' then ip_loop G ipcount (tl s1) ips
        else let (group, ptr) = entry_group G (fst (cut_at (CHR '','') s1)); rest = snd (cut_at (CHR '','') s1)
          in if \<not> length ips < ipcount then None
             else do {
               a \<leftarrow> entry_address ptr;
               ip_loop G ipcount rest
                 (case a of None \<Rightarrow> ips | Some (ip, am) \<Rightarrow> ips @ [\<lparr>ip_ip = ip, ip_mask = am, ip_group = group\<rparr>]) })"
  by pat_completeness auto

termination
proof (relation "measure (\<lambda>(G, n, s, ips). length s)", goal_cases)
  case (2 G n s ips s1)
  then have "length s1 \<le> length s" "s1 \<noteq> []" by (simp_all add: length_dropWhile_le)
  then show ?case by (cases s1) simp_all
qed (use ip_loop_shorter in auto)

declare ip_loop.simps [simp del]

definition setup_ipaccess :: "apigroups \<Rightarrow> string \<Rightarrow> ip4access list option" where
  "setup_ipaccess G allow = ip_loop G (length (filter (\<lambda>c. c = CHR '','') allow) + 1) allow []"

text \<open>\<open>inet_ntoa\<close> and \<open>check_connect\<close>: whether the client is accepted, and its group.\<close>

definition dotted :: "u32 \<Rightarrow> string" where
  "dotted ip = dec_nat (unat (drop_bit 24 ip AND 0xff)) @ ''.'' @ dec_nat (unat (drop_bit 16 ip AND 0xff)) @ ''.'' @
     dec_nat (unat (drop_bit 8 ip AND 0xff)) @ ''.'' @ dec_nat (unat (ip AND 0xff))"

definition check_connect :: "string option \<Rightarrow> string \<Rightarrow> ip4access list \<Rightarrow> u32 \<Rightarrow> bool \<times> char" where
  "check_connect allow bnd ips client = (case allow of
     Some _ \<Rightarrow> (case find (\<lambda>a. client AND ip_mask a = ip_ip a) ips of
         None \<Rightarrow> (False, NOPRIVGROUP)
       | Some a \<Rightarrow> (True, ip_group a))
   | None \<Rightarrow> (bnd = ''0.0.0.0'' \<or> dotted client = ''127.0.0.1'', NOPRIVGROUP))"

section \<open>Printed numbers and addresses are read back\<close>

lemma c_code_digit: "n < 10 \<Longrightarrow> c_code (char_of (48 + n)) = 48 + n"
  by (simp add: c_code_def)

lemma digit_char: "c_isdigit (char_of (48 + n mod 10 :: nat))" "c_code (char_of (48 + n mod 10 :: nat)) = 48 + n mod 10"
proof -
  have "n mod 10 < 10" by simp
  then show "c_isdigit (char_of (48 + n mod 10 :: nat))" "c_code (char_of (48 + n mod 10 :: nat)) = 48 + n mod 10"
    using c_code_digit [of "n mod 10"] by (simp_all add: c_isdigit_def)
qed

lemma dec_nat_digits: "list_all c_isdigit (dec_nat n) \<and> dec_nat n \<noteq> []"
proof (induction n rule: dec_nat.induct)
  case (1 n)
  then show ?case using digit_char [of n] by (cases "n < 10") (simp_all add: dec_nat.simps [of n])
qed

lemma dec_val_nat: "dec_val (dec_nat n) = n"
proof -
  have "takeWhile c_isdigit (dec_nat n) = dec_nat n" using dec_nat_digits by (simp add: takeWhile_eq_all_conv list_all_iff)
  moreover have "foldl (\<lambda>n c. 10 * n + (c_code c - 48)) 0 (dec_nat n) = n"
  proof (induction n rule: dec_nat.induct)
    case (1 n)
    then show ?case using digit_char [of n] by (cases "n < 10") (simp_all add: dec_nat.simps [of n])
  qed
  ultimately show ?thesis by (simp only: dec_val_def)
qed

lemma atoi_dec_nat:
  assumes "n < 2 ^ 31"
  shows "atoi (dec_nat n) = int n"
proof -
  obtain c r where s: "dec_nat n = c # r" "c_isdigit c" using dec_nat_digits [of n] by (cases "dec_nat n") auto
  then have "\<not> isspace c" "c \<noteq> CHR ''-''" "c \<noteq> CHR ''+''" by (auto simp: c_isdigit_def isspace_def c_code_def)
  then have "atoi (dec_nat n) = int32 (max (- (2 ^ 63)) (min (2 ^ 63 - 1) (int (dec_val (dec_nat n)))))"
    using s by (simp add: atoi_def Let_def)
  also have "\<dots> = int32 (int n)" using assms by (simp add: dec_val_nat)
  also have "\<dots> = int n" using assms using signed_take_bit_int_eq_self [of 31 "int n"] by (simp add: int32_def signed_of_int del: of_int_of_nat_eq)
  finally show ?thesis .
qed

text \<open>A prefix is never turned into a mask: the loop runs once more with a negative shift.\<close>

lemma mask_loop_undefined: "0 \<le> k \<Longrightarrow> mask_loop k m = None"
proof (induction "nat k" arbitrary: k m)
  case 0
  have "(- 1 :: int) smod 8 = - 1" by code_simp
  moreover have "k = 0" using 0 by simp
  ultimately show ?case by (simp add: mask_loop.simps [of 0] Let_def shl_def)
next
  case (Suc n)
  then have "mask_loop (k - 1) (m OR b) = None" for b by simp
  moreover have "0 \<le> k" using Suc.hyps(2) by simp
  ultimately show ?case by (simp add: mask_loop.simps [of k] Let_def bind_eq_None_conv)
qed

lemma dec_nat_no: "\<not> c_isdigit d \<Longrightarrow> d \<notin> set (dec_nat n)"
  using dec_nat_digits [of n] by (auto simp: list_all_iff)

lemma cut_at_sep: "d \<notin> set a \<Longrightarrow> cut_at d (a @ d # b) = (a, b)" "d \<notin> set a \<Longrightarrow> cut_at d a = (a, [])"
  "d \<notin> set a \<Longrightarrow> split_first d a = None"
proof -
  show n: "d \<notin> set a \<Longrightarrow> split_first d a = None" by (induction a) auto
  show "d \<notin> set a \<Longrightarrow> cut_at d (a @ d # b) = (a, b)" by (simp add: cut_at_def split_first_at)
  show "d \<notin> set a \<Longrightarrow> cut_at d a = (a, [])" using n by (simp add: cut_at_def)
qed

lemma dot_no_digit: "\<not> c_isdigit (CHR ''.'')" "\<not> c_isdigit (CHR '','')" "\<not> c_isdigit (CHR ''/'')" "\<not> c_isdigit (CHR '':'')" "\<not> c_isdigit (CHR '' '')"
  "\<not> c_isdigit (CHR 0x09)"
  by (simp_all add: c_isdigit_def c_code_def)

lemma byte_atoi: "atoi (dec_nat (unat (w AND 0xff :: u32))) = uint (w AND 0xff)" "uint (w AND 0xff :: u32) \<le> 255"
proof -
  have "w AND 0xff \<le> 0xff" by (rule word_and_le1)
  then have l: "unat (w AND 0xff) \<le> 255" unfolding word_le_nat_alt by simp
  have "atoi (dec_nat (unat (w AND 0xff))) = int (unat (w AND 0xff))" by (rule atoi_dec_nat, rule le_less_trans [OF l]) simp
  also have u: "int (unat (w AND 0xff)) = uint (w AND 0xff)" by (rule uint_nat [symmetric])
  finally show "atoi (dec_nat (unat (w AND 0xff :: u32))) = uint (w AND 0xff)" .
  show "uint (w AND 0xff :: u32) \<le> 255" using l u by linarith
qed

lemma word_of_octets:
  "0 OR push_bit 24 (drop_bit 24 ip AND 0xff) OR push_bit 16 (drop_bit 16 ip AND 0xff) OR push_bit 8 (drop_bit 8 ip AND 0xff) OR push_bit 0 (ip AND 0xff)
    = (ip :: u32)"
proof (rule bit_word_eqI)
  have m: "w AND 0xff = take_bit 8 w" for w :: u32 by (simp add: take_bit_eq_mask mask_eq_exp_minus_1)
  fix n assume "n < LENGTH(32)"
  then consider "n < 8" | "8 \<le> n" "n < 16" | "16 \<le> n" "n < 24" | "24 \<le> n" "n < 32" by fastforce
  then show "bit (0 OR push_bit 24 (drop_bit 24 ip AND 0xff) OR push_bit 16 (drop_bit 16 ip AND 0xff) OR push_bit 8 (drop_bit 8 ip AND 0xff) OR
      push_bit 0 (ip AND 0xff)) n = bit ip n"
    unfolding m by cases (auto simp: bit_simps)
qed

lemma octets_step:
  "octets i (Suc n) (Some (dec_nat (unat (w AND 0xff)) @ CHR ''.'' # r)) ip = octets (i + 1) n (Some r) (ip OR push_bit (24 - i * 8) (w AND 0xff))"
  "octets i (Suc 0) (Some (dec_nat (unat (w AND 0xff)))) ip = Some (ip OR push_bit (24 - i * 8) (w AND 0xff))"
proof -
  have d: "CHR ''.'' \<notin> set (dec_nat n)" for n by (rule dec_nat_no [OF dot_no_digit(1)])
  have w: "word_of_int (uint (w AND 0xff)) = w AND 0xff" "\<not> uint (w AND 0xff) < 0" by (simp_all only: word_of_int_uint) simp
  show "octets i (Suc n) (Some (dec_nat (unat (w AND 0xff)) @ CHR ''.'' # r)) ip = octets (i + 1) n (Some r) (ip OR push_bit (24 - i * 8) (w AND 0xff))"
    "octets i (Suc 0) (Some (dec_nat (unat (w AND 0xff)))) ip = Some (ip OR push_bit (24 - i * 8) (w AND 0xff))"
    by (simp_all only: octets.simps Let_def cut_at_sep [OF d] split_first_at [OF d] fst_conv byte_atoi(1) option.map snd_conv w)
      (use byte_atoi(2) [of w] in simp_all)
qed

lemma octets_dotted: "octets 0 4 (Some (dotted ip)) 0 = Some ip"
proof -
  have "octets 0 (Suc (Suc (Suc (Suc 0)))) (Some (dotted ip)) 0 = Some ip"
    unfolding dotted_def append_Cons append_Nil octets_step using word_of_octets [of ip] by (simp add: or.assoc)
  then show ?thesis by (simp add: eval_nat_numeral)
qed

section \<open>Groups hold commands of the table\<close>

definition command_text :: "string list \<Rightarrow> string" where
  "command_text ns = ''|'' @ concat (map (\<lambda>n. n @ ''|'') ns)"

definition group_text :: "string \<Rightarrow> bool" where
  "group_text s \<longleftrightarrow> (\<exists>ns. s = command_text ns \<and> distinct ns \<and> set ns \<subseteq> set (map fst (butlast cmds)))"

lemma command_text_has: "n \<in> set ns \<Longrightarrow> strstr (command_text ns) (''|'' @ n @ ''|'')"
proof -
  have e: "\<exists>pre. command_text xs = pre @ ''|''" for xs by (induction xs rule: rev_induct) (auto simp: command_text_def)
  assume "n \<in> set ns"
  then obtain xs ys where "ns = xs @ n # ys" by (auto simp: in_set_conv_decomp)
  moreover obtain pre where "command_text xs = pre @ ''|''" using e by blast
  ultimately have "command_text ns = pre @ (''|'' @ n @ ''|'') @ concat (map (\<lambda>n. n @ ''|'') ys)" by (simp add: command_text_def)
  then show ?thesis unfolding strstr_def by (intro bexI [of _ "length pre"]) auto
qed

lemma group_text_short: "group_text s \<Longrightarrow> length s \<le> 90"
proof -
  assume "group_text s"
  then obtain ns where ns: "s = command_text ns" "distinct ns" "set ns \<subseteq> set (map fst (butlast cmds))" by (auto simp: group_text_def)
  have "sum_list (map (\<lambda>n. length n + 1) ns) = (\<Sum>n \<in> set ns. length n + 1)" using ns(2) by (rule sum_list_distinct_conv_sum_set)
  also have "\<dots> \<le> (\<Sum>n \<in> set (map fst (butlast cmds)). length n + 1)" using ns(3) by (intro sum_mono2) simp_all
  also have "\<dots> \<le> 89" by (simp add: cmds_def)
  finally show ?thesis using ns(1) by (simp add: command_text_def length_concat comp_def)
qed

lemma add_command_text: "group_text s \<Longrightarrow> n \<in> set (map fst (butlast cmds)) \<Longrightarrow> returns (add_command n s) group_text"
proof -
  assume s: "group_text s" and n: "n \<in> set (map fst (butlast cmds))"
  then obtain ns where ns: "s = command_text ns" "distinct ns" "set ns \<subseteq> set (map fst (butlast cmds))" by (auto simp: group_text_def)
  have "length n \<le> 10" using n by (auto simp: cmds_def)
  moreover have "group_text (s @ n @ ''|'')" if "\<not> strstr s (''|'' @ n @ ''|'')"
    unfolding group_text_def
    using that ns n command_text_has [of n ns] by (intro exI [of _ "ns @ [n]"]) (auto simp: command_text_def)
  ultimately show ?thesis using s group_text_short [OF s] by (simp add: add_command_def returns_def print_into_def)
qed

lemma add_commands_text: "group_text s \<Longrightarrow> set ns \<subseteq> set (map fst (butlast cmds)) \<Longrightarrow> returns (add_commands ns s) group_text"
proof (induction ns arbitrary: s)
  case (Cons n ns)
  have "returns (add_command n s) group_text" using Cons.prems by (intro add_command_text) auto
  then show ?case using Cons by (auto simp: returns_def)
qed (simp add: returns_def)

lemma group_commands_text: "group_text s \<Longrightarrow> runs (group_commands t s star) (\<lambda>(s, star). group_text s)"
proof (induction t s star rule: group_commands.induct)
  case (1 t s star)
  have step: "returns (add_command n s) (\<lambda>s. runs (group_commands (snd (cut_at (CHR '':'') t)) s star) (\<lambda>(s, star). group_text s))"
    if "t \<noteq> []" "fst (cut_at (CHR '':'') t) \<noteq> ''*''" "find (\<lambda>(name, w). strcaseeq (fst (cut_at (CHR '':'') t)) name) (butlast cmds) = Some (n, w)" for n w
  proof -
    have "n \<in> set (map fst (butlast cmds))" using that(3) by (force simp: find_Some_iff in_set_conv_nth)
    then show ?thesis
      using "1.IH"(2) [OF that(1) refl refl that(2,3) refl] by (intro returns_weaken [OF add_command_text [OF "1.prems"]])
  qed
  show ?case
    unfolding group_commands.simps [of t] Let_def
    by (intro runs) (use "1.prems" "1.IH"(1) step in auto)
qed

lemma readers_known: "set readers \<subseteq> set (map fst (butlast cmds))"
  by (auto simp: readers_def cmds_def)

lemma groups_loop_text: "(\<And>g t. G g = Some t \<Longrightarrow> group_text t) \<Longrightarrow> runs (groups_loop s G) (\<lambda>G. \<forall>g t. G g = Some t \<longrightarrow> group_text t)"
proof (induction s G rule: groups_loop.induct)
  case (1 s G)
  have e: "group_text ''|''" by (auto simp: group_text_def command_text_def intro!: exI [of _ "[]"])
  have star: "returns (if star then add_commands readers t else Some t) group_text" if "group_text t" for t star
    using add_commands_text [OF that readers_known] that by (simp add: returns_def)
  let ?seg = "fst (cut_at (CHR '','') s)" and ?rest = "snd (cut_at (CHR '','') s)"
  let ?g = "c_toupper (hd ?seg)" and ?P = "\<lambda>G. \<forall>g t. G g = Some t \<longrightarrow> group_text t"
  have "returns (group_commands (drop 2 ?seg) ''|'' False) (\<lambda>r. runs (case r of Exits n \<Rightarrow> Some (Exits n) | Parsed (t, star) \<Rightarrow>
      do { t \<leftarrow> (if star then add_commands readers t else Some t); groups_loop ?rest (G(?g \<mapsto> t)) }) ?P)"
    if b: "s \<noteq> []" "\<not> (length ?seg < 2 \<or> ?seg ! 1 \<noteq> CHR '':'')" "\<not> (\<not> VALIDGROUP ?g \<or> ?g = PRIVGROUP \<or> ?g = NOPRIVGROUP \<or> G ?g \<noteq> None)"
  proof (rule returns_weaken [OF group_commands_text [OF e, unfolded runs_def]])
    fix r assume r: "group_commands (drop 2 ?seg) ''|'' False = Some r" "case r of Parsed (t, star) \<Rightarrow> group_text t | Exits n \<Rightarrow> True"
    show "runs (case r of Exits n \<Rightarrow> Some (Exits n) | Parsed (t, star) \<Rightarrow>
        do { t \<leftarrow> (if star then add_commands readers t else Some t); groups_loop ?rest (G(?g \<mapsto> t)) }) ?P"
    proof (cases r)
      case (Exits n)
      then show ?thesis by (simp add: runs)
    next
      case (Parsed p)
      obtain t star where p: "p = (t, star)" by fastforce
      have "group_text t" using r(2) Parsed p by simp
      then obtain u where u: "(if star then add_commands readers t else Some t) = Some u" "group_text u"
        using returnsE [OF star [of t star]] by metis
      have "runs (groups_loop ?rest (G(?g \<mapsto> u))) ?P"
        by (rule "1.IH" [OF b(1) refl refl b(2) refl b(3) r(1) Parsed p [symmetric] u(1)]) (use "1.prems" u(2) in \<open>auto split: if_splits\<close>)
      then show ?thesis using Parsed p u(1) by simp
    qed
  qed
  then show ?case
    unfolding groups_loop.simps [of s] Let_def by (intro runs) (use "1.prems" in auto)
qed

lemma setup_groups_text: "runs (setup_groups g) (\<lambda>G. (\<forall>c t. G c = Some t \<longrightarrow> group_text t) \<and> G NOPRIVGROUP = Some (command_text readers))"
proof -
  have "group_text (command_text readers)"
    unfolding group_text_def by (intro exI [of _ readers]) (simp add: readers_known readers_def cmds_def)
  then show ?thesis
    unfolding setup_groups_def
    by (intro runs_and_parse runs_weaken [OF groups_loop_text] runs_Parsed) (auto simp: command_text_def)
qed

section \<open>Properties\<close>

text \<open>A list of addresses as it is written: with the group \<open>W\<close> or without one.\<close>

definition listed1 :: "bool \<times> u32 \<Rightarrow> string" where
  "listed1 = (\<lambda>(w, ip). (if w then ''W:'' else []) @ dotted ip)"

fun listed :: "(bool \<times> u32) list \<Rightarrow> string" where
  "listed [] = []"
| "listed [q] = listed1 q"
| "listed (q # qs) = listed1 q @ CHR '','' # listed qs"

definition entry :: "bool \<times> u32 \<Rightarrow> ip4access" where
  "entry = (\<lambda>(w, ip). \<lparr>ip_ip = ip, ip_mask = (if ip = 0 then 0 else 0xffffffff), ip_group = (if w then PRIVGROUP else NOPRIVGROUP)\<rparr>)"

lemma dotted_no:
  "\<not> c_isdigit d \<Longrightarrow> d \<noteq> CHR ''.'' \<Longrightarrow> d \<notin> set (dotted ip)" "\<exists>c r. dotted ip = c # r \<and> c_isdigit c"
proof -
  show "\<not> c_isdigit d \<Longrightarrow> d \<noteq> CHR ''.'' \<Longrightarrow> d \<notin> set (dotted ip)" using dec_nat_no by (simp add: dotted_def)
  obtain c r where "dec_nat (unat (drop_bit 24 ip AND 0xff)) = c # r" "c_isdigit c"
    using dec_nat_digits [of "unat (drop_bit 24 ip AND 0xff)"] by (cases "dec_nat (unat (drop_bit 24 ip AND 0xff))") auto
  then show "\<exists>c r. dotted ip = c # r \<and> c_isdigit c" unfolding dotted_def by auto
qed

lemma dotted_inject: "dotted a = dotted b \<longleftrightarrow> a = b"
  by (metis octets_dotted option.inject)

lemma dotted_0: "dotted 0 = ''0.0.0.0''" "dotted 0x7f000001 = ''127.0.0.1''"
proof -
  have "dec_nat 0 = ''0''" "dec_nat 1 = ''1''" "dec_nat 127 = ''127''" by code_simp+
  then show "dotted 0 = ''0.0.0.0''" "dotted 0x7f000001 = ''127.0.0.1''" by (simp_all add: dotted_def)
qed

lemma entry_address_dotted: "entry_address (dotted ip) = Some (Some (ip, if ip = 0 then 0 else 0xffffffff))"
proof -
  have s: "CHR ''/'' \<notin> set (dotted ip)" by (rule dotted_no) (simp_all add: dot_no_digit)
  then have "dotted ip \<noteq> ''0/0''" by auto
  moreover have "ip AND 0xffffffff = ip"
  proof -
    have "(0xffffffff :: u32) = - 1" by simp
    then show ?thesis by (simp only: and.right_neutral)
  qed
  ultimately show ?thesis
    using s dotted_inject [of ip 0] by (simp add: entry_address_def dotted_0 cut_at_sep octets_dotted)
qed

lemma entry_group_listed: "entry_group G (listed1 (w, ip)) = (if w then PRIVGROUP else NOPRIVGROUP, dotted ip)"
proof -
  obtain c r where c: "dotted ip = c # r" "c_isdigit c" using dotted_no(2) by blast
  have "\<not> c_isalpha c" using c(2) by (auto simp: c_isdigit_def c_isalpha_def)
  moreover have "c_isalpha (CHR ''W'')" "c_toupper (CHR ''W'') = CHR ''W''" by code_simp+
  ultimately show ?thesis using c(1) by (cases w) (simp_all add: listed1_def entry_group_def DEFINEDGROUP_def PRIVGROUP_def)
qed

lemma listed1_shape: "\<exists>c r. listed1 q = c # r \<and> c \<noteq> CHR '' '' \<and> c \<noteq> CHR 0x09 \<and> c \<noteq> CHR '',''" "CHR '','' \<notin> set (listed1 q)"
proof -
  obtain w ip where q: "q = (w, ip)" by fastforce
  obtain c r where "dotted ip = c # r" "c_isdigit c" using dotted_no(2) by blast
  then show "\<exists>c r. listed1 q = c # r \<and> c \<noteq> CHR '' '' \<and> c \<noteq> CHR 0x09 \<and> c \<noteq> CHR '',''"
    using dot_no_digit by (auto simp: listed1_def q)
  show "CHR '','' \<notin> set (listed1 q)"
    using dotted_no(1) [of "CHR '',''" ip] dot_no_digit by (simp add: listed1_def q)
qed

lemma ip_loop_entry:
  assumes "length ips < n" "CHR '','' \<notin> set (listed1 q)"
  shows "ip_loop G n (listed1 q) ips = Some (ips @ [entry q])"
    "ip_loop G n (listed1 q @ CHR '','' # r) ips = ip_loop G n r (ips @ [entry q])"
proof -
  obtain w ip where q: "q = (w, ip)" by fastforce
  obtain c t where c: "listed1 q = c # t" "c \<noteq> CHR '' ''" "c \<noteq> CHR 0x09" "c \<noteq> CHR '',''" using listed1_shape(1) by blast
  have u: "dropWhile (\<lambda>c. c = CHR '' '' \<or> c = CHR 0x09) (listed1 q @ u) = listed1 q @ u" "hd (listed1 q @ u) \<noteq> CHR '',''" "listed1 q \<noteq> []" for u
    using c by simp_all
  have e: "entry_group G (listed1 q) = (if w then PRIVGROUP else NOPRIVGROUP, dotted ip)" using entry_group_listed q by simp
  have q': "entry q = \<lparr>ip_ip = ip, ip_mask = (if ip = 0 then 0 else 0xffffffff), ip_group = (if w then PRIVGROUP else NOPRIVGROUP)\<rparr>"
    by (simp add: q entry_def)
  show "ip_loop G n (listed1 q) ips = Some (ips @ [entry q])"
    using u(1,2) [of "[]"] u(3) e assms(1) entry_address_dotted [of ip]
    by (simp add: ip_loop.simps [of G n "listed1 q"] ip_loop.simps [of G n "[]"] cut_at_sep [OF assms(2)] q')
  show "ip_loop G n (listed1 q @ CHR '','' # r) ips = ip_loop G n r (ips @ [entry q])"
    using u(1,2) [of "CHR '','' # r"] u(3) e assms(1) entry_address_dotted [of ip]
    by (simp add: ip_loop.simps [of G n "listed1 q @ CHR '','' # r"] cut_at_sep [OF assms(2)] q')
qed

lemma commas_listed: "qs \<noteq> [] \<Longrightarrow> length (filter (\<lambda>c. c = CHR '','') (listed qs)) = length qs - 1"
proof (induction qs rule: listed.induct)
  case (2 q)
  then show ?case using listed1_shape(2) [of q] by (auto simp: filter_empty_conv)
next
  case (3 q p qs)
  have "filter (\<lambda>c. c = CHR '','') (listed1 q) = []" using listed1_shape(2) [of q] by (auto simp: filter_empty_conv)
  then show ?case using 3 by simp
qed simp

lemma ip_loop_listed: "length ips + length qs \<le> n \<Longrightarrow> ip_loop G n (listed qs) ips = Some (ips @ map entry qs)"
proof (induction qs arbitrary: ips rule: listed.induct)
  case 1
  show ?case by (simp add: ip_loop.simps [of G n "[]"])
next
  case (2 q)
  then show ?case using ip_loop_entry(1) [OF _ listed1_shape(2)] by simp
next
  case (3 q p qs)
  then show ?case using ip_loop_entry(2) [OF _ listed1_shape(2), where q = q and r = "listed (p # qs)" and G = G and n = n and ips = ips] by simp
qed

lemma setup_ipaccess_listed: "qs \<noteq> [] \<Longrightarrow> setup_ipaccess G (listed qs) = Some (map entry qs)"
  using ip_loop_listed [where ips = "[]" and qs = qs and n = "length qs" and G = G] commas_listed [of qs] by (simp add: setup_ipaccess_def)

lemma entry_matches: "client AND ip_mask (entry (w, ip)) = ip_ip (entry (w, ip)) \<longleftrightarrow> ip = 0 \<or> client = ip"
proof -
  have "(0xffffffff :: u32) = - 1" by simp
  then have "client AND 0xffffffff = client" by (simp only: and.right_neutral)
  then show ?thesis by (simp add: entry_def)
qed

text \<open>C33: only the clients that were allowed are accepted. With a list of addresses, each with the group \<open>W\<close> or without a group, a client is
  accepted exactly when its address is in the list (or the list has \<open>0.0.0.0\<close>), with the group of the first entry that matches. Without a
  list only the local address is accepted, unless the server is bound to all addresses, and always with the group that
  may only read.\<close>

theorem access_control:
  assumes "qs \<noteq> []"
  shows "\<exists>ips. setup_ipaccess G (listed qs) = Some ips \<and>
    check_connect (Some (listed qs)) bnd ips client =
      (case find (\<lambda>(w, ip). ip = 0 \<or> client = ip) qs of None \<Rightarrow> (False, NOPRIVGROUP) | Some (w, ip) \<Rightarrow> (True, if w then PRIVGROUP else NOPRIVGROUP)) \<and>
    check_connect None bnd ips client = (bnd = ''0.0.0.0'' \<or> client = 0x7f000001, NOPRIVGROUP)"
proof (intro exI conjI)
  show "setup_ipaccess G (listed qs) = Some (map entry qs)" by (rule setup_ipaccess_listed [OF assms])
  have "find (\<lambda>a. client AND ip_mask a = ip_ip a) (map entry qs) = map_option entry (find (\<lambda>(w, ip). ip = 0 \<or> client = ip) qs)"
    by (induction qs) (auto simp: entry_matches)
  then show "check_connect (Some (listed qs)) bnd (map entry qs) client =
      (case find (\<lambda>(w, ip). ip = 0 \<or> client = ip) qs of None \<Rightarrow> (False, NOPRIVGROUP) | Some (w, ip) \<Rightarrow> (True, if w then PRIVGROUP else NOPRIVGROUP))"
    by (simp add: check_connect_def entry_def split: option.split)
  show "check_connect None bnd (map entry qs) client = (bnd = ''0.0.0.0'' \<or> client = 0x7f000001, NOPRIVGROUP)"
    using dotted_inject [of client "0x7f000001"] by (simp add: check_connect_def dotted_0)
qed

theorem access_control_witness:
  "\<exists>ips. setup_ipaccess (\<lambda>g. None) ''W:127.0.0.1,10.0.0.2'' = Some ips \<and>
    check_connect (Some ''W:127.0.0.1,10.0.0.2'') [] ips 0x0a000002 = (True, CHR ''R'')"
proof -
  have "dec_nat 0 = ''0''" "dec_nat 2 = ''2''" "dec_nat 10 = ''10''" by code_simp+
  then have "listed [(True, 0x7f000001), (False, 0x0a000002)] = ''W:127.0.0.1,10.0.0.2''"
    by (simp add: listed1_def dotted_0) (simp add: dotted_def)
  with access_control [where qs = "[(True, 0x7f000001), (False, 0x0a000002)]" and G = "\<lambda>g. None" and bnd = "[]" and client = "0x0a000002"] show ?thesis
    by (auto simp: NOPRIVGROUP_def)
qed

end
