(* ===== verification/Websock.thy ===== *)
theory Websock
  imports Connect Linebuf
begin

text \<open>The answers of \<open>api.cpp\<close> over a WebSocket: \<open>base64_encode\<close> and \<open>websocket_handshake\<close>. Data on the wire is a list of
  characters; \<open>SHA1\<close> of OpenSSL is a parameter, and so is whether \<open>calloc\<close> succeeds.\<close>

section \<open>Base64\<close>

definition table64 :: string where
  "table64 = ''ABCDEFGHIJKLMNOPQRSTUVWXYZabcdefghijklmnopqrstuvwxyz0123456789+/''"

text \<open>One round of the loop: up to three bytes, the missing ones taken as zero, give four characters.\<close>

definition b64_group :: "bytes \<Rightarrow> string" where
  "b64_group g = (let
     i0 = g ! 0; i1 = (if 1 < length g then g ! 1 else 0); i2 = (if 2 < length g then g ! 2 else 0);
     o0 = drop_bit 2 (i0 AND 0xFC);
     o1 = push_bit 4 (i0 AND 0x03) OR drop_bit 4 (i1 AND 0xF0);
     o2 = push_bit 2 (i1 AND 0x0F) OR drop_bit 6 (i2 AND 0xC0);
     o3 = i2 AND 0x3F;
     t = (\<lambda>k. table64 ! unat k)
   in if length g = 1 then [t o0, t o1, CHR ''='', CHR ''='']
      else if length g = 2 then [t o0, t o1, t o2, CHR ''='']
      else [t o0, t o1, t o2, t o3])"

text \<open>The loop: each round prints four characters and a null character to \<open>outbuf + len\<close>.\<close>

function b64_loop :: "nat \<Rightarrow> bytes \<Rightarrow> nat \<Rightarrow> string \<Rightarrow> (string \<times> nat) option" where
  "b64_loop outlen indata len outbuf =
     (if indata = [] then Some (outbuf, len)
      else do {
        outbuf \<leftarrow> wrn outbuf len (b64_group (take 3 indata) @ [NUL]);
        if len + 4 > outlen then Some (outbuf, len) else b64_loop outlen (drop 3 indata) (len + 4) outbuf })"
  by pat_completeness auto

termination by (relation "measure (\<lambda>(outlen, indata, len, outbuf). length indata)") auto

declare b64_loop.simps [simp del]

text \<open>The text in \<open>outptr\<close> and the value returned. The last character is cut off by \<open>snprintf(outptr, len, ...)\<close>; a text of 27 characters
  gets an \<open>=\<close> appended.\<close>

definition base64_encode :: "bool \<Rightarrow> bytes \<Rightarrow> nat \<Rightarrow> (string \<times> int) option" where
  "base64_encode alloc indata outlen =
     (if \<not> alloc then Some ([], - 1)
      else do {
        (outbuf, len) \<leftarrow> b64_loop outlen indata 0 (replicate (length indata * 4 div 3 + 4) NUL);
        let s = cstr outbuf;
        let r = take (len - 1) s;
        r \<leftarrow> (if length r = 27 then (if outlen < 29 then None else Some (r @ ''='')) else Some r);
        Some (r, int (length s)) })"

section \<open>The handshake and the frame\<close>

definition WS_GUID :: string where "WS_GUID = ''258EAFA5-E914-47DA-95CA-C5AB0DC85B11''"

definition crlf :: string where "crlf = [CHR 0x0D, CHR 0x0A]"

definition ws_answer :: "string \<Rightarrow> string" where
  "ws_answer seckey = ''HTTP/1.1 101 Switching Protocol'' @ crlf @ ''Upgrade: WebSocket'' @ crlf @ ''Connection: Upgrade'' @ crlf @
     ''Sec-WebSocket-Accept: '' @ seckey @ crlf @ ''Sec-WebSocket-Protocol: text'' @ crlf @ crlf"

definition ws_byte :: "u64 \<Rightarrow> char" where
  "ws_byte x = char_of (unat (ucast x :: u8))"

definition ws_header :: "u64 \<Rightarrow> string" where
  "ws_header datalen =
     (if datalen \<le> 125 then [char_of (129 :: nat), ws_byte datalen]
      else if datalen \<le> 65535 then [char_of (129 :: nat), char_of (126 :: nat), ws_byte (drop_bit 8 datalen), ws_byte datalen]
      else [char_of (129 :: nat), char_of (127 :: nat), ws_byte (drop_bit 56 datalen), ws_byte (drop_bit 48 datalen),
            ws_byte (drop_bit 40 datalen), ws_byte (drop_bit 32 datalen), ws_byte (drop_bit 24 datalen), ws_byte (drop_bit 16 datalen),
            ws_byte (drop_bit 8 datalen), ws_byte datalen])"

text \<open>\<open>websocket_handshake\<close>: what it returns and what it sends. The key is printed to a buffer of 128 characters without a check. The
  data sent ends with the null character that follows it in memory.\<close>

definition websocket_handshake :: "(string \<Rightarrow> bytes) \<Rightarrow> bool \<Rightarrow> bool \<Rightarrow> string \<Rightarrow> string \<Rightarrow> (int \<times> string option) option" where
  "websocket_handshake sha1 alloc1 alloc2 result clientkey = do {
     inpkey \<leftarrow> print_into 128 (clientkey @ WS_GUID);
     (seckey, _) \<leftarrow> base64_encode alloc1 (sha1 inpkey) 64;
     answer \<leftarrow> print_into 256 (ws_answer seckey);
     if \<not> alloc2 then Some (- 1, None)
     else Some (0, Some (answer @ ws_header (word_of_nat (length result)) @ result @ [NUL])) }"

section \<open>What they promise\<close>

text \<open>Base64 by bits: the bits of the bytes, the most significant first, in groups of six, and \<open>=\<close> up to a multiple of four characters.\<close>

definition byte_bits :: "u8 \<Rightarrow> bool list" where
  "byte_bits b = map (bit b) [7, 6, 5, 4, 3, 2, 1, 0]"

definition bits_number :: "bool list \<Rightarrow> nat" where
  "bits_number bs = fold (\<lambda>b n. 2 * n + of_bool b) bs 0"

fun sixes :: "bool list \<Rightarrow> nat list" where
  "sixes (a # b # c # d # e # f # bs) = bits_number [a, b, c, d, e, f] # sixes bs"
| "sixes [] = []"
| "sixes bs = [bits_number (take 6 (bs @ replicate 6 False))]"

definition base64 :: "bytes \<Rightarrow> string" where
  "base64 bs = (let t = map ((!) table64) (sixes (concat (map byte_bits bs)))
     in t @ replicate ((4 - length t mod 4) mod 4) (CHR ''=''))"


text \<open>A reader of one unmasked text frame: its payload and what follows it.\<close>

definition be_number :: "string \<Rightarrow> nat" where
  "be_number s = fold (\<lambda>c n. 256 * n + c_code c) s 0"

definition ws_parse :: "string \<Rightarrow> (string \<times> string) option" where
  "ws_parse s = (case s of
     h # l # r \<Rightarrow>
       let (n, body) = (if c_code l < 126 then (c_code l, r) else if c_code l = 126 then (be_number (take 2 r), drop 2 r)
                        else (be_number (take 8 r), drop 8 r))
       in if c_code h = 129 \<and> c_code l < 128 \<and> n \<le> length body then Some (take n body, drop n body) else None
   | _ \<Rightarrow> None)"

section \<open>Base64 is right\<close>

lemma unat_bits: "unat (w :: u8) = bits_number (byte_bits w)"
proof -
  have "take_bit 8 (unat w) = unat w" using unsigned_less [of w, where 'a = nat] by (simp add: take_bit_nat_eq_self)
  then have "unat w = horner_sum of_bool 2 (map (bit (unat w)) [0..<8])" by (simp only: horner_sum_bit_eq_take_bit)
  moreover have "[0..<8] = [0, 1, 2, 3, 4, 5, 6, 7 :: nat]" by code_simp
  ultimately show ?thesis by (simp add: bits_number_def byte_bits_def bit_unsigned_iff)
qed

lemma sixes_of_group:
  "unat (drop_bit 2 (a AND 0xFC)) = bits_number [bit a 7, bit a 6, bit a 5, bit a 4, bit a 3, bit a 2]"
  "unat (push_bit 4 (a AND 0x03) OR drop_bit 4 (b AND 0xF0)) = bits_number [bit a 1, bit a 0, bit b 7, bit b 6, bit b 5, bit b 4]"
  "unat (push_bit 2 (b AND 0x0F) OR drop_bit 6 (c AND 0xC0)) = bits_number [bit b 3, bit b 2, bit b 1, bit b 0, bit c 7, bit c 6]"
  "unat (c AND 0x3F) = bits_number [bit c 5, bit c 4, bit c 3, bit c 2, bit c 1, bit c 0]"
  for a b c :: u8
  by (simp_all add: unat_bits byte_bits_def bits_number_def bit_simps)

lemma b64_group_full: "b64_group [a, b, c] = map ((!) table64) (sixes (byte_bits a @ byte_bits b @ byte_bits c))"
proof -
  have "b64_group [a, b, c] = [table64 ! unat (drop_bit 2 (a AND 0xFC)), table64 ! unat (push_bit 4 (a AND 0x03) OR drop_bit 4 (b AND 0xF0)),
      table64 ! unat (push_bit 2 (b AND 0x0F) OR drop_bit 6 (c AND 0xC0)), table64 ! unat (c AND 0x3F)]"
    by (simp add: b64_group_def Let_def)
  then show ?thesis unfolding sixes_of_group by (simp add: byte_bits_def)
qed

lemma b64_group_short:
  "b64_group [a] = base64 [a]" "b64_group [a, b] = base64 [a, b]"
proof -
  have "b64_group [a] = [table64 ! unat (drop_bit 2 (a AND 0xFC)), table64 ! unat (push_bit 4 (a AND 0x03) OR drop_bit 4 (0 AND 0xF0)),
      CHR ''='', CHR ''='']"
    by (simp add: b64_group_def Let_def)
  moreover have "replicate 4 False = [False, False, False, False]" by code_simp
  moreover have "replicate 2 (CHR ''='') = ''==''" by code_simp
  ultimately show "b64_group [a] = base64 [a]"
    unfolding sixes_of_group by (simp add: base64_def Let_def byte_bits_def)
  have "b64_group [a, b] = [table64 ! unat (drop_bit 2 (a AND 0xFC)), table64 ! unat (push_bit 4 (a AND 0x03) OR drop_bit 4 (b AND 0xF0)),
      table64 ! unat (push_bit 2 (b AND 0x0F) OR drop_bit 6 (0 AND 0xC0)), CHR ''='']"
    by (simp add: b64_group_def Let_def)
  moreover have "replicate 2 False = [False, False]" by code_simp
  ultimately show "b64_group [a, b] = base64 [a, b]"
    unfolding sixes_of_group by (simp add: base64_def Let_def byte_bits_def)
qed

lemma sixes_append: "sixes (byte_bits a @ byte_bits b @ byte_bits c @ r) = sixes (byte_bits a @ byte_bits b @ byte_bits c) @ sixes r"
  by (simp add: byte_bits_def)

lemma base64_append3: "base64 (a # b # c # rest) = b64_group [a, b, c] @ base64 rest"
proof -
  have "length (sixes (byte_bits a @ byte_bits b @ byte_bits c)) = 4" by (simp add: byte_bits_def)
  then show ?thesis by (simp add: base64_def Let_def b64_group_full sixes_append)
qed

lemma bytes_by_three:
  "P [] \<Longrightarrow> (\<And>a. P [a]) \<Longrightarrow> (\<And>a b. P [a, b]) \<Longrightarrow> (\<And>a b c r. P r \<Longrightarrow> P (a # b # c # r)) \<Longrightarrow> P (bs :: bytes)"
  by induction_schema (pat_completeness, lexicographic_order)

lemma length_b64_group: "length (b64_group [a]) = 4" "length (b64_group [a, b]) = 4" "length (b64_group [a, b, c]) = 4"
  by (simp_all add: b64_group_def Let_def)

lemma length_base64: "length (base64 bs) = 4 * ((length bs + 2) div 3)"
proof (induction bs rule: bytes_by_three)
  case (4 a b c r)
  have "(length (a # b # c # r) + 2) div 3 = (length r + 2) div 3 + 1" by simp
  then show ?case using 4 by (simp only: base64_append3 length_append length_b64_group) simp
qed (simp_all add: length_b64_group base64_def [of "[]"] flip: b64_group_short)

text \<open>The loop leaves the whole text in \<open>outbuf\<close>, with room for its end, if \<open>outlen\<close> characters are enough for it.\<close>

lemma b64_loop_step:
  assumes "length g = 4" "4 < k"
  shows "wrn (pre @ replicate k NUL) (length pre) (g @ [NUL]) = Some ((pre @ g) @ replicate (k - 4) NUL)"
proof -
  have "NUL # replicate (k - 5) NUL = replicate (k - 4) NUL" using assms(2) by (cases "k - 4") simp_all
  then show ?thesis using assms by (simp add: wrn_Some splice_def)
qed

lemma b64_loop_base64:
  assumes "length (base64 bs) < k" "length pre + length (base64 bs) \<le> n"
  shows "b64_loop n bs (length pre) (pre @ replicate k NUL) =
    Some (pre @ base64 bs @ replicate (k - length (base64 bs)) NUL, length pre + length (base64 bs))"
  using assms
proof (induction bs arbitrary: pre k rule: bytes_by_three)
  case 1
  show ?case by (simp add: b64_loop.simps [of n "[]"] base64_def)
next
  case (2 a)
  then show ?case
    by (simp add: b64_loop.simps [of n "[a]"] b64_loop.simps [of n "[]"] b64_loop_step length_b64_group flip: b64_group_short)
next
  case (3 a b)
  then show ?case
    by (simp add: b64_loop.simps [of n "[a, b]"] b64_loop.simps [of n "[]"] b64_loop_step length_b64_group flip: b64_group_short)
next
  case (4 a b c r)
  have k: "4 < k" "length (base64 r) < k - 4" "length (pre @ b64_group [a, b, c]) + length (base64 r) \<le> n" "length pre + 4 \<le> n"
    using "4.prems" by (simp_all add: base64_append3 length_b64_group)
  show ?case
    using "4.IH" [OF k(2,3)] k(1,4)
    by (simp add: b64_loop.simps [of n "a # b # c # r"] b64_loop_step length_b64_group base64_append3 add.assoc)
qed

lemma b64_group_chars: "g \<noteq> [] \<Longrightarrow> NUL \<notin> set (b64_group g)"
proof -
  have t: "table64 ! k \<noteq> NUL" if "k < 64" for k
  proof -
    have "list_all (\<lambda>k. table64 ! k \<noteq> NUL) [0..<64]" by code_simp
    then show ?thesis using that by (simp add: list_all_iff)
  qed
  have b: "bits_number [a, b, c, d, e, f] < 64" for a b c d e f by (simp add: bits_number_def)
  show ?thesis
    unfolding b64_group_def Let_def sixes_of_group using t [symmetric] b by (auto simp: NUL_def char_of_def)
qed

lemma base64_chars: "NUL \<notin> set (base64 bs)"
proof (induction bs rule: bytes_by_three)
  case (4 a b c r)
  then show ?case using b64_group_chars [of "[a, b, c]"] by (simp add: base64_append3)
qed (simp_all add: base64_def [of "[]"] b64_group_chars flip: b64_group_short)

lemma base64_pads: "length bs mod 3 = 2 \<Longrightarrow> \<exists>t. base64 bs = t @ ''=''"
proof (induction bs rule: bytes_by_three)
  case (4 a b c r)
  then obtain t where "base64 r = t @ ''=''" by auto
  then show ?case by (simp add: base64_append3)
qed (auto simp: b64_group_def Let_def simp flip: b64_group_short)

text \<open>A digest of 20 bytes.\<close>

lemma base64_encode_digest:
  assumes "length bs = 20"
  shows "base64_encode True bs 64 = Some (base64 bs, 28)"
proof -
  have n: "length (base64 bs) = 28" using assms by (simp add: length_base64)
  obtain t where t: "base64 bs = t @ ''=''" using base64_pads [of bs] assms by auto
  have "b64_loop 64 bs 0 (replicate 30 NUL) = Some (base64 bs @ replicate 2 NUL, 28)"
    using b64_loop_base64 [of bs 30 "[]" 64] n by simp
  moreover have "cstr (base64 bs @ replicate 2 NUL) = base64 bs"
    using cstr_append [OF base64_chars, of bs "[NUL]"] by (simp add: numeral_2_eq_2)
  ultimately show ?thesis using assms n t by (simp add: base64_encode_def)
qed

section \<open>Frames are read back\<close>

lemma c_code_byte: "c_code (ws_byte x) = unat x mod 256"
  by (simp add: ws_byte_def c_code_def unsigned_ucast_eq take_bit_eq_mod)

lemma unat_drop: "unat (drop_bit k (x :: u64)) = unat x div 2 ^ k"
  by (rule trans [OF unat_drop_bit_eq drop_bit_eq_div])

lemma byte_up: "256 * (n div (256 * k)) + n div k mod 256 = n div (k :: nat)"
proof -
  have "n div (256 * k) = n div k div 256" by (metis div_mult2_eq mult.commute)
  then show ?thesis by (metis add.commute mod_mult_div_eq mult.commute)
qed

lemma be_number_2: "n < 2 ^ 16 \<Longrightarrow> 256 * (n div 2 ^ 8 mod 256) + n mod 256 = (n :: nat)"
  by simp

lemma be_number_8:
  assumes "n < 2 ^ 63"
  shows "256 * (256 * (256 * (256 * (256 * (256 * (256 * (n div 2 ^ 56 mod 256) + n div 2 ^ 48 mod 256) + n div 2 ^ 40 mod 256) +
    n div 2 ^ 32 mod 256) + n div 2 ^ 24 mod 256) + n div 2 ^ 16 mod 256) + n div 2 ^ 8 mod 256) + n mod 256 = (n :: nat)"
proof -
  have "n div 2 ^ 56 mod 256 = n div 2 ^ 56" using assms by simp
  then show ?thesis
    using byte_up [of n "2 ^ 48"] byte_up [of n "2 ^ 40"] byte_up [of n "2 ^ 32"] byte_up [of n "2 ^ 24"] byte_up [of n "2 ^ 16"]
      byte_up [of n "2 ^ 8"] byte_up [of n 1] by simp
qed

lemma ws_parse_frame:
  assumes "length r < 2 ^ 63"
  shows "ws_parse (ws_header (word_of_nat (length r)) @ r @ s) = Some (r, s)"
proof -
  let ?n = "length r" and ?w = "word_of_nat (length r) :: u64"
  have w: "unat ?w = ?n" using assms by (simp add: unsigned_of_nat take_bit_nat_eq_self)
  have c: "c_code (char_of (129 :: nat)) = 129" "c_code (char_of (126 :: nat)) = 126" "c_code (char_of (127 :: nat)) = 127"
    by (simp_all add: c_code_def)
  have le: "?w \<le> 125 \<longleftrightarrow> ?n \<le> 125" "?w \<le> 65535 \<longleftrightarrow> ?n \<le> 65535" using w by (simp_all add: word_le_nat_alt)
  consider "?n \<le> 125" | "125 < ?n" "?n \<le> 65535" | "65535 < ?n" by linarith
  then show ?thesis
  proof cases
    case 1
    then show ?thesis using le w c by (simp add: ws_header_def ws_parse_def c_code_byte)
  next
    case 2
    then show ?thesis
      using le w c be_number_2 [of ?n] by (simp add: ws_header_def ws_parse_def c_code_byte unat_drop be_number_def)
  next
    case 3
    then show ?thesis
      using le c be_number_8 [OF assms] by (simp add: ws_header_def ws_parse_def c_code_byte unat_drop be_number_def w)
  qed
qed

section \<open>The answer\<close>

lemma length_ws_answer: "length (ws_answer k) = length k + 130"
  by (simp add: ws_answer_def crlf_def)

text \<open>A longer key is written past the end of \<open>inpkey\<close>.\<close>

lemma key_too_long: "91 < length key \<Longrightarrow> websocket_handshake sha1 a b result key = None"
  by (simp add: websocket_handshake_def print_into_def WS_GUID_def)

text \<open>C34: a client that asks over a WebSocket gets its answer. For a key of at most 91 characters the handshake stays in its buffers, and
  what it sends is the HTTP answer with the base64 text, taken by the bits as the standard defines it, of the SHA-1 digest of the
  key and the fixed identifier, followed by a frame from which a reader of the protocol gets exactly the result, in each of the
  three forms of the length, and by a null character that does not belong to the frame.\<close>

theorem websocket_reply:
  assumes "length key \<le> 91" "length (sha1 (key @ WS_GUID)) = 20" "length result < 2 ^ 63"
  shows "\<exists>f. websocket_handshake sha1 True True result key = Some (0, Some (ws_answer (base64 (sha1 (key @ WS_GUID))) @ f @ [NUL])) \<and>
    ws_parse f = Some (result, [])"
proof (intro exI conjI)
  let ?f = "ws_header (word_of_nat (length result)) @ result"
  have "length (base64 (sha1 (key @ WS_GUID))) = 28" using assms(2) by (simp add: length_base64)
  then show "websocket_handshake sha1 True True result key = Some (0, Some (ws_answer (base64 (sha1 (key @ WS_GUID))) @ ?f @ [NUL]))"
    using assms(1) base64_encode_digest [OF assms(2)]
    by (simp add: websocket_handshake_def print_into_def WS_GUID_def length_ws_answer)
  show "ws_parse ?f = Some (result, [])" using ws_parse_frame [OF assms(3), of "[]"] by simp
qed

definition rfc_digest :: bytes where
  "rfc_digest = [0xb3, 0x7a, 0x4f, 0x2c, 0xc0, 0x62, 0x4f, 0x16, 0x90, 0xf6, 0x46, 0x06, 0xcf, 0x38, 0x59, 0x45, 0xb2, 0xbe, 0xc4, 0xea]"

lemma rfc_accept: "base64 rfc_digest = ''s3pPLMBiTxaQ9kYGzzhZRbK+xOo=''"
  by code_simp

theorem websocket_reply_witness:
  "\<exists>f. websocket_handshake (\<lambda>s. rfc_digest) True True ''bye|'' ''dGhlIHNhbXBsZSBub25jZQ=='' =
      Some (0, Some (ws_answer ''s3pPLMBiTxaQ9kYGzzhZRbK+xOo='' @ f @ [NUL])) \<and> ws_parse f = Some (''bye|'', [])"
  using websocket_reply [of "''dGhlIHNhbXBsZSBub25jZQ==''" "\<lambda>s. rfc_digest" "''bye|''"] by (simp add: rfc_accept) (simp add: rfc_digest_def)

end
