(* ===== verification/Api.thy ===== *)
theory Api
  imports Access Websock
begin

text \<open>The API server of \<open>api.cpp\<close>: the commands, the requests (plain or over HTTP) and the loop of the thread, with the listener that answers
  discovery requests. Sockets, the clock, the system files, formats of floating-point numbers and SHA-1 are parameters; a command
  runs without another thread in between, which is what its environment does before it.\<close>

section \<open>State\<close>

record ('j, 'f) api =
  ap_ops :: "('j, 'f) opts"
  ap_bye :: bool
  ap_startup :: int
  ap_sent :: "string list"          \<comment> \<open>what was sent to clients\<close>

text \<open>One pass of the loop: the client (None when \<open>accept\<close> fails), what is received from it (None when \<open>recv\<close> fails), and what other
  threads have done to the globals before.\<close>

record ('j, 'f) api_env =
  ae_e :: "('j, 'f) opt_env"
  ae_client :: "u32 option"
  ae_recv :: "string option"
  ae_other :: "'f miner \<Rightarrow> 'f miner"
  ae_fmt :: "nat \<Rightarrow> 'f \<Rightarrow> string"     \<comment> \<open>\<open>%.nf\<close>\<close>
  ae_fmt_g :: "'f \<Rightarrow> string"          \<comment> \<open>\<open>%g\<close>\<close>
  ae_program :: "string \<times> string"    \<comment> \<open>\<open>PACKAGE_NAME\<close>, \<open>PACKAGE_VERSION\<close>\<close>
  ae_os :: "string option"           \<comment> \<open>the word behind \<open>Linux version\<close> in \<open>/proc/version\<close>, if there is one\<close>
  ae_cpu :: "int \<times> u32"              \<comment> \<open>\<open>(int) cpu_temp(0)\<close>, \<open>cpu_clock(0)\<close>\<close>
  ae_sha1 :: "string \<Rightarrow> bytes"
  ae_alloc :: "bool \<times> bool"          \<comment> \<open>the two allocations of the handshake\<close>

abbreviation ae_F :: "('j, 'f) api_env \<Rightarrow> 'f fops" where "ae_F e \<equiv> oe_F (ae_e e)"
abbreviation ae_now :: "('j, 'f) api_env \<Rightarrow> int" where "ae_now e \<equiv> an_now (oe_A (ae_e e))"
abbreviation ap_m :: "('j, 'f) api \<Rightarrow> 'f miner" where "ap_m s \<equiv> o_m (ap_ops s)"

definition set_m :: "'f miner \<Rightarrow> ('j, 'f) api \<Rightarrow> ('j, 'f) api" where
  "set_m m s = s\<lparr>ap_ops := (ap_ops s)\<lparr>o_m := m\<rparr>\<rparr>"

section \<open>Formats\<close>

definition pr_u :: "'a::len word \<Rightarrow> string" where "pr_u x = dec_nat (unat x)"
definition pr_d :: "u32 \<Rightarrow> string" where "pr_d x = dec_int (int32 (uint x))"

fun hex_nat :: "nat \<Rightarrow> string" where
  "hex_nat n = (if n < 16 then [hexdigit n] else hex_nat (n div 16) @ [hexdigit (n mod 16)])"

declare hex_nat.simps [simp del]

definition pr_x :: "u32 \<Rightarrow> string" where "pr_x x = hex_nat (unat x)"

text \<open>\<open>sprintf(buffer, ...)\<close>: \<open>buffer\<close> has \<open>MYBUFSIZ + 1\<close> characters.\<close>

definition MYBUFSIZ :: nat where "MYBUFSIZ = 16384"

definition put :: "string list \<Rightarrow> string option" where
  "put ss = print_into (MYBUFSIZ + 1) (concat ss)"

section \<open>Commands that read\<close>

definition getsummary :: "('j, 'f) api_env \<Rightarrow> ('j, 'f) api \<Rightarrow> string option" where
  "getsummary e s = do {
     let m = ap_m s;
     let F = ae_F e;
     ps \<leftarrow> rdn (pools m) 0 (nat (num_pools m));
     let uptime = f_of_int F (ae_now e - ap_startup s);
     let accepted = sum_list (map pool_accepted_count ps);
     let accps = f_div F (f_mul F (f_lit F 60 0) (f_of_int F (uint accepted))) (if f_eq F uptime (f_lit F 0 0) then f_lit F 1 0 else uptime);
     algo \<leftarrow> get_currentalgo (opt_algo m) (cryptonight_fork (ap_ops s)) 64;
     put [''NAME='', fst (ae_program e), '';VER='', snd (ae_program e), '';API=1.9;ALGO='', algo, '';GPUS='', dec_int (active_gpus (ap_ops s)),
       '';KHS='', ae_fmt e 2 (f_div F (f_of_int F (uint (global_hashrate m))) (f_lit F 1000 0)),
       '';SOLV='', pr_d (sum_list (map pool_solved_count ps)), '';ACC='', pr_d accepted, '';REJ='', pr_d (sum_list (map pool_rejected_count ps)),
       '';ACCMN='', ae_fmt e 3 accps, '';DIFF='', ae_fmt e 6 (if f_lt F (f_lit F 1 (- 6)) (net_diff m) then net_diff m else stratum_diff m),
       '';NETKHS='', ae_fmt e 0 (f_div F (f_of_int F (uint (net_hashrate m))) (f_lit F 1000 0)),
       '';POOLS='', pr_u (word_of_int (num_pools m) :: u32), '';WAIT='', pr_u (sum_list (map pool_wait_time ps)),
       '';UPTIME='', ae_fmt e 0 uptime, '';TS='', pr_u (word_of_int (ae_now e) :: u32), ''|''] }"

text \<open>The text about threads is empty: all statistics are commented out. (The speed of each thread is still stored, in a field that is always
  stored again before it is read; this store is left out.)\<close>

definition getthreads :: "('j, 'f) api_env \<Rightarrow> ('j, 'f) api \<Rightarrow> string" where
  "getthreads e s = concat (map (\<lambda>i. []) [0..<nat (opt_n_threads (ap_m s))])"

text \<open>The extra nonce in hexadecimal, in a buffer of 96 characters; \<open>xnonce2\<close> points into the coinbase.\<close>

definition extra_text :: "int \<Rightarrow> 'f stratum_ctx \<Rightarrow> string option" where
  "extra_text algo c = (case job_coinbase (ctx_job c) of
     None \<Rightarrow> Some []
   | Some cb \<Rightarrow>
       if algo = ALGO_DECRED then do {
         x \<leftarrow> ctx_xnonce1 c;
         x \<leftarrow> rdn x 0 (min 36 (ctx_xnonce2_size c));
         compat \<leftarrow> rdn cb (job_xnonce2 (ctx_job c)) 4;
         Some (''0x'' @ cbin2hex compat @ drop 8 (cbin2hex x)) }
       else do {
         x \<leftarrow> rdn cb (job_xnonce2 (ctx_job c)) (ctx_xnonce2_size c);
         print_into 96 (''0x'' @ cbin2hex x) })"

text \<open>The job id is cut to the size of the pointer to it.\<close>

definition getpoolnfo :: "('j, 'f) api_env \<Rightarrow> string option \<Rightarrow> ('j, 'f) api \<Rightarrow> string option" where
  "getpoolnfo e params s = do {
     let m = ap_m s;
     let c = stratum m;
     pooln \<leftarrow> (case params of None \<Rightarrow> Some (cur_pooln m) | Some a \<Rightarrow> if num_pools m = 0 then None else Some (atoi a smod num_pools m));
     p \<leftarrow> rd_int (pools m) pooln;
     let last_share = (if pool_last_share_time p \<noteq> 0 then word_of_int (ae_now e - pool_last_share_time p) else 0 :: u32);
     extra \<leftarrow> extra_text (pool_algo p) c;
     algo \<leftarrow> rd_int algo_names (pool_algo p);
     let jobid = (case job_job_id (ctx_job c) of None \<Rightarrow> [] | Some j \<Rightarrow> take 8 j);
     Some (fit MYBUFSIZ (concat [''POOL='', if pool_name p \<noteq> [] then pool_name p else pool_short_url p, '';ALGO='', algo, '';URL='', pool_url p,
       '';USER='', if is_stratum p then pool_user p else [], '';SOLV='', pr_d (pool_solved_count p), '';ACC='', pr_d (pool_accepted_count p),
       '';REJ='', pr_d (pool_rejected_count p), '';STALE='', pr_u (pool_stales_count p), '';H='', pr_u (job_height (ctx_job c)),
       '';JOB='', jobid, '';DIFF='', ae_fmt e 6 (stratum_diff m), '';BEST='', ae_fmt e 6 (pool_best_share p),
       '';N2SZ='', dec_nat (ctx_xnonce2_size c), '';N2='', extra, '';PING='', pr_u (ctx_answer_msec c), '';DISCO='', pr_u (pool_disconnects p),
       '';WAIT='', pr_u (pool_wait_time p), '';UPTIME='', pr_u (pool_work_time p), '';LAST='', pr_u last_share, ''|''])) }"

definition os_name :: "string option \<Rightarrow> string" where
  "os_name v = (case v of None \<Rightarrow> ''linux'' | Some w \<Rightarrow> take 48 (''linux '' @ take 48 w))"

definition gethwinfos :: "('j, 'f) api_env \<Rightarrow> ('j, 'f) api \<Rightarrow> string" where
  "gethwinfos e s = fit 256 (concat [''OS='', os_name (ae_os e), '';NVDRIVER=;CPUS='', dec_int (num_cpus (ap_ops s)),
     '';CPUTEMP='', dec_int (fst (ae_cpu e)), '';CPUFREQ='', pr_d (snd (ae_cpu e) div 1000), ''|''])"

definition history_text :: "('j, 'f) api_env \<Rightarrow> 'f stats_data \<Rightarrow> string" where
  "history_text e d = concat [''CPU=0;H='', pr_u (sd_height d),
     '';KHS='', ae_fmt e 2 (f_mul (ae_F e) (f_of_int (ae_F e) (uint (sd_globalhashcount d))) (f_lit (ae_F e) 1 0)),
     '';DIFF='', ae_fmt_g e (sd_difficulty d), '';COUNT='', pr_u (sd_hashcount d), '';FOUND='', pr_u (sd_hashfound d), '';ID='', pr_u (sd_uid d),
     '';TS='', pr_u (sd_tm_stat d), ''|'']"

definition gethistory :: "('j, 'f) api_env \<Rightarrow> string option \<Rightarrow> ('j, 'f) api \<Rightarrow> string option" where
  "gethistory e params s =
     put (map (history_text e) (stats_get_history (case params of None \<Rightarrow> - 1 | Some a \<Rightarrow> atoi a) 50 (scans (ap_m s))))"

definition scanlog_text :: "('j, 'f) api_env \<Rightarrow> 'f hashlog_data \<Rightarrow> string" where
  "scanlog_text e d = concat [''H='', pr_u (hl_height d), '';P='', pr_u (hl_npool d), '';JOB='', pr_u (hl_njobid d), '';ID='', pr_u (hl_job_nonce_id d),
     '';DIFF='', ae_fmt_g e (hl_sharediff d), '';N=0x'', pr_x (hl_nonce d), '';FROM=0x'', pr_x (hl_scanned_from d),
     '';SCANTO=0x'', pr_x (hl_scanned_to d), '';COUNT=0x'', pr_x (hl_scanned_to d - hl_scanned_from d),
     '';FOUND='', if hl_tm_sent d \<noteq> 0 then ''1'' else ''0'', '';TS='', pr_u (hl_tm_upd d), ''|'']"

definition getscanlog :: "('j, 'f) api_env \<Rightarrow> ('j, 'f) api \<Rightarrow> string option" where
  "getscanlog e s = put (map (scanlog_text e) (hashlog_get_history (shares (ap_m s)) 50))"

definition getmeminfo :: "('j, 'f) api \<Rightarrow> string option" where
  "getmeminfo s =
     (let (smem, srec) = stats_getmeminfo (scans (ap_m s)); (hmem, hrec) = hashlog_getmeminfo (shares (ap_m s))
      in put [''STATS='', pr_u srec, '';HASHLOG='', pr_u hrec, '';MEM='', pr_u (smem + hmem), ''|''])"

definition gethelp :: "('j, 'f) api \<Rightarrow> string option" where
  "gethelp s = put (map (\<lambda>(name, w). name @ [CHR 0x0A]) (filter (\<lambda>(name, w). \<not> w \<or> opt_api_allow (ap_ops s) \<noteq> None) (butlast cmds)) @ [''|''])"

section \<open>Commands that change the miner\<close>

definition ok_text :: "bool \<Rightarrow> string" where
  "ok_text r = (if r then ''ok|'' else ''fail|'')"

definition no_params :: "string option \<Rightarrow> bool" where
  "no_params params \<longleftrightarrow> params = None \<or> params = Some []"

definition remote_switchpool :: "('j, 'f) api_env \<Rightarrow> string option \<Rightarrow> ('j, 'f) api \<Rightarrow> (string \<times> ('j, 'f) api) option" where
  "remote_switchpool e params s = do {
     let m = ap_m s;
     let A = oe_A (ae_e e);
     (ret, m) \<leftarrow> (if no_params params then pool_switch_next A m
       else let n = atoi (the params) in
         if n = cur_pooln m then Some (True, m)
         else if n < num_pools m then pool_switch A n m
         else Some (False, m));
     Some (ok_text ret, set_m m s) }"

definition remote_seturl :: "('j, 'f) api_env \<Rightarrow> string option \<Rightarrow> ('j, 'f) api \<Rightarrow> (string \<times> ('j, 'f) api) parsed option" where
  "remote_seturl e params s =
     (if no_params params then do { (ret, m) \<leftarrow> pool_switch_next (oe_A (ae_e e)) (ap_m s); Some (Parsed (ok_text ret, set_m m s)) }
      else and_parse (pool_switch_url (ae_e e) (the params) (ap_ops s)) (\<lambda>(ret, ops). Some (Parsed (ok_text ret, s\<lparr>ap_ops := ops\<rparr>))))"

definition remote_quit :: "('j, 'f) api \<Rightarrow> string \<times> ('j, 'f) api" where
  "remote_quit s = (''bye|'', s\<lparr>ap_bye := True\<rparr>)"

text \<open>The function in the table for a name.\<close>

definition answers_with :: "('j, 'f) api \<Rightarrow> string option \<Rightarrow> (string \<times> ('j, 'f) api) parsed option" where
  "answers_with s t = map_option (\<lambda>t. Parsed (t, s)) t"

definition exec_cmd :: "('j, 'f) api_env \<Rightarrow> string \<Rightarrow> string option \<Rightarrow> ('j, 'f) api \<Rightarrow> (string \<times> ('j, 'f) api) parsed option" where
  "exec_cmd e name params s =
     (if name = ''summary'' then answers_with s (getsummary e s)
      else if name = ''threads'' then answers_with s (Some (getthreads e s))
      else if name = ''pool'' then answers_with s (getpoolnfo e params s)
      else if name = ''histo'' then answers_with s (gethistory e params s)
      else if name = ''hwinfo'' then answers_with s (Some (gethwinfos e s))
      else if name = ''meminfo'' then answers_with s (getmeminfo s)
      else if name = ''scanlog'' then answers_with s (getscanlog e s)
      else if name = ''seturl'' then remote_seturl e params s
      else if name = ''switchpool'' then map_option Parsed (remote_switchpool e params s)
      else if name = ''quit'' then Some (Parsed (remote_quit s))
      else answers_with s (gethelp s))"

section \<open>Requests\<close>

text \<open>What \<open>recv\<close> stored, as a C string: without a final \<open>\n\<close> and a \<open>\r\<close> before it.\<close>

definition received :: "string \<Rightarrow> string" where
  "received d = cstr
     (if d \<noteq> [] \<and> last d = CHR 0x0A
      then (let d = butlast d in if d \<noteq> [] \<and> last d = CHR 0x0D then butlast d else d) else d)"

text \<open>The path of an HTTP request as a command: the first \<open>/\<close> becomes \<open>|\<close>, the text ends at the second.\<close>

definition path_command :: "string \<Rightarrow> string" where
  "path_command cmd = (case split_first (CHR ''/'') cmd of None \<Rightarrow> cmd | Some (a, b) \<Rightarrow> a @ CHR ''|'' # fst (cut_at (CHR ''/'') b))"

text \<open>The offset of the WebSocket key behind the start of its header line \<open>w\<close>. Without a colon in the line the code follows a null
  pointer.\<close>

definition key_offset :: "string \<Rightarrow> nat option" where
  "key_offset w = do {
     (a, b) \<leftarrow> split_first (CHR '':'') (fst (cut_at (CHR 0x0D) w));
     Some (length a + 1 + length (takeWhile (\<lambda>c. c = CHR '' '') b)) }"

text \<open>The buffer after the request is taken apart, and where in it the key is. \<open>sscanf\<close> writes the path to 256 characters without a
  check.\<close>

definition parse_request :: "string \<Rightarrow> (string \<times> nat option) option" where
  "parse_request s = (case find_str ''GET /'' s of
     None \<Rightarrow> Some (s @ [NUL], None)
   | Some msg \<Rightarrow>
       if length msg \<le> 5 then Some (s @ [NUL], None)
       else do {
         cmd \<leftarrow> print_into 256 (takeWhile (\<lambda>c. \<not> isspace c) (dropWhile isspace (drop 5 msg)));
         let buf = splice (s @ [NUL]) 0 (path_command cmd @ [NUL]);
         case find_str ''Sec-WebSocket-Key'' msg of
           None \<Rightarrow> Some (buf, None)
         | Some w \<Rightarrow> do {
             let start = length s - length w;
             let eol = start + length (fst (cut_at (CHR 0x0D) w));
             k \<leftarrow> key_offset w;
             Some (splice ((s @ [NUL])[eol := NUL]) 0 (path_command cmd @ [NUL]), Some (start + k)) } })"

text \<open>The parameters: behind the first \<open>|\<close>, which is replaced by a null character, as is a last \<open>|\<close> of the parameters.\<close>

definition split_params :: "string \<Rightarrow> string \<times> nat option" where
  "split_params buf = (case split_first (CHR ''|'') (cstr buf) of None \<Rightarrow> (buf, None) | Some (a, b) \<Rightarrow> (buf[length a := NUL], Some (length a + 1)))"

definition strip_bar :: "string \<Rightarrow> nat \<Rightarrow> string" where
  "strip_bar buf p = (let s = cstr (drop p buf) in if s \<noteq> [] \<and> last s = CHR ''|'' then buf[p + length s - 1 := NUL] else buf)"

text \<open>A request: the name, the parameters and the WebSocket key.\<close>

definition request_of :: "string \<Rightarrow> (string \<times> string option \<times> string option) option" where
  "request_of d = do {
     (buf, key) \<leftarrow> parse_request (received d);
     let (buf, p) = split_params buf;
     let buf = (case p of None \<Rightarrow> buf | Some p \<Rightarrow> strip_bar buf p);
     Some (cstr buf, map_option (\<lambda>p. cstr (drop p buf)) p, map_option (\<lambda>k. cstr (drop k buf)) key) }"

text \<open>What is executed and sent. A name that is not in the table gets no answer.\<close>

definition serve :: "('j, 'f) api_env \<Rightarrow> string \<Rightarrow> ('j, 'f) api \<Rightarrow> ('j, 'f) api parsed option" where
  "serve e d s = do {
     (name, params, key) \<leftarrow> request_of d;
     if name \<notin> set (map fst cmds) then Some (Parsed s)
     else and_parse (exec_cmd e name params s) (\<lambda>(result, s).
       case key of
         None \<Rightarrow> Some (Parsed (s\<lparr>ap_sent := ap_sent s @ [result @ [NUL]]\<rparr>))
       | Some k \<Rightarrow> do {
           (_, out) \<leftarrow> websocket_handshake (ae_sha1 e) (fst (ae_alloc e)) (snd (ae_alloc e)) result k;
           Some (Parsed (case out of None \<Rightarrow> s | Some t \<Rightarrow> s\<lparr>ap_sent := ap_sent s @ [t]\<rparr>)) }) }"

section \<open>The server\<close>

text \<open>One pass of the loop, for a client that connected: only an accepted client is read from. The group is not looked at.\<close>

definition api_round :: "ip4access list \<Rightarrow> ('j, 'f) api_env \<Rightarrow> u32 \<Rightarrow> ('j, 'f) api \<Rightarrow> ('j, 'f) api parsed option" where
  "api_round ips e client s =
     (let ops = ap_ops s; (addrok, group) = check_connect (opt_api_allow ops) (opt_api_bind ops) ips client
      in if addrok then (case ae_recv e of None \<Rightarrow> Some (Parsed s) | Some d \<Rightarrow> serve e d s) else Some (Parsed s))"

text \<open>The loop over the clients that come; it ends when one cannot be accepted, after \<open>quit\<close>, and when the program is ending.\<close>

fun api_loop :: "ip4access list \<Rightarrow> ('j, 'f) api_env list \<Rightarrow> ('j, 'f) api \<Rightarrow> ('j, 'f) api parsed option" where
  "api_loop ips [] s = Some (Parsed s)"
| "api_loop ips (e # es) s =
     (if ap_bye s \<or> abort_flag (ap_m s) then Some (Parsed s)
      else let s = set_m (ae_other e (ap_m s)) s in
        case ae_client e of
          None \<Rightarrow> Some (Parsed s)
        | Some client \<Rightarrow> and_parse (api_round ips e client s) (api_loop ips es))"

text \<open>The port: each attempt to bind succeeds or not, and comes after the limit of 61 seconds or not. The default port is counted up.\<close>

fun bind_loop :: "int \<Rightarrow> u16 \<Rightarrow> (bool \<times> bool) list \<Rightarrow> u16 option" where
  "bind_loop opt_port port [] = None"
| "bind_loop opt_port port ((ok, late) # r) =
     (if ok then Some port else if late then None else bind_loop opt_port (if opt_port = 4068 then port + 1 else port) r)"

text \<open>\<open>api\<close>: \<open>opened\<close> tells whether the socket, its address and \<open>listen\<close> are fine.\<close>

definition api_setup :: "('j, 'f) opts \<Rightarrow> ip4access list parsed option" where
  "api_setup ops = and_parse (setup_groups (opt_api_groups ops)) (\<lambda>G.
     case opt_api_allow ops of
       None \<Rightarrow> Some (Parsed [])
     | Some a \<Rightarrow> map_option Parsed (setup_ipaccess G a))"

definition api_server :: "bool \<Rightarrow> (bool \<times> bool) list \<Rightarrow> ('j, 'f) api_env list \<Rightarrow> ('j, 'f) api \<Rightarrow> ('j, 'f) api parsed option" where
  "api_server opened binds es s =
     (let ops = ap_ops s in
      if opt_api_port ops = 0 \<and> opt_debug (o_m ops) then Some (Parsed s)
      else and_parse (api_setup ops) (\<lambda>ips.
        if \<not> opened then Some (Parsed s)
        else case bind_loop (opt_api_port ops) (word_of_int (opt_api_port ops)) binds of
          None \<Rightarrow> Some (Parsed s)
        | Some port \<Rightarrow> api_loop ips es (s\<lparr>ap_ops := ops\<lparr>opt_api_port := uint port\<rparr>\<rparr>)))"

text \<open>\<open>api_thread\<close>: after \<open>quit\<close> the program ends with code 1, unless it is ending already.\<close>

definition api_thread :: "bool \<Rightarrow> (bool \<times> bool) list \<Rightarrow> ('j, 'f) api_env list \<Rightarrow> int \<Rightarrow> ('j, 'f) api \<Rightarrow> ('j, 'f) api parsed option" where
  "api_thread opened binds es now s =
     and_parse (api_server opened binds es (s\<lparr>ap_startup := now\<rparr>)) (\<lambda>s.
       if ap_bye s then do {
         (r, m) \<leftarrow> proper_exit 1 (ap_m s);
         Some (case r of None \<Rightarrow> Parsed (set_m m s) | Some n \<Rightarrow> Exits n) }
       else Some (Parsed s))"

text \<open>The discovery listener (\<open>mcast\<close>): the port and the text of the answer to a datagram.\<close>

definition mcast_reply :: "('j, 'f) opts \<Rightarrow> ip4access list \<Rightarrow> u32 \<Rightarrow> string \<Rightarrow> (int \<times> string) option" where
  "mcast_reply ops ips client d =
     (if \<not> fst (check_connect (opt_api_allow ops) (opt_api_bind ops) ips client) then None
      else let d = (if d \<noteq> [] \<and> last d = CHR 0x0A then butlast d else d);
               code = ''ccminer-'' @ opt_api_mcast_code ops @ ''-'';
               port = atoi (cstr (drop (length code) d))
        in if length d > length code \<and> take (length code) d = code \<and> 1 \<le> port \<and> port \<le> 65535
           then Some (port, fit 1024 (''ccm-'' @ opt_api_mcast_code ops @ ''-'' @ dec_int (opt_api_port ops) @ ''-'' @ opt_api_mcast_des ops) @ [NUL])
           else None)"

end
