(* ===== verification/Apisafe.thy ===== *)
theory Apisafe
  imports Api
begin

text \<open>What the API server of \<open>Api\<close> guarantees: which requests it understands, that its answers fit into the buffer and its commands keep
  the invariant of the miner, so that a mining thread is sound beside all other threads, from the start of the program on.\<close>

section \<open>Answers fit\<close>

lemma length_pr_u: "length (pr_u (x :: u32)) \<le> 10" "length (pr_u (y :: u8)) \<le> 3" "length (pr_u (z :: u64)) \<le> 20"
proof -
  have u: "unat x < 10 ^ Suc 9" "unat y < 10 ^ Suc 2" "unat z < 10 ^ Suc 19"
    using unsigned_less [of x, where 'a = nat] unsigned_less [of y, where 'a = nat] unsigned_less [of z, where 'a = nat] by simp_all
  show "length (pr_u x) \<le> 10" "length (pr_u y) \<le> 3" "length (pr_u z) \<le> 20"
    using length_dec_nat [OF u(1)] length_dec_nat [OF u(2)] length_dec_nat [OF u(3)] by (simp_all add: pr_u_def)
qed

lemma length_pr_d: "length (pr_d x) < 16"
  unfolding pr_d_def by (rule length_dec_int32)

lemma length_hex_nat: "n < 16 ^ Suc k \<Longrightarrow> length (hex_nat n) \<le> Suc k"
proof (induction k arbitrary: n)
  case 0
  then show ?case by (subst hex_nat.simps) simp
next
  case (Suc k)
  then have "length (hex_nat (n div 16)) \<le> Suc k" by (intro Suc.IH) simp
  then show ?case by (subst hex_nat.simps) simp
qed

lemma length_pr_x: "length (pr_x x) \<le> 8"
proof -
  have "unat x < 16 ^ Suc 7" using unsigned_less [of x, where 'a = nat] by simp
  then show ?thesis using length_hex_nat [of "unat x" 7] by (simp add: pr_x_def)
qed

text \<open>How long \<open>printf\<close> makes a double, an integer below \<open>2 ^ 32\<close> with two decimals, and the names of the program.\<close>

definition formats_ok :: "('j, 'f) api_env \<Rightarrow> bool" where
  "formats_ok e \<longleftrightarrow> (\<forall>x. length (ae_fmt_g e x) \<le> 13) \<and> (\<forall>n x. length (ae_fmt e n x) \<le> 311 + n) \<and>
     (\<forall>g :: u32. length (ae_fmt e 2 (f_mul (ae_F e) (f_of_int (ae_F e) (uint g)) (f_lit (ae_F e) 1 0))) \<le> 13) \<and>
     length (fst (ae_program e)) \<le> 64 \<and> length (snd (ae_program e)) \<le> 64"

lemma put_fits: "length (concat ss) \<le> 16384 \<Longrightarrow> put ss = Some (concat ss)"
  by (simp add: put_def print_into_def MYBUFSIZ_def)

lemma length_concat_map: "(\<And>d. d \<in> set ds \<Longrightarrow> length (f d) \<le> k) \<Longrightarrow> length (concat (map f ds)) \<le> k * length ds"
  by (induction ds) fastforce+

lemma put_records:
  assumes "\<And>d. length (f d) \<le> 160" "length ds \<le> 50"
  shows "returns (put (map f ds)) (\<lambda>t. True)"
proof -
  have "length (concat (map f ds)) \<le> 160 * length ds" by (rule length_concat_map) (rule assms(1))
  also have "\<dots> \<le> 160 * 50" by (rule mult_le_mono2 [OF assms(2)])
  finally show ?thesis using put_fits [of "map f ds"] by (simp add: returns_def)
qed

lemma length_history_text: "formats_ok e \<Longrightarrow> length (history_text e d) \<le> 160"
proof -
  assume f: "formats_ok e"
  have "length (ae_fmt e 2 (f_mul (ae_F e) (f_of_int (ae_F e) (uint (sd_globalhashcount d))) (f_lit (ae_F e) 1 0))) \<le> 13"
    "length (ae_fmt_g e (sd_difficulty d)) \<le> 13" using f unfolding formats_ok_def by blast+
  then show ?thesis
    using length_pr_u(1) [of "sd_height d"] length_pr_u(1) [of "sd_hashcount d"] length_pr_u(2) [of "sd_hashfound d"]
      length_pr_u(1) [of "sd_uid d"] length_pr_u(1) [of "sd_tm_stat d"] by (simp add: history_text_def)
qed

lemma length_scanlog_text: "formats_ok e \<Longrightarrow> length (scanlog_text e d) \<le> 160"
proof -
  assume f: "formats_ok e"
  have "length (ae_fmt_g e (hl_sharediff d)) \<le> 13" using f unfolding formats_ok_def by blast
  then show ?thesis
    using length_pr_u(1) [of "hl_height d"] length_pr_u(2) [of "hl_npool d"] length_pr_u(1) [of "hl_njobid d"] length_pr_u(2) [of "hl_job_nonce_id d"]
      length_pr_u(1) [of "hl_tm_upd d"] length_pr_x [of "hl_nonce d"] length_pr_x [of "hl_scanned_from d"] length_pr_x [of "hl_scanned_to d"]
      length_pr_x [of "hl_scanned_to d - hl_scanned_from d"] by (simp add: scanlog_text_def)
qed

lemma gethistory_fits: "formats_ok e \<Longrightarrow> returns (gethistory e params s) (\<lambda>t. True)"
  unfolding gethistory_def by (rule put_records [OF length_history_text]) (simp_all add: stats_get_history_def)

lemma getscanlog_fits: "formats_ok e \<Longrightarrow> returns (getscanlog e s) (\<lambda>t. True)"
  unfolding getscanlog_def by (rule put_records [OF length_scanlog_text]) (simp_all add: hashlog_get_history_def)

lemma getmeminfo_fits: "returns (getmeminfo s) (\<lambda>t. True)"
proof -
  have "returns (put [''STATS='', pr_u x, '';HASHLOG='', pr_u y, '';MEM='', pr_u z, ''|'']) (\<lambda>t. True)" for x y :: u32 and z :: u64
    using length_pr_u(1) [of x] length_pr_u(1) [of y] length_pr_u(3) [of z] by (simp add: put_fits returns_def)
  then show ?thesis by (simp add: getmeminfo_def split_beta)
qed

lemma gethelp_fits: "returns (gethelp s) (\<lambda>t. True)"
  by (simp add: gethelp_def cmds_def put_fits returns_def)

lemma put_short: "list_all (\<lambda>s. length s \<le> 400) ss \<Longrightarrow> length ss \<le> 40 \<Longrightarrow> returns (put ss) (\<lambda>t. True)"
proof -
  assume a: "list_all (\<lambda>s. length s \<le> 400) ss" "length ss \<le> 40"
  have "length (concat (map (\<lambda>s. s) ss)) \<le> 400 * length ss" by (rule length_concat_map) (use a(1) in \<open>simp add: list_all_iff\<close>)
  also have "\<dots> \<le> 400 * 40" by (rule mult_le_mono2 [OF a(2)])
  finally show ?thesis using put_fits [of ss] by (simp add: returns_def)
qed

lemma short_parts:
  "length (pr_u (x :: u32)) \<le> 400" "length (pr_d x) \<le> 400"
  using length_pr_u(1) [of x] length_pr_d [of x] by linarith+

lemma short_formats:
  assumes "formats_ok e"
  shows "n \<le> 6 \<Longrightarrow> length (ae_fmt e n d) \<le> 400" "length (fst (ae_program e)) \<le> 400" "length (snd (ae_program e)) \<le> 400"
proof -
  have "length (ae_fmt e n d) \<le> 311 + n" using assms unfolding formats_ok_def by blast
  then show "n \<le> 6 \<Longrightarrow> length (ae_fmt e n d) \<le> 400" by linarith
  show "length (fst (ae_program e)) \<le> 400" "length (snd (ae_program e)) \<le> 400" using assms by (simp_all add: formats_ok_def)
qed

lemma returns_True_bind: "returns x P \<Longrightarrow> (\<And>y. P y \<Longrightarrow> returns (f y) (\<lambda>t. True)) \<Longrightarrow> returns (Option.bind x f) (\<lambda>t. True)"
  by (auto simp: returns_def)

lemma equihash_name: "rd_int algo_names ALGO_EQUIHASH = Some ''verus''"
  by code_simp

lemma getsummary_fits:
  assumes "formats_ok e" "mine_ok S i (ap_m s)" "active_gpus (ap_ops s) = 1"
  shows "returns (getsummary e s) (\<lambda>t. True)"
proof -
  have n: "nat (num_pools (ap_m s)) \<le> length (pools (ap_m s))" "opt_algo (ap_m s) = ALGO_EQUIHASH"
    using mine_okD(1,5) [OF assms(2)] by (auto simp: wf_miner_def nat_le_iff)
  have algo: "get_currentalgo ALGO_EQUIHASH k 64 = Some ''verus''" for k
    using equihash_name by (simp add: get_currentalgo_def ALGO_EQUIHASH_def ALGO_CRYPTONIGHT_def)
  have g: "length (dec_int 1) \<le> 400" by code_simp
  show ?thesis
    unfolding getsummary_def Let_def n(2) algo Option.bind.simps assms(3)
    by (rule returns_True_bind, rule returns_rdn [where P = "\<lambda>x. True"], use n(1) in simp, simp, rule put_short)
      (use short_formats [OF assms(1)] short_parts g in \<open>simp_all del: fst_conv\<close>)
qed

section \<open>The current pool\<close>

lemma extra_text_returns:
  assumes "gen_ready c"
  shows "returns (extra_text ALGO_EQUIHASH c) (\<lambda>t. True)"
proof (cases "job_coinbase (ctx_job c)")
  case None
  then show ?thesis by (simp add: extra_text_def returns_def)
next
  case (Some cb)
  then have "job_job_id (ctx_job c) \<noteq> None" using assms by (simp add: gen_ready_def wf_ctx_def wf_job_def)
  then obtain x rr x1 x2 where "cb = rr @ x1 @ x2" "length rr = 64" "job_xnonce2 (ctx_job c) = 64 + length x1"
    "length x2 = ctx_xnonce2_size c" "ctx_xnonce2_size c \<le> 32"
    using assms Some by (auto simp: gen_ready_def job_ready_def)
  then show ?thesis
    using Some by (simp add: extra_text_def ALGO_EQUIHASH_def ALGO_DECRED_def rdn_def print_into_def length_cbin2hex returns_def)
qed

lemma smod_pool: "0 \<le> a \<Longrightarrow> 0 < n \<Longrightarrow> 0 \<le> a smod n \<and> a smod n < (n :: int)"
  by (simp add: signed_modulo_int_def signed_divide_int_def sgn_if)

lemma getpoolnfo_returns:
  assumes "mine_ok S i (ap_m s)" "\<And>a. params = Some a \<Longrightarrow> 0 \<le> atoi a"
  shows "returns (getpoolnfo e params s) (\<lambda>t. True)"
proof -
  let ?m = "ap_m s"
  have m: "length (pools ?m) = MAX_POOLS" "0 \<le> cur_pooln ?m" "cur_pooln ?m < num_pools ?m" "num_pools ?m \<le> int MAX_POOLS"
    using mine_okD(1) [OF assms(1)] by (simp_all add: wf_miner_def)
  obtain k where k: "(case params of None \<Rightarrow> Some (cur_pooln ?m) | Some a \<Rightarrow> if num_pools ?m = 0 then None else Some (atoi a smod num_pools ?m)) = Some k"
    "0 \<le> k" "k < num_pools ?m"
    using m assms(2) smod_pool by (cases params) auto
  have p: "rd_int (pools ?m) k = Some (pools ?m ! nat k)" "pool_algo (pools ?m ! nat k) = ALGO_EQUIHASH"
    using k m assms(1) by (simp_all add: rd_int_Some mine_ok_def pools_ok_def)
  show ?thesis
    unfolding getpoolnfo_def Let_def k(1) Option.bind.simps p equihash_name
    by (rule returns_True_bind [OF extra_text_returns [OF mine_okD(6) [OF assms(1)]]]) (simp add: returns_def)
qed

section \<open>Commands keep the invariant\<close>

definition api_ok :: "sse \<Rightarrow> nat \<Rightarrow> ('j, 'f) api \<Rightarrow> bool" where
  "api_ok S i s \<longleftrightarrow> mine_ok S i (ap_m s) \<and> active_gpus (ap_ops s) = 1"

text \<open>Commands that do not change the address of a pool, and whose numbers are not negative.\<close>

definition safe_command :: "string \<Rightarrow> string option \<Rightarrow> bool" where
  "safe_command name params \<longleftrightarrow> (name = ''seturl'' \<longrightarrow> no_params params) \<and>
     (name = ''switchpool'' \<or> name = ''pool'' \<longrightarrow> params = None \<or> 0 \<le> atoi (the params))"

lemma api_ok_set_m [simp]: "api_ok S i s \<Longrightarrow> mine_ok S i m \<Longrightarrow> api_ok S i (set_m m s)"
  by (simp add: api_ok_def set_m_def)

lemma api_ok_simps [simp]: "api_ok S i (s\<lparr>ap_sent := l\<rparr>) = api_ok S i s" "api_ok S i (s\<lparr>ap_bye := b\<rparr>) = api_ok S i s"
  "api_ok S i (s\<lparr>ap_startup := n\<rparr>) = api_ok S i s"
  by (simp_all add: api_ok_def)

lemma runs_answers: "returns t (\<lambda>t. True) \<Longrightarrow> api_ok S i s \<Longrightarrow> runs (answers_with s t) (\<lambda>(r, s). api_ok S i s)"
  by (auto simp: answers_with_def returns_def runs_def)

lemma runs_map_option: "returns x P \<Longrightarrow> runs (map_option Parsed x) P"
  by (auto simp: runs_def returns_def)

lemma switchpool_ok:
  assumes "api_ok S i s" "\<forall>w. an_work (oe_A (ae_e e)) = Some w \<longrightarrow> wf_work w" "\<And>a. params = Some a \<Longrightarrow> 0 \<le> atoi a"
  shows "returns (remote_switchpool e params s) (\<lambda>(r, s). api_ok S i s)"
proof -
  have m: "mine_ok S i (ap_m s)" using assms(1) by (simp add: api_ok_def)
  have "returns (if no_params params then pool_switch_next (oe_A (ae_e e)) (ap_m s)
       else let n = atoi (the params) in
         if n = cur_pooln (ap_m s) then Some (True, ap_m s)
         else if n < num_pools (ap_m s) then pool_switch (oe_A (ae_e e)) n (ap_m s)
         else Some (False, ap_m s)) (\<lambda>(b, u). mine_ok S i u)"
    unfolding Let_def
    by (intro returns_if returns_switch_next [OF m assms(2)] returns_pool_switch [OF m _ _ assms(2)] returns_Some)
      (use m assms(3) in \<open>auto simp: no_params_def\<close>)
  note this [unfolded Let_def]
  then show ?thesis
    unfolding remote_switchpool_def Let_def
    by (rule returns_bind [OF returns_weaken]) (use assms(1) in \<open>auto intro!: returns_Some\<close>)
qed

lemma exec_ok:
  assumes "api_ok S i s" "formats_ok e" "\<forall>w. an_work (oe_A (ae_e e)) = Some w \<longrightarrow> wf_work w" "safe_command name params"
  shows "runs (exec_cmd e name params s) (\<lambda>(r, s). api_ok S i s)"
proof -
  have m: "mine_ok S i (ap_m s)" "active_gpus (ap_ops s) = 1" using assms(1) by (simp_all add: api_ok_def)
  have url: "runs (remote_seturl e params s) (\<lambda>(r, s). api_ok S i s)" if "no_params params"
    using that returns_switch_next [OF m(1) assms(3)] assms(1) by (auto simp: remote_seturl_def runs_def returns_def)
  show ?thesis
    unfolding exec_cmd_def
    by (intro runs_if runs_answers runs_map_option switchpool_ok getpoolnfo_returns [OF m(1)] getsummary_fits [OF assms(2) m] gethistory_fits
        getscanlog_fits getmeminfo_fits gethelp_fits url runs_Parsed)
      (use assms in \<open>auto simp: safe_command_def remote_quit_def returns_def\<close>)
qed

section \<open>Requests and the server\<close>

text \<open>A request that stays in its buffers and asks for a safe command.\<close>

definition safe_request :: "string \<Rightarrow> bool" where
  "safe_request d \<longleftrightarrow> (case request_of d of
     None \<Rightarrow> False
   | Some (name, params, key) \<Rightarrow> safe_command name params \<and> (key = None \<or> length (the key) \<le> 91))"

definition request_ok :: "('j, 'f) api_env \<Rightarrow> bool" where
  "request_ok e \<longleftrightarrow> formats_ok e \<and> (\<forall>w. an_work (oe_A (ae_e e)) = Some w \<longrightarrow> wf_work w) \<and> (\<forall>s. length (ae_sha1 e s) = 20) \<and>
     (\<forall>d. ae_recv e = Some d \<longrightarrow> safe_request d)"

lemma handshake_returns:
  assumes "length key \<le> 91" "\<And>s. length (sha1 s) = 20"
  shows "returns (websocket_handshake sha1 a b result key) (\<lambda>r. True)"
proof -
  have "\<exists>k n. base64_encode a (sha1 (key @ WS_GUID)) 64 = Some (k, n) \<and> length k \<le> 28"
    using base64_encode_digest [OF assms(2)] assms(2) by (cases a) (simp_all add: length_base64, simp add: base64_encode_def)
  then show ?thesis
    using assms(1) by (auto simp: websocket_handshake_def print_into_def WS_GUID_def length_ws_answer returns_def)
qed

lemma serve_ok:
  assumes "api_ok S i s" "request_ok e" "ae_recv e = Some d"
  shows "runs (serve e d s) (api_ok S i)"
proof -
  obtain name params key where q: "request_of d = Some (name, params, key)" "safe_command name params" "key = None \<or> length (the key) \<le> 91"
    using assms(2,3) by (auto simp: request_ok_def safe_request_def split: option.splits)
  note r = q(1,2)
  have r3: "\<And>k. key = Some k \<Longrightarrow> length k \<le> 91" using q(3) by auto
  have x: "runs (exec_cmd e name params s) (\<lambda>(r, s). api_ok S i s)"
    using assms(2) by (intro exec_ok [OF assms(1) _ _ r(2)]) (simp_all add: request_ok_def)
  have w: "returns (websocket_handshake (ae_sha1 e) a b t k) (\<lambda>r. True)" if "key = Some k" for a b t k
    by (rule handshake_returns [OF r3 [OF that]]) (use assms(2) in \<open>simp add: request_ok_def\<close>)
  show ?thesis
    unfolding serve_def r(1) Option.bind.simps prod.case
    by (intro runs_if runs_Parsed assms(1) runs_and_parse runs_weaken [OF x])
      (auto intro!: runs_Parsed runs_bind returns_weaken [OF w] split: option.split)
qed

lemma api_round_ok:
  assumes "api_ok S i s" "request_ok e"
  shows "runs (api_round ips e client s) (api_ok S i)"
  unfolding api_round_def Let_def
  by (intro runs_case_prod runs_if runs_case_option runs_Parsed assms(1) serve_ok [OF assms])

lemma api_loop_ok:
  assumes "api_ok S i s" "\<forall>e \<in> set es. request_ok e \<and> (\<forall>m. mine_ok S i m \<longrightarrow> mine_ok S i (ae_other e m))"
  shows "runs (api_loop ips es s) (api_ok S i)"
  using assms
proof (induction es arbitrary: s)
  case Nil
  then show ?case by (simp add: runs_Parsed)
next
  case (Cons e es)
  have s: "api_ok S i (set_m (ae_other e (ap_m s)) s)" using Cons.prems by (auto simp: api_ok_def set_m_def)
  have "runs (api_round ips e c (set_m (ae_other e (ap_m s)) s)) (\<lambda>s. runs (api_loop ips es s) (api_ok S i))" for c
    using Cons by (intro runs_weaken [OF api_round_ok [OF s]]) auto
  then show ?case
    using Cons.prems(1) s by (auto simp: Let_def intro!: runs_Parsed runs_and_parse split: option.split)
qed

section \<open>All threads together\<close>

text \<open>What the network threads and the API server can do to the globals, in any number of steps: \<open>AE\<close> is the set of requests.\<close>

inductive miner_moves :: "('j, 'f) net_env set \<Rightarrow> ('j, 'f) lp_env set \<Rightarrow> ('j, 'f) api_env set \<Rightarrow> 'f miner \<Rightarrow> 'f miner \<Rightarrow> bool"
  for NE :: "('j, 'f) net_env set" and LE :: "('j, 'f) lp_env set" and AE :: "('j, 'f) api_env set" and m :: "'f miner" where
  rest: "miner_moves NE LE AE m m"
| network: "miner_moves NE LE AE m u \<Longrightarrow> net_moves NE LE u v \<Longrightarrow> miner_moves NE LE AE m v"
| request: "miner_moves NE LE AE m (ap_m s) \<Longrightarrow> e \<in> AE \<Longrightarrow> active_gpus (ap_ops s) = 1 \<Longrightarrow> api_round ips e client s = Some (Parsed s') \<Longrightarrow>
    miner_moves NE LE AE m (ap_m s')"

lemma miner_moves_ok:
  assumes "miner_moves NE LE AE m u" "mine_ok S i m" "\<forall>e \<in> NE. net_ok S i e" "\<forall>e \<in> LE. lp_ok S i e" "\<forall>e \<in> AE. request_ok e"
  shows "mine_ok S i u"
  using assms(1)
proof (induction rule: miner_moves.induct)
  case (network u v)
  then show ?case using net_moves_ok assms(3,4) by blast
next
  case (request s e ips client s')
  then have "runs (api_round ips e client s) (api_ok S i)" using assms(5) by (intro api_round_ok) (auto simp: api_ok_def)
  then show ?case using request.hyps by (simp add: runs_def returns_def api_ok_def)
qed (rule assms(2))

definition round_among :: "('j, 'f) net_env set \<Rightarrow> ('j, 'f) lp_env set \<Rightarrow> ('j, 'f) api_env set \<Rightarrow> sse \<Rightarrow> ('j, 'f) round \<Rightarrow> bool" where
  "round_among NE LE AE S e \<longleftrightarrow> rn_S e = S \<and> length (rn_buf2 e) = 64 \<and> length (rn_junk e) = 552 \<and> length (rn_t0 e) = 32 \<and>
     length (rn_t1 e) = 32 \<and> length (rn_cand e) = 32 \<and> (\<forall>w. an_work (rn_A e) = Some w \<longrightarrow> wf_work w) \<and>
     (\<forall>k m. miner_moves NE LE AE m (rn_other e k m))"

lemma round_among_ok:
  assumes "round_among NE LE AE S e" "sse_intrinsics S" "\<forall>e \<in> NE. net_ok S i e" "\<forall>e \<in> LE. lp_ok S i e" "\<forall>e \<in> AE. request_ok e"
  shows "round_ok S i e"
proof -
  have "mine_ok S i (rn_other e k m)" if "mine_ok S i m" for k m
    using miner_moves_ok [OF _ that assms(3-5)] assms(1) by (auto simp: round_among_def)
  then show ?thesis using assms(1,2) by (simp add: round_among_def round_ok_def)
qed

lemma queued_shares: "mine_ok S i m \<Longrightarrow> WC_SUBMIT_WORK thr w p \<in> set (workio_q m) \<Longrightarrow> block_meets S (recorded_share w) (w_target w)"
  by (fastforce simp: mine_ok_def list_all_iff share_ok_def)

text \<open>Safe commands never end the program.\<close>

lemma exec_stays: "safe_command name params \<Longrightarrow> exec_cmd e name params s \<noteq> Some (Exits n)"
  by (auto simp: exec_cmd_def answers_with_def remote_seturl_def safe_command_def bind_eq_Some_conv split: if_splits)

lemma serve_stays: "safe_request d \<Longrightarrow> serve e d s \<noteq> Some (Exits n)"
  by (auto simp: safe_request_def serve_def and_parse_def bind_eq_Some_conv exec_stays split: option.splits if_splits parsed.splits)

lemma api_loop_stays: "\<forall>e \<in> set es. request_ok e \<Longrightarrow> api_loop ips es s \<noteq> Some (Exits n)"
proof (induction es arbitrary: s)
  case (Cons e es)
  have "api_round ips e c t \<noteq> Some (Exits n)" for c t
    using Cons.prems by (auto simp: api_round_def Let_def request_ok_def serve_stays split: if_splits option.splits prod.splits)
  then show ?case
    using Cons by (auto simp: Let_def and_parse_def bind_eq_Some_conv split: if_splits option.splits parsed.splits)
qed simp

section \<open>Requests are understood\<close>

lemma find_str_at: "c \<notin> set pre \<Longrightarrow> find_str (c # q) (pre @ (c # q) @ r) = Some ((c # q) @ r)"
proof (induction pre)
  case Nil
  have "take (length (c # q)) ((c # q) @ r) = c # q" by simp
  then show ?case by simp
qed auto

lemma find_str_none: "c \<in> set q \<Longrightarrow> c \<notin> set s \<Longrightarrow> find_str q s = None"
proof (induction s)
  case (Cons d s)
  then have "take (length q) (d # s) \<noteq> q" by (metis in_set_takeD)
  then show ?case using Cons by simp
qed auto

lemma received_line: "NUL \<notin> set s \<Longrightarrow> (s = [] \<or> last s \<noteq> CHR 0x0A) \<Longrightarrow> received s = s"
  "NUL \<notin> set s \<Longrightarrow> received (s @ crlf) = s"
  by (auto simp: received_def cstr_id crlf_def Let_def butlast_append)

lemma cstr_update: "NUL \<notin> set a \<Longrightarrow> cstr (a @ NUL # b) = a"
  by simp

lemma split_params_at:
  assumes "CHR ''|'' \<notin> set a" "NUL \<notin> set a" "NUL \<notin> set p"
  shows "split_params (a @ CHR ''|'' # p @ NUL # r) = (a @ NUL # p @ NUL # r, Some (length a + 1))"
proof -
  have "cstr ((a @ CHR ''|'' # p) @ NUL # r) = a @ CHR ''|'' # p"
    by (rule cstr_update) (use assms in \<open>simp add: NUL_def char_of_def\<close>)
  then show ?thesis by (simp add: split_params_def split_first_at [OF assms(1)])
qed

text \<open>A plain request.\<close>

lemma plain_request:
  assumes "CHR ''|'' \<notin> set name" "CHR ''|'' \<notin> set p" "CHR '' '' \<notin> set name" "CHR '' '' \<notin> set p" "NUL \<notin> set name" "NUL \<notin> set p"
    "received d = name @ CHR ''|'' # p @ ''|''"
  shows "request_of d = Some (name, Some p, None)"
proof -
  let ?s = "name @ CHR ''|'' # p @ ''|''"
  have "find_str ''GET /'' ?s = None" by (rule find_str_none [of "CHR '' ''"]) (use assms in auto)
  then have parse: "parse_request ?s = Some (name @ CHR ''|'' # (p @ ''|'') @ NUL # [], None)" by (simp add: parse_request_def)
  have "NUL \<noteq> CHR ''|''" by (simp add: NUL_def char_of_def)
  then have split: "split_params (name @ CHR ''|'' # (p @ ''|'') @ NUL # []) = (name @ NUL # (p @ ''|'') @ NUL # [], Some (length name + 1))"
    by (intro split_params_at) (use assms in auto)
  have c: "cstr (p @ CHR ''|'' # [NUL]) = p @ ''|''" using cstr_update [of "p @ ''|''" "[]"] assms(6) \<open>NUL \<noteq> CHR ''|''\<close> by simp
  have "strip_bar (name @ NUL # (p @ ''|'') @ NUL # []) (length name + 1) = name @ NUL # p @ NUL # NUL # []"
    using c by (simp add: strip_bar_def list_update_append)
  then show ?thesis
    unfolding request_of_def assms(7) parse Option.bind.simps Let_def prod.case split
    using assms(5,6) by simp
qed

text \<open>A request over HTTP with a WebSocket key.\<close>

definition http_request :: "string \<Rightarrow> string \<Rightarrow> string \<Rightarrow> string \<Rightarrow> string \<Rightarrow> string" where
  "http_request name p headers key rest = ''GET /'' @ name @ ''/'' @ p @ '' HTTP/1.1'' @ crlf @ headers @ ''Sec-WebSocket-Key: '' @ key @ crlf @ rest @ crlf"

definition plain_text :: "string \<Rightarrow> bool" where
  "plain_text s \<longleftrightarrow> list_all (\<lambda>c. \<not> isspace c \<and> c \<notin> {NUL, CHR ''|'', CHR ''/'', CHR ''S''}) s"

lemma path_of_request:
  assumes "plain_text name" "plain_text p" "name \<noteq> []" "length name + length p < 255"
  shows "takeWhile (\<lambda>c. \<not> isspace c) (dropWhile isspace (name @ ''/'' @ p @ '' HTTP/1.1'' @ r)) = name @ ''/'' @ p"
    "path_command (name @ ''/'' @ p) = name @ CHR ''|'' # p" "length (name @ ''/'' @ p) < 256"
proof -
  obtain c t where c: "name = c # t" "\<not> isspace c" using assms(1,3) by (cases name) (auto simp: plain_text_def)
  have sp: "isspace (CHR '' '')" "\<not> isspace (CHR ''/'')" by code_simp+
  have "takeWhile (\<lambda>c. \<not> isspace c) ((name @ ''/'' @ p) @ '' HTTP/1.1'' @ r) = (name @ ''/'' @ p) @ takeWhile (\<lambda>c. \<not> isspace c) ('' HTTP/1.1'' @ r)"
    by (rule takeWhile_append2) (use assms(1,2) sp in \<open>auto simp: plain_text_def list_all_iff\<close>)
  then show "takeWhile (\<lambda>c. \<not> isspace c) (dropWhile isspace (name @ ''/'' @ p @ '' HTTP/1.1'' @ r)) = name @ ''/'' @ p"
    using c sp by simp
  have "CHR ''/'' \<notin> set name" "CHR ''/'' \<notin> set p" using assms(1,2) by (auto simp: plain_text_def list_all_iff)
  then show "path_command (name @ ''/'' @ p) = name @ CHR ''|'' # p"
    by (simp add: path_command_def split_first_at cut_at_sep)
  show "length (name @ ''/'' @ p) < 256" using assms(4) by simp
qed

lemma drop_here: "length a = n \<Longrightarrow> drop n (a @ b) = b"
  by simp

lemma splice_front: "length s \<le> length a \<Longrightarrow> splice (a @ b) 0 s = s @ drop (length s) a @ b"
  by (simp add: splice_def)

lemma parse_web:
  assumes "find_str ''GET /'' s = Some s" "5 < length s" "takeWhile (\<lambda>c. \<not> isspace c) (dropWhile isspace (drop 5 s)) = cmd" "length cmd < 256"
    "find_str ''Sec-WebSocket-Key'' s = Some w" "length s - length w = a" "fst (cut_at (CHR 0x0D) w) = l" "key_offset w = Some k"
  shows "parse_request s = Some (splice ((s @ [NUL])[a + length l := NUL]) 0 (path_command cmd @ [NUL]), Some (a + k))"
  using assms by (simp add: parse_request_def print_into_def Let_def)

lemma web_request:
  assumes "plain_text name" "plain_text p" "name \<noteq> []" "length name + length p < 255" "NUL \<notin> set headers" "CHR ''S'' \<notin> set headers"
    "NUL \<notin> set key" "CHR 0x0D \<notin> set key" "key = [] \<or> hd key \<noteq> CHR '' ''" "NUL \<notin> set rest"
  shows "request_of (http_request name p headers key rest) = Some (name, Some p, Some key)"
proof -
  let ?q = "''Sec-WebSocket-Key''" and ?cmd = "name @ CHR ''|'' # p"
  let ?pre = "''GET /'' @ name @ ''/'' @ p @ '' HTTP/1.1'' @ crlf @ headers"
  let ?w = "?q @ '': '' @ key @ CHR 0x0D # CHR 0x0A # rest" and ?s = "?pre @ ?q @ '': '' @ key @ CHR 0x0D # CHR 0x0A # rest"
  have nul: "NUL \<notin> set name" "NUL \<notin> set p" "NUL \<notin> set ''GET /'' \<union> set '' HTTP/1.1'' \<union> set crlf \<union> set ?q \<union> set '': '' \<union> {CHR ''/'', CHR ''|'', CHR 0x0D, CHR 0x0A}"
    using assms(1,2) by (auto simp: plain_text_def list_all_iff NUL_def char_of_def crlf_def)
  have d: "http_request name p headers key rest = ?s @ crlf" by (simp add: http_request_def crlf_def)
  have "received (?s @ crlf) = ?s" by (rule received_line(2)) (use nul assms(5,7,10) in auto)
  then have rec: "received (http_request name p headers key rest) = ?s" by (simp only: d)
  have get: "find_str ''GET /'' ?s = Some ?s" by simp
  have tok: "takeWhile (\<lambda>c. \<not> isspace c) (dropWhile isspace (drop 5 ?s)) = name @ ''/'' @ p"
    using path_of_request(1) [OF assms(1-4), of "crlf @ headers @ ?w"] by simp
  have "CHR ''S'' \<notin> set ?pre" using assms(1,2,6) by (auto simp: plain_text_def list_all_iff crlf_def)
  then have key: "find_str ?q ?s = Some ?w" using find_str_at [of "CHR ''S''" ?pre "tl ?q"] by simp
  have line: "cut_at (CHR 0x0D) ?w = (?q @ '': '' @ key, CHR 0x0A # rest)"
    using cut_at_sep(1) [of "CHR 0x0D" "?q @ '': '' @ key" "CHR 0x0A # rest"] assms(8) by simp
  have off: "key_offset ?w = Some 19"
    using assms(9) split_first_at [of "CHR '':''" ?q "'' '' @ key"] unfolding key_offset_def line by (cases key) simp_all
  let ?mem = "splice ((?s @ [NUL])[length ?pre + (19 + length key) := NUL]) 0 (?cmd @ [NUL])"
  have len: "length ?s - length ?w = length ?pre" "length (?q @ '': '' @ key) = 19 + length key" by simp_all
  have s5: "5 < length ?s" by simp
  have parse: "parse_request ?s = Some (?mem, Some (length ?pre + 19))"
    by (rule parse_web [OF get s5 tok path_of_request(3) [OF assms(1-4)] key len(1) refl off, unfolded path_of_request(2) [OF assms(1-4)] line fst_conv len(2)])
  have upd: "(?s @ [NUL])[length ?pre + (19 + length key) := NUL] = (?pre @ ?q @ '': '') @ key @ NUL # CHR 0x0A # rest @ [NUL]"
    using list_update_append1 [of _ "?pre @ ?q @ '': '' @ key"] by (simp add: list_update_append)
  have long: "length (?cmd @ [NUL]) \<le> length (?pre @ ?q @ '': '')" by simp
  define tail where "tail = drop (length (?cmd @ [NUL])) (?pre @ ?q @ '': '')"
  have "?mem = (?cmd @ [NUL]) @ tail @ key @ NUL # CHR 0x0A # rest @ [NUL]"
    unfolding upd tail_def by (rule splice_front [OF long])
  moreover have "length tail = length (?pre @ ?q @ '': '') - length (?cmd @ [NUL])" unfolding tail_def by (rule length_drop)
  ultimately have mem: "?mem = name @ CHR ''|'' # p @ NUL # tail @ key @ NUL # CHR 0x0A # rest @ [NUL]"
    "length (name @ CHR ''|'' # p @ NUL # tail) = length ?pre + 19" by simp_all
  have bar: "CHR ''|'' \<notin> set name" "CHR ''|'' \<notin> set p" using assms(1,2) by (auto simp: plain_text_def list_all_iff)
  have sp: "split_params ?mem = (name @ NUL # p @ NUL # tail @ key @ NUL # CHR 0x0A # rest @ [NUL], Some (length name + 1))"
    unfolding mem(1) by (rule split_params_at [OF bar(1) nul(1,2)])
  have strip: "strip_bar (name @ NUL # p @ NUL # r) (length name + 1) = name @ NUL # p @ NUL # r" for r
  proof -
    have "cstr (p @ NUL # r) = p" by (rule cstr_update [OF nul(2)])
    moreover have "p = [] \<or> last p \<noteq> CHR ''|''" using bar(2) last_in_set [of p] by metis
    ultimately show ?thesis by (auto simp: strip_bar_def Let_def)
  qed
  have "drop (length ?pre + 19) (name @ NUL # p @ NUL # tail @ key @ NUL # CHR 0x0A # rest @ [NUL]) = key @ NUL # CHR 0x0A # rest @ [NUL]"
    using drop_here [of "name @ NUL # p @ NUL # tail" "length ?pre + 19" "key @ NUL # CHR 0x0A # rest @ [NUL]"] mem(2)
    by (simp only: append_assoc append_Cons length_append list.size)
  then show ?thesis
    unfolding request_of_def rec parse Option.bind.simps Let_def prod.case sp option.case strip
    using nul(1,2) assms(7) by simp
qed

lemma command_names: "name \<in> set (map fst cmds) \<Longrightarrow> plain_text name \<and> name \<noteq> [] \<and> length name \<le> 10 \<and> CHR '' '' \<notin> set name"
proof -
  have "list_all (\<lambda>n. plain_text n \<and> n \<noteq> [] \<and> length n \<le> 10 \<and> \<not> list_ex (\<lambda>c. c = CHR '' '') n) (map fst cmds)" by code_simp
  then show "name \<in> set (map fst cmds) \<Longrightarrow> plain_text name \<and> name \<noteq> [] \<and> length name \<le> 10 \<and> CHR '' '' \<notin> set name"
    by (auto simp: list_all_iff list_ex_iff)
qed

section \<open>Properties\<close>



text \<open>C19: the API server keeps the miner sound. Whatever clients send, as long as each request stays in its buffers (a path below 256
  characters, a key of at most 91), does not change the address of a pool and uses no negative numbers, and whatever other threads do in between,
  the server answers every request without undefined behaviour: the answers fit into the buffer, the pools that are read or
  switched to exist, and the invariant of the miner holds after every command. The server never ends the program before \<open>quit\<close>.\<close>

theorem api_serves_safely:
  assumes "mine_ok S i (ap_m s)" "active_gpus (ap_ops s) = 1" "list_all request_ok es"
    "list_all (\<lambda>e. \<forall>m. mine_ok S i m \<longrightarrow> mine_ok S i (ae_other e m)) es"
  shows "\<exists>s'. api_loop ips es s = Some (Parsed s') \<and> mine_ok S i (ap_m s') \<and> active_gpus (ap_ops s') = 1"
proof -
  have "runs (api_loop ips es s) (api_ok S i)" using assms by (intro api_loop_ok) (auto simp: api_ok_def list_all_iff)
  then obtain r where r: "api_loop ips es s = Some r" "case r of Parsed s' \<Rightarrow> api_ok S i s' | Exits n \<Rightarrow> True"
    by (auto simp: runs_def returns_def)
  moreover have "api_loop ips es s \<noteq> Some (Exits n)" for n
    by (rule api_loop_stays) (use assms(3) in \<open>simp add: list_all_iff\<close>)
  ultimately show ?thesis by (cases r) (auto simp: api_ok_def)
qed

definition small_request :: "string \<Rightarrow> (jval, int) api_env" where
  "small_request d = \<lparr>ae_e = demo_env, ae_client = Some 0x7f000001, ae_recv = Some d, ae_other = (\<lambda>m. m), ae_fmt = (\<lambda>n x. ''0''),
     ae_fmt_g = (\<lambda>x. ''0''), ae_program = (''ccminer'', ''3.8''), ae_os = None, ae_cpu = (0, 0), ae_sha1 = (\<lambda>s. rfc_digest), ae_alloc = (True, True)\<rparr>"

lemma small_request_ok: "request_ok (small_request ''switchpool|0|'')" "request_ok (small_request ''summary'')"
proof -
  have "safe_request ''switchpool|0|''" "safe_request ''summary''" by code_simp+
  then show "request_ok (small_request ''switchpool|0|'')" "request_ok (small_request ''summary'')"
    by (simp_all add: request_ok_def formats_ok_def small_request_def rfc_digest_def demo_env_def small_answers_def)
qed

definition served :: "(jval, int) api" where
  "served = \<lparr>ap_ops = (boot int_fops 4)\<lparr>o_m := two_pools\<rparr>, ap_bye = False, ap_startup = 0, ap_sent = []\<rparr>"

lemma served_gpus: "active_gpus (ap_ops served) = 1" "active_gpus (ap_ops (set_m m served)) = 1"
  by (simp_all add: served_def set_m_def boot_def Let_def)

theorem api_serves_safely_witness:
  "\<exists>s'. api_loop [] [small_request ''switchpool|0|'', small_request ''summary''] served = Some (Parsed s') \<and>
     mine_ok sse_doc 0 (ap_m s') \<and> active_gpus (ap_ops s') = 1"
proof (rule api_serves_safely)
  show "mine_ok sse_doc 0 (ap_m served)" "active_gpus (ap_ops served) = 1" by (simp add: served_def small_sound) (rule served_gpus)
  show "list_all request_ok [small_request ''switchpool|0|'', small_request ''summary'']" by (simp add: small_request_ok)
qed (simp add: small_request_def)


text \<open>What a step of the stratum thread and a client that switches the pool make of the globals.\<close>

definition among :: "int miner \<Rightarrow> int miner" where
  "among m = (case api_round [] (small_request ''switchpool|0|'') 0x7f000001 (set_m (beside m) served) of
     Some (Parsed s) \<Rightarrow> ap_m s | _ \<Rightarrow> beside m)"

lemma among_moves: "miner_moves {small_net} {} {small_request ''switchpool|0|''} m (among m)"
proof -
  have b: "miner_moves {small_net} {} {small_request ''switchpool|0|''} m (beside m)" by (rule network [OF rest beside_moves])
  then have r: "miner_moves {small_net} {} {small_request ''switchpool|0|''} m (ap_m (set_m (beside m) served))" by (simp add: set_m_def)
  show ?thesis unfolding among_def
    by (auto split: option.split parsed.split intro: b request [OF r _ served_gpus(2)])
qed

definition round_with_all :: "(jval, int) round" where
  "round_with_all = small_round\<lparr>rn_other := \<lambda>k. among\<rparr>"

lemma round_with_all_ok: "list_all (round_among {small_net} {} {small_request ''switchpool|0|''} sse_doc) [round_with_all, round_with_all]"
  using among_moves by (simp add: round_among_def round_with_all_def) (simp add: small_round_def small_answers_def)




end
