(* ===== verification/Threadq.thy ===== *)
theory Threadq
  imports Miner_Prelude
begin

text \<open>The intrusive doubly linked lists of \<open>elist.h\<close> and the thread queues of \<open>util.cpp\<close> built on them
  (\<open>tq_new\<close>, \<open>tq_push\<close>, \<open>tq_pop\<close>, \<open>tq_freeze\<close>, \<open>tq_thaw\<close>, \<open>tq_free\<close>), over an explicit heap: an address
  maps to the \<open>list_head\<close> stored there, and reading or writing an address that is not allocated is
  undefined behaviour, the value None. A \<open>tq_ent\<close> is named by the address of its \<open>q_node\<close>, so that
  \<open>list_entry\<close>, which subtracts the offset of that member, is the identity. The mutex makes each
  operation atomic; what other threads do while \<open>tq_pop\<close> waits on the condition variable is an argument.\<close>

type_synonym addr = nat

record list_head =
  lh_next :: addr
  lh_prev :: addr

type_synonym nodes = "addr \<rightharpoonup> list_head"

section \<open>Lists\<close>

definition get_next :: "nodes \<Rightarrow> addr \<Rightarrow> addr option" where
  "get_next m p = map_option lh_next (m p)"

definition get_prev :: "nodes \<Rightarrow> addr \<Rightarrow> addr option" where
  "get_prev m p = map_option lh_prev (m p)"

definition set_next :: "addr \<Rightarrow> addr \<Rightarrow> nodes \<Rightarrow> nodes option" where
  "set_next p v m = map_option (\<lambda>n. m(p \<mapsto> n\<lparr>lh_next := v\<rparr>)) (m p)"

definition set_prev :: "addr \<Rightarrow> addr \<Rightarrow> nodes \<Rightarrow> nodes option" where
  "set_prev p v m = map_option (\<lambda>n. m(p \<mapsto> n\<lparr>lh_prev := v\<rparr>)) (m p)"

definition INIT_LIST_HEAD :: "addr \<Rightarrow> nodes \<Rightarrow> nodes option" where
  "INIT_LIST_HEAD ptr m = do { m \<leftarrow> set_next ptr ptr m; set_prev ptr ptr m }"

definition list_add_between :: "addr \<Rightarrow> addr \<Rightarrow> addr \<Rightarrow> nodes \<Rightarrow> nodes option" where
  "list_add_between lnew prv nxt m = do {
     m \<leftarrow> set_prev nxt lnew m;
     m \<leftarrow> set_next lnew nxt m;
     m \<leftarrow> set_prev lnew prv m;
     set_next prv lnew m }"

definition list_add :: "addr \<Rightarrow> addr \<Rightarrow> nodes \<Rightarrow> nodes option" where
  "list_add lnew head m = do { nxt \<leftarrow> get_next m head; list_add_between lnew head nxt m }"

definition list_add_tail :: "addr \<Rightarrow> addr \<Rightarrow> nodes \<Rightarrow> nodes option" where
  "list_add_tail lnew head m = do { prv \<leftarrow> get_prev m head; list_add_between lnew prv head m }"

definition list_del_between :: "addr \<Rightarrow> addr \<Rightarrow> nodes \<Rightarrow> nodes option" where
  "list_del_between prv nxt m = do { m \<leftarrow> set_prev nxt prv m; set_next prv nxt m }"

definition list_del_entry :: "addr \<Rightarrow> nodes \<Rightarrow> nodes option" where
  "list_del_entry entry m = do {
     prv \<leftarrow> get_prev m entry;
     nxt \<leftarrow> get_next m entry;
     list_del_between prv nxt m }"

definition list_del :: "addr \<Rightarrow> nodes \<Rightarrow> nodes option" where
  "list_del entry m = do {
     m \<leftarrow> list_del_entry entry m;
     m \<leftarrow> set_next entry 0 m;
     set_prev entry 0 m }"

definition list_del_init :: "addr \<Rightarrow> nodes \<Rightarrow> nodes option" where
  "list_del_init entry m = do { m \<leftarrow> list_del_entry entry m; INIT_LIST_HEAD entry m }"

definition list_move :: "addr \<Rightarrow> addr \<Rightarrow> nodes \<Rightarrow> nodes option" where
  "list_move l head m = do { m \<leftarrow> list_del_entry l m; list_add l head m }"

definition list_move_tail :: "addr \<Rightarrow> addr \<Rightarrow> nodes \<Rightarrow> nodes option" where
  "list_move_tail l head m = do { m \<leftarrow> list_del_entry l m; list_add_tail l head m }"

definition list_empty :: "addr \<Rightarrow> nodes \<Rightarrow> bool option" where
  "list_empty head m = do { n \<leftarrow> get_next m head; Some (n = head) }"

definition list_splice_raw :: "addr \<Rightarrow> addr \<Rightarrow> nodes \<Rightarrow> nodes option" where
  "list_splice_raw l head m = do {
     first \<leftarrow> get_next m l;
     last \<leftarrow> get_prev m l;
     at \<leftarrow> get_next m head;
     m \<leftarrow> set_prev first head m;
     m \<leftarrow> set_next head first m;
     m \<leftarrow> set_next last at m;
     set_prev at last m }"

definition list_splice :: "addr \<Rightarrow> addr \<Rightarrow> nodes \<Rightarrow> nodes option" where
  "list_splice l head m = do {
     e \<leftarrow> list_empty l m;
     if \<not> e then list_splice_raw l head m else Some m }"

definition list_splice_init :: "addr \<Rightarrow> addr \<Rightarrow> nodes \<Rightarrow> nodes option" where
  "list_splice_init l head m = do {
     e \<leftarrow> list_empty l m;
     if \<not> e then do { m \<leftarrow> list_splice_raw l head m; INIT_LIST_HEAD l m } else Some m }"

section \<open>Thread queues\<close>

text \<open>The heap of a queue: the list nodes, the \<open>data\<close> members of the entries (\<open>None\<close> inside is the null
  pointer) and the \<open>frozen\<close> flag. The head of the list is the member \<open>q\<close> at address \<open>tq_q\<close>.\<close>

record 'd thread_q =
  tq_q :: addr
  tq_nodes :: nodes
  tq_data :: "addr \<rightharpoonup> 'd option"
  tq_frozen :: bool

definition tq_new :: "addr option \<Rightarrow> 'd thread_q option option" where
  "tq_new alloc = (case alloc of
     None \<Rightarrow> Some None
   | Some q \<Rightarrow> do {
       m \<leftarrow> INIT_LIST_HEAD q [q \<mapsto> \<lparr>lh_next = 0, lh_prev = 0\<rparr>];
       Some (Some \<lparr>tq_q = q, tq_nodes = m, tq_data = Map.empty, tq_frozen = False\<rparr>) })"

definition tq_freezethaw :: "bool \<Rightarrow> 'd thread_q \<Rightarrow> 'd thread_q" where
  "tq_freezethaw frozen tq = tq\<lparr>tq_frozen := frozen\<rparr>"

definition tq_freeze :: "'d thread_q \<Rightarrow> 'd thread_q" where
  "tq_freeze tq = tq_freezethaw True tq"

definition tq_thaw :: "'d thread_q \<Rightarrow> 'd thread_q" where
  "tq_thaw tq = tq_freezethaw False tq"

text \<open>\<open>calloc\<close> and \<open>free\<close> of a \<open>tq_ent\<close>.\<close>

definition calloc_ent :: "addr \<Rightarrow> 'd thread_q \<Rightarrow> 'd thread_q" where
  "calloc_ent e tq = tq\<lparr>tq_nodes := (tq_nodes tq)(e \<mapsto> \<lparr>lh_next = 0, lh_prev = 0\<rparr>),
     tq_data := (tq_data tq)(e \<mapsto> None)\<rparr>"

definition free_ent :: "addr \<Rightarrow> 'd thread_q \<Rightarrow> 'd thread_q option" where
  "free_ent e tq = (if e \<in> dom (tq_data tq) then
     Some (tq\<lparr>tq_nodes := (tq_nodes tq)(e := None), tq_data := (tq_data tq)(e := None)\<rparr>) else None)"

definition upd_nodes :: "(nodes \<Rightarrow> nodes option) \<Rightarrow> 'd thread_q \<Rightarrow> 'd thread_q option" where
  "upd_nodes f tq = map_option (\<lambda>m. tq\<lparr>tq_nodes := m\<rparr>) (f (tq_nodes tq))"

definition tq_push :: "addr option \<Rightarrow> 'd option \<Rightarrow> 'd thread_q \<Rightarrow> (bool \<times> 'd thread_q) option" where
  "tq_push alloc data tq = (case alloc of
     None \<Rightarrow> Some (False, tq)
   | Some ent \<Rightarrow> do {
       let tq = calloc_ent ent tq;
       let tq = tq\<lparr>tq_data := (tq_data tq)(ent \<mapsto> data)\<rparr>;
       tq \<leftarrow> upd_nodes (INIT_LIST_HEAD ent) tq;
       if \<not> tq_frozen tq
       then do { tq \<leftarrow> upd_nodes (list_add_tail ent (tq_q tq)) tq; Some (True, tq) }
       else do { tq \<leftarrow> free_ent ent tq; Some (False, tq) } })"

text \<open>From the label \<open>pop\<close> on: take the first entry out.\<close>

definition tq_pop_entry :: "'d thread_q \<Rightarrow> ('d option \<times> 'd thread_q) option" where
  "tq_pop_entry tq = do {
     ent \<leftarrow> get_next (tq_nodes tq) (tq_q tq);
     rval \<leftarrow> tq_data tq ent;
     tq \<leftarrow> upd_nodes (list_del ent) tq;
     tq \<leftarrow> free_ent ent tq;
     Some (rval, tq) }"

text \<open>\<open>wait\<close> is \<open>pthread_cond_wait\<close> or \<open>pthread_cond_timedwait\<close>: from the queue at the time of the call
  to its return code and the queue when the mutex is held again.\<close>

definition tq_pop :: "('d thread_q \<Rightarrow> int \<times> 'd thread_q) \<Rightarrow> 'd thread_q \<Rightarrow> ('d option \<times> 'd thread_q) option" where
  "tq_pop wait tq = do {
     e \<leftarrow> list_empty (tq_q tq) (tq_nodes tq);
     if \<not> e then tq_pop_entry tq
     else do {
       let (rc, tq) = wait tq;
       if rc \<noteq> 0 then Some (None, tq)
       else do {
         e \<leftarrow> list_empty (tq_q tq) (tq_nodes tq);
         if e then Some (None, tq) else tq_pop_entry tq } } }"

text \<open>\<open>tq_free\<close> walks the list with \<open>list_for_each_entry_safe\<close>; the fuel bounds the walk, the result
  \<open>None\<close> of the inner option is running out of it. What is left of the heap is returned.\<close>

fun tq_free_loop :: "nat \<Rightarrow> addr \<Rightarrow> addr \<Rightarrow> 'd thread_q \<Rightarrow> 'd thread_q option" where
  "tq_free_loop 0 ent iter tq = None"
| "tq_free_loop (Suc fuel) ent iter tq =
     (if ent = tq_q tq then Some tq
      else do {
        tq \<leftarrow> upd_nodes (list_del ent) tq;
        tq \<leftarrow> free_ent ent tq;
        n \<leftarrow> get_next (tq_nodes tq) iter;
        tq_free_loop fuel iter n tq })"

definition tq_free :: "nat \<Rightarrow> 'd thread_q option \<Rightarrow> (nodes \<times> (addr \<rightharpoonup> 'd option)) option" where
  "tq_free fuel p = (case p of
     None \<Rightarrow> Some (Map.empty, Map.empty)
   | Some tq \<Rightarrow> do {
       ent \<leftarrow> get_next (tq_nodes tq) (tq_q tq);
       iter \<leftarrow> get_next (tq_nodes tq) ent;
       tq \<leftarrow> tq_free_loop fuel ent iter tq;
       Some ((tq_nodes tq)(tq_q tq := None), tq_data tq) })"

section \<open>What the nodes represent\<close>

text \<open>Neighbouring addresses of a sequence point at each other; a list with head \<open>h\<close> and entries \<open>xs\<close> is
  the ring through the head.\<close>

fun links :: "nodes \<Rightarrow> addr list \<Rightarrow> bool" where
  "links m (u # v # r) = (get_next m u = Some v \<and> get_prev m v = Some u \<and> links m (v # r))"
| "links m _ = True"

definition ring :: "nodes \<Rightarrow> addr \<Rightarrow> addr list \<Rightarrow> bool" where
  "ring m h xs \<longleftrightarrow> distinct (h # xs) \<and> links m (h # xs @ [h])"

text \<open>Writes in terms of what is read afterwards.\<close>

lemma set_eq:
  "p \<in> dom m \<Longrightarrow> set_next p v m = Some (m(p \<mapsto> (the (m p))\<lparr>lh_next := v\<rparr>))"
  "p \<in> dom m \<Longrightarrow> set_prev p v m = Some (m(p \<mapsto> (the (m p))\<lparr>lh_prev := v\<rparr>))"
  by (auto simp: set_next_def set_prev_def)

lemma get_upd:
  "get_next (m(p \<mapsto> n)) q = (if q = p then Some (lh_next n) else get_next m q)"
  "get_prev (m(p \<mapsto> n)) q = (if q = p then Some (lh_prev n) else get_prev m q)"
  by (simp_all add: get_next_def get_prev_def)

lemma get_the:
  "p \<in> dom m \<Longrightarrow> get_next m p = Some (lh_next (the (m p)))"
  "p \<in> dom m \<Longrightarrow> get_prev m p = Some (lh_prev (the (m p)))"
  by (auto simp: get_next_def get_prev_def)

lemma get_dom [dest]: "get_next m p = Some q \<Longrightarrow> p \<in> dom m" "get_prev m p = Some q \<Longrightarrow> p \<in> dom m"
  by (auto simp: get_next_def get_prev_def)

lemmas node_simps = set_eq get_upd get_the

lemma INIT_LIST_HEAD_Some:
  assumes "p \<in> dom m"
  obtains m' where "INIT_LIST_HEAD p m = Some m'" "get_next m' = (get_next m)(p \<mapsto> p)"
    "get_prev m' = (get_prev m)(p \<mapsto> p)" "dom m' = dom m" "\<And>a. a \<noteq> p \<Longrightarrow> m' a = m a"
proof -
  let ?m = "the (INIT_LIST_HEAD p m)"
  have "INIT_LIST_HEAD p m = Some ?m" using assms by (simp add: INIT_LIST_HEAD_def node_simps)
  moreover have "get_next ?m = (get_next m)(p \<mapsto> p)" "get_prev ?m = (get_prev m)(p \<mapsto> p)" "dom ?m = dom m"
    using assms by (auto simp: INIT_LIST_HEAD_def node_simps fun_eq_iff)
  moreover have "?m a = m a" if "a \<noteq> p" for a
    using that assms by (simp add: INIT_LIST_HEAD_def node_simps)
  ultimately show thesis using that by blast
qed

lemma list_add_between_Some:
  assumes "{lnew, prv, nxt} \<subseteq> dom m"
  obtains m' where "list_add_between lnew prv nxt m = Some m'"
    "get_next m' = (get_next m)(lnew \<mapsto> nxt, prv \<mapsto> lnew)"
    "get_prev m' = (get_prev m)(nxt \<mapsto> lnew, lnew \<mapsto> prv)" "dom m' = dom m"
    "\<And>a. a \<notin> {lnew, prv, nxt} \<Longrightarrow> m' a = m a"
proof -
  let ?m = "the (list_add_between lnew prv nxt m)"
  have "list_add_between lnew prv nxt m = Some ?m"
    using assms by (simp add: list_add_between_def node_simps)
  moreover have "get_next ?m = (get_next m)(lnew \<mapsto> nxt, prv \<mapsto> lnew)" "dom ?m = dom m"
    "get_prev ?m = (get_prev m)(nxt \<mapsto> lnew, lnew \<mapsto> prv)"
    using assms by (auto simp: list_add_between_def node_simps fun_eq_iff)
  moreover have "?m a = m a" if "a \<notin> {lnew, prv, nxt}" for a
    using that assms by (simp add: list_add_between_def node_simps)
  ultimately show thesis using that by blast
qed

lemma list_del_between_Some:
  assumes "{prv, nxt} \<subseteq> dom m"
  obtains m' where "list_del_between prv nxt m = Some m'" "get_next m' = (get_next m)(prv \<mapsto> nxt)"
    "get_prev m' = (get_prev m)(nxt \<mapsto> prv)" "dom m' = dom m" "\<And>a. a \<notin> {prv, nxt} \<Longrightarrow> m' a = m a"
proof -
  let ?m = "the (list_del_between prv nxt m)"
  have "list_del_between prv nxt m = Some ?m"
    using assms by (simp add: list_del_between_def node_simps)
  moreover have "get_next ?m = (get_next m)(prv \<mapsto> nxt)" "dom ?m = dom m" "get_prev ?m = (get_prev m)(nxt \<mapsto> prv)"
    using assms by (auto simp: list_del_between_def node_simps fun_eq_iff)
  moreover have "?m a = m a" if "a \<notin> {prv, nxt}" for a
    using that assms by (simp add: list_del_between_def node_simps)
  ultimately show thesis using that by blast
qed

text \<open>Chains.\<close>

lemma links_append: "links m (xs @ u # ys) \<longleftrightarrow> links m (xs @ [u]) \<and> links m (u # ys)"
proof (induction xs)
  case (Cons a xs)
  then show ?case by (cases xs) auto
qed simp

lemma links_mono:
  assumes "links m c" "\<And>u. u \<in> set (butlast c) \<Longrightarrow> get_next m' u = get_next m u"
    "\<And>u. u \<in> set (tl c) \<Longrightarrow> get_prev m' u = get_prev m u"
  shows "links m' c"
  using assms
proof (induction m c rule: links.induct)
  case (1 m u v r)
  then show ?case by (cases r) auto
qed auto

lemma ring_dom: "ring m h xs \<Longrightarrow> set (h # xs) \<subseteq> dom m"
proof -
  have *: "links m c \<Longrightarrow> set (butlast c) \<subseteq> dom m" for c
    by (induction m c rule: links.induct) auto
  show "ring m h xs \<Longrightarrow> set (h # xs) \<subseteq> dom m"
    using * [of "h # xs @ [h]"] by (auto simp: ring_def butlast_append)
qed

text \<open>A ring seen from its two ends and from one of its entries.\<close>

lemma ring_next: "ring m h xs \<Longrightarrow> get_next m h = Some (hd (xs @ [h]))"
  by (cases xs) (auto simp: ring_def)

lemma ring_prev: "ring m h xs \<Longrightarrow> get_prev m h = Some (last (h # xs))"
proof (cases xs rule: rev_cases)
  case (snoc ys y)
  moreover assume "ring m h xs"
  ultimately show ?thesis using links_append [of m "h # ys" y "[h]"] by (simp add: ring_def)
qed (simp add: ring_def)

lemma ring_empty: "ring m h xs \<Longrightarrow> list_empty h m = Some (xs = [])"
  by (cases xs) (auto simp: ring_def list_empty_def)

lemma ring_frame:
  assumes "ring m h xs" "\<And>a. a \<in> set (h # xs) \<Longrightarrow> m' a = m a"
  shows "ring m' h xs"
proof -
  have "links m' (h # xs @ [h])"
  proof (rule links_mono)
    show "links m (h # xs @ [h])" using assms(1) by (simp add: ring_def)
    show "get_next m' u = get_next m u" if "u \<in> set (butlast (h # xs @ [h]))" for u
      using that assms(2) by (auto simp: get_next_def butlast_append)
    show "get_prev m' u = get_prev m u" if "u \<in> set (tl (h # xs @ [h]))" for u
      using that assms(2) by (auto simp: get_prev_def)
  qed
  then show ?thesis using assms(1) by (simp add: ring_def)
qed

text \<open>The list operations on rings.\<close>

lemma ring_init:
  assumes "h \<in> dom m"
  obtains m' where "INIT_LIST_HEAD h m = Some m'" "ring m' h []" "dom m' = dom m" "\<And>a. a \<noteq> h \<Longrightarrow> m' a = m a"
proof -
  obtain m' where "INIT_LIST_HEAD h m = Some m'" "get_next m' = (get_next m)(h \<mapsto> h)"
    "get_prev m' = (get_prev m)(h \<mapsto> h)" "dom m' = dom m" "\<And>a. a \<noteq> h \<Longrightarrow> m' a = m a"
    using INIT_LIST_HEAD_Some [OF assms] by blast
  then show thesis using that [of m'] by (simp add: ring_def)
qed

text \<open>The ring around a cut between \<open>ys\<close> and \<open>zs\<close>.\<close>

lemma ring_cut:
  fixes h :: addr
  obtains p ps q qs where "h # ys = ps @ [p]" "zs @ [h] = q # qs" "p = last (h # ys)" "q = hd (zs @ [h])"
    "\<And>c. h # ys @ c @ zs @ [h] = ps @ p # c @ q # qs"
proof -
  define p ps q qs where "p = last (h # ys)" and "ps = butlast (h # ys)" and "q = hd (zs @ [h])" and "qs = tl (zs @ [h])"
  have c: "h # ys = ps @ [p]" "zs @ [h] = q # qs"
    by (simp_all add: p_def ps_def q_def qs_def del: last.simps butlast.simps)
  moreover have "h # ys @ c @ zs @ [h] = ps @ p # c @ q # qs" for c
    using arg_cong [OF c(1), of "\<lambda>r. r @ c @ zs @ [h]"] c(2) by simp
  ultimately show thesis using that p_def q_def by blast
qed

lemma ring_insert:
  assumes "ring m h (ys @ zs)" "n \<in> dom m" "n \<notin> set (h # ys @ zs)"
  obtains m' where "list_add_between n (last (h # ys)) (hd (zs @ [h])) m = Some m'" "ring m' h (ys @ n # zs)"
    "dom m' = dom m" "\<And>a. a \<notin> set (n # h # ys @ zs) \<Longrightarrow> m' a = m a"
proof -
  obtain p ps q qs where c: "h # ys = ps @ [p]" "zs @ [h] = q # qs" "p = last (h # ys)" "q = hd (zs @ [h])"
    "\<And>c. h # ys @ c @ zs @ [h] = ps @ p # c @ q # qs"
    by (rule ring_cut [of h ys zs]) blast
  have d: "distinct (h # ys @ zs)" "n \<notin> set (h # ys)" "n \<notin> set (zs @ [h])" and l: "links m (ps @ p # q # qs)"
    using assms(1,3) c(5) [of "[]"] by (auto simp: ring_def)
  have l': "links m (ps @ [p])" "get_next m p = Some q" "get_prev m q = Some p" "links m (q # qs)"
    using l links_append [of m ps p "q # qs"] by auto
  have pq: "p \<in> set (h # ys)" "q \<in> set (zs @ [h])" unfolding c(1,2) by simp_all
  have "{n, p, q} \<subseteq> dom m" using l' assms(2) by auto
  then obtain m' where m': "list_add_between n p q m = Some m'" "get_next m' = (get_next m)(n \<mapsto> q, p \<mapsto> n)"
    "get_prev m' = (get_prev m)(q \<mapsto> n, n \<mapsto> p)" "dom m' = dom m" "\<And>a. a \<notin> {n, p, q} \<Longrightarrow> m' a = m a"
    by (rule list_add_between_Some) blast
  have "links m' (ps @ [p])"
  proof (rule links_mono [OF l'(1)])
    have "distinct (h # ys)" using d by auto
    then have "p \<notin> set ps" unfolding c(1) by simp
    moreover have "n \<notin> set ps" using d(2) unfolding c(1) by simp
    ultimately show "get_next m' u = get_next m u" if "u \<in> set (butlast (ps @ [p]))" for u
      using that m'(2) by auto
    have "set (tl (ps @ [p])) = set ys" unfolding c(1) [symmetric] by simp
    then show "get_prev m' u = get_prev m u" if "u \<in> set (tl (ps @ [p]))" for u
      using that m'(3) d pq(2) by auto
  qed
  moreover have "links m' (q # qs)"
  proof (rule links_mono [OF l'(4)])
    have "set (butlast (q # qs)) = set zs" unfolding c(2) [symmetric] by simp
    then show "get_next m' u = get_next m u" if "u \<in> set (butlast (q # qs))" for u
      using that m'(2) d pq(1) by auto
    have "distinct (zs @ [h])" using d by auto
    then have "q \<notin> set qs" "n \<notin> set qs" using d(3) unfolding c(2) by simp_all
    then show "get_prev m' u = get_prev m u" if "u \<in> set (tl (q # qs))" for u using that m'(3) by auto
  qed
  moreover have "n \<noteq> p" "n \<noteq> q" using pq d(2,3) by auto
  ultimately have "links m' (ps @ p # n # q # qs)" using m'(2,3) links_append [of m' ps p "n # q # qs"] by simp
  then have "ring m' h (ys @ n # zs)" using d c(5) [of "[n]"] by (auto simp: ring_def)
  moreover have "m' a = m a" if "a \<notin> set (n # h # ys @ zs)" for a
    using that m'(5) [of a] pq by auto
  ultimately show thesis using that m'(1,4) c(3,4) by blast
qed

lemma ring_add_tail:
  assumes "ring m h xs" "n \<in> dom m" "n \<notin> set (h # xs)"
  obtains m' where "list_add_tail n h m = Some m'" "ring m' h (xs @ [n])" "dom m' = dom m"
    "\<And>a. a \<notin> set (n # h # xs) \<Longrightarrow> m' a = m a"
  using ring_insert [of m h xs "[]" n] assms ring_prev [OF assms(1)] that by (simp add: list_add_tail_def) blast

lemma ring_add:
  assumes "ring m h xs" "n \<in> dom m" "n \<notin> set (h # xs)"
  obtains m' where "list_add n h m = Some m'" "ring m' h (n # xs)" "dom m' = dom m"
    "\<And>a. a \<notin> set (n # h # xs) \<Longrightarrow> m' a = m a"
  using ring_insert [of m h "[]" xs n] assms ring_next [OF assms(1)] that by (simp add: list_add_def) blast

lemma ring_del_entry:
  assumes "ring m h (ys @ x # zs)"
  obtains m' where "list_del_entry x m = Some m'" "ring m' h (ys @ zs)" "dom m' = dom m"
    "\<And>a. a \<notin> set (h # ys @ zs) \<Longrightarrow> m' a = m a"
proof -
  obtain p ps q qs where c: "h # ys = ps @ [p]" "zs @ [h] = q # qs" "p = last (h # ys)" "q = hd (zs @ [h])"
    "\<And>c. h # ys @ c @ zs @ [h] = ps @ p # c @ q # qs"
    by (rule ring_cut [of h ys zs]) blast
  have l: "links m (ps @ p # x # q # qs)" and d: "distinct (h # ys @ x # zs)"
    using assms c(5) [of "[x]"] by (simp_all add: ring_def)
  have l': "links m (ps @ [p])" "get_next m p = Some x" "get_prev m x = Some p" "get_next m x = Some q"
      "get_prev m q = Some x" "links m (q # qs)"
    using l links_append [of m ps p "x # q # qs"] by auto
  have pq: "p \<in> set (h # ys)" "q \<in> set (zs @ [h])" unfolding c(1,2) by simp_all
  have "{p, q} \<subseteq> dom m" using l' by auto
  then obtain m' where m': "list_del_between p q m = Some m'" "get_next m' = (get_next m)(p \<mapsto> q)"
    "get_prev m' = (get_prev m)(q \<mapsto> p)" "dom m' = dom m" "\<And>a. a \<notin> {p, q} \<Longrightarrow> m' a = m a"
    by (rule list_del_between_Some) blast
  have "links m' (ps @ [p])"
  proof (rule links_mono [OF l'(1)])
    have "distinct (h # ys)" using d by auto
    then have "p \<notin> set ps" unfolding c(1) by simp
    then show "get_next m' u = get_next m u" if "u \<in> set (butlast (ps @ [p]))" for u
      using that m'(2) by auto
    have "set (tl (ps @ [p])) = set ys" unfolding c(1) [symmetric] by simp
    then show "get_prev m' u = get_prev m u" if "u \<in> set (tl (ps @ [p]))" for u
      using that m'(3) d pq(2) by auto
  qed
  moreover have "links m' (q # qs)"
  proof (rule links_mono [OF l'(6)])
    have "set (butlast (q # qs)) = set zs" unfolding c(2) [symmetric] by simp
    then show "get_next m' u = get_next m u" if "u \<in> set (butlast (q # qs))" for u
      using that m'(2) d pq(1) by auto
    have "distinct (zs @ [h])" using d by auto
    then have "q \<notin> set qs" unfolding c(2) by simp
    then show "get_prev m' u = get_prev m u" if "u \<in> set (tl (q # qs))" for u using that m'(3) by auto
  qed
  ultimately have "links m' (ps @ p # q # qs)" using m'(2,3) links_append [of m' ps p "q # qs"] by simp
  then have "ring m' h (ys @ zs)" using d c(5) [of "[]"] by (simp add: ring_def)
  moreover have "list_del_entry x m = Some m'" using l' m'(1) by (simp add: list_del_entry_def)
  moreover have "m' a = m a" if "a \<notin> set (h # ys @ zs)" for a
    using that m'(5) [of a] pq by auto
  ultimately show thesis using that m'(4) by blast
qed

lemma ring_del:
  assumes "ring m h (ys @ x # zs)"
  obtains m' where "list_del x m = Some m'" "ring m' h (ys @ zs)" "dom m' = dom m"
    "\<And>a. a \<notin> set (h # ys @ x # zs) \<Longrightarrow> m' a = m a"
proof -
  obtain m1 where m1: "list_del_entry x m = Some m1" "ring m1 h (ys @ zs)" "dom m1 = dom m"
    "\<And>a. a \<notin> set (h # ys @ zs) \<Longrightarrow> m1 a = m a"
    using ring_del_entry [OF assms] by blast
  have x: "x \<in> dom m1" "x \<notin> set (h # ys @ zs)" using ring_dom [OF assms] assms m1(3) by (auto simp: ring_def)
  define m2 where "m2 = m1(x \<mapsto> \<lparr>lh_next = 0, lh_prev = 0\<rparr>)"
  have "list_del x m = Some m2"
    using m1(1) x(1) by (cases "the (m1 x)") (auto simp: list_del_def node_simps m2_def)
  moreover have "ring m2 h (ys @ zs)"
    using x(2) by (intro ring_frame [OF m1(2)]) (auto simp: m2_def)
  moreover have "dom m2 = dom m" using x(1) m1(3) by (auto simp: m2_def)
  moreover have "m2 a = m a" if "a \<notin> set (h # ys @ x # zs)" for a
    using that m1(4) [of a] by (auto simp: m2_def)
  ultimately show thesis using that by blast
qed

lemma ring_splice:
  assumes "ring m h xs" "ring m l ys" "set (h # xs) \<inter> set (l # ys) = {}" "ys \<noteq> []"
  obtains m' where "list_splice_raw l h m = Some m'" "ring m' h (ys @ xs)" "dom m' = dom m"
    "\<And>a. a \<notin> set (h # xs @ ys) \<Longrightarrow> m' a = m a"
proof -
  obtain f ys' where f: "ys = f # ys'" using assms(4) by (cases ys) auto
  obtain ys'' z where z: "ys = ys'' @ [z]" using assms(4) by (cases ys rule: rev_cases) auto
  obtain q qs where q: "xs @ [h] = q # qs" by (cases "xs @ [h]") auto
  have "z \<in> set ys" by (simp add: z)
  moreover have "f \<in> set ys" by (simp add: f)
  moreover have "q \<in> set (xs @ [h])" unfolding q by simp
  ultimately have zq: "z \<in> set ys" "f \<in> set ys" "q \<in> set (xs @ [h])" .
  have d: "distinct (h # xs)" "distinct (l # ys)" "set (l # ys) \<subseteq> dom m" "set (h # xs) \<subseteq> dom m"
    using assms(1,2) ring_dom [OF assms(1)] ring_dom [OF assms(2)] by (simp_all add: ring_def)
  have g: "get_next m l = Some f" "get_prev m l = Some z" "get_next m h = Some q"
    by (use ring_next [OF assms(2)] f in simp, use ring_prev [OF assms(2)] z in simp, use ring_next [OF assms(1)] q in simp)
  have ne: "f \<noteq> h" "f \<noteq> q" "z \<noteq> h" "z \<noteq> q" "{f, h, z, q} \<subseteq> dom m" using zq assms(3) d by auto
  let ?m = "the (list_splice_raw l h m)"
  have e: "list_splice_raw l h m = Some ?m" "get_next ?m = (get_next m)(h \<mapsto> f, z \<mapsto> q)"
      "get_prev ?m = (get_prev m)(f \<mapsto> h, q \<mapsto> z)" "dom ?m = dom m"
    using g ne by (auto simp: list_splice_raw_def node_simps fun_eq_iff)
  have "links m (ys @ [l])" using assms(2) f by (simp add: ring_def)
  then have "links m ys" using links_append [of m ys'' z "[l]"] z by simp
  then have ys: "links ?m ys"
  proof (rule links_mono)
    show "get_next ?m u = get_next m u" if "u \<in> set (butlast ys)" for u
      using that d(2) e(2) zq assms(3) unfolding z by auto
    show "get_prev ?m u = get_prev m u" if "u \<in> set (tl ys)" for u
      using that d(2) e(3) zq assms(3) unfolding f by auto
  qed
  have "links m (xs @ [h])" using assms(1) q by (simp add: ring_def)
  then have xs: "links ?m (xs @ [h])"
  proof (rule links_mono)
    show "get_next ?m u = get_next m u" if "u \<in> set (butlast (xs @ [h]))" for u
      using that d e(2) zq assms(3) by auto
    have "distinct (xs @ [h])" using d(1) by simp
    then have "q \<notin> set (tl (xs @ [h]))" unfolding q by simp
    moreover have "f \<notin> set (tl (xs @ [h]))" using zq(2) assms(3) by (cases xs) auto
    ultimately show "get_prev ?m u = get_prev m u" if "u \<in> set (tl (xs @ [h]))" for u
      using that e(3) by auto
  qed
  have g': "get_next ?m h = Some f" "get_prev ?m f = Some h" "get_next ?m z = Some q" "get_prev ?m q = Some z"
    using e(2,3) ne by simp_all
  have "links ?m (h # ys)" using ys g'(1,2) unfolding f by simp
  moreover have "links ?m (z # xs @ [h])" using xs g'(3,4) unfolding q by simp
  ultimately have "links ?m (h # ys @ xs @ [h])"
    using links_append [of ?m "h # ys''" z "xs @ [h]"] unfolding z by simp
  then have "ring ?m h (ys @ xs)" using d assms(3) by (auto simp: ring_def)
  moreover have "?m a = m a" if "a \<notin> set (h # xs @ ys)" for a
    using that g ne zq by (auto simp: list_splice_raw_def node_simps)
  ultimately show thesis using that e(1,4) by blast
qed

section \<open>The queue as a sequence of data\<close>

text \<open>The entries are exactly what is allocated beside the head, so that a lost entry is a leak and a
  dangling pointer a contradiction.\<close>

definition tq_entries :: "'d thread_q \<Rightarrow> addr list \<Rightarrow> 'd option list \<Rightarrow> bool" where
  "tq_entries tq xs ds \<longleftrightarrow> ring (tq_nodes tq) (tq_q tq) xs \<and> map (tq_data tq) xs = map Some ds \<and>
     dom (tq_data tq) = set xs \<and> dom (tq_nodes tq) = set (tq_q tq # xs)"

definition tq_rep :: "'d thread_q \<Rightarrow> 'd option list \<Rightarrow> bool" where
  "tq_rep tq ds \<longleftrightarrow> (\<exists>xs. tq_entries tq xs ds)"

text \<open>What is documented of \<open>calloc\<close>: an address it returns is not null and not in use.\<close>

definition calloc_ok :: "('d thread_q \<Rightarrow> addr option) \<Rightarrow> bool" where
  "calloc_ok alloc \<longleftrightarrow> (\<forall>tq a. alloc tq = Some a \<longrightarrow> a \<noteq> 0 \<and> a \<notin> dom (tq_nodes tq))"

lemma map_upd_notin: "a \<notin> set xs \<Longrightarrow> map (f(a := v)) xs = map f xs"
  by (induction xs) auto

lemma tq_new_rep:
  "\<exists>tq. tq_new (Some q) = Some (Some tq) \<and> tq_rep tq [] \<and> \<not> tq_frozen tq"
proof -
  obtain m where m: "INIT_LIST_HEAD q [q \<mapsto> \<lparr>lh_next = 0, lh_prev = 0\<rparr>] = Some m" "ring m q []" "dom m = {q}"
    by (rule ring_init [of q "[q \<mapsto> \<lparr>lh_next = 0, lh_prev = 0\<rparr>]"]) auto
  then show ?thesis by (auto simp: tq_new_def tq_rep_def tq_entries_def intro!: exI [of _ "[]"])
qed

lemma tq_push_spec:
  assumes "tq_rep tq ds" "a \<notin> dom (tq_nodes tq)"
  shows "\<exists>tq'. tq_push (Some a) d tq = Some (\<not> tq_frozen tq, tq') \<and>
    tq_rep tq' (if tq_frozen tq then ds else ds @ [d]) \<and> tq_frozen tq' = tq_frozen tq"
proof -
  obtain xs where r: "tq_entries tq xs ds" using assms(1) by (auto simp: tq_rep_def)
  then have e: "ring (tq_nodes tq) (tq_q tq) xs" "map (tq_data tq) xs = map Some ds"
    "dom (tq_data tq) = set xs" "dom (tq_nodes tq) = set (tq_q tq # xs)" by (simp_all add: tq_entries_def)
  have na: "a \<notin> set (tq_q tq # xs)" using assms(2) e(4) by simp
  let ?m = "(tq_nodes tq)(a \<mapsto> \<lparr>lh_next = 0, lh_prev = 0\<rparr>)"
  obtain m1 where m1: "INIT_LIST_HEAD a ?m = Some m1" "dom m1 = dom ?m" "\<And>b. b \<noteq> a \<Longrightarrow> m1 b = ?m b"
    by (rule ring_init [of a ?m]) auto
  have r1: "ring m1 (tq_q tq) xs"
  proof (rule ring_frame [OF e(1)])
    show "m1 b = tq_nodes tq b" if "b \<in> set (tq_q tq # xs)" for b
      using that na m1(3) [of b] by (cases "b = a") auto
  qed
  have "a \<in> dom m1" using m1(2) by simp
  then obtain m2 where m2: "list_add_tail a (tq_q tq) m1 = Some m2" "ring m2 (tq_q tq) (xs @ [a])" "dom m2 = dom m1"
    using ring_add_tail [OF r1] na by blast
  have "(m1(a := None)) b = tq_nodes tq b" for b using m1(3) [of b] assms(2) by auto
  then have m1': "m1(a := None) = tq_nodes tq" by blast
  have "a \<notin> dom (tq_data tq)" using e(3) na by simp
  then have "(tq_data tq)(a := None) = tq_data tq" by (auto simp: fun_upd_idem_iff)
  then have "tq_push (Some a) d tq = Some (False, tq)" if "tq_frozen tq"
    using that m1(1) m1' by (simp add: tq_push_def upd_nodes_def free_ent_def calloc_ent_def Let_def)
  moreover have "\<exists>tq'. tq_push (Some a) d tq = Some (True, tq') \<and> tq_entries tq' (xs @ [a]) (ds @ [d]) \<and> \<not> tq_frozen tq'"
    if "\<not> tq_frozen tq"
    using that m1(1,2) m2 e na
    by (auto simp: tq_push_def upd_nodes_def calloc_ent_def tq_entries_def map_upd_notin)
  ultimately show ?thesis using assms(1) by (cases "tq_frozen tq") (auto simp: tq_rep_def)
qed

lemma tq_unlink_spec:
  assumes "tq_entries tq (x # xs) (d # ds)"
  obtains tq1 tq' where "upd_nodes (list_del x) tq = Some tq1" "free_ent x tq1 = Some tq'" "tq_entries tq' xs ds"
    "tq_q tq' = tq_q tq" "tq_frozen tq' = tq_frozen tq"
proof -
  have e: "ring (tq_nodes tq) (tq_q tq) ([] @ x # xs)" "tq_data tq x = Some d" "map (tq_data tq) xs = map Some ds"
    "dom (tq_data tq) = set (x # xs)" "dom (tq_nodes tq) = set (tq_q tq # x # xs)"
    using assms by (simp_all add: tq_entries_def)
  then have d: "distinct (tq_q tq # x # xs)" by (simp add: ring_def)
  obtain m1 where m1: "list_del x (tq_nodes tq) = Some m1" "ring m1 (tq_q tq) xs" "dom m1 = dom (tq_nodes tq)"
    by (rule ring_del [OF e(1)]) auto
  let ?t1 = "tq\<lparr>tq_nodes := m1\<rparr>"
  let ?t2 = "tq\<lparr>tq_nodes := m1(x := None), tq_data := (tq_data tq)(x := None)\<rparr>"
  have "ring (m1(x := None)) (tq_q tq) xs" by (rule ring_frame [OF m1(2)]) (use d in auto)
  then have "tq_entries ?t2 xs ds" using e d m1(3) by (auto simp: tq_entries_def map_upd_notin)
  moreover have "upd_nodes (list_del x) tq = Some ?t1" using m1(1) by (simp add: upd_nodes_def)
  moreover have "free_ent x ?t1 = Some ?t2" using e(2) by (simp add: free_ent_def domI)
  ultimately show thesis using that by auto
qed

lemma tq_pop_entry_spec:
  assumes "tq_rep tq (d # ds)"
  shows "\<exists>tq'. tq_pop_entry tq = Some (d, tq') \<and> tq_rep tq' ds \<and> tq_frozen tq' = tq_frozen tq"
proof -
  obtain x xs where r: "tq_entries tq (x # xs) (d # ds)"
    using assms by (auto simp: tq_rep_def tq_entries_def map_eq_Cons_conv)
  then have "get_next (tq_nodes tq) (tq_q tq) = Some x" "tq_data tq x = Some d"
    using ring_next [of "tq_nodes tq" "tq_q tq" "x # xs"] by (simp_all add: tq_entries_def)
  then show ?thesis using tq_unlink_spec [OF r]
    by (metis (no_types, lifting) bind.bind_lunit tq_pop_entry_def tq_rep_def)
qed

lemma tq_empty: "tq_rep tq ds \<Longrightarrow> list_empty (tq_q tq) (tq_nodes tq) = Some (ds = [])"
  using ring_empty by (fastforce simp: tq_rep_def tq_entries_def)

lemma tq_pop_spec:
  assumes "tq_rep tq ds"
  shows "ds = d # r \<Longrightarrow> \<exists>tq'. tq_pop wait tq = Some (d, tq') \<and> tq_rep tq' r \<and> tq_frozen tq' = tq_frozen tq"
    and "ds = [] \<Longrightarrow> wait tq = (rc, tq1) \<Longrightarrow> rc \<noteq> 0 \<Longrightarrow> tq_pop wait tq = Some (None, tq1)"
    and "ds = [] \<Longrightarrow> wait tq = (0, tq1) \<Longrightarrow> tq_rep tq1 [] \<Longrightarrow> tq_pop wait tq = Some (None, tq1)"
    and "ds = [] \<Longrightarrow> wait tq = (0, tq1) \<Longrightarrow> tq_rep tq1 (d # r) \<Longrightarrow>
      \<exists>tq'. tq_pop wait tq = Some (d, tq') \<and> tq_rep tq' r \<and> tq_frozen tq' = tq_frozen tq1"
  using tq_empty [OF assms] tq_pop_entry_spec [of tq d r] tq_pop_entry_spec [of tq1 d r] tq_empty [of tq1] assms
  by (auto simp: tq_pop_def)

lemma tq_free_loop_spec:
  assumes "tq_entries tq xs ds" "ent = hd (xs @ [tq_q tq])" "get_next (tq_nodes tq) ent = Some iter" "length xs < fuel"
  shows "\<exists>tq'. tq_free_loop fuel ent iter tq = Some tq' \<and> tq_entries tq' [] [] \<and> tq_q tq' = tq_q tq"
  using assms
proof (induction xs arbitrary: tq ds ent iter fuel)
  case Nil
  then have "ds = []" by (simp add: tq_entries_def)
  with Nil show ?case by (cases fuel) auto
next
  case (Cons x xs)
  obtain f where f: "fuel = Suc f" "length xs < f" using Cons.prems(4) by (cases fuel) auto
  obtain d ds' where ds: "ds = d # ds'" using Cons.prems(1) by (auto simp: tq_entries_def)
  obtain tq1 tq' where u: "upd_nodes (list_del x) tq = Some tq1" "free_ent x tq1 = Some tq'" "tq_entries tq' xs ds'"
      "tq_q tq' = tq_q tq"
    using tq_unlink_spec Cons.prems(1) ds by metis
  have g: "ring (tq_nodes tq) (tq_q tq) (x # xs)" using Cons.prems(1) by (simp add: tq_entries_def)
  then have i: "iter = hd (xs @ [tq_q tq'])" using Cons.prems(2,3) u(4) by (cases xs) (auto simp: ring_def)
  have "iter \<in> dom (tq_nodes tq')" using i u(3) by (cases xs) (auto simp: tq_entries_def)
  then obtain n where n: "get_next (tq_nodes tq') iter = Some n" by (auto simp: get_next_def)
  have "x \<noteq> tq_q tq" using g by (auto simp: ring_def)
  then show ?case using Cons.IH [OF u(3) i n f(2)] u f(1) n Cons.prems(2) by simp
qed

section \<open>The contract of a queue\<close>

text \<open>One operation on a queue, and running a sequence of them: which data the pushes accepted and
  which the pops delivered, in order. A pop finds an entry or times out.\<close>

datatype 'd qop = Push 'd | Pop | Freeze bool

fun queue_run :: "('d \<Rightarrow> 's \<Rightarrow> (bool \<times> 's) option) \<Rightarrow> ('s \<Rightarrow> bool option) \<Rightarrow> ('s \<Rightarrow> ('d \<times> 's) option) \<Rightarrow>
    (bool \<Rightarrow> 's \<Rightarrow> 's) \<Rightarrow> 'd qop list \<Rightarrow> 's \<Rightarrow> ('d list \<times> 'd list \<times> 's) option" where
  "queue_run push is_empty pop freeze [] s = Some ([], [], s)"
| "queue_run push is_empty pop freeze (Push d # ops) s = do {
     (ok, s) \<leftarrow> push d s;
     (acc, del, s) \<leftarrow> queue_run push is_empty pop freeze ops s;
     Some (if ok then d # acc else acc, del, s) }"
| "queue_run push is_empty pop freeze (Pop # ops) s = do {
     e \<leftarrow> is_empty s;
     (d, s) \<leftarrow> pop s;
     (acc, del, s) \<leftarrow> queue_run push is_empty pop freeze ops s;
     Some (acc, if e then del else d # del, s) }"
| "queue_run push is_empty pop freeze (Freeze b # ops) s = queue_run push is_empty pop freeze ops (freeze b s)"

locale fifo =
  fixes rep :: "'s \<Rightarrow> 'd list \<Rightarrow> bool"
    and push :: "'d \<Rightarrow> 's \<Rightarrow> (bool \<times> 's) option"
    and is_empty :: "'s \<Rightarrow> bool option"
    and pop :: "'s \<Rightarrow> ('d \<times> 's) option"
    and freeze :: "bool \<Rightarrow> 's \<Rightarrow> 's"
  assumes push_law: "rep s ds \<Longrightarrow> \<exists>ok s'. push d s = Some (ok, s') \<and> rep s' (if ok then ds @ [d] else ds)"
    and empty_law: "rep s ds \<Longrightarrow> is_empty s = Some (ds = [])"
    and pop_law: "rep s (d # ds) \<Longrightarrow> \<exists>s'. pop s = Some (d, s') \<and> rep s' ds"
    and pop_empty_law: "rep s [] \<Longrightarrow> \<exists>d s'. pop s = Some (d, s') \<and> rep s' []"
    and freeze_law: "rep s ds \<Longrightarrow> rep (freeze b s) ds"
begin

lemma run_in_order:
  "rep s ds \<Longrightarrow> \<exists>acc del s' rest. queue_run push is_empty pop freeze ops s = Some (acc, del, s') \<and>
     rep s' rest \<and> ds @ acc = del @ rest"
proof (induction ops arbitrary: s ds)
  case (Cons op ops)
  show ?case
  proof (cases op)
    case (Push d)
    obtain ok s1 where p: "push d s = Some (ok, s1)" "rep s1 (if ok then ds @ [d] else ds)"
      using push_law [OF Cons.prems] by blast
    from Cons.IH [OF p(2)] show ?thesis using p(1) Push by (cases ok) auto
  next
    case Pop
    show ?thesis
    proof (cases ds)
      case Nil
      then obtain d s1 where p: "pop s = Some (d, s1)" "rep s1 []" using pop_empty_law Cons.prems by blast
      from Cons.IH [OF p(2)] show ?thesis using p(1) Pop empty_law [OF Cons.prems] Nil by auto
    next
      case (Cons d ds')
      then obtain s1 where p: "pop s = Some (d, s1)" "rep s1 ds'" using pop_law Cons.prems by blast
      from Cons.IH [OF p(2)] show ?thesis using p(1) Pop empty_law [OF Cons.prems] Cons by auto
    qed
  next
    case (Freeze b)
    then show ?thesis using Cons.IH [OF freeze_law [OF Cons.prems]] by simp
  qed
qed auto

end

text \<open>An allocator whose results are always fresh; one that satisfies the documented behaviour is left
  as it is.\<close>

definition checked_alloc :: "('d thread_q \<Rightarrow> addr option) \<Rightarrow> 'd thread_q \<Rightarrow> addr option" where
  "checked_alloc alloc tq = (case alloc tq of
     None \<Rightarrow> None
   | Some a \<Rightarrow> if a = 0 \<or> a \<in> dom (tq_nodes tq) then None else Some a)"

lemma checked_alloc_ok: "calloc_ok alloc \<Longrightarrow> checked_alloc alloc = alloc"
  by (auto simp: fun_eq_iff checked_alloc_def calloc_ok_def split: option.splits)

text \<open>A wait that times out: nothing has changed.\<close>

definition timed_out :: "'d thread_q \<Rightarrow> int \<times> 'd thread_q" where
  "timed_out tq = (60, tq)"

interpretation tq: fifo tq_rep "\<lambda>d tq. tq_push (checked_alloc alloc tq) d tq"
  "\<lambda>tq. list_empty (tq_q tq) (tq_nodes tq)" "tq_pop timed_out" tq_freezethaw for alloc
proof
  fix s :: "'a thread_q" and ds :: "'a option list" and d :: "'a option"
  assume r: "tq_rep s ds"
  show "\<exists>ok s'. tq_push (checked_alloc alloc s) d s = Some (ok, s') \<and> tq_rep s' (if ok then ds @ [d] else ds)"
  proof (cases "checked_alloc alloc s")
    case None
    then show ?thesis using r by (auto simp: tq_push_def)
  next
    case (Some a)
    then have "a \<notin> dom (tq_nodes s)" by (auto simp: checked_alloc_def split: option.splits if_splits)
    then show ?thesis using tq_push_spec [OF r, of a d] Some by (cases "tq_frozen s") auto
  qed
next
  fix s :: "'a thread_q" assume "tq_rep s []"
  then show "\<exists>d s'. tq_pop timed_out s = Some (d, s') \<and> tq_rep s' []"
    using tq_pop_spec(2) [of s "[]" timed_out 60 s] by (simp add: timed_out_def)
next
  fix s :: "'a thread_q" and d ds assume "tq_rep s (d # ds)"
  then show "\<exists>s'. tq_pop timed_out s = Some (d, s') \<and> tq_rep s' ds"
    using tq_pop_spec(1) [of s "d # ds" d ds timed_out] by blast
qed (auto simp: tq_empty tq_freezethaw_def tq_rep_def tq_entries_def)

section \<open>Properties\<close>

text \<open>C10: the queue between the threads is first in, first out. Starting from a queue that holds \<open>ds\<close>,
  whatever sequence of pushes, pops, freezes and thaws is run, and whichever pushes fail for lack of
  memory or because the queue is frozen, no operation is undefined and the data delivered followed by
  what is still queued is \<open>ds\<close> followed by the data accepted: nothing is lost, duplicated or reordered.\<close>

theorem tq_first_in_first_out:
  assumes "calloc_ok alloc" "tq_rep tq ds"
  shows "\<exists>acc del tq' rest. queue_run (\<lambda>d tq. tq_push (alloc tq) d tq)
      (\<lambda>tq. list_empty (tq_q tq) (tq_nodes tq)) (tq_pop timed_out) tq_freezethaw ops tq = Some (acc, del, tq') \<and>
    tq_rep tq' rest \<and> ds @ acc = del @ rest"
  using tq.run_in_order [OF assms(2), of alloc ops] by (simp add: checked_alloc_ok [OF assms(1)])

definition first_free :: "'d thread_q \<Rightarrow> addr option" where
  "first_free tq = find (\<lambda>a. tq_nodes tq a = None) [1..<100]"

definition one_queue :: "nat thread_q" where
  "one_queue = \<lparr>tq_q = 1, tq_nodes = [1 \<mapsto> \<lparr>lh_next = 1, lh_prev = 1\<rparr>], tq_data = Map.empty, tq_frozen = False\<rparr>"

lemma first_free_ok: "calloc_ok first_free"
  by (auto simp: calloc_ok_def first_free_def find_Some_iff nth_append)

lemma one_queue_rep: "tq_rep one_queue []"
  by (auto simp: tq_rep_def tq_entries_def one_queue_def ring_def get_next_def get_prev_def)

theorem tq_first_in_first_out_witness:
  "\<exists>acc del tq' rest. queue_run (\<lambda>d tq. tq_push (first_free tq) d tq)
      (\<lambda>tq. list_empty (tq_q tq) (tq_nodes tq)) (tq_pop timed_out) tq_freezethaw
      [Push (Some 4), Push None, Pop, Freeze True, Push (Some 5), Pop] one_queue = Some (acc, del, tq') \<and>
    tq_rep tq' rest \<and> [] @ acc = del @ rest"
  by (rule tq_first_in_first_out [OF first_free_ok one_queue_rep])

text \<open>What \<open>tq_pop\<close> returns. From a queue with entries it takes the first without waiting. From an
  empty one it waits; whatever the other threads did to the queue meanwhile, it returns null when the
  wait failed or the queue is still empty, and the first entry that is there otherwise.\<close>

lemma tq_pop_takes_first:
  assumes "tq_rep tq ds" "tq_rep (snd (wait tq)) ds1"
  shows "\<exists>tq'. tq_pop wait tq =
      Some (if ds \<noteq> [] then hd ds else if fst (wait tq) \<noteq> 0 \<or> ds1 = [] then None else hd ds1, tq') \<and>
    tq_rep tq' (if ds \<noteq> [] then tl ds else if fst (wait tq) \<noteq> 0 then ds1 else tl ds1)"
proof (cases ds)
  case Nil
  show ?thesis
  proof (cases "fst (wait tq) = 0")
    case True
    then have w: "wait tq = (0, snd (wait tq))" by (metis prod.collapse)
    show ?thesis
      using Nil assms tq_pop_spec(3) [of tq "[]" wait, OF _ _ w] tq_pop_spec(4) [of tq "[]" wait, OF _ _ w] True by (cases ds1) auto
  next
    case False
    then show ?thesis using Nil assms tq_pop_spec(2) [of tq "[]" wait "fst (wait tq)" "snd (wait tq)"] by auto
  qed
next
  case (Cons d r)
  then show ?thesis using tq_pop_spec(1) [OF assms(1)] by fastforce
qed

text \<open>C40: \<open>tq_free\<close> returns, frees every entry and the queue itself exactly once and never touches an
  entry after freeing it, although it frees the list it walks.\<close>

theorem tq_free_frees_all:
  assumes "tq_rep tq ds"
  shows "tq_free (Suc (length ds)) (Some tq) = Some (Map.empty, Map.empty)"
proof -
  obtain xs where r: "tq_entries tq xs ds" using assms by (auto simp: tq_rep_def)
  then have e: "ring (tq_nodes tq) (tq_q tq) xs" "length xs < Suc (length ds)" "dom (tq_nodes tq) = set (tq_q tq # xs)"
    using map_eq_imp_length_eq by (fastforce simp: tq_entries_def)+
  let ?ent = "hd (xs @ [tq_q tq])"
  have "?ent \<in> dom (tq_nodes tq)" using e(3) by (cases xs) auto
  then obtain iter where i: "get_next (tq_nodes tq) ?ent = Some iter" by (auto simp: get_next_def)
  obtain tq' where t: "tq_free_loop (Suc (length ds)) ?ent iter tq = Some tq'" "tq_entries tq' [] []" "tq_q tq' = tq_q tq"
    using tq_free_loop_spec [OF r refl i e(2)] by blast
  then have "tq_data tq' = Map.empty" "(tq_nodes tq')(tq_q tq' := None) = Map.empty"
    by (auto simp: tq_entries_def fun_eq_iff domIff)
  then show ?thesis using t(1,3) i ring_next [OF e(1)] by (simp add: tq_free_def del: tq_free_loop.simps)
qed

theorem tq_free_frees_all_witness: "tq_free (Suc (length ([] :: nat option list))) (Some one_queue) = Some (Map.empty, Map.empty)"
  by (rule tq_free_frees_all [OF one_queue_rep])


definition two_lists :: nodes where
  "two_lists = [1 \<mapsto> \<lparr>lh_next = 2, lh_prev = 2\<rparr>, 2 \<mapsto> \<lparr>lh_next = 1, lh_prev = 1\<rparr>, 3 \<mapsto> \<lparr>lh_next = 4, lh_prev = 4\<rparr>,
     4 \<mapsto> \<lparr>lh_next = 3, lh_prev = 3\<rparr>, 5 \<mapsto> \<lparr>lh_next = 0, lh_prev = 0\<rparr>]"


end
