(* ===== verification/Barrier.thy ===== *)
theory Barrier
  imports Miner_Prelude
begin

text \<open>The thread barrier of \<open>pthread_barrier_apple.hpp\<close>. The mutex makes the code between locking and waiting
  one step, and every check of the loop condition after a wake-up another one; threads interleave these
  steps freely, and a condition variable may wake a thread at any time. The relation carries counters
  of the calls and returns of each thread, which no step reads.\<close>

section \<open>The barrier\<close>

record barrier =
  arrived :: u32
  required :: u32
  generation :: u32

text \<open>The initialisation of mutex and condition variable may fail.\<close>

definition pthread_barrier_init :: "bool \<Rightarrow> bool \<Rightarrow> u32 \<Rightarrow> barrier option" where
  "pthread_barrier_init mutex_ok cond_ok count =
     (if count = 0 then None else if \<not> mutex_ok then None else if \<not> cond_ok then None
      else Some \<lparr>arrived = 0, required = count, generation = 0\<rparr>)"

text \<open>The first part of \<open>pthread_barrier_wait\<close>: it returns 1 (\<open>None\<close>) or goes to wait for the end of a generation.\<close>

definition barrier_enter :: "barrier \<Rightarrow> barrier \<times> u32 option" where
  "barrier_enter b =
     (let gen = generation b;
          b = b\<lparr>arrived := arrived b + 1\<rparr>
      in if arrived b = required b then (b\<lparr>arrived := 0, generation := generation b + 1\<rparr>, None)
         else (b, Some gen))"

text \<open>The loop condition, checked when the thread holds the mutex again: whether it returns 0.\<close>

definition barrier_leaves :: "u32 \<Rightarrow> barrier \<Rightarrow> bool" where
  "barrier_leaves gen b \<longleftrightarrow> gen \<noteq> generation b"

section \<open>Threads at the barrier\<close>

datatype place = Outside | Waiting u32

record barrier_sys =
  bar :: barrier
  place_of :: "nat \<Rightarrow> place"
  calls :: "nat \<Rightarrow> nat"       \<comment> \<open>calls of \<open>pthread_barrier_wait\<close>\<close>
  returns :: "nat \<Rightarrow> nat"     \<comment> \<open>returns from it\<close>
  serials :: nat               \<comment> \<open>how many of them gave 1\<close>

definition enter_thread :: "nat \<Rightarrow> barrier_sys \<Rightarrow> barrier_sys" where
  "enter_thread t s = (case barrier_enter (bar s) of
     (b, None) \<Rightarrow> s\<lparr>bar := b, calls := (calls s)(t := calls s t + 1), returns := (returns s)(t := returns s t + 1),
        serials := serials s + 1\<rparr>
   | (b, Some g) \<Rightarrow> s\<lparr>bar := b, calls := (calls s)(t := calls s t + 1), place_of := (place_of s)(t := Waiting g)\<rparr>)"

definition wake_thread :: "nat \<Rightarrow> u32 \<Rightarrow> barrier_sys \<Rightarrow> barrier_sys" where
  "wake_thread t g s =
     (if barrier_leaves g (bar s)
      then s\<lparr>place_of := (place_of s)(t := Outside), returns := (returns s)(t := returns s t + 1)\<rparr> else s)"

inductive bstep :: "nat \<Rightarrow> barrier_sys \<Rightarrow> barrier_sys \<Rightarrow> bool" for N where
  enter: "t < N \<Longrightarrow> place_of s t = Outside \<Longrightarrow> bstep N s (enter_thread t s)"
| wake: "t < N \<Longrightarrow> place_of s t = Waiting g \<Longrightarrow> bstep N s (wake_thread t g s)"

definition start_sys :: "barrier \<Rightarrow> barrier_sys" where
  "start_sys b = \<lparr>bar = b, place_of = (\<lambda>_. Outside), calls = (\<lambda>_. 0), returns = (\<lambda>_. 0), serials = 0\<rparr>"

text \<open>The states that the threads below \<open>N\<close> reach with a barrier initialised for \<open>N\<close> of them.\<close>

inductive breach :: "nat \<Rightarrow> barrier_sys \<Rightarrow> bool" for N where
  start: "pthread_barrier_init True True (of_nat N) = Some b \<Longrightarrow> breach N (start_sys b)"
| step: "breach N s \<Longrightarrow> bstep N s s' \<Longrightarrow> breach N s'"

inductive_cases bstepE: "bstep N s s'"

section \<open>The invariant\<close>

text \<open>Those that have entered in the current round.\<close>

definition entered :: "nat \<Rightarrow> barrier_sys \<Rightarrow> nat set" where
  "entered N s = {t. t < N \<and> calls s t = serials s + 1}"

definition thread_ok :: "barrier_sys \<Rightarrow> nat \<Rightarrow> bool" where
  "thread_ok s t \<longleftrightarrow> (case place_of s t of
     Outside \<Rightarrow> calls s t = serials s \<and> returns s t = serials s
   | Waiting g \<Rightarrow> g = of_nat (returns s t) \<and> calls s t = returns s t + 1 \<and>
       (calls s t = serials s \<or> calls s t = serials s + 1))"

definition barrier_inv :: "nat \<Rightarrow> barrier_sys \<Rightarrow> bool" where
  "barrier_inv N s \<longleftrightarrow>
     required (bar s) = of_nat N \<and> generation (bar s) = of_nat (serials s) \<and>
     arrived (bar s) = of_nat (card (entered N s)) \<and> card (entered N s) < N \<and>
     (\<forall>t < N. thread_ok s t)"

lemma finite_entered [simp]: "finite (entered N s)"
  by (simp add: entered_def)

lemma inv_thread:
  assumes "barrier_inv N s" "t < N"
  shows "place_of s t = Outside \<Longrightarrow> calls s t = serials s \<and> returns s t = serials s"
    "place_of s t = Waiting g \<Longrightarrow> g = of_nat (returns s t) \<and> calls s t = returns s t + 1 \<and>
       (calls s t = serials s \<or> calls s t = serials s + 1)"
  using assms by (auto simp: barrier_inv_def thread_ok_def dest!: spec [of _ t])

lemma of_nat_eq_small: "a < 2 ^ 32 \<Longrightarrow> b < 2 ^ 32 \<Longrightarrow> (of_nat a :: u32) = of_nat b \<longleftrightarrow> a = b"
  by (simp add: word_of_nat_eq_iff take_bit_nat_eq_self)

lemma enter_inv:
  assumes "barrier_inv N s" "N < 2 ^ 32" "t < N" "place_of s t = Outside"
  shows "barrier_inv N (enter_thread t s)"
proof -
  let ?n = "card (entered N s)"
  have i: "required (bar s) = of_nat N" "generation (bar s) = of_nat (serials s)" "arrived (bar s) = of_nat ?n" "?n < N"
    using assms(1) by (simp_all add: barrier_inv_def)
  have t: "calls s t = serials s" "returns s t = serials s" using inv_thread(1) [OF assms(1,3,4)] by simp_all
  then have new: "t \<notin> entered N s" by (simp add: entered_def)
  have full: "arrived (bar s) + 1 = required (bar s) \<longleftrightarrow> Suc ?n = N"
    using i assms(2) of_nat_eq_small [of "Suc ?n" N] by (simp add: add.commute)
  show ?thesis
  proof (cases "Suc ?n = N")
    case True
    have "insert t (entered N s) = {..<N}"
      using new True assms(3) by (intro card_subset_eq) (auto simp: entered_def)
    then have all: "\<And>u. u < N \<Longrightarrow> u \<noteq> t \<Longrightarrow> calls s u = serials s + 1"
      by (auto simp: entered_def set_eq_iff)
    then have waits: "\<And>u. u < N \<Longrightarrow> u \<noteq> t \<Longrightarrow> \<exists>g. place_of s u = Waiting g"
      using inv_thread(1) [OF assms(1)] by (metis n_not_Suc_n Suc_eq_plus1 place.exhaust)
    have "entered N (enter_thread t s) = {}"
      using True full all t by (auto simp: entered_def enter_thread_def barrier_enter_def Let_def)
    moreover have "thread_ok (enter_thread t s) u" if u: "u < N" for u
    proof (cases "u = t")
      case True
      then show ?thesis
        using full \<open>Suc ?n = N\<close> t assms(4) by (simp add: thread_ok_def enter_thread_def barrier_enter_def Let_def)
    next
      case False
      then obtain g where "place_of s u = Waiting g" "calls s u = serials s + 1" using waits all u by blast
      then show ?thesis
        using full \<open>Suc ?n = N\<close> False inv_thread(2) [OF assms(1) u]
        by (simp add: thread_ok_def enter_thread_def barrier_enter_def Let_def)
    qed
    ultimately show ?thesis
      using True full i by (simp add: barrier_inv_def enter_thread_def barrier_enter_def Let_def)
  next
    case False
    have "entered N (enter_thread t s) = insert t (entered N s)"
      using False full t assms(3) by (auto simp: entered_def enter_thread_def barrier_enter_def Let_def)
    then have "card (entered N (enter_thread t s)) = Suc ?n" using new by simp
    then show ?thesis
      using False full i t assms
      by (auto simp: barrier_inv_def thread_ok_def enter_thread_def barrier_enter_def Let_def split: place.splits)
  qed
qed

lemma wake_returns:
  assumes "barrier_inv N s" "t < N" "place_of s t = Waiting g"
  shows "barrier_leaves g (bar s) \<longleftrightarrow> calls s t = serials s"
proof -
  have "g = of_nat (returns s t)" "calls s t = returns s t + 1" "calls s t = serials s \<or> calls s t = serials s + 1"
    using inv_thread(2) [OF assms] by blast+
  moreover have "(of_nat n :: u32) \<noteq> of_nat (Suc n)" for n by simp
  ultimately show ?thesis using assms(1) by (metis Suc_eq_plus1 add_right_cancel barrier_inv_def barrier_leaves_def)
qed

lemma wake_inv:
  assumes "barrier_inv N s" "t < N" "place_of s t = Waiting g"
  shows "barrier_inv N (wake_thread t g s)"
proof (cases "barrier_leaves g (bar s)")
  case True
  then have c: "calls s t = serials s" using wake_returns [OF assms] by simp
  have e: "entered N (wake_thread t g s) = entered N s" by (simp add: entered_def wake_thread_def)
  have "thread_ok (wake_thread t g s) u" if "u < N" for u
    using c inv_thread [OF assms(1) that] inv_thread(2) [OF assms] True
    by (cases "u = t"; cases "place_of s u") (simp_all add: thread_ok_def wake_thread_def)
  then show ?thesis using assms(1) e True by (simp add: barrier_inv_def wake_thread_def)
qed (use assms in \<open>simp add: wake_thread_def\<close>)

lemma reach_inv:
  assumes "breach N s" "0 < N" "N < 2 ^ 32"
  shows "barrier_inv N s"
  using assms(1)
proof induction
  case (start b)
  then show ?case
    using assms(2) by (auto simp: pthread_barrier_init_def start_sys_def barrier_inv_def thread_ok_def entered_def split: if_splits)
next
  case (step s s')
  from step.hyps(2) step.IH assms(3) show ?case
    by (elim bstepE) (simp_all add: enter_inv wake_inv)
qed

section \<open>Properties\<close>

text \<open>C17: the barrier keeps the threads in step. With \<open>N\<close> threads at a barrier for \<open>N\<close>, however they are
  scheduled, whatever spurious wake-ups there are and although the generation counter wraps, no thread
  has returned more often than any other has called, and exactly one return per round gives 1.\<close>

theorem barrier_synchronises:
  assumes "breach N s" "N < 2 ^ 32" "t < N" "u < N"
  shows "returns s t \<le> serials s \<and> serials s \<le> calls s u"
proof -
  have i: "barrier_inv N s" using reach_inv assms by simp
  have "returns s t \<le> serials s" using inv_thread [OF i assms(3)] by (cases "place_of s t") auto
  moreover have "serials s \<le> calls s u" using inv_thread [OF i assms(4)] by (cases "place_of s u") auto
  ultimately show ?thesis ..
qed

text \<open>Two threads: the first waits and the second has released it.\<close>

definition pair_start :: barrier_sys where
  "pair_start = start_sys \<lparr>arrived = 0, required = 2, generation = 0\<rparr>"

definition pair_released :: barrier_sys where
  "pair_released = enter_thread 1 (enter_thread 0 pair_start)"

lemma reach_pair: "breach 2 pair_released" "place_of pair_released 0 = Waiting 0"
proof -
  have "breach 2 pair_start"
    unfolding pair_start_def by (rule breach.start) (simp add: pthread_barrier_init_def)
  then have "breach 2 (enter_thread 0 pair_start)"
    by (rule breach.step) (rule bstep.enter; simp add: pair_start_def start_sys_def)
  then show "breach 2 pair_released"
    unfolding pair_released_def
    by (rule breach.step) (rule bstep.enter; simp add: pair_start_def start_sys_def enter_thread_def barrier_enter_def)
  show "place_of pair_released 0 = Waiting 0"
    by (simp add: pair_released_def pair_start_def start_sys_def enter_thread_def barrier_enter_def)
qed

theorem barrier_synchronises_witness:
  "returns pair_released 0 \<le> serials pair_released \<and> serials pair_released \<le> calls pair_released 1"
  by (rule barrier_synchronises [OF reach_pair(1)]) simp_all

text \<open>C30: nobody is left behind. A thread that waits, wakes up and goes on waiting does so because another
  one has not entered yet: once every thread has called as often as it has, its next wake-up returns.\<close>

theorem barrier_releases:
  assumes "breach N s" "N < 2 ^ 32" "t < N" "place_of s t = Waiting g" "\<forall>u < N. calls s t \<le> calls s u"
  shows "place_of (wake_thread t g s) t = Outside"
proof -
  have i: "barrier_inv N s" using reach_inv assms by simp
  have "calls s t = serials s"
  proof (rule ccontr)
    assume "calls s t \<noteq> serials s"
    then have "\<forall>u < N. calls s u = serials s + 1"
      using inv_thread [OF i] assms(3-5) by (metis Suc_eq_plus1 le_antisym le_refl n_not_Suc_n not_less_eq_eq place.exhaust)
    then have "entered N s = {..<N}" by (auto simp: entered_def)
    then show False using i by (simp add: barrier_inv_def)
  qed
  then show ?thesis using wake_returns [OF i assms(3,4)] by (simp add: wake_thread_def)
qed

theorem barrier_releases_witness: "place_of (wake_thread 0 0 pair_released) 0 = Outside"
  by (rule barrier_releases [OF reach_pair(1) _ _ reach_pair(2)])
    (auto simp: less_2_cases_iff pair_released_def pair_start_def start_sys_def enter_thread_def barrier_enter_def)

end
