(* ===== verification/Spec2Isabelle.thy ===== *)
theory Spec2Isabelle
  imports Apisafe Threadq Barrier
begin

text \<open>
  A verification development of ccminer for VerusCoin on ARM (\<open>src/\<close>): a CPU miner that receives jobs
  from a pool, scans nonces for a VerusHash below the target, and submits the shares it finds.

  \<^bold>\<open>The program.\<close> A stratum thread reads lines from the pool and stores the job (\<open>util.cpp\<close>,
  \<open>verus/stratum.cpp\<close>). Miner threads make a block header from the job (\<open>stratum_gen_work\<close> of \<open>ccminer.cpp\<close>) and
  scan it (\<open>scanhash_verus\<close> of \<open>verus/verusscan.cpp\<close>, over the kernels of \<open>verus/verus_clhash.cpp\<close> and
  \<open>verus/haraka.c\<close>). A share that was found goes through a queue (\<open>tq_push\<close>, \<open>tq_pop\<close> of \<open>util.cpp\<close> over the lists of
  \<open>elist.h\<close>) to the workio thread, which sends it and retries. The answer of the pool is counted
  (\<open>share_result\<close>), submitted shares and speeds are remembered (\<open>hashlog.cpp\<close>, \<open>stats.cpp\<close>), and when a pool fails
  the next one is taken (\<open>pools.cpp\<close>).

  \<^bold>\<open>Theories.\<close>
  \<^item> \<open>Miner_Prelude\<close>: machine integers as words, arrays as lists with checked access (\<open>rd\<close>, \<open>wr\<close>,
    \<open>rdn\<close>, \<open>wrn\<close>: an access out of range is \<open>None\<close>), little-endian encodings, and the collection \<open>mem_simps\<close>.
  \<^item> \<open>Simd\<close>: the vector intrinsics. On ARM they come from the submodule \<open>sse2neon\<close>, which is not part of the sources,
    so the record \<open>sse\<close> is an argument of every kernel and the locale \<open>sse_intrinsics\<close> states the
    documented meaning of the operations; \<open>sse_doc\<close> is the instance of the processor manual and interprets it.
    \<open>verus_mulhrs_epi16\<close> of \<open>verus_clhash.cpp\<close>, which the miner implements itself, is proved to be \<open>PMULHRSW\<close>.
  \<^item> \<open>Haraka\<close>: \<open>verus/haraka.c\<close> and \<open>haraka.h\<close>. The four- and eight-way variants are single hashes and the prefilter is the last
    word of the keyed hash.
  \<^item> \<open>Clhash\<close>: \<open>verus/verus_clhash.cpp\<close>, each case of the switch and both builds. The kernel stays in its arrays, the
    two-lane kernel is two single ones, and the builds agree.
  \<^item> \<open>Verusscan\<close>: \<open>verus/verusscan.cpp\<close>: key generation, half hash, restoring of the key, the scan loop with one and
    with two lanes. The scan reports the least valid nonce of the range it covered.
  \<^item> \<open>Miner_Types\<close>: the structures and byte-order functions of \<open>miner.h\<close>. \<open>Uint256\<close>: \<open>uint256.h\<close> and
    \<open>bignum.cpp\<close>. \<open>Util\<close>: hexadecimal conversion, targets and curl callbacks of \<open>util.cpp\<close>.
  \<^item> \<open>Threadq\<close>: the pointer lists of \<open>elist.h\<close> over an explicit store of nodes and the thread queues; the locale
    \<open>fifo\<close> is the contract of a queue, interpreted on the pointer implementation.
  \<^item> \<open>Ordmap\<close>, \<open>Hashlog\<close>, \<open>Stats\<close>: \<open>std::map\<close> as an ordered association list, the log of shares and
    the log of speeds; the locale \<open>expiring_log\<close> is what a purge promises, interpreted on both. \<open>Algos\<close>: the table of \<open>algos.h\<close>.
  \<^item> \<open>Linebuf\<close>: sending and receiving lines over the socket. \<open>Stratum\<close>: every message of the pool
    and its effect on connection and job. \<open>Workgen\<close>: \<open>stratum_gen_work\<close> and \<open>verus_stratum_submit\<close>.
  \<^item> \<open>Pools\<close>: \<open>pools.cpp\<close> with the globals of the program as the record \<open>miner\<close>. \<open>Submit\<close>: submission, retry loop and
    accounting of shares in \<open>ccminer.cpp\<close>. \<open>Barrier\<close>: \<open>pthread_barrier_apple.hpp\<close> as a step relation over
    interleaved threads.
  \<^item> \<open>Getwork\<close>: the solo protocol and the workio thread of \<open>ccminer.cpp\<close>: a miner thread queues a request, the workio
    thread answers every request exactly once, with a work or with the end of the program.
  \<^item> \<open>Mining\<close>: the loop of \<open>miner_thread\<close>, cut at its waits: \<open>adopt_work\<close>, \<open>plan_batch\<close>, the scan and the accounting of a
    round. \<open>Minesound\<close>: a round from a prepared state runs without undefined behaviour, leaves a prepared state, and every share
    it queues meets the target. Its proofs use the small calculus \<open>returns\<close> and \<open>ensures\<close> for computations in \<open>option\<close>.
  \<^item> \<open>Connect\<close>: the connection set-up of \<open>util.cpp\<close> (\<open>json_rpc_call\<close>, \<open>stratum_connect\<close>, \<open>stratum_subscribe\<close>,
    \<open>stratum_authorize\<close>) with the outcomes of libcurl and of the socket as arguments.
  \<^item> \<open>Netthreads\<close>: \<open>stratum_thread\<close> and \<open>longpoll_thread\<close> as step functions over a program counter. \<open>Netsound\<close>: the relation
    \<open>net_moves\<close>, in which steps of both threads interleave in any order, keeps the invariant \<open>mine_ok\<close> of the miner.
  \<^item> \<open>Options\<close>: every option of \<open>ccminer.cpp\<close> (\<open>parse_arg\<close>), configuration files (\<open>parse_config\<close>), their pools
    (\<open>parse_pool_array\<close> of \<open>pools.cpp\<close>) and \<open>main\<close> up to the start of the threads, from the initial values of the globals
    (\<open>boot\<close>). \<open>Startup\<close>: options keep their ranges, the credentials of an address reach the pool, and the start
    establishes the invariant \<open>mine_ok\<close>.
  \<^item> \<open>Websock\<close>: the answers of \<open>api.cpp\<close> over a WebSocket, with base64 equal to its definition by bits. \<open>Access\<close>: the groups of
    commands, the list of allowed addresses and the test of a client. \<open>Api\<close>: the commands, the requests, the loop and the thread of the
    API server, and the discovery answer (\<open>mcast\<close>).
  \<^item> \<open>Apisafe\<close>: which requests the API server understands, and that its answers fit and its commands keep \<open>mine_ok\<close>. The relation
    \<open>miner_moves\<close> adds the requests to \<open>net_moves\<close>: a mining thread is sound beside all other threads, and a Verus miner is sound
    from its command line on.
  \<^item> this theory: the composition of scan and submission.

  \<^bold>\<open>Conventions.\<close> A C function becomes a HOL function of its arguments and of the state it reads, which returns the
  state it changes. Undefined behaviour (an access out of bounds, a null pointer, an overflowing text buffer) is
  \<open>None\<close>, so a theorem that gives \<open>Some\<close> shows its absence. Error results of the code are values. What
  lies outside is an argument: the JSON library (record \<open>jansson\<close>), SHA-256 and the random generator, outcomes of
  socket calls and of the allocator, the clock, the contents of uninitialised memory. What other threads do to the shared
  state while a thread holds no lock is a function on that state, applied where the code gives up or has not taken the
  lock; the theorems let it be any function that keeps the invariant of the theorem. A double is a value of a type \<open>'f\<close> with a
  record \<open>fops\<close> of operations, about which nothing is assumed unless a theorem says so. Texts that are only logged are left out.

  \<^bold>\<open>Bounds and loops.\<close> Loops of the code are structural recursions over their remaining iterations; the scan loop
  decreases the distance to the limit; reading a line consumes the list of events of the socket. The retry loops of the workio
  thread may run forever when \<open>opt_retries\<close> is negative and are \<open>partial_function\<close>s (\<open>submit_loop\<close>, \<open>get_loop\<close>); that they
  return is proved for the other values. The endless loops of the threads are step functions, one step from one wait to
  the next. No fuel is used.

  \<^bold>\<open>Not modelled.\<close> The signal handlers, the creation of the threads and the periodic output of the main
  thread, the socket calls of the remote API (their outcomes are arguments) and the set-up of its multicast socket,
  system information (\<open>sysinfos.cpp\<close>, what the API reads from it is an argument), the benchmark report (\<open>bench.cpp\<close>, which
  nothing calls), templates that are never instantiated (\<open>serialize.hpp\<close>, \<open>bignum.hpp\<close>), and the test program. Requests to the
  API that set an address or use negative numbers are modelled, but outside what \<open>Apisafe\<close> proves safe: they can end the program or leave the arrays.
\<close>

section \<open>From the scan to the pool\<close>

text \<open>The form of a block that the hash covers: for merged mining the header fields that differ between
  the chains and 64 bytes of the solution are zero.\<close>

definition canonical_block :: "bytes \<Rightarrow> bytes" where
  "canonical_block b =
     (if b ! 143 \<ge> 7 \<and> b ! 148 > 0
      then splice (splice (splice (splice b 4 (replicate 96 0)) 104 (replicate 4 0)) 108 (replicate 32 0)) 151 (replicate 64 0)
      else b)"

lemma bytes_35: "length ws = 48 \<Longrightarrow> take 140 (u32s_to_bytes ws) = u32s_to_bytes (take 35 ws)"
  using take_u32s_to_bytes [of 35 ws] by simp

text \<open>The block the scan hashes is the canonical form of the header and the solution of the work.\<close>

lemma full_data_canonical:
  assumes "wf_work work" "build_full_data work = Some (full, ns)"
  shows "length full = 1487" "length ns = 15"
    "full = canonical_block (u32s_to_bytes (take 35 (w_data work)) @ [0xfd, 0x40, 0x05] @ w_solution work)"
proof -
  have w: "length (w_data work) = 48" "length (w_solution work) = 1344" using assms(1) by (simp_all add: wf_work_def)
  let ?h = "u32s_to_bytes (take 35 (w_data work))"
  have h: "length ?h = 140" using w(1) by simp
  have mm: "merged_mining (w_solution work) = Some (w_solution work ! 0 \<ge> 7 \<and> w_solution work ! 5 > 0)"
    using w(2) by (simp add: merged_mining_def mem_simps)
  have "(?h @ [0xfd, 0x40, 0x05] @ w_solution work) ! 143 = w_solution work ! 0"
    "(?h @ [0xfd, 0x40, 0x05] @ w_solution work) ! 148 = w_solution work ! 5"
    using h by (simp_all add: nth_append)
  then show "length full = 1487" "length ns = 15" "full = canonical_block (?h @ [0xfd, 0x40, 0x05] @ w_solution work)"
    using assms(2) w h mm bytes_35 [OF w(1)]
    by (auto simp: build_full_data_def canonical_block_def mem_simps len_simps NONCE_OFT_def Let_def split: if_splits)
qed

lemma splice_append: "off + length src \<le> length a \<Longrightarrow> splice (a @ r) off src = splice a off src @ r"
  by (simp add: splice_def)

definition clear_header :: "bytes \<Rightarrow> bytes" where
  "clear_header h = splice (splice (splice h 4 (replicate 96 0)) 104 (replicate 4 0)) 108 (replicate 32 0)"

lemma canonical_parts:
  assumes "length h = 140" "length p = 3" "length a = 8" "length b = 64"
  shows "canonical_block (h @ p @ a @ b @ c) =
    (if a ! 0 \<ge> 7 \<and> a ! 5 > 0 then clear_header h @ p @ a @ replicate 64 0 @ c else h @ p @ a @ b @ c)"
proof -
  have "(h @ p @ a @ b @ c) ! 143 = a ! 0" "(h @ p @ a @ b @ c) ! 148 = a ! 5"
    using assms by (simp_all add: nth_append)
  moreover have "length (clear_header h) = 140" using assms(1) by (simp add: clear_header_def len_simps)
  then have "splice ((clear_header h @ p @ a) @ b @ c) 151 (replicate 64 0) = (clear_header h @ p @ a) @ replicate 64 0 @ c"
    using assms by (intro splice_split) simp_all
  ultimately show ?thesis
    using assms(1) by (simp add: canonical_block_def clear_header_def splice_append len_simps)
qed

text \<open>Submitting puts the bytes back that the canonical form hides.\<close>

lemma canonical_of_sent:
  assumes "wf_work work" "build_full_data work = Some (full, ns)" "length tail = 15"
  shows "canonical_block (u32s_to_bytes (take 35 (w_data work)) @
      splice (take 1332 (drop 140 full) @ tail) 11 (take 64 (drop 8 (w_solution work)))) = take 1472 full @ tail"
proof -
  have w: "length (w_data work) = 48" "length (w_solution work) = 1344" using assms(1) by (simp_all add: wf_work_def)
  define h where "h = u32s_to_bytes (take 35 (w_data work))"
  define a b c where "a = take 8 (w_solution work)" "b = take 64 (drop 8 (w_solution work))" "c = drop 72 (w_solution work)"
  define p :: bytes where "p = [0xfd, 0x40, 0x05]"
  have l: "length h = 140" "length p = 3" "length a = 8" "length b = 64" "length c = 1272"
    using w by (simp_all add: h_def a_b_c_def p_def)
  have "b @ c = drop 8 (w_solution work)" using append_take_drop_id [of 64 "drop 8 (w_solution work)"] by (simp add: a_b_c_def)
  then have "w_solution work = a @ b @ c" by (simp add: a_b_c_def(1))
  then have f: "full = canonical_block (h @ p @ a @ b @ c)"
    using full_data_canonical(3) [OF assms(1,2)] by (simp add: h_def p_def)
  have hl: "length (clear_header h) = 140" using l(1) by (simp add: clear_header_def len_simps)
  obtain g b' where g: "full = g @ p @ a @ b' @ c" "length g = 140" "length b' = 64"
    "g = (if a ! 0 \<ge> 7 \<and> a ! 5 > 0 then clear_header h else h)" "b' = (if a ! 0 \<ge> 7 \<and> a ! 5 > 0 then replicate 64 0 else b)"
    using f l hl by (simp add: canonical_parts)
  have "splice ((p @ a) @ b' @ take 1257 c @ tail) 11 b = (p @ a) @ b @ take 1257 c @ tail"
    using l g(3) by (intro splice_split) simp_all
  moreover have "take 1332 (drop 140 full) @ tail = (p @ a) @ b' @ take 1257 c @ tail" using g(1-3) l by simp
  ultimately have "canonical_block (h @ splice (take 1332 (drop 140 full) @ tail) 11 b) =
    canonical_block (h @ p @ a @ b @ take 1257 c @ tail)" by simp
  also have "\<dots> = g @ p @ a @ b' @ take 1257 c @ tail" using l g(4,5) by (simp add: canonical_parts)
  also have "\<dots> = take 1472 full @ tail" using g(1-3) l by simp
  finally show ?thesis by (simp add: h_def a_b_c_def)
qed

text \<open>The time of the header is in the canonical form too.\<close>

lemma word_of_bytes: "i < length ws \<Longrightarrow> ws ! i = of_le (take 4 (drop (4 * i) (u32s_to_bytes ws)))"
  using nth_bytes_to_u32s [of i "u32s_to_bytes ws"] by (simp add: bytes_to_u32s_to_bytes)

lemma full_data_time:
  assumes "wf_work work" "build_full_data work = Some (full, ns)"
  shows "take 4 (drop 100 full) = take 4 (drop 100 (u32s_to_bytes (take 35 (w_data work))))"
proof -
  have w: "length (w_data work) = 48" "length (w_solution work) = 1344" using assms(1) by (simp_all add: wf_work_def)
  then show ?thesis
    unfolding full_data_canonical(3) [OF assms] canonical_block_def by (simp add: splice_def)
qed

lemma header_words:
  assumes "u32s_to_bytes (take 35 ws) = h" "length ws = 48" "k < 35"
  shows "ws ! k = of_le (take 4 (drop (4 * k) h))" "take 32 (drop 108 (u32s_to_bytes ws)) = take 32 (drop 108 h)"
proof -
  show "ws ! k = of_le (take 4 (drop (4 * k) h))" using word_of_bytes [of k "take 35 ws"] assms by simp
  have "h = take 140 (u32s_to_bytes ws)" using bytes_35 [OF assms(2)] assms(1) by simp
  then show "take 32 (drop 108 (u32s_to_bytes ws)) = take 32 (drop 108 h)" by (simp add: drop_take)
qed

text \<open>C1: what is submitted passes the pool's check. For documented vector operations and a work with no
  nonce recorded yet, the scan returns; when it reports a share, \<open>verus_stratum_submit\<close> sends one message
  that carries a solution of 1347 bytes, such that the VerusHash of the canonical form of the header of the work followed by
  that solution meets the target of the work; the message names the job, its
  time and the nonce of the hashed block without the pool's prefix, and fits the buffer it is built in.\<close>

theorem submitted_share_meets_target:
  assumes "sse_intrinsics S" "wf_work work" "w_valid_nonces work = 0"
    "length buf2 = 64" "length junk = 552" "length t0 = 32" "length t1 = 32" "length cand = 32"
    "ctx_xnonce1_size (cn_ctx c) \<le> 32" "sv_alloc E" "sv_send E = (\<lambda>s. True)"
    "8 \<le> length (w_job_id work)" "length (w_job_id work) \<le> 127" "length user \<le> 191"
  shows "\<exists>ret done work'.
    scanhash_verus S F sd True buf2 junk t0 t1 cand stop work max_nonce = Some (ret, done, work') \<and>
    (ret = 1 \<longrightarrow> (\<exists>sol block msg w2 c2.
       verus_stratum_submit E now user (work'\<lparr>w_submit_nonce_id := 0\<rparr>) c = Some (True, w2, c2) \<and>
       cn_sent c2 = cn_sent c @ [msg] \<and> length msg < JSON_SUBMIT_BUF_LEN \<and>
       msg = submit_message user (drop 8 (w_job_id work)) (hex_digits 8 (swab32 (w_data work ! 25)))
         (cbin2hex (drop (ctx_xnonce1_size (cn_ctx c)) (take 32 (drop 108 block)))) (cbin2hex sol)
         (job_shares_count (ctx_job (cn_ctx c)) + 10) \<and>
       length sol = 1347 \<and> block = canonical_block (u32s_to_bytes (take 35 (w_data work)) @ sol) \<and>
       block_meets S block (w_target work)))"
proof -
  obtain ret d work' where s: "scanhash_verus S F sd True buf2 junk t0 t1 cand stop work max_nonce = Some (ret, d, work')"
    "scan_kept work work'"
    "ret = 1 \<longrightarrow> (\<exists>n. block_meets S (scan_block work n) (w_target work) \<and> recorded_share work' = scan_block work n)"
    using scan_outcome [OF assms(1-8), of F sd stop max_nonce] by fastforce
  obtain full ns where f: "build_full_data work = Some (full, ns)" "length full = 1487" "length ns = 15"
    using build_full_data_total [OF assms(2)] by blast
  have "\<exists>sol block msg w2 c2.
       verus_stratum_submit E now user (work'\<lparr>w_submit_nonce_id := 0\<rparr>) c = Some (True, w2, c2) \<and>
       cn_sent c2 = cn_sent c @ [msg] \<and> length msg < JSON_SUBMIT_BUF_LEN \<and>
       msg = submit_message user (drop 8 (w_job_id work)) (hex_digits 8 (swab32 (w_data work ! 25)))
         (cbin2hex (drop (ctx_xnonce1_size (cn_ctx c)) (take 32 (drop 108 block)))) (cbin2hex sol)
         (job_shares_count (ctx_job (cn_ctx c)) + 10) \<and>
       length sol = 1347 \<and> block = canonical_block (u32s_to_bytes (take 35 (w_data work)) @ sol) \<and>
       block_meets S block (w_target work)"
    if "ret = 1"
  proof -
    obtain n where r: "recorded_share work' = scan_block work n" "block_meets S (scan_block work n) (w_target work)"
      using s(3) \<open>ret = 1\<close> by blast
    have k: "wf_work work'" "w_solution work' = w_solution work" "w_job_id work' = w_job_id work"
      using s(2) by (simp_all add: scan_kept_def)
    let ?tail = "take 11 ns @ to_le 4 (of_nat n :: u32)" and ?w = "work'\<lparr>w_submit_nonce_id := 0\<rparr>"
    let ?data = "(w_data work')[30 := w_nonces work' ! 0]"
    have b: "recorded_share work' = take 1472 full @ ?tail" using r(1) f(1) by (simp add: scan_block_def)
    have l: "length (w_data work') = 48" "length (w_extra work') = 1388" "length (w_data work) = 48" "length (w_solution work) = 1344"
      using k(1) assms(2) by (simp_all add: wf_work_def)
    have "u32s_to_bytes (take 35 ?data) @ take 1347 (w_extra work') = take 140 full @ (take 1332 (drop 140 full) @ ?tail)"
      using b take_add [of 140 1332 full] by (simp add: recorded_share_def)
    then have e: "u32s_to_bytes (take 35 ?data) = take 140 full" "take 1347 (w_extra work') = take 1332 (drop 140 full) @ ?tail"
      using l f(2) by (simp_all add: append_eq_append_conv)
    have sol: "sent_solution ?w = splice (take 1332 (drop 140 full) @ ?tail) 11 (take 64 (drop 8 (w_solution work)))"
      using e(2) k(2) by (simp add: sent_solution_def)
    then have block: "canonical_block (u32s_to_bytes (take 35 (w_data work)) @ sent_solution ?w) = recorded_share work'"
      using canonical_of_sent [OF assms(2) f(1), of ?tail] f(3) b by simp
    have "w_data work' ! 25 = w_data work ! 25"
      using header_words(1) [OF e(1), of 25] header_words(1) [of "w_data work", OF refl, of 25]
        full_data_time [OF assms(2) f(1)] l by (simp add: drop_take)
    moreover have "take 32 (drop 108 (u32s_to_bytes ?data)) = take 32 (drop 108 (recorded_share work'))"
      using header_words(2) [OF e(1), of 0] l f(2) b by (simp add: drop_take)
    moreover have "wf_work ?w" using k(1) by (simp add: wf_work_def)
    ultimately show ?thesis
      using submit_sends [of ?w c E user now] block k(3) r assms(9-14) sol l f(2,3)
      by (intro exI [of _ "sent_solution ?w"] exI [of _ "recorded_share work'"])
        (auto simp: MAX_NONCES_def len_simps share_message_def)
  qed
  with s(1) show ?thesis by blast
qed

definition named_work :: "int work" where
  "named_work = (zero_work 0)\<lparr>w_job_id := ''0000000 j1''\<rparr>"

theorem submitted_share_meets_target_witness:
  "\<exists>ret done work'.
    scanhash_verus sse_doc int_fops True True (replicate 64 1) (replicate 552 2) (replicate 32 3)
      (replicate 32 4) (replicate 32 5) (\<lambda>_. False) named_work 1000 = Some (ret, done, work') \<and>
    (ret = 1 \<longrightarrow> (\<exists>sol block msg w2 c2.
       verus_stratum_submit (small_senv []) \<lparr>tv_sec = 0, tv_usec = 0\<rparr> ''user'' (work'\<lparr>w_submit_nonce_id := 0\<rparr>) small_conn =
         Some (True, w2, c2) \<and>
       cn_sent c2 = cn_sent small_conn @ [msg] \<and> length msg < JSON_SUBMIT_BUF_LEN \<and>
       msg = submit_message ''user'' (drop 8 (w_job_id named_work)) (hex_digits 8 (swab32 (w_data named_work ! 25)))
         (cbin2hex (drop (ctx_xnonce1_size (cn_ctx small_conn)) (take 32 (drop 108 block)))) (cbin2hex sol)
         (job_shares_count (ctx_job (cn_ctx small_conn)) + 10) \<and>
       length sol = 1347 \<and> block = canonical_block (u32s_to_bytes (take 35 (w_data named_work)) @ sol) \<and>
       block_meets sse_doc block (w_target named_work)))"
proof (rule submitted_share_meets_target [OF doc.sse_intrinsics_axioms])
  show "wf_work named_work" using wf_zero_work [of "0 :: int"] by (simp add: named_work_def wf_work_def)
qed (simp_all add: named_work_def zero_work_nonces small_conn_def small_ctx_def small_senv_def)

end
